(* ===== verification/Go_Base.thy ===== *)
theory Go_Base
  imports Main "HOL-Library.Word" "HOL-Library.AList" "HOL-Library.List_Lexorder"
    "HOL-Library.Char_ord" "HOL-Library.Multiset"
begin

text \<open>The prelude of the development: the Go types, library calls and error values every
  component shares.  A Go string is the list of its bytes, a time.Time the number of
  nanoseconds since the zero time (so IsZero is "equals 0"), a time.Duration a number of
  nanoseconds, a uint64 or an int64 a 64 bit word, a Go map an association list with distinct
  keys whose order stands for the iteration order.  A function that returns (value, error)
  returns a sum: Inl the error, Inr the value.\<close>

section \<open>Named collections\<close>

named_theorems go_simps \<open>unfolding of the small Go library calls\<close>
named_theorems map_simps \<open>lookup after an update of an association list\<close>

section \<open>Errors\<close>

text \<open>The sentinel errors of the packages, one constructor each; a cancelled context and an
  error of the operating system or of a caller's callback are values of their own.\<close>

datatype error =
    ModelErrInvalid
  | TrafficErrInvalid | TrafficErrOverflow
  | PolicyErrInvalid | PolicyErrNoRoute | PolicyErrInvalidDocument
  | BudgetErrInvalid | BudgetErrExceeded | BudgetErrClosed | BudgetErrNotFound
  | SessionErrInvalid | SessionErrFull | SessionErrNotFound
  | HealthErrInvalid | HealthErrNotFound
  | RoutingErrNoCandidate | PoolUnavailable
  | StoreErrInvalid | StoreErrNotFound | StoreErrConflict | StoreErrUnavailable | StoreErrSchema
  | ProxyErrParse
  | CacheErrInvalid
  | UpstreamErrCredentials | UpstreamErrConnect | UpstreamErrProtocol
  | TrafficErrFull | TrafficErrClosed | TrafficErrInvalidEvent
  | ShadowErrInvalid | AlertErrInvalid
  | AdminErrUnauthorized | AdminErrForbidden | AdminErrInvalidCredentials | AdminErrSetupUnavailable
  | SourceErrDisabled | SourceErrUnsupported | SourceErrConfig | SourceErrNoEndpoints | SourceErrInProgress
  | SourceErrRead | SourceErrFetch | SchedulerErrRefresh
  | ConnectionLimit | DownstreamErrUnauthorized | ExtensionErrFrameTooLarge | ExtensionErrInvalidFrame
  | GatewayErrDenied | GatewayErrUnsupported | GoPanic
  | DestinationDenied | RetryErrInvalid | ConfigErrInvalid | ConfigErrConflict
  | IOEof | IOShortWrite | ContextErr | OtherErr nat

section \<open>Strings\<close>

type_synonym bytestring = string

definition lower_char :: "char \<Rightarrow> char" where
  "lower_char c = (let n = (of_char c :: nat) in
     if 65 \<le> n \<and> n \<le> 90 then char_of (n + 32) else c)"

definition to_lower :: "string \<Rightarrow> string" where
  "to_lower s = map lower_char s"

definition is_space :: "char \<Rightarrow> bool" where
  "is_space c = (let n = (of_char c :: nat) in n = 32 \<or> (9 \<le> n \<and> n \<le> 13))"

definition trim_space :: "string \<Rightarrow> string" where
  "trim_space s = rev (dropWhile is_space (rev (dropWhile is_space s)))"

definition has_prefix :: "string \<Rightarrow> string \<Rightarrow> bool" where
  "has_prefix s p = (take (length p) s = p)"

definition has_suffix :: "string \<Rightarrow> string \<Rightarrow> bool" where
  "has_suffix s p = (length p \<le> length s \<and> drop (length s - length p) s = p)"

lemma has_prefix_iff: "has_prefix s p \<longleftrightarrow> (\<exists>t. s = p @ t)"
  unfolding has_prefix_def by (metis append_eq_conv_conj append_take_drop_id)

lemma has_suffix_iff: "has_suffix s p \<longleftrightarrow> (\<exists>t. s = t @ p)"
  unfolding has_suffix_def
  by (metis append_eq_conv_conj append_take_drop_id diff_add_inverse2 le_add2 length_append)

lemma to_lower_length [simp]: "length (to_lower s) = length s"
  by (simp add: to_lower_def)

subsection \<open>Identifiers\<close>

text \<open>The pattern of model.ID: a letter or a digit, then at most 127 letters, digits,
  underscores or hyphens.\<close>

type_synonym go_id = string

definition alnum_char :: "char \<Rightarrow> bool" where
  "alnum_char c = (let n = (of_char c :: nat) in
     (65 \<le> n \<and> n \<le> 90) \<or> (97 \<le> n \<and> n \<le> 122) \<or> (48 \<le> n \<and> n \<le> 57))"

definition id_valid :: "go_id \<Rightarrow> bool" where
  "id_valid i = (case i of [] \<Rightarrow> False
     | c # cs \<Rightarrow> alnum_char c \<and> length cs \<le> 127 \<and>
        list_all (\<lambda>d. alnum_char d \<or> d = CHR ''_'' \<or> d = CHR ''-'') cs)"

lemma id_valid_empty [simp]: "\<not> id_valid []"
  by (simp add: id_valid_def)

lemma id_valid_nonempty [intro]: "id_valid i \<Longrightarrow> i \<noteq> []"
  by auto

lemma id_valid_length: "id_valid i \<Longrightarrow> length i \<le> 128"
  by (cases i) (auto simp: id_valid_def)

text \<open>Optional of pkg/model: an attribute that was observed, or was not.\<close>

record 'a go_optional =
  known :: bool
  value_of :: 'a

section \<open>Time\<close>

type_synonym go_time = int
type_synonym duration = int

definition unix_epoch :: go_time where
  "unix_epoch = 62135596800 * 1000000000"

definition second :: duration where "second = 1000000000"
definition minute :: duration where "minute = 60 * second"
definition hour :: duration where "hour = 60 * minute"

text \<open>Time.Truncate rounds down to a multiple of the duration since the zero time.\<close>

definition truncate_time :: "go_time \<Rightarrow> duration \<Rightarrow> go_time" where
  "truncate_time t d = (if d \<le> 0 then t else t - t mod d)"

lemma truncate_time_le: "truncate_time t d \<le> t"
  by (simp add: truncate_time_def)

lemma truncate_time_gt: "0 < d \<Longrightarrow> t < truncate_time t d + d"
  by (simp add: truncate_time_def)

lemma truncate_time_mono: "s \<le> t \<Longrightarrow> truncate_time s d \<le> truncate_time t d"
proof (cases "d \<le> 0")
  case False
  then have "s div d * d \<le> t div d * d" if "s \<le> t"
    using that by (simp add: zdiv_mono1)
  then show "s \<le> t \<Longrightarrow> truncate_time s d \<le> truncate_time t d"
    using False by (simp add: truncate_time_def minus_mod_eq_div_mult)
qed (simp add: truncate_time_def)

text \<open>Go's integer division truncates toward zero.\<close>

definition go_div :: "int \<Rightarrow> int \<Rightarrow> int" where
  "go_div a b = (if (0 \<le> a) = (0 \<le> b) then \<bar>a\<bar> div \<bar>b\<bar> else - (\<bar>a\<bar> div \<bar>b\<bar>))"

lemma go_div_nonneg: "0 \<le> a \<Longrightarrow> 0 \<le> b \<Longrightarrow> go_div a b = a div b"
  by (simp add: go_div_def)

section \<open>Machine words\<close>

lemma unat_add_exact:
  fixes a b :: "'w::len word"
  shows "unat a + unat b < 2 ^ LENGTH('w) \<Longrightarrow> unat (a + b) = unat a + unat b"
  by (simp add: unat_word_ariths)

lemma unat_max_word: "unat (- 1 :: 'w::len word) = 2 ^ LENGTH('w) - 1"
  by (simp add: unsigned_minus_1_eq_mask mask_eq_exp_minus_1)

lemma word_gt_max_sub:
  fixes a b :: "'w::len word"
  shows "b > - 1 - a \<longleftrightarrow> unat a + unat b \<ge> 2 ^ LENGTH('w)"
proof -
  have a: "unat a < 2 ^ LENGTH('w)" by (rule unsigned_less)
  have b: "unat b < 2 ^ LENGTH('w)" by (rule unsigned_less)
  have "unat (- 1 - a) = 2 ^ LENGTH('w) - 1 - unat a"
    using a by (subst unat_sub) (simp_all add: unat_max_word)
  then have "b > - 1 - a \<longleftrightarrow> 2 ^ LENGTH('w) - 1 - unat a < unat b"
    by (simp add: word_less_nat_alt)
  then show ?thesis using a b by linarith
qed

lemma sint_eqI: "sint a = sint b \<Longrightarrow> a = (b :: 'w::len word)"
  by (metis signed_word_eqI)

lemma unat_diff_le:
  fixes a b :: "'w::len word"
  shows "b \<le> a \<Longrightarrow> unat (a - b) = unat a - unat b"
  by (rule unat_sub) simp

section \<open>Association lists as Go maps\<close>

abbreviation keys_of :: "('k \<times> 'v) list \<Rightarrow> 'k list" where
  "keys_of m \<equiv> map fst m"

lemma map_of_update [map_simps]:
  "map_of (AList.update k v m) k' = (if k' = k then Some v else map_of m k')"
  by (simp add: update_conv')

lemma map_of_adelete [map_simps]:
  "map_of (AList.delete k m) k' = (if k' = k then None else map_of m k')"
  by (simp add: delete_conv')

lemma map_of_Some_iff:
  "distinct (keys_of m) \<Longrightarrow> map_of m k = Some v \<longleftrightarrow> (k, v) \<in> set m"
  by (simp add: map_of_eq_Some_iff)

lemma set_update_distinct:
  "distinct (keys_of m) \<Longrightarrow> set (AList.update k v m) = insert (k, v) {x \<in> set m. fst x \<noteq> k}"
proof (induction m)
  case (Cons x m)
  then show ?case by (cases x) (auto dest: map_of_is_SomeI simp: image_iff split: if_splits)
qed simp

lemma set_delete: "set (AList.delete k m) = {x \<in> set m. fst x \<noteq> k}"
  by (induction m) auto

lemma length_update_le: "length (AList.update k v m) \<le> Suc (length m)"
  by (induction m) (auto)

lemma length_update_new: "k \<notin> fst ` set m \<Longrightarrow> length (AList.update k v m) = Suc (length m)"
  by (induction m) auto

lemma length_update_old: "k \<in> fst ` set m \<Longrightarrow> length (AList.update k v m) = length m"
  by (induction m) auto

lemma length_delete_le: "length (AList.delete k m) \<le> length m"
  by (simp add: AList.delete_eq)

lemma keys_update_new: "k \<notin> fst ` set m \<Longrightarrow> AList.update k v m = m @ [(k, v)]"
  by (induction m) auto

lemma keys_update_old: "k \<in> fst ` set m \<Longrightarrow> keys_of (AList.update k v m) = keys_of m"
  by (induction m) auto

lemma map_of_None_iff: "map_of m k = None \<longleftrightarrow> k \<notin> fst ` set m"
  by (rule map_of_eq_None_iff)

lemma map_of_Some_in: "map_of m k = Some v \<Longrightarrow> (k, v) \<in> set m"
  by (rule map_of_SomeD)

lemma map_of_Some_key: "map_of m k = Some v \<Longrightarrow> k \<in> fst ` set m"
  by (force dest: map_of_SomeD)

text \<open>Sums over the values of a map, the shape of every "total" the managers keep.\<close>

definition map_sum :: "('v \<Rightarrow> nat) \<Rightarrow> ('k \<times> 'v) list \<Rightarrow> nat" where
  "map_sum f m = sum_list (map (\<lambda>x. f (snd x)) m)"

lemma map_sum_Nil [simp]: "map_sum f [] = 0"
  by (simp add: map_sum_def)

lemma map_sum_Cons [simp]: "map_sum f (x # m) = f (snd x) + map_sum f m"
  by (simp add: map_sum_def)

lemma map_sum_append [simp]: "map_sum f (a @ b) = map_sum f a + map_sum f b"
  by (simp add: map_sum_def)

lemma map_sum_update_new:
  "k \<notin> fst ` set m \<Longrightarrow> map_sum f (AList.update k v m) = map_sum f m + f v"
  by (simp add: keys_update_new)

lemma map_sum_update_old:
  "map_of m k = Some w \<Longrightarrow> map_sum f (AList.update k v m) + f w = map_sum f m + f v"
  by (induction m) (auto split: if_splits)

lemma map_sum_delete:
  "map_of m k = Some w \<Longrightarrow> distinct (keys_of m) \<Longrightarrow>
     map_sum f (AList.delete k m) + f w = map_sum f m"
proof (induction m)
  case (Cons x m)
  show ?case
  proof (cases "fst x = k")
    case True
    then have "AList.delete k m = m" using Cons.prems(2)
      by (auto intro!: delete_idem)
    then show ?thesis using True Cons.prems(1) by simp
  next
    case False
    then show ?thesis using Cons by simp
  qed
qed simp

lemma map_sum_ge: "map_of m k = Some w \<Longrightarrow> f w \<le> map_sum f m"
  by (induction m) (auto split: if_splits)

section \<open>Lists\<close>

lemma foldl_inv:
  "P a \<Longrightarrow> (\<And>b x. x \<in> set xs \<Longrightarrow> P b \<Longrightarrow> P (f b x)) \<Longrightarrow> P (foldl f a xs)"
  by (induction xs arbitrary: a) auto

lemma takeWhile_snoc_all: "(\<forall>x\<in>set xs. P x) \<Longrightarrow> takeWhile P (xs @ ys) = xs @ takeWhile P ys"
  by simp

lemma find_Some_split:
  assumes "List.find P xs = Some x"
  obtains ys zs where "xs = ys @ x # zs" "P x" "\<forall>y\<in>set ys. \<not> P y"
  using assms
proof (induction xs arbitrary: thesis)
  case (Cons a xs)
  show ?case
  proof (cases "P a")
    case True
    then show ?thesis using Cons.prems(1) [of "[]" xs] Cons.prems(2) by simp
  next
    case False
    then show ?thesis
      using Cons.IH [of thesis] Cons.prems(1) [of "a # _"] Cons.prems(2) by simp
  qed
qed simp

end
