(* ===== verification/Go_Calendar.thy ===== *)
theory Go_Calendar
  imports Go_Base
begin

text \<open>The calendar side of the Go time package, as far as the budget windows use it: the
  Gregorian date of a day number, time.Date and Time.AddDate with their normalisation of months
  and their search for the zone offset, Time.Weekday.  A location is the lookup function of its
  zone table: for an instant in Unix seconds the offset that is in force and the half-open range
  of Unix seconds where it is in force.  The zone tables themselves are data outside the
  repository, so a location is an argument.\<close>

section \<open>Days\<close>

definition leap_year :: "int \<Rightarrow> bool" where
  "leap_year y = (y mod 4 = 0 \<and> (y mod 100 \<noteq> 0 \<or> y mod 400 = 0))"

text \<open>Days from January 1 of year 1 to January 1 of a year.\<close>

definition year_start :: "int \<Rightarrow> int" where
  "year_start y = (let n = y - 1 in 365 * n + n div 4 - n div 100 + n div 400)"

definition days_before :: "bool \<Rightarrow> int \<Rightarrow> int" where
  "days_before leap m =
     (if m \<le> 1 then 0 else if m = 2 then 31
      else (if leap then 1 else 0) +
        (if m = 3 then 59 else if m = 4 then 90 else if m = 5 then 120 else if m = 6 then 151
         else if m = 7 then 181 else if m = 8 then 212 else if m = 9 then 243
         else if m = 10 then 273 else if m = 11 then 304 else if m = 12 then 334 else 365))"

definition year_of :: "int \<Rightarrow> int" where
  "year_of d = (let y = 400 * d div 146097 + 1 in
     if d < year_start y then y - 1 else if year_start (y + 1) \<le> d then y + 1 else y)"

definition month_of :: "bool \<Rightarrow> int \<Rightarrow> int" where
  "month_of leap yd =
     (if yd < days_before leap 2 then 1 else if yd < days_before leap 3 then 2
      else if yd < days_before leap 4 then 3 else if yd < days_before leap 5 then 4
      else if yd < days_before leap 6 then 5 else if yd < days_before leap 7 then 6
      else if yd < days_before leap 8 then 7 else if yd < days_before leap 9 then 8
      else if yd < days_before leap 10 then 9 else if yd < days_before leap 11 then 10
      else if yd < days_before leap 12 then 11 else 12)"

text \<open>The date of a day number.\<close>

definition civil :: "int \<Rightarrow> int \<times> int \<times> int" where
  "civil d = (let y = year_of d; yd = d - year_start y; l = leap_year y; m = month_of l yd
              in (y, m, yd - days_before l m + 1))"

text \<open>The day number of a date; months outside 1 to 12 carry into the year, days outside the
  month into the months.\<close>

definition day_number :: "int \<Rightarrow> int \<Rightarrow> int \<Rightarrow> int" where
  "day_number y m d = (let y' = y + (m - 1) div 12; m' = (m - 1) mod 12 + 1
     in year_start y' + days_before (leap_year y') m' + (d - 1))"

lemma le_div_iff:
  fixes a n k :: int
  assumes "0 < k"
  shows "a \<le> n div k \<longleftrightarrow> a * k \<le> n"
proof
  have "k * (n div k) + n mod k = n" by simp
  then have n: "(n div k) * k \<le> n"
    using pos_mod_sign [OF assms, of n] by (metis le_add_same_cancel1 mult.commute)
  assume "a \<le> n div k"
  then have "a * k \<le> (n div k) * k" using assms by (simp add: mult_right_mono)
  then show "a * k \<le> n" using n by (rule order_trans)
next
  assume "a * k \<le> n"
  then have "(a * k) div k \<le> n div k" using assms by (intro zdiv_mono1)
  then show "a \<le> n div k" using assms by simp
qed

lemma div_eq_iff_bounds:
  fixes n k d :: int
  assumes "0 < k"
  shows "n div k = d \<longleftrightarrow> d * k \<le> n \<and> n < (d + 1) * k"
  using le_div_iff [OF assms, of d n] le_div_iff [OF assms, of "d + 1" n] by auto

section \<open>Instants in a location\<close>

record location =
  zone_lookup :: "int \<Rightarrow> int \<times> int \<times> int"

definition zone_offset :: "location \<Rightarrow> int \<Rightarrow> int" where
  "zone_offset loc u = fst (zone_lookup loc u)"

definition fixed_zone :: "int \<Rightarrow> location" where
  "fixed_zone off = \<lparr>zone_lookup = (\<lambda>u. (off, - (2 ^ 63), 2 ^ 63 - 1))\<rparr>"

definition epoch_seconds :: int where "epoch_seconds = 62135596800"

definition unix_seconds :: "go_time \<Rightarrow> int" where
  "unix_seconds t = t div second - epoch_seconds"

text \<open>Seconds of the wall clock of a location since the zero time.\<close>

definition wall_seconds :: "location \<Rightarrow> go_time \<Rightarrow> int" where
  "wall_seconds loc t = t div second + zone_offset loc (unix_seconds t)"

definition local_date :: "location \<Rightarrow> go_time \<Rightarrow> int \<times> int \<times> int" where
  "local_date loc t = civil (wall_seconds loc t div 86400)"

text \<open>Time.Weekday, 0 for Sunday: January 1 of year 1 is a Monday.\<close>

definition weekday :: "location \<Rightarrow> go_time \<Rightarrow> int" where
  "weekday loc t = (wall_seconds loc t div 86400 + 1) mod 7"

text \<open>time.Date: the offset is looked up for the wall clock read as UTC, and looked up again when
  the instant it gives lies outside the range of that offset.\<close>

definition go_date :: "location \<Rightarrow> int \<Rightarrow> int \<Rightarrow> int \<Rightarrow> int \<Rightarrow> int \<Rightarrow> go_time" where
  "go_date loc y m d secs ns =
     (let u = day_number y m d * 86400 + secs - epoch_seconds;
          (off, zs, ze) = zone_lookup loc u;
          utc = u - off;
          off' = (if off \<noteq> 0 \<and> (utc < zs \<or> ze \<le> utc) then zone_offset loc utc else off)
      in (u - off' + epoch_seconds) * second + ns)"

definition add_date :: "location \<Rightarrow> go_time \<Rightarrow> int \<Rightarrow> int \<Rightarrow> int \<Rightarrow> go_time" where
  "add_date loc t ys ms ds = (let (y, m, d) = local_date loc t in
     go_date loc (y + ys) (m + ms) (d + ds) (wall_seconds loc t mod 86400) (t mod second))"

section \<open>Calendar facts\<close>

lemma div_step:
  fixes y k :: int
  assumes "0 < k"
  shows "y div k = (y - 1) div k + (if y mod k = 0 then 1 else 0)"
proof -
  obtain q r where q: "q = y div k" "r = y mod k" by blast
  then have y: "k * q + r = y" by simp
  have b: "0 \<le> r" "r < k" using assms by (simp_all add: q)
  have "(y - 1) div k = (if r = 0 then q - 1 else q)"
  proof (cases "r = 0")
    case True
    have "y - 1 = k * (q - 1) + (k - 1)" using y True by (simp add: right_diff_distrib)
    then show ?thesis using True assms int_div_pos_eq [of "y - 1" k "q - 1" "k - 1"] by simp
  next
    case False
    have "y - 1 = k * q + (r - 1)" using y by simp
    then show ?thesis using False b int_div_pos_eq [of "y - 1" k q "r - 1"] by simp
  qed
  then show ?thesis by (simp add: q)
qed

lemma leap_days:
  "(q \<longrightarrow> p) \<Longrightarrow> (r \<longrightarrow> q) \<Longrightarrow> (if p \<and> (\<not> q \<or> r) then 366 else 365 :: int) =
     365 + (if p then 1 else 0) - (if q then 1 else 0) + (if r then 1 else 0)"
  by (cases p; cases q; cases r; simp)

lemma year_sum:
  fixes y ys ys' :: int
  shows "ys' = 365 * y + A - B + C \<Longrightarrow> ys = 365 * (y - 1) + A' - B' + C' \<Longrightarrow> A = A' + p \<Longrightarrow>
     B = B' + q \<Longrightarrow> C = C' + r \<Longrightarrow> L = 365 + p - q + r \<Longrightarrow> ys' = ys + L"
  by simp

lemma year_start_step:
  "year_start (y + 1) = year_start y + (if leap_year y then 366 else 365)"
proof -
  have "y mod 100 = 0 \<longrightarrow> y mod 4 = 0" "y mod 400 = 0 \<longrightarrow> y mod 100 = 0"
    by (auto simp only: mod_eq_0_iff_dvd) (erule dvd_trans [rotated], simp)+
  note l = leap_days [OF this, folded leap_year_def]
  have "year_start (y + 1) = 365 * y + y div 4 - y div 100 + y div 400"
    by (simp only: year_start_def Let_def add_diff_cancel_right')
  moreover have "year_start y = 365 * (y - 1) + (y - 1) div 4 - (y - 1) div 100 + (y - 1) div 400"
    by (simp only: year_start_def Let_def)
  moreover have "(0::int) < 4" "(0::int) < 100" "(0::int) < 400" by simp_all
  ultimately show ?thesis
    by (rule year_sum [OF _ _ div_step div_step div_step l])
qed

lemma div_bounds:
  fixes n k :: int
  assumes "0 < k"
  shows "k * (n div k) \<le> n \<and> n \<le> k * (n div k) + (k - 1)"
proof -
  have "k * (n div k) + n mod k = n" by simp
  moreover have "0 \<le> n mod k" "n mod k < k" using assms by simp_all
  ultimately show ?thesis by (intro conjI) linarith+
qed

lemma year_start_bounds:
  "146097 * (y - 1) \<le> 400 * year_start y + 999 \<and> 400 * year_start y \<le> 146097 * (y - 1) + 399"
proof -
  obtain a b c n where n: "n = y - 1" "a = n div 4" "b = n div 100" "c = n div 400" by blast
  have "4 * a \<le> n" "n \<le> 4 * a + 3" "100 * b \<le> n" "n \<le> 100 * b + 99" "400 * c \<le> n" "n \<le> 400 * c + 399"
    using div_bounds [of 4 n] div_bounds [of 100 n] div_bounds [of 400 n] by (simp_all add: n)
  moreover have "year_start y = 365 * n + a - b + c"
    by (simp add: year_start_def Let_def n)
  moreover have "y = n + 1" using n(1) by simp
  ultimately show ?thesis by simp
qed

lemma year_of_bounds: "year_start (year_of d) \<le> d \<and> d < year_start (year_of d + 1)"
proof -
  define y where "y = 400 * d div 146097 + 1"
  obtain q r where q: "q = 400 * d div 146097" "r = 400 * d mod 146097" by blast
  have "400 * d = 146097 * q + r" "0 \<le> r" "r < 146097" by (simp_all add: q)
  moreover have "y = q + 1" by (simp add: y_def q)
  moreover have "400 * year_start q \<le> 146097 * q - 146097 + 399"
      "146097 * q + 292194 \<le> 400 * year_start (q + 3) + 999"
    using year_start_bounds [of q] year_start_bounds [of "q + 3"] by simp_all
  ultimately have lohi: "year_start (y - 1) \<le> d \<and> d < year_start (y + 2)"
    by (simp add: add.assoc)
  have yo: "year_of d = (if d < year_start y then y - 1
      else if year_start (y + 1) \<le> d then y + 1 else y)"
    by (simp add: year_of_def y_def [symmetric] Let_def)
  show ?thesis
    unfolding yo using lohi by (auto simp: add.commute)
qed

lemma month_of_bounds:
  assumes "0 \<le> yd" "yd < (if l then 366 else 365)"
  shows "1 \<le> month_of l yd \<and> month_of l yd \<le> 12 \<and> days_before l (month_of l yd) \<le> yd \<and>
    yd < days_before l (month_of l yd + 1)"
  using assms by (cases l) (simp_all add: month_of_def days_before_def)

lemma civil_bounds:
  assumes "civil d = (y, m, dd)"
  shows "1 \<le> m" "m \<le> 12" "1 \<le> dd" "day_number y m dd = d"
    "day_number y m 1 \<le> d" "d < day_number y (m + 1) 1"
proof -
  define l where "l = leap_year y"
  define yd where "yd = d - year_start y"
  have c: "y = year_of d" "m = month_of l yd" "dd = yd - days_before l m + 1"
    using assms by (auto simp: civil_def Let_def l_def yd_def)
  have yd: "0 \<le> yd" "yd < (if l then 366 else 365)"
    using year_of_bounds [of d] year_start_step [of y] by (auto simp: c(1) [symmetric] yd_def l_def)
  note mb = month_of_bounds [OF yd, folded c(2)]
  then show m: "1 \<le> m" "m \<le> 12" "1 \<le> dd" by (auto simp: c(3))
  then have q: "(m - 1) div 12 = 0" "(m - 1) mod 12 = m - 1" by auto
  show "day_number y m dd = d"
    using q by (simp add: day_number_def Let_def l_def [symmetric] c(3) yd_def)
  show "day_number y m 1 \<le> d"
    using q mb by (simp add: day_number_def Let_def l_def [symmetric] yd_def)
  have "day_number y (m + 1) 1 = year_start y + days_before l (m + 1)"
  proof (cases "m = 12")
    case True
    then show ?thesis
      using year_start_step [of y] by (simp add: day_number_def Let_def l_def days_before_def)
  next
    case False
    then have "m div 12 = 0" "m mod 12 = m" using m by auto
    then show ?thesis by (simp add: day_number_def Let_def l_def)
  qed
  then show "d < day_number y (m + 1) 1" using mb by (simp add: yd_def)
qed

lemma day_number_shift: "day_number y m (d + k) = day_number y m d + k"
  by (simp add: day_number_def Let_def)

lemma go_date_fixed:
  "go_date (fixed_zone off) y m d secs ns = (day_number y m d * 86400 + secs - off) * second + ns"
  by (simp add: go_date_def fixed_zone_def zone_offset_def Let_def)

lemma wall_seconds_fixed: "wall_seconds (fixed_zone off) t = t div second + off"
  by (simp add: wall_seconds_def fixed_zone_def zone_offset_def)

lemma fixed_midnight:
  assumes "civil d = (y, m, dd)"
  shows "local_date (fixed_zone off) ((d * 86400 - off) * second) = (y, m, dd)"
    "wall_seconds (fixed_zone off) ((d * 86400 - off) * second) = d * 86400"
  using assms by (simp_all add: local_date_def wall_seconds_fixed second_def)

lemma add_date_fixed_midnight:
  assumes "civil d = (y, m, dd)"
  shows "add_date (fixed_zone off) ((d * 86400 - off) * second) 0 ms ds =
     (day_number y (m + ms) (dd + ds) * 86400 - off) * second"
  using assms by (simp add: add_date_def fixed_midnight go_date_fixed)

lemma year_start_mono: "y \<le> z \<Longrightarrow> year_start y \<le> year_start z"
proof (induction z rule: int_ge_induct)
  case (step z)
  then show ?case using year_start_step [of z] by (auto split: if_splits)
qed simp

lemma year_of_unique:
  assumes "year_start y \<le> d" "d < year_start (y + 1)"
  shows "year_of d = y"
proof (rule ccontr)
  assume "year_of d \<noteq> y"
  then have "year_of d + 1 \<le> y \<or> y + 1 \<le> year_of d" by linarith
  then show False
    using year_start_mono [of "year_of d + 1" y] year_start_mono [of "y + 1" "year_of d"]
      year_of_bounds [of d] assms by auto
qed

lemma month_of_unique:
  assumes "1 \<le> m" "m \<le> 12" "days_before l m \<le> yd" "yd < days_before l (m + 1)"
  shows "month_of l yd = m"
proof -
  have "m = 1 \<or> m = 2 \<or> m = 3 \<or> m = 4 \<or> m = 5 \<or> m = 6 \<or> m = 7 \<or> m = 8 \<or> m = 9 \<or> m = 10 \<or>
      m = 11 \<or> m = 12" using assms(1,2) by presburger
  then show ?thesis
    using assms(3,4) by (elim disjE; cases l; simp add: month_of_def days_before_def)
qed

lemma day_number_year:
  assumes "1 \<le> m" "m \<le> 12"
  shows "day_number y m 1 = year_start y + days_before (leap_year y) m"
    "day_number y (m + 1) 1 = year_start y + days_before (leap_year y) (m + 1)"
proof -
  have q: "(m - 1) div 12 = 0" "(m - 1) mod 12 = m - 1" using assms by auto
  then show "day_number y m 1 = year_start y + days_before (leap_year y) m"
    by (simp add: day_number_def Let_def)
  show "day_number y (m + 1) 1 = year_start y + days_before (leap_year y) (m + 1)"
  proof (cases "m = 12")
    case True
    then show ?thesis
      using year_start_step [of y] by (simp add: day_number_def Let_def days_before_def)
  next
    case False
    then have "m div 12 = 0" "m mod 12 = m" using assms by auto
    then show ?thesis by (simp add: day_number_def Let_def)
  qed
qed

lemma days_before_less: "1 \<le> m \<Longrightarrow> m \<le> 12 \<Longrightarrow> days_before l m < days_before l (m + 1)"
proof -
  assume "1 \<le> m" "m \<le> 12"
  then have "m = 1 \<or> m = 2 \<or> m = 3 \<or> m = 4 \<or> m = 5 \<or> m = 6 \<or> m = 7 \<or> m = 8 \<or> m = 9 \<or> m = 10 \<or>
      m = 11 \<or> m = 12" by presburger
  then show ?thesis by (elim disjE; cases l; simp add: days_before_def)
qed

lemma days_before_nonneg: "0 \<le> days_before l m"
  by (simp add: days_before_def)

lemma days_before_year: "m \<le> 13 \<Longrightarrow> days_before l m \<le> (if l then 366 else 365)"
  by (simp add: days_before_def)

text \<open>The month of a day is the only one whose days contain it.\<close>

lemma civil_unique:
  assumes "1 \<le> m" "m \<le> 12" "day_number y m 1 \<le> d" "d < day_number y (m + 1) 1"
  shows "\<exists>dd. civil d = (y, m, dd)"
proof -
  have "days_before (leap_year y) (m + 1) \<le> (if leap_year y then 366 else 365)"
    using assms(2) by (intro days_before_year) simp
  then have "year_of d = y"
    using assms(3,4) year_start_step [of y] days_before_nonneg [of "leap_year y" m]
    unfolding day_number_year [OF assms(1,2)] by (intro year_of_unique) linarith+
  moreover have "month_of (leap_year y) (d - year_start y) = m"
    using assms unfolding day_number_year [OF assms(1,2)] by (intro month_of_unique) linarith+
  ultimately show ?thesis by (simp add: civil_def Let_def)
qed

end
