(* ===== verification/Traffic_Values.thy ===== *)
theory Traffic_Values
  imports Go_Base
begin

text \<open>pkg/traffic/values.go: byte counters that refuse to wrap, money in millionths of a
  currency unit, and the configured price of a number of bytes.\<close>

type_synonym bytes = "64 word"

definition bytes_add :: "bytes \<Rightarrow> bytes \<Rightarrow> error + bytes" where
  "bytes_add b other = (if other > - 1 - b then Inl TrafficErrOverflow else Inr (b + other))"

record money =
  currency :: string
  micros :: "64 word"

definition upper_char :: "char \<Rightarrow> bool" where
  "upper_char c = (let n = (of_char c :: nat) in 65 \<le> n \<and> n \<le> 90)"

definition currency_pattern :: "string \<Rightarrow> bool" where
  "currency_pattern s = (length s = 3 \<and> list_all upper_char s)"

definition max_int64 :: "64 word" where
  "max_int64 = 0x7FFFFFFFFFFFFFFF"

definition money_validate :: "money \<Rightarrow> error option" where
  "money_validate m =
     (if \<not> currency_pattern (currency m) \<or> sint (micros m) < 0 then Some TrafficErrInvalid
      else None)"

definition money_add :: "money \<Rightarrow> money \<Rightarrow> error + money" where
  "money_add m other =
     (if money_validate m \<noteq> None \<or> money_validate other \<noteq> None \<or> currency m \<noteq> currency other
      then Inl TrafficErrInvalid
      else if sint (micros other) > sint (max_int64 - micros m) then Inl TrafficErrOverflow
      else Inr \<lparr>currency = currency m, micros = micros m + micros other\<rparr>)"

definition GB :: "64 word" where "GB = 1000000000"
definition GiB :: "64 word" where "GiB = 1073741824"

record rate =
  price :: money
  unit_bytes :: "64 word"
  download_only :: bool
  effective_at :: go_time

definition rate_validate :: "rate \<Rightarrow> error option" where
  "rate_validate r =
     (if money_validate (price r) \<noteq> None \<or> (unit_bytes r \<noteq> GB \<and> unit_bytes r \<noteq> GiB) \<or>
         effective_at r = 0
      then Some TrafficErrInvalid else None)"

definition is_int64 :: "int \<Rightarrow> bool" where
  "is_int64 n = (- (2 ^ 63) \<le> n \<and> n < 2 ^ 63)"

definition rate_charge :: "rate \<Rightarrow> bytes \<Rightarrow> bytes \<Rightarrow> error + money" where
  "rate_charge r upload download =
     (if rate_validate r \<noteq> None then Inl TrafficErrInvalid
      else case (if \<not> download_only r then bytes_add download upload else Inr download) of
        Inl e \<Rightarrow> Inl e
      | Inr n_total \<Rightarrow>
          (let n = (uint n_total * sint (micros (price r)) + uint (unit_bytes r div 2))
                   div uint (unit_bytes r) in
           if \<not> is_int64 n then Inl TrafficErrOverflow
           else Inr \<lparr>currency = currency (price r), micros = word_of_int n\<rparr>))"

record cost_snapshot =
  cs_amount :: money
  snap_rate :: rate

definition new_cost_snapshot ::
  "rate option \<Rightarrow> bytes \<Rightarrow> bytes \<Rightarrow> error + cost_snapshot option" where
  "new_cost_snapshot r upload download =
     (case r of None \<Rightarrow> Inr None
      | Some rt \<Rightarrow> (case rate_charge rt upload download of
           Inl e \<Rightarrow> Inl e
         | Inr a \<Rightarrow> Inr (Some \<lparr>cs_amount = a, snap_rate = rt\<rparr>)))"

definition cost_snapshot_validate :: "cost_snapshot \<Rightarrow> bytes \<Rightarrow> bytes \<Rightarrow> error option" where
  "cost_snapshot_validate s upload download =
     (if rate_validate (snap_rate s) \<noteq> None \<or> money_validate (cs_amount s) \<noteq> None \<or>
         currency (cs_amount s) \<noteq> currency (price (snap_rate s))
      then Some TrafficErrInvalid
      else case rate_charge (snap_rate s) upload download of
         Inl e \<Rightarrow> Some TrafficErrInvalid
       | Inr want \<Rightarrow> if want \<noteq> cs_amount s then Some TrafficErrInvalid else None)"

section \<open>Byte counters\<close>

lemma bytes_add_Inr:
  "bytes_add a b = Inr c \<longleftrightarrow> unat a + unat b < 2 ^ 64 \<and> c = a + b"
  by (auto simp: bytes_add_def word_gt_max_sub not_le)

lemma bytes_add_unat: "bytes_add a b = Inr c \<Longrightarrow> unat c = unat a + unat b"
  by (simp add: bytes_add_Inr unat_add_exact)

lemma bytes_add_Inl: "bytes_add a b = Inl e \<longleftrightarrow> 2 ^ 64 \<le> unat a + unat b \<and> e = TrafficErrOverflow"
  by (auto simp: bytes_add_def word_gt_max_sub)

section \<open>Money\<close>

lemma money_validate_None:
  "money_validate m = None \<longleftrightarrow> currency_pattern (currency m) \<and> 0 \<le> sint (micros m)"
  by (auto simp: money_validate_def)

lemma sint_lt64: "sint (w :: 64 word) < 2 ^ 63"
  using sint_lt [of w] by simp

lemma sint_of_int64: "is_int64 n \<Longrightarrow> sint (word_of_int n :: 64 word) = n"
  by (simp add: is_int64_def sint_sbintrunc' signed_take_bit_int_eq_self)

lemma sint_max_sub:
  assumes "0 \<le> sint w"
  shows "sint (max_int64 - w) = 2 ^ 63 - 1 - sint w"
proof -
  have "sint max_int64 = 2 ^ 63 - 1" by (simp add: max_int64_def)
  then show ?thesis
    using assms sint_lt64 [of w] by (simp add: sint_word_diff signed_take_bit_int_eq_self)
qed

lemma sint_add_exact:
  assumes "0 \<le> sint a" "0 \<le> sint b" "sint a + sint b < 2 ^ 63"
  shows "sint (a + b :: 64 word) = sint a + sint b"
  using assms by (simp add: sint_word_add signed_take_bit_int_eq_self)

text \<open>Adding two amounts of one currency is exact, or refused: never a wrapped sum.\<close>

lemma money_add_exact:
  assumes "money_validate a = None" "money_validate b = None" "currency a = currency b"
  shows "money_add a b = Inr c \<longleftrightarrow>
     sint (micros a) + sint (micros b) < 2 ^ 63 \<and> currency c = currency a \<and>
     sint (micros c) = sint (micros a) + sint (micros b)"
proof -
  have nn: "0 \<le> sint (micros a)" "0 \<le> sint (micros b)"
    using assms by (simp_all add: money_validate_None)
  have g: "sint (micros b) > sint (max_int64 - micros a) \<longleftrightarrow>
      \<not> sint (micros a) + sint (micros b) < 2 ^ 63"
    using nn by (auto simp: sint_max_sub)
  have e: "c = \<lparr>currency = currency a, micros = micros a + micros b\<rparr> \<longleftrightarrow>
      currency c = currency a \<and> sint (micros c) = sint (micros a) + sint (micros b)"
    if "sint (micros a) + sint (micros b) < 2 ^ 63"
    using sint_add_exact [OF nn that] sint_eqI [of "micros c" "micros a + micros b"]
    by (cases c) auto
  show ?thesis
    using assms g e by (auto simp: money_add_def)
qed

section \<open>Charges\<close>

lemma rate_validate_None:
  "rate_validate r = None \<longleftrightarrow> money_validate (price r) = None \<and>
     (unit_bytes r = GB \<or> unit_bytes r = GiB) \<and> effective_at r \<noteq> 0"
  by (auto simp: rate_validate_def)

definition charge_total :: "rate \<Rightarrow> bytes \<Rightarrow> bytes \<Rightarrow> nat" where
  "charge_total r u d = unat d + (if download_only r then 0 else unat u)"

lemma unit_even:
  "rate_validate r = None \<Longrightarrow>
     uint (unit_bytes r div 2) * 2 = uint (unit_bytes r) \<and> 0 < uint (unit_bytes r)"
  by (auto simp: rate_validate_None GB_def GiB_def)

lemma half_up_iff:
  fixes n x U h :: int
  assumes "U = 2 * h" "0 < U"
  shows "(x + h) div U = n \<longleftrightarrow> 2 * U * n - U \<le> 2 * x \<and> 2 * x < 2 * U * n + U"
proof -
  have "(x + h) div U = n \<longleftrightarrow> U * n \<le> x + h \<and> x + h < U * (n + 1)"
  proof
    assume e: "(x + h) div U = n"
    have "x + h = U * n + (x + h) mod U"
      using e by (metis mult_div_mod_eq)
    then show "U * n \<le> x + h \<and> x + h < U * (n + 1)"
      using pos_mod_sign [OF assms(2), of "x + h"] pos_mod_bound [OF assms(2), of "x + h"]
      unfolding distrib_left by linarith
  next
    assume b: "U * n \<le> x + h \<and> x + h < U * (n + 1)"
    then have "(x + h) div U = n \<and> (x + h) mod U = x + h - U * n"
      using int_div_pos_eq [of "x + h" U n "x + h - U * n"]
        int_mod_pos_eq [of "x + h" U n "x + h - U * n"] by (simp add: algebra_simps)
    then show "(x + h) div U = n" ..
  qed
  then show ?thesis using assms(1) by (auto simp: algebra_simps)
qed

lemma charge_total_word:
  "(if \<not> download_only r then bytes_add d u else Inr d) =
     (if charge_total r u d < 2 ^ 64
      then Inr (if download_only r then d else d + u) else Inl TrafficErrOverflow)"
  using unsigned_less [of d, where ?'a = nat]
  by (auto simp: charge_total_def bytes_add_def word_gt_max_sub)

lemma charge_total_uint:
  assumes "charge_total r u d < 2 ^ 64"
  shows "uint (if download_only r then d else d + u) = int (charge_total r u d)"
proof -
  have "unat (if download_only r then d else d + u) = charge_total r u d"
    using assms unat_add_exact [of d u] by (simp add: charge_total_def split: if_splits)
  then show ?thesis by (simp only: uint_nat)
qed

lemma rate_charge_nonneg:
  assumes "rate_validate r = None"
  shows "0 \<le> (int n * sint (micros (price r)) + uint (unit_bytes r div 2)) div uint (unit_bytes r)"
proof -
  have "0 \<le> sint (micros (price r))"
    using assms by (simp add: rate_validate_None money_validate_None)
  then have "0 \<le> int n * sint (micros (price r)) + uint (unit_bytes r div 2)"
    by (intro add_nonneg_nonneg mult_nonneg_nonneg) simp_all
  moreover have "0 < uint (unit_bytes r)" using unit_even [OF assms] ..
  ultimately show ?thesis by (simp only: pos_imp_zdiv_nonneg_iff)
qed

lemma rate_charge_eq:
  assumes "rate_validate r = None"
  shows "rate_charge r u d =
     (let T = charge_total r u d;
          n = (int T * sint (micros (price r)) + uint (unit_bytes r div 2)) div uint (unit_bytes r)
      in if T < 2 ^ 64 \<and> n < 2 ^ 63
         then Inr \<lparr>currency = currency (price r), micros = word_of_int n\<rparr>
         else Inl TrafficErrOverflow)"
  using assms rate_charge_nonneg [OF assms, of "charge_total r u d"]
  by (simp add: rate_charge_def charge_total_word charge_total_uint [unfolded if_distrib]
      charge_total_uint Let_def is_int64_def)

lemma rate_charge_Inr:
  assumes v: "rate_validate r = None"
  shows "rate_charge r u d = Inr m \<longleftrightarrow>
     charge_total r u d < 2 ^ 64 \<and> currency m = currency (price r) \<and> 0 \<le> sint (micros m) \<and>
     (let U = uint (unit_bytes r); x = int (charge_total r u d) * sint (micros (price r)) in
        2 * U * sint (micros m) - U \<le> 2 * x \<and> 2 * x < 2 * U * sint (micros m) + U)"
proof -
  define U where "U = uint (unit_bytes r)"
  define h where "h = uint (unit_bytes r div 2)"
  define x where "x = int (charge_total r u d) * sint (micros (price r))"
  have U: "U = 2 * h" "0 < U" using unit_even [OF v] by (simp_all add: U_def h_def)
  have nn: "0 \<le> (x + h) div U"
    using rate_charge_nonneg [OF v, of "charge_total r u d"] by (simp add: U_def h_def x_def)
  have e: "rate_charge r u d = (if charge_total r u d < 2 ^ 64 \<and> (x + h) div U < 2 ^ 63
      then Inr \<lparr>currency = currency (price r), micros = word_of_int ((x + h) div U)\<rparr>
      else Inl TrafficErrOverflow)"
    unfolding rate_charge_eq [OF v] Let_def U_def h_def x_def ..
  have m: "m = \<lparr>currency = currency (price r), micros = word_of_int ((x + h) div U)\<rparr> \<and>
      (x + h) div U < 2 ^ 63 \<longleftrightarrow>
      currency m = currency (price r) \<and> 0 \<le> sint (micros m) \<and> (x + h) div U = sint (micros m)"
    using nn sint_lt64 [of "micros m"]
    by (cases m) (auto simp: sint_of_int64 is_int64_def intro: signed_word_eqI)
  show ?thesis
    using m half_up_iff [OF U, of x "sint (micros m)"]
    unfolding e Let_def U_def [symmetric] x_def [symmetric] by auto
qed

section \<open>Properties\<close>

text \<open>For a valid rate, Charge returns an amount exactly when the byte total fits a uint64
  and the amount fits an int64; the amount is the one nearest to total * price / unit in
  millionths of the rate's currency, ties rounded up, and it is never negative.\<close>

theorem rate_charge_nearest:
  assumes "rate_validate r = None"
  shows "rate_charge r u d = Inr m \<longleftrightarrow>
     charge_total r u d < 2 ^ 64 \<and> currency m = currency (price r) \<and> 0 \<le> sint (micros m) \<and>
     (let U = uint (unit_bytes r); x = int (charge_total r u d) * sint (micros (price r)) in
        2 * U * sint (micros m) - U \<le> 2 * x \<and> 2 * x < 2 * U * sint (micros m) + U)"
  by (rule rate_charge_Inr [OF assms])

definition usd_per_gb :: rate where
  "usd_per_gb = \<lparr>price = \<lparr>currency = ''USD'', micros = 5\<rparr>, unit_bytes = GB,
     download_only = False, effective_at = 1\<rparr>"

lemma usd_per_gb_valid: "rate_validate usd_per_gb = None"
  by code_simp

text \<open>Half a billion bytes at 5 micros per GB are 2.5 micros, rounded up to 3.\<close>

theorem rate_charge_nearest_witness:
  "rate_validate usd_per_gb = None \<and>
   rate_charge usd_per_gb 500000000 0 = Inr \<lparr>currency = ''USD'', micros = 3\<rparr>"
  using usd_per_gb_valid
  by (simp add: rate_charge_nearest [OF usd_per_gb_valid])
     (simp add: usd_per_gb_def charge_total_def GB_def)

lemma rate_charge_valid:
  assumes "rate_charge r u d = Inr m"
  shows "rate_validate r = None \<and> money_validate m = None \<and> currency m = currency (price r)"
proof -
  have "rate_validate r = None"
    using assms by (cases "rate_validate r") (auto simp: rate_charge_def)
  then show ?thesis
    using assms rate_charge_Inr [of r u d m]
    by (auto simp: money_validate_None rate_validate_None)
qed

text \<open>A cost snapshot made by NewCostSnapshot passes its own Validate for the same bytes,
  and Validate accepts no other amount for that rate and those bytes.\<close>

theorem cost_snapshot_roundtrip:
  assumes "new_cost_snapshot (Some r) u d = Inr (Some s)"
  shows "cost_snapshot_validate s u d = None \<and>
     (\<forall>s'. snap_rate s' = snap_rate s \<and> cost_snapshot_validate s' u d = None \<longrightarrow> cs_amount s' = cs_amount s)"
proof -
  obtain a where a: "rate_charge r u d = Inr a" "s = \<lparr>cs_amount = a, snap_rate = r\<rparr>"
    using assms by (auto simp: new_cost_snapshot_def split: sum.splits)
  then show ?thesis
    using rate_charge_valid [OF a(1)]
    by (auto simp: cost_snapshot_validate_def split: if_splits)
qed

theorem cost_snapshot_roundtrip_witness:
  "\<exists>s. new_cost_snapshot (Some usd_per_gb) 500000000 0 = Inr (Some s) \<and>
     cost_snapshot_validate s 500000000 0 = None"
proof -
  have "new_cost_snapshot (Some usd_per_gb) 500000000 0 =
      Inr (Some \<lparr>cs_amount = \<lparr>currency = ''USD'', micros = 3\<rparr>, snap_rate = usd_per_gb\<rparr>)"
    by code_simp
  then show ?thesis using cost_snapshot_roundtrip by blast
qed

end
