(* ===== verification/Budget_Config.thy ===== *)
theory Budget_Config
  imports Go_Calendar Traffic_Values
begin

text \<open>pkg/budget/budget.go: a byte budget, its validation, the scopes it applies to and the
  accounting window that contains an instant.  The zone database is the argument tz, the
  function of time.LoadLocation.\<close>

record budget_config =
  b_id :: go_id
  b_name :: string
  b_scope :: string
  b_scope_id :: go_id
  b_limit :: bytes
  b_soft_limit :: bytes
  b_hard :: bool
  b_action :: string
  b_window :: string
  b_timezone :: string
  b_rolling_seconds :: int

type_synonym zones = "string \<Rightarrow> location option"

definition min_rolling_secs :: int where "min_rolling_secs = 60"
definition max_rolling_secs :: int where "max_rolling_secs = 365 * 24 * 60 * 60"

definition scope_of :: "budget_config \<Rightarrow> string" where
  "scope_of c = (if b_scope c = [] then ''system'' else b_scope c)"

definition window_of :: "budget_config \<Rightarrow> string" where
  "window_of c = (if b_window c = [] then ''lifetime'' else b_window c)"

definition budget_validate :: "zones \<Rightarrow> budget_config \<Rightarrow> error option" where
  "budget_validate tz c =
     (if \<not> id_valid (b_id c) \<or> b_name c = [] \<or> b_limit c = 0 \<or> b_limit c > max_int64
      then Some BudgetErrInvalid
      else if \<not> b_hard c \<or> b_action c \<noteq> ''reject'' \<or> b_soft_limit c \<ge> b_limit c
      then Some BudgetErrInvalid
      else if scope_of c \<noteq> ''system'' \<and> scope_of c \<noteq> ''client'' \<and> scope_of c \<noteq> ''pool'' \<and>
          scope_of c \<noteq> ''proxy'' then Some BudgetErrInvalid
      else if scope_of c = ''system'' \<and> b_scope_id c \<noteq> [] \<or>
          scope_of c \<noteq> ''system'' \<and> \<not> id_valid (b_scope_id c) then Some BudgetErrInvalid
      else if window_of c = ''lifetime'' then
        (if b_timezone c \<noteq> [] \<or> b_rolling_seconds c \<noteq> 0 then Some BudgetErrInvalid else None)
      else if window_of c = ''rolling'' then
        (if b_timezone c \<noteq> [] \<or> b_rolling_seconds c < min_rolling_secs \<or>
            b_rolling_seconds c > max_rolling_secs then Some BudgetErrInvalid else None)
      else if b_rolling_seconds c \<noteq> 0 \<or>
          window_of c \<noteq> ''daily'' \<and> window_of c \<noteq> ''weekly'' \<and> window_of c \<noteq> ''monthly'' \<or>
          b_timezone c = [] \<or> b_timezone c = ''Local'' \<or> length (b_timezone c) > 128 \<or>
          trim_space (b_timezone c) \<noteq> b_timezone c then Some BudgetErrInvalid
      else if tz (b_timezone c) = None then Some BudgetErrInvalid else None)"

definition window_bounds :: "zones \<Rightarrow> budget_config \<Rightarrow> go_time \<Rightarrow> error + go_time \<times> go_time" where
  "window_bounds tz c at =
     (if budget_validate tz c \<noteq> None \<or> at = 0 then Inl BudgetErrInvalid
      else if b_window c = [] \<or> b_window c = ''lifetime'' then Inr (0, 0)
      else if b_window c = ''rolling'' then Inr (at - b_rolling_seconds c * second, at)
      else case tz (b_timezone c) of None \<Rightarrow> Inl BudgetErrInvalid
      | Some loc \<Rightarrow>
         (let (year, month, day) = local_date loc at;
              start = go_date loc year month day 0 0 in
          if b_window c = ''daily'' then Inr (start, add_date loc start 0 0 1)
          else if b_window c = ''weekly'' then
            (let days_since_monday = (weekday loc start + 6) mod 7;
                 start' = add_date loc start 0 0 (- days_since_monday)
             in Inr (start', add_date loc start' 0 0 7))
          else if b_window c = ''monthly'' then
            (let start' = go_date loc year month 1 0 0 in Inr (start', add_date loc start' 0 1 0))
          else Inl BudgetErrInvalid))"

definition applies :: "budget_config \<Rightarrow> go_id \<Rightarrow> go_id \<Rightarrow> go_id \<Rightarrow> bool" where
  "applies c client_id pool_id proxy_id =
     (if b_scope c = [] \<or> b_scope c = ''system'' then True
      else if b_scope c = ''client'' then b_scope_id c = client_id
      else if b_scope c = ''pool'' then b_scope_id c = pool_id
      else if b_scope c = ''proxy'' then b_scope_id c = proxy_id
      else False)"

record usage =
  used :: bytes
  reserved :: bytes

definition empty_usage :: usage where
  "empty_usage = \<lparr>used = 0, reserved = 0\<rparr>"

section \<open>Validated budgets\<close>

lemma validated_limit:
  "budget_validate tz c = None \<Longrightarrow> 0 < unat (b_limit c) \<and> unat (b_limit c) < 2 ^ 63"
proof -
  assume "budget_validate tz c = None"
  then have "b_limit c \<noteq> 0" "b_limit c \<le> max_int64"
    by (auto simp: budget_validate_def split: if_splits)
  moreover have "unat max_int64 = 2 ^ 63 - 1" by (simp add: max_int64_def)
  ultimately show ?thesis
    by (simp add: word_le_nat_alt unat_gt_0)
qed

lemma validated_hard: "budget_validate tz c = None \<Longrightarrow> b_hard c"
  by (auto simp: budget_validate_def split: if_splits)

lemma validated_rolling:
  "budget_validate tz c = None \<Longrightarrow> b_window c = ''rolling'' \<Longrightarrow> 60 \<le> b_rolling_seconds c"
  by (auto simp: budget_validate_def window_of_def min_rolling_secs_def split: if_splits)

lemma window_bounds_total:
  "budget_validate tz c = None \<Longrightarrow> at \<noteq> 0 \<Longrightarrow> \<exists>s e. window_bounds tz c at = Inr (s, e)"
  by (cases "tz (b_timezone c)")
     (auto simp: window_bounds_def budget_validate_def window_of_def Let_def split_beta
       split: if_splits)

lemma window_bounds_valid:
  "window_bounds tz c at = Inr b \<Longrightarrow> budget_validate tz c = None \<and> at \<noteq> 0"
  by (auto simp: window_bounds_def split: if_splits)

section \<open>Calendar windows in a zone without transitions\<close>

text \<open>The number of the local day of an instant.\<close>

definition local_day :: "int \<Rightarrow> go_time \<Rightarrow> int" where
  "local_day off t = (t div second + off) div 86400"

definition day_begin :: "int \<Rightarrow> int \<Rightarrow> go_time" where
  "day_begin off d = (d * 86400 - off) * second"

lemma local_day_iff:
  "local_day off t = d \<longleftrightarrow> day_begin off d \<le> t \<and> t < day_begin off (d + 1)"
proof -
  have "local_day off t = d \<longleftrightarrow> d * 86400 \<le> t div second + off \<and> t div second + off < (d + 1) * 86400"
    unfolding local_day_def by (rule div_eq_iff_bounds) simp
  also have "\<dots> \<longleftrightarrow> d * 86400 - off \<le> t div second \<and> \<not> (d + 1) * 86400 - off \<le> t div second"
    by linarith
  also have "\<dots> \<longleftrightarrow> day_begin off d \<le> t \<and> t < day_begin off (d + 1)"
    unfolding day_begin_def by (simp add: le_div_iff second_def not_le)
  finally show ?thesis .
qed

lemma day_begin_mono: "day_begin off d \<le> day_begin off d' \<longleftrightarrow> d \<le> d'"
  by (simp add: day_begin_def second_def)

lemma local_date_fixed: "local_date (fixed_zone off) t = civil (local_day off t)"
  by (simp add: local_date_def wall_seconds_fixed local_day_def)

lemma go_date_day_begin: "go_date (fixed_zone off) y m d 0 0 = day_begin off (day_number y m d)"
  by (simp add: go_date_fixed day_begin_def)

lemma local_day_begin [simp]: "local_day off (day_begin off d) = d"
  by (simp add: local_day_def day_begin_def second_def)

lemma day_begin_wall: "wall_seconds (fixed_zone off) (day_begin off d) mod 86400 = 0"
    "day_begin off d mod second = 0" "weekday (fixed_zone off) (day_begin off d) = (d + 1) mod 7"
  by (simp_all add: weekday_def wall_seconds_fixed day_begin_def second_def)

lemma add_days_begin: "add_date (fixed_zone off) (day_begin off d) 0 0 k = day_begin off (d + k)"
proof -
  obtain y m dd where c: "civil d = (y, m, dd)" by (metis prod_cases3)
  then show ?thesis
    using civil_bounds(4) [OF c] day_number_shift [of y m dd k]
    by (simp add: add_date_def local_date_fixed day_begin_wall go_date_day_begin)
qed

lemma add_month_begin:
  assumes "1 \<le> m" "m \<le> 12"
  shows "add_date (fixed_zone off) (day_begin off (day_number y m 1)) 0 1 0 =
    day_begin off (day_number y (m + 1) 1)"
proof -
  have "day_number y m 1 < day_number y (m + 1) 1"
    using assms days_before_less by (simp add: day_number_year)
  then obtain dd where c: "civil (day_number y m 1) = (y, m, dd)"
    using civil_unique [OF assms] by blast
  then have "day_number y m dd = day_number y m 1" by (rule civil_bounds(4))
  then have "dd = 1" by (simp add: day_number_def Let_def)
  then show ?thesis
    using c by (simp add: add_date_def local_date_fixed day_begin_wall go_date_day_begin)
qed

definition calendar_budget :: "budget_config \<Rightarrow> bool" where
  "calendar_budget c = (b_window c \<in> set [''daily'', ''weekly'', ''monthly''])"

text \<open>The days, from the first to the one after the last, of the window of a day.\<close>

definition window_days :: "string \<Rightarrow> int \<Rightarrow> int \<times> int" where
  "window_days w d =
     (if w = ''daily'' then (d, d + 1)
      else if w = ''weekly'' then (d - d mod 7, d - d mod 7 + 7)
      else let (y, m, dd) = civil d in (day_number y m 1, day_number y (m + 1) 1))"

lemma window_bounds_fixed:
  assumes "budget_validate tz c = None" "calendar_budget c"
    "tz (b_timezone c) = Some (fixed_zone off)" "at \<noteq> 0"
  shows "window_bounds tz c at =
     Inr (map_prod (day_begin off) (day_begin off) (window_days (b_window c) (local_day off at)))"
proof -
  obtain y m dd where c: "civil (local_day off at) = (y, m, dd)" by (metis prod_cases3)
  have monday: "((d + 1) mod 7 + 6) mod 7 = d mod 7" for d :: int by presburger
  show ?thesis
    using assms civil_bounds(1,2,4) [OF c] c
    by (auto simp: window_bounds_def calendar_budget_def window_days_def local_date_fixed
        go_date_day_begin day_begin_wall monday add_days_begin add_month_begin Let_def)
qed

lemma window_days_contains: "window_days w d = (a, b) \<Longrightarrow> a \<le> d \<and> d < b"
  using civil_bounds(5,6) [of d] pos_mod_bound [of 7 d] pos_mod_sign [of 7 d]
  by (auto simp: window_days_def Let_def split: if_splits prod.splits)

lemma window_days_same:
  assumes "window_days w d = (a, b)" "a \<le> d'" "d' < b"
  shows "window_days w d' = (a, b)"
proof -
  obtain y m dd where c: "civil d = (y, m, dd)" by (metis prod_cases3)
  have week: "d - d mod 7 \<le> d' \<Longrightarrow> d' < d - d mod 7 + 7 \<Longrightarrow> d' - d' mod 7 = d - d mod 7"
    by presburger
  have month: "day_number y m 1 \<le> d' \<Longrightarrow> d' < day_number y (m + 1) 1 \<Longrightarrow> \<exists>dd. civil d' = (y, m, dd)"
    by (rule civil_unique [OF civil_bounds(1,2) [OF c]])
  show ?thesis
    using assms c week month by (auto simp: window_days_def split: if_splits)
qed

lemmas calendar_eval = local_date_def wall_seconds_def zone_offset_def unix_seconds_def civil_def
  year_of_def year_start_def leap_year_def month_of_def days_before_def day_number_def
  weekday_def go_date_def add_date_def epoch_seconds_def second_def Let_def

section \<open>Properties\<close>

text \<open>In a zone without transitions the windows of a daily, weekly or monthly budget partition
  time: the window WindowBounds returns for an instant contains it, and every other instant of
  that window has the same window, so usage recorded anywhere in it is counted under one key.\<close>

theorem window_bounds_partition:
  assumes "budget_validate tz c = None" "calendar_budget c"
    "tz (b_timezone c) = Some (fixed_zone off)" "window_bounds tz c at = Inr (s, e)"
  shows "s \<le> at \<and> at < e \<and>
    (\<forall>other. other \<noteq> 0 \<longrightarrow> s \<le> other \<longrightarrow> other < e \<longrightarrow> window_bounds tz c other = Inr (s, e))"
proof -
  have at: "at \<noteq> 0" using window_bounds_valid [OF assms(4)] ..
  obtain a b where ab: "window_days (b_window c) (local_day off at) = (a, b)" by fastforce
  then have se: "s = day_begin off a" "e = day_begin off b"
    using assms(4) window_bounds_fixed [OF assms(1-3) at] by auto
  have inside: "s \<le> t \<and> t < e \<longleftrightarrow> a \<le> local_day off t \<and> local_day off t < b" for t
  proof -
    have "day_begin off (local_day off t) \<le> t \<and> t < day_begin off (local_day off t + 1)"
      using local_day_iff [of off t "local_day off t"] by simp
    then show ?thesis
      using day_begin_mono [of off a "local_day off t"] day_begin_mono [of off "local_day off t + 1" a]
        day_begin_mono [of off b "local_day off t"] day_begin_mono [of off "local_day off t + 1" b]
      unfolding se by linarith
  qed
  have "window_bounds tz c t = Inr (s, e)" if "t \<noteq> 0" "s \<le> t" "t < e" for t
    using window_bounds_fixed [OF assms(1-3) that(1)] window_days_same [OF ab, of "local_day off t"]
      inside [of t] that by (simp add: se)
  then show ?thesis
    using inside [of at] window_days_contains [OF ab] by blast
qed

definition sample_zones :: zones where
  "sample_zones z = (if z = ''UTC'' then Some (fixed_zone 0) else None)"

definition monthly_budget :: budget_config where
  "monthly_budget = \<lparr>b_id = ''b1'', b_name = ''monthly'', b_scope = ''client'', b_scope_id = ''alice'',
     b_limit = 1000, b_soft_limit = 0, b_hard = True, b_action = ''reject'', b_window = ''monthly'',
     b_timezone = ''UTC'', b_rolling_seconds = 0\<rparr>"

definition at_unix :: "int \<Rightarrow> go_time" where
  "at_unix s = (s + epoch_seconds) * second"

text \<open>February 2024, from an instant on its leap day.\<close>

theorem window_bounds_partition_witness:
  "window_bounds sample_zones monthly_budget (at_unix 1709208000) =
     Inr (at_unix 1706745600, at_unix 1709251200) \<and>
   window_bounds sample_zones monthly_budget (at_unix 1706745600) =
     Inr (at_unix 1706745600, at_unix 1709251200)"
proof -
  have v: "budget_validate sample_zones monthly_budget = None" "calendar_budget monthly_budget"
    by code_simp+
  have z: "sample_zones (b_timezone monthly_budget) = Some (fixed_zone 0)"
    by (simp add: sample_zones_def monthly_budget_def)
  have b: "window_bounds sample_zones monthly_budget (at_unix 1709208000) =
     Inr (at_unix 1706745600, at_unix 1709251200)"
    using window_bounds_fixed [OF v z, of "at_unix 1709208000"]
    by (simp add: at_unix_def monthly_budget_def window_days_def local_day_def day_begin_def calendar_eval)
  show ?thesis
    using b window_bounds_partition [OF v z b] by (simp add: at_unix_def epoch_seconds_def second_def)
qed

text \<open>A zone whose clocks jump forward at midnight: America/Santiago, where September 7, 2025
  began at one in the morning.\<close>

definition santiago_2025 :: location where
  "santiago_2025 = \<lparr>zone_lookup = (\<lambda>u.
     if u < 1757217600 then (- 14400, 1743908400, 1757217600)
     else (- 10800, 1757217600, 1775358000))\<rparr>"

definition santiago_zones :: zones where
  "santiago_zones z = (if z = ''America/Santiago'' then Some santiago_2025 else None)"

definition santiago_budget :: "string \<Rightarrow> budget_config" where
  "santiago_budget w = monthly_budget\<lparr>b_window := w, b_timezone := ''America/Santiago''\<rparr>"

lemma santiago_valid:
  "budget_validate santiago_zones (santiago_budget ''daily'') = None"
  "budget_validate santiago_zones (santiago_budget ''weekly'') = None"
  by code_simp+

lemma september_2025:
  "civil 739494 = (2025, 9, 1)" "civil 739495 = (2025, 9, 2)" "civil 739496 = (2025, 9, 3)"
  "civil 739499 = (2025, 9, 6)" "civil 739500 = (2025, 9, 7)" "civil 739501 = (2025, 9, 8)"
proof -
  have y: "year_start 2025 = 739251" "leap_year 2025 = False"
    by (simp_all add: year_start_def leap_year_def)
  have "739251 \<le> d \<Longrightarrow> d \<le> 739600 \<Longrightarrow> year_of d = 2025" for d
    by (rule year_of_unique) (simp_all add: year_start_def)
  then show "civil 739494 = (2025, 9, 1)" "civil 739495 = (2025, 9, 2)" "civil 739496 = (2025, 9, 3)"
    "civil 739499 = (2025, 9, 6)" "civil 739500 = (2025, 9, 7)" "civil 739501 = (2025, 9, 8)"
    by (simp_all add: civil_def Let_def y month_of_def days_before_def)
qed

lemma september_day: "civil n = (2025, 9, d) \<Longrightarrow> day_number 2025 9 (d + k) = n + k"
  using civil_bounds(4) [of n 2025 9 d] day_number_shift [of 2025 9 d k] by simp

lemma september_day_numbers:
  "day_number 2025 9 1 = 739494" "day_number 2025 9 3 = 739496" "day_number 2025 9 6 = 739499"
  "day_number 2025 9 7 = 739500" "day_number 2025 9 8 = 739501" "day_number 2025 9 9 = 739502"
  using september_day [OF september_2025(1), of 0] september_day [OF september_2025(1), of 2]
    september_day [OF september_2025(1), of 5] september_day [OF september_2025(1), of 6]
    september_day [OF september_2025(1), of 7] september_day [OF september_2025(1), of 8]
  by simp_all

lemma santiago_wall:
  "wall_seconds santiago_2025 (at_unix u) =
     u + epoch_seconds - (if u < 1757217600 then 14400 else 10800)"
  by (simp add: wall_seconds_def at_unix_def unix_seconds_def zone_offset_def second_def
      santiago_2025_def)

lemma santiago_go_date:
  "go_date santiago_2025 y m d secs 0 =
     (let u = day_number y m d * 86400 + secs - epoch_seconds in
      if u < 1757217600 \<and> (u + 14400 < 1757217600 \<and> 1743908400 \<le> u + 14400) then at_unix (u + 14400)
      else if u < 1757217600 then at_unix (u + (if u + 14400 < 1757217600 then 14400 else 10800))
      else if 1757217600 \<le> u + 10800 \<and> u + 10800 < 1775358000 then at_unix (u + 10800)
      else at_unix (u + (if u + 10800 < 1757217600 then 14400 else 10800)))"
  by (simp add: go_date_def santiago_2025_def zone_offset_def at_unix_def Let_def algebra_simps)

lemma at_unix_subsecond: "at_unix u mod second = 0"
  by (simp add: at_unix_def second_def)

lemmas santiago_eval = local_date_def santiago_wall epoch_seconds_def september_2025
  september_day_numbers santiago_go_date add_date_def weekday_def at_unix_subsecond

lemma at_unix_nonzero: "0 < u \<Longrightarrow> at_unix u \<noteq> 0"
  by (simp add: at_unix_def epoch_seconds_def second_def)

text \<open>Where the clocks of the zone jump at midnight the interval WindowBounds returns need not
  contain the instant it was asked for: at 23:30 on the eve of September 7, 2025 in Santiago the
  daily window has ended half an hour before.\<close>

theorem window_bounds_excludes_instant:
  "budget_validate santiago_zones (santiago_budget ''daily'') = None \<and>
   (\<exists>s e. window_bounds santiago_zones (santiago_budget ''daily'') (at_unix 1757215800) = Inr (s, e) \<and>
      e < at_unix 1757215800)"
proof -
  let ?c = "santiago_budget ''daily''"
  have d: "local_date santiago_2025 (at_unix 1757215800) = (2025, 9, 6)"
    by (simp add: santiago_eval)
  have s: "go_date santiago_2025 2025 9 6 0 0 = at_unix 1757131200"
    by (simp add: santiago_eval)
  have e: "add_date santiago_2025 (at_unix 1757131200) 0 0 1 = at_unix 1757214000"
    by (simp add: santiago_eval)
  have "window_bounds santiago_zones ?c (at_unix 1757215800) =
      Inr (at_unix 1757131200, at_unix 1757214000)"
    using santiago_valid(1) d s e
    by (simp add: window_bounds_def) (simp add: santiago_budget_def santiago_zones_def at_unix_nonzero)
  then show ?thesis using santiago_valid(1) by (simp add: at_unix_def second_def)
qed

text \<open>On such a day a weekly budget is counted twice: Sunday noon lies inside the window of the
  Wednesday before, yet WindowBounds gives it another window, so its usage goes to another key.\<close>

theorem weekly_window_splits:
  "budget_validate santiago_zones (santiago_budget ''weekly'') = None \<and>
   (\<exists>s e s' e'.
      window_bounds santiago_zones (santiago_budget ''weekly'') (at_unix 1756900800) = Inr (s, e) \<and>
      window_bounds santiago_zones (santiago_budget ''weekly'') (at_unix 1757246400) = Inr (s', e') \<and>
      s \<le> at_unix 1757246400 \<and> at_unix 1757246400 < e \<and> s' \<noteq> s)"
proof -
  let ?c = "santiago_budget ''weekly''" and ?l = santiago_2025
  have wed: "local_date ?l (at_unix 1756900800) = (2025, 9, 3)"
    "go_date ?l 2025 9 3 0 0 = at_unix 1756872000" "weekday ?l (at_unix 1756872000) = 3"
    "add_date ?l (at_unix 1756872000) 0 0 (- 2) = at_unix 1756699200"
    "add_date ?l (at_unix 1756699200) 0 0 7 = at_unix 1757300400"
    by (simp_all add: santiago_eval)
  have sun: "local_date ?l (at_unix 1757246400) = (2025, 9, 7)"
    "go_date ?l 2025 9 7 0 0 = at_unix 1757214000" "weekday ?l (at_unix 1757214000) = 6"
    "add_date ?l (at_unix 1757214000) 0 0 (- 5) = at_unix 1756782000"
    "add_date ?l (at_unix 1756782000) 0 0 7 = at_unix 1757383200"
    by (simp_all add: santiago_eval)
  have "window_bounds santiago_zones ?c (at_unix 1756900800) =
      Inr (at_unix 1756699200, at_unix 1757300400)"
    using santiago_valid(2) wed
    by (simp add: window_bounds_def) (simp add: santiago_budget_def santiago_zones_def at_unix_nonzero)
  moreover have "window_bounds santiago_zones ?c (at_unix 1757246400) =
      Inr (at_unix 1756782000, at_unix 1757383200)"
    using santiago_valid(2) sun
    by (simp add: window_bounds_def) (simp add: santiago_budget_def santiago_zones_def at_unix_nonzero)
  ultimately show ?thesis using santiago_valid(2) by (simp add: at_unix_def second_def)
qed

end
