(* ===== verification/Budget_Manager.thy ===== *)
theory Budget_Manager
  imports Budget_Config
begin

text \<open>internal/budget/manager.go: the synchronized hard-budget reservations.  Every operation runs
  under the manager's mutex and is one function of the state.  The durable store behind the
  manager is an interface of the code; here it is a record of functions on a store state, an
  argument of the operations.  The clock reading is the argument at, the context's error the
  argument cerr.\<close>

section \<open>State\<close>

type_synonym usage_key = "go_id \<times> int"
type_synonym budget_record = "budget_config \<times> int"

record 's budget_store =
  bs_initialize :: "budget_config list \<Rightarrow> 's \<Rightarrow> (error + budget_record list) \<times> 's"
  bs_put :: "budget_config \<Rightarrow> int \<Rightarrow> 's \<Rightarrow> (error + budget_record) \<times> 's"
  bs_delete :: "go_id \<Rightarrow> int \<Rightarrow> 's \<Rightarrow> error option \<times> 's"
  bs_reserve :: "budget_config list \<Rightarrow> go_time \<Rightarrow> bytes \<Rightarrow> 's \<Rightarrow> error option \<times> 's"
  bs_consume :: "budget_config list \<Rightarrow> go_time \<Rightarrow> bytes \<Rightarrow> 's \<Rightarrow> error option \<times> 's"
  bs_release :: "budget_config list \<Rightarrow> go_time \<Rightarrow> bytes \<Rightarrow> 's \<Rightarrow> error option \<times> 's"
  bs_usage :: "budget_config \<Rightarrow> go_time \<Rightarrow> 's \<Rightarrow> error + usage"
  bs_recover :: "'s \<Rightarrow> error option \<times> 's"

text \<open>The surroundings of a manager: the zone database and the store's functions.\<close>

record 's budget_env =
  be_zones :: zones
  be_store :: "'s budget_store"

record 's budget_manager =
  bm_configs :: "(go_id \<times> budget_config) list"
  bm_revisions :: "(go_id \<times> int) list"
  bm_usage :: "(usage_key \<times> usage) list"
  bm_max_reservation :: bytes
  bm_store :: "'s option"

record lease =
  l_configs :: "budget_config list"
  l_at :: go_time
  l_remaining :: bytes
  l_closed :: bool

record status =
  s_config :: budget_config
  s_revision :: int
  s_used :: bytes
  s_reserved :: bytes
  s_remaining :: bytes
  s_warning :: bool
  s_exhausted :: bool
  s_window :: "(go_time \<times> go_time) option"

definition get_usage :: "(usage_key \<times> usage) list \<Rightarrow> usage_key \<Rightarrow> usage" where
  "get_usage us k = (case map_of us k of None \<Rightarrow> empty_usage | Some u \<Rightarrow> u)"

definition unix_nano :: "go_time \<Rightarrow> int" where
  "unix_nano t = t - unix_epoch"

section \<open>Keys and views of usage\<close>

definition budget_usage_key :: "zones \<Rightarrow> budget_config \<Rightarrow> go_time \<Rightarrow> error + usage_key" where
  "budget_usage_key tz c at =
     (case window_bounds tz c at of Inl e \<Rightarrow> Inl e
      | Inr (start, _) \<Rightarrow>
         if b_window c = ''rolling'' then Inr (b_id c, unix_nano (truncate_time at minute))
         else if start \<noteq> 0 then Inr (b_id c, unix_nano start)
         else Inr (b_id c, 0))"

text \<open>The loops over the configurations of a lease drop the error and go on with the zero key.\<close>

definition key_or_zero :: "zones \<Rightarrow> go_time \<Rightarrow> budget_config \<Rightarrow> usage_key" where
  "key_or_zero tz at c = (case budget_usage_key tz c at of Inl _ \<Rightarrow> ([], 0) | Inr k \<Rightarrow> k)"

definition would_exceed :: "usage \<Rightarrow> bytes \<Rightarrow> bytes \<Rightarrow> bool" where
  "would_exceed u amount limit =
     (if used u > limit \<or> reserved u > limit - used u then True
      else amount > limit - used u - reserved u)"

definition reaches :: "usage \<Rightarrow> bytes \<Rightarrow> bool" where
  "reaches u limit = (used u \<ge> limit \<or> reserved u \<ge> limit - used u)"

fun rolling_total ::
  "go_id \<Rightarrow> int \<Rightarrow> (usage_key \<times> usage) list \<Rightarrow> usage \<Rightarrow> error + usage" where
  "rolling_total i cutoff [] acc = Inr acc"
| "rolling_total i cutoff ((k, u) # us) acc =
     (if fst k \<noteq> i \<or> snd k < cutoff then rolling_total i cutoff us acc
      else case bytes_add (used acc) (used u) of Inl e \<Rightarrow> Inl e
        | Inr tu \<Rightarrow> (case bytes_add (reserved acc) (reserved u) of Inl e \<Rightarrow> Inl e
            | Inr tr \<Rightarrow> rolling_total i cutoff us \<lparr>used = tu, reserved = tr\<rparr>))"

definition usage_locked ::
  "'s budget_env \<Rightarrow> 's budget_manager \<Rightarrow> budget_config \<Rightarrow> go_time \<Rightarrow> error + usage" where
  "usage_locked env m c at =
     (case bm_store m of Some st \<Rightarrow> bs_usage (be_store env) c at st
      | None \<Rightarrow>
        if b_window c = ''rolling'' then
          (case window_bounds (be_zones env) c at of Inl e \<Rightarrow> Inl e
           | Inr (start, _) \<Rightarrow>
              rolling_total (b_id c) (unix_nano (truncate_time start minute)) (bm_usage m) empty_usage)
        else case budget_usage_key (be_zones env) c at of Inl e \<Rightarrow> Inl e
          | Inr k \<Rightarrow> Inr (get_usage (bm_usage m) k))"

text \<open>One pass over the configurations of a lease, changing the usage under each key.\<close>

fun touch_usage ::
  "(usage \<Rightarrow> usage) \<Rightarrow> usage_key list \<Rightarrow> (usage_key \<times> usage) list \<Rightarrow> (usage_key \<times> usage) list" where
  "touch_usage f [] us = us"
| "touch_usage f (k # ks) us = touch_usage f ks (AList.update k (f (get_usage us k)) us)"

section \<open>Construction and configuration\<close>

fun load_configs :: "zones \<Rightarrow> budget_config list \<Rightarrow>
    (go_id \<times> budget_config) list \<Rightarrow> error + (go_id \<times> budget_config) list" where
  "load_configs tz [] acc = Inr acc"
| "load_configs tz (c # cs) acc =
     (if budget_validate tz c \<noteq> None then Inl BudgetErrInvalid
      else if map_of acc (b_id c) \<noteq> None then Inl BudgetErrInvalid
      else load_configs tz cs (AList.update (b_id c) c acc))"

definition new_persistent :: "'s budget_env \<Rightarrow> budget_config list \<Rightarrow> bytes \<Rightarrow> 's option \<Rightarrow>
    error + 's budget_manager" where
  "new_persistent env cs max_reservation store =
     (if max_reservation = 0 \<or> max_reservation > 2 ^ 40 then Inl BudgetErrInvalid
      else case load_configs (be_zones env) cs [] of Inl e \<Rightarrow> Inl e
      | Inr configs \<Rightarrow>
        (case store of
          None \<Rightarrow> Inr \<lparr>bm_configs = configs, bm_revisions = map (\<lambda>(i, c). (i, 1)) configs,
             bm_usage = [], bm_max_reservation = max_reservation, bm_store = None\<rparr>
        | Some st \<Rightarrow>
           (case bs_initialize (be_store env) cs st of
              (Inl e, _) \<Rightarrow> Inl e
            | (Inr records, st') \<Rightarrow>
               (case bs_recover (be_store env) st' of
                  (Some e, _) \<Rightarrow> Inl e
                | (None, st'') \<Rightarrow> Inr \<lparr>
                    bm_configs = foldl (\<lambda>m (c, rev). AList.update (b_id c) c m) [] records,
                    bm_revisions = foldl (\<lambda>m (c, rev). AList.update (b_id c) rev m) [] records,
                    bm_usage = [], bm_max_reservation = max_reservation, bm_store = Some st''\<rparr>))))"

definition revision_of :: "'s budget_manager \<Rightarrow> go_id \<Rightarrow> int" where
  "revision_of m i = (case map_of (bm_revisions m) i of None \<Rightarrow> 0 | Some r \<Rightarrow> r)"

definition put_config :: "'s budget_env \<Rightarrow> error option \<Rightarrow> budget_config \<Rightarrow> int \<Rightarrow>
    's budget_manager \<Rightarrow> (error + budget_record) \<times> 's budget_manager" where
  "put_config env cerr c expected m =
     (if budget_validate (be_zones env) c \<noteq> None \<or> expected < 0 then (Inl StoreErrInvalid, m)
      else case cerr of Some e \<Rightarrow> (Inl e, m)
      | None \<Rightarrow>
        if expected = 0 \<and> map_of (bm_configs m) (b_id c) \<noteq> None then (Inl StoreErrConflict, m)
        else if expected > 0 \<and> map_of (bm_configs m) (b_id c) = None then (Inl StoreErrNotFound, m)
        else if expected > 0 \<and> revision_of m (b_id c) \<noteq> expected then (Inl StoreErrConflict, m)
        else case (case bm_store m of None \<Rightarrow> (Inr (c, expected + 1), None)
                   | Some st \<Rightarrow> map_prod id Some (bs_put (be_store env) c expected st)) of
            (Inl e, st) \<Rightarrow> (Inl e, m\<lparr>bm_store := st\<rparr>)
          | (Inr rec, st) \<Rightarrow> (Inr rec, m\<lparr>bm_store := st,
              bm_configs := AList.update (b_id c) c (bm_configs m),
              bm_revisions := AList.update (b_id c) (snd rec) (bm_revisions m)\<rparr>))"

definition delete_config :: "'s budget_env \<Rightarrow> error option \<Rightarrow> go_id \<Rightarrow> int \<Rightarrow>
    's budget_manager \<Rightarrow> error option \<times> 's budget_manager" where
  "delete_config env cerr i expected m =
     (if \<not> id_valid i \<or> expected < 1 then (Some StoreErrInvalid, m)
      else case cerr of Some e \<Rightarrow> (Some e, m)
      | None \<Rightarrow>
        if map_of (bm_configs m) i = None then (Some StoreErrNotFound, m)
        else if revision_of m i \<noteq> expected then (Some StoreErrConflict, m)
        else case (case bm_store m of None \<Rightarrow> (None, None)
                   | Some st \<Rightarrow> map_prod id Some (bs_delete (be_store env) i expected st)) of
            (Some e, st) \<Rightarrow> (Some e, m\<lparr>bm_store := st\<rparr>)
          | (None, st) \<Rightarrow> (None, m\<lparr>bm_store := st,
              bm_configs := AList.delete i (bm_configs m),
              bm_revisions := AList.delete i (bm_revisions m)\<rparr>))"

section \<open>Reservations\<close>

fun reserve_check :: "'s budget_env \<Rightarrow> 's budget_manager \<Rightarrow> go_time \<Rightarrow> bytes \<Rightarrow> go_id list \<Rightarrow>
    go_id list \<Rightarrow> error + budget_config list" where
  "reserve_check env m at amount seen [] = Inr []"
| "reserve_check env m at amount seen (i # is) =
     (if i \<in> set seen then Inl BudgetErrInvalid
      else case map_of (bm_configs m) i of None \<Rightarrow> Inl BudgetErrNotFound
      | Some c \<Rightarrow>
        (case (if bm_store m \<noteq> None then None
               else case usage_locked env m c at of
                 Inl e \<Rightarrow> Some (if e = TrafficErrOverflow then BudgetErrExceeded else e)
               | Inr u \<Rightarrow>
                  if b_hard c \<and> would_exceed u amount (b_limit c) then Some BudgetErrExceeded
                  else if reserved u > - 1 - amount then Some BudgetErrExceeded else None) of
           Some e \<Rightarrow> Inl e
         | None \<Rightarrow> (case reserve_check env m at amount (i # seen) is of
              Inl e \<Rightarrow> Inl e | Inr cs \<Rightarrow> Inr (c # cs))))"

definition add_reserved :: "bytes \<Rightarrow> usage \<Rightarrow> usage" where
  "add_reserved amount u = u\<lparr>reserved := reserved u + amount\<rparr>"

definition reserve :: "'s budget_env \<Rightarrow> error option \<Rightarrow> go_time \<Rightarrow> go_id list \<Rightarrow> bytes \<Rightarrow>
    's budget_manager \<Rightarrow> (error + lease) \<times> 's budget_manager" where
  "reserve env cerr at is amount m =
     (case cerr of Some e \<Rightarrow> (Inl e, m)
      | None \<Rightarrow>
        if is = [] \<or> amount = 0 \<or> amount > bm_max_reservation m then (Inl BudgetErrInvalid, m)
        else case reserve_check env m at amount [] is of Inl e \<Rightarrow> (Inl e, m)
        | Inr cs \<Rightarrow>
          (let l = \<lparr>l_configs = cs, l_at = at, l_remaining = amount, l_closed = False\<rparr> in
           case bm_store m of
             Some st \<Rightarrow> (case bs_reserve (be_store env) cs at amount st of
                (Some e, st') \<Rightarrow> (Inl e, m\<lparr>bm_store := Some st'\<rparr>)
              | (None, st') \<Rightarrow> (Inr l, m\<lparr>bm_store := Some st'\<rparr>))
           | None \<Rightarrow> (Inr l, m\<lparr>bm_usage := touch_usage (add_reserved amount)
                (map (key_or_zero (be_zones env) at) cs) (bm_usage m)\<rparr>)))"

fun can_reserve_check :: "'s budget_env \<Rightarrow> 's budget_manager \<Rightarrow> go_time \<Rightarrow> bytes \<Rightarrow> go_id list \<Rightarrow>
    go_id list \<Rightarrow> error option" where
  "can_reserve_check env m at amount seen [] = None"
| "can_reserve_check env m at amount seen (i # is) =
     (if i \<in> set seen then Some BudgetErrInvalid
      else case map_of (bm_configs m) i of None \<Rightarrow> Some BudgetErrNotFound
      | Some c \<Rightarrow>
        (case usage_locked env m c at of
           Inl e \<Rightarrow> Some (if e = TrafficErrOverflow then BudgetErrExceeded else e)
         | Inr u \<Rightarrow> if would_exceed u amount (b_limit c) then Some BudgetErrExceeded
             else can_reserve_check env m at amount (i # seen) is))"

definition can_reserve :: "'s budget_env \<Rightarrow> error option \<Rightarrow> go_time \<Rightarrow> go_id list \<Rightarrow> bytes \<Rightarrow>
    's budget_manager \<Rightarrow> error option" where
  "can_reserve env cerr at is amount m =
     (if is = [] \<or> amount = 0 \<or> amount > bm_max_reservation m then Some BudgetErrInvalid
      else case cerr of Some e \<Rightarrow> Some e
      | None \<Rightarrow> can_reserve_check env m at amount [] is)"

section \<open>Leases\<close>

definition move_used :: "bytes \<Rightarrow> usage \<Rightarrow> usage" where
  "move_used allowed u = u\<lparr>reserved := reserved u - allowed, used := used u + allowed\<rparr>"

definition drop_reserved :: "bytes \<Rightarrow> usage \<Rightarrow> usage" where
  "drop_reserved amount u = u\<lparr>reserved := reserved u - amount\<rparr>"

text \<open>Consume returns the allowance and an error, both: a short grant comes with ErrExceeded.\<close>

definition consume :: "'s budget_env \<Rightarrow> error option \<Rightarrow> bytes \<Rightarrow> lease \<Rightarrow> 's budget_manager \<Rightarrow>
    (bytes \<times> error option) \<times> lease \<times> 's budget_manager" where
  "consume env cerr amount l m =
     (case cerr of Some e \<Rightarrow> ((0, Some e), l, m)
      | None \<Rightarrow>
        if l_closed l then ((0, Some BudgetErrClosed), l, m)
        else let allowed = min amount (l_remaining l);
                 l' = l\<lparr>l_remaining := l_remaining l - allowed\<rparr>;
                 answer = (allowed, if allowed < amount then Some BudgetErrExceeded else None) in
          case bm_store m of
            Some st \<Rightarrow> (case bs_consume (be_store env) (l_configs l) (l_at l) allowed st of
               (Some e, st') \<Rightarrow> ((0, Some e), l, m\<lparr>bm_store := Some st'\<rparr>)
             | (None, st') \<Rightarrow> (answer, l', m\<lparr>bm_store := Some st'\<rparr>))
          | None \<Rightarrow> (answer, l', m\<lparr>bm_usage := touch_usage (move_used allowed)
               (map (key_or_zero (be_zones env) (l_at l)) (l_configs l)) (bm_usage m)\<rparr>))"

definition close :: "'s budget_env \<Rightarrow> lease \<Rightarrow> 's budget_manager \<Rightarrow>
    error option \<times> lease \<times> 's budget_manager" where
  "close env l m =
     (if l_closed l then (Some BudgetErrClosed, l, m)
      else let l' = l\<lparr>l_remaining := 0, l_closed := True\<rparr> in
        case bm_store m of
          Some st \<Rightarrow> (case bs_release (be_store env) (l_configs l) (l_at l) (l_remaining l) st of
             (Some e, st') \<Rightarrow> (Some e, l, m\<lparr>bm_store := Some st'\<rparr>)
           | (None, st') \<Rightarrow> (None, l', m\<lparr>bm_store := Some st'\<rparr>))
        | None \<Rightarrow> (None, l', m\<lparr>bm_usage := touch_usage (drop_reserved (l_remaining l))
             (map (key_or_zero (be_zones env) (l_at l)) (l_configs l)) (bm_usage m)\<rparr>))"

section \<open>Queries\<close>

definition usage_context :: "'s budget_env \<Rightarrow> go_time \<Rightarrow> go_id \<Rightarrow> 's budget_manager \<Rightarrow> error + usage" where
  "usage_context env at i m =
     (case map_of (bm_configs m) i of None \<Rightarrow> Inl BudgetErrNotFound
      | Some c \<Rightarrow> usage_locked env m c at)"

definition status_locked :: "'s budget_env \<Rightarrow> 's budget_manager \<Rightarrow> go_id \<Rightarrow> go_time \<Rightarrow> error + status" where
  "status_locked env m i at =
     (case map_of (bm_configs m) i of None \<Rightarrow> Inl StoreErrNotFound
      | Some c \<Rightarrow> (case usage_locked env m c at of Inl e \<Rightarrow> Inl e
        | Inr u \<Rightarrow> (case window_bounds (be_zones env) c at of Inl e \<Rightarrow> Inl e
          | Inr (start, stop) \<Rightarrow>
             (let remaining = (if used u < b_limit c \<and> reserved u < b_limit c - used u
                               then b_limit c - used u - reserved u else 0) in
              Inr \<lparr>s_config = c\<lparr>b_scope := scope_of c, b_window := window_of c\<rparr>,
                   s_revision = revision_of m i, s_used = used u, s_reserved = reserved u,
                   s_remaining = remaining,
                   s_warning = (b_soft_limit c > 0 \<and> reaches u (b_soft_limit c)),
                   s_exhausted = (remaining = 0),
                   s_window = (if start \<noteq> 0 then Some (start, stop) else None)\<rparr>))))"

fun statuses_of :: "'s budget_env \<Rightarrow> 's budget_manager \<Rightarrow> go_time \<Rightarrow> go_id list \<Rightarrow> error + status list" where
  "statuses_of env m at [] = Inr []"
| "statuses_of env m at (i # is) = (case status_locked env m i at of Inl e \<Rightarrow> Inl e
     | Inr s \<Rightarrow> (case statuses_of env m at is of Inl e \<Rightarrow> Inl e | Inr ss \<Rightarrow> Inr (s # ss)))"

definition statuses :: "'s budget_env \<Rightarrow> error option \<Rightarrow> go_time \<Rightarrow> 's budget_manager \<Rightarrow>
    error + status list" where
  "statuses env cerr at m = (case cerr of Some e \<Rightarrow> Inl e
     | None \<Rightarrow> statuses_of env m at (sort (keys_of (bm_configs m))))"

definition applicable_ids :: "go_id \<Rightarrow> go_id \<Rightarrow> go_id \<Rightarrow> 's budget_manager \<Rightarrow> go_id list" where
  "applicable_ids client pool proxy m =
     sort (keys_of (filter (\<lambda>(i, c). applies c client pool proxy) (bm_configs m)))"

definition route_ids :: "go_id \<Rightarrow> go_id \<Rightarrow> 's budget_manager \<Rightarrow> go_id list" where
  "route_ids pool proxy m =
     sort (keys_of (filter (\<lambda>(i, c). b_scope c = ''pool'' \<and> b_scope_id c = pool \<or>
       b_scope c = ''proxy'' \<and> b_scope_id c = proxy) (bm_configs m)))"

definition references :: "string \<Rightarrow> go_id \<Rightarrow> 's budget_manager \<Rightarrow> bool" where
  "references scope i m =
     list_ex (\<lambda>(k, c). b_scope c = scope \<and> b_scope_id c = i) (bm_configs m)"

end
