(* ===== verification/Budget_Ledger.thy ===== *)
theory Budget_Ledger
  imports Budget_Manager
begin

text \<open>The ledger of internal/budget/manager.go as a state machine: a manager without a store, the
  leases it handed out, and the steps that any interleaving of callers can take.  The invariant
  relates the reserved bytes under every key to the open leases and bounds used plus reserved, so
  that no addition or subtraction of the code wraps; a run without configuration changes never
  oversubscribes a limit.\<close>

section \<open>Usage under a key\<close>

definition load :: "(usage_key \<times> usage) list \<Rightarrow> usage_key \<Rightarrow> nat" where
  "load us k = unat (used (get_usage us k)) + unat (reserved (get_usage us k))"

lemma get_usage_update:
  "get_usage (AList.update k u us) k' = (if k' = k then u else get_usage us k')"
  by (simp add: get_usage_def map_simps)

lemma get_usage_touch:
  "distinct ks \<Longrightarrow> get_usage (touch_usage f ks us) k =
     (if k \<in> set ks then f (get_usage us k) else get_usage us k)"
  by (induction f ks us rule: touch_usage.induct) (auto simp: get_usage_update)

lemma touch_keys: "fst ` set (touch_usage f ks us) = fst ` set us \<union> set ks"
  by (induction f ks us rule: touch_usage.induct) (auto simp: dom_update)

lemma touch_distinct: "distinct (keys_of us) \<Longrightarrow> distinct (keys_of (touch_usage f ks us))"
  by (induction f ks us rule: touch_usage.induct) (auto simp: distinct_update)

lemma get_usage_absent: "k \<notin> fst ` set us \<Longrightarrow> get_usage us k = empty_usage"
  by (simp add: get_usage_def map_of_None_iff [THEN iffD2])

lemma load_absent: "k \<notin> fst ` set us \<Longrightarrow> load us k = 0"
  by (simp add: load_def get_usage_absent empty_usage_def)

lemma load_pos: "0 < load us k \<Longrightarrow> k \<in> fst ` set us"
  using load_absent by fastforce

lemma would_exceed_iff:
  "would_exceed u n limit \<longleftrightarrow> unat limit < unat (used u) + unat (reserved u) + unat n"
proof (cases "used u > limit \<or> reserved u > limit - used u")
  case True
  then show ?thesis
    by (cases "used u > limit") (auto simp: would_exceed_def word_less_nat_alt unat_diff_le not_less
        word_le_nat_alt)
next
  case False
  then have a: "used u \<le> limit" "reserved u \<le> limit - used u" by auto
  then have "unat (limit - used u) = unat limit - unat (used u)" by (simp add: unat_diff_le)
  moreover have "unat (limit - used u - reserved u) = unat (limit - used u) - unat (reserved u)"
    using a by (simp add: unat_diff_le)
  ultimately show ?thesis
    using a False by (auto simp: would_exceed_def word_less_nat_alt word_le_nat_alt)
qed

lemma reaches_iff: "reaches u limit \<longleftrightarrow> unat limit \<le> unat (used u) + unat (reserved u)"
proof (cases "used u \<ge> limit")
  case False
  then have "unat (limit - used u) = unat limit - unat (used u)" by (simp add: unat_diff_le)
  then show ?thesis using False
    by (auto simp: reaches_def word_le_nat_alt not_le word_less_nat_alt)
qed (auto simp: reaches_def word_le_nat_alt)

section \<open>Views\<close>

definition in_window :: "go_id \<Rightarrow> int \<Rightarrow> usage_key \<Rightarrow> bool" where
  "in_window i cutoff k = (fst k = i \<and> cutoff \<le> snd k)"

definition rolling_cutoff :: "budget_config \<Rightarrow> go_time \<Rightarrow> int" where
  "rolling_cutoff c at = unix_nano (truncate_time (at - b_rolling_seconds c * second) minute)"

lemma rolling_total_sum:
  "rolling_total i cutoff us acc = Inr r \<Longrightarrow>
     unat (used r) + unat (reserved r) = unat (used acc) + unat (reserved acc) +
       sum_list (map (\<lambda>(k, u). unat (used u) + unat (reserved u)) (filter (in_window i cutoff \<circ> fst) us))"
proof (induction i cutoff us acc rule: rolling_total.induct)
  case (2 i cutoff k u us acc)
  show ?case
  proof (cases "fst k \<noteq> i \<or> snd k < cutoff")
    case True
    then show ?thesis using 2 by (auto simp: in_window_def)
  next
    case False
    then obtain a b where ab: "bytes_add (used acc) (used u) = Inr a"
        "bytes_add (reserved acc) (reserved u) = Inr b"
        "rolling_total i cutoff us \<lparr>used = a, reserved = b\<rparr> = Inr r"
      using "2.prems" by (auto split: sum.splits)
    then show ?thesis
      using "2.IH"(2) [OF False ab(1,2,3)] False bytes_add_unat [OF ab(1)] bytes_add_unat [OF ab(2)]
      by (auto simp: in_window_def)
  qed
qed simp

lemma sum_keys_list:
  assumes "distinct (keys_of us)"
  shows "sum_list (map (\<lambda>(k, u). g u) (filter (P \<circ> fst) us)) =
    (\<Sum>k\<in>{k \<in> fst ` set us. P k}. g (get_usage us k))"
proof -
  have g: "g u = g (get_usage us k)" if "(k, u) \<in> set us" for k u
    using that assms by (simp add: get_usage_def)
  have "map (\<lambda>(k, u). g u) (filter (P \<circ> fst) us) =
      map (\<lambda>k. g (get_usage us k)) (keys_of (filter (P \<circ> fst) us))"
    using g by (auto simp: split_beta)
  moreover have "distinct (keys_of (filter (P \<circ> fst) us))"
    using assms by (rule distinct_map_filter)
  moreover have "set (keys_of (filter (P \<circ> fst) us)) = {k \<in> fst ` set us. P k}"
    by auto
  ultimately show ?thesis
    using sum_list_distinct_conv_sum_set [of "keys_of (filter (P \<circ> fst) us)" "\<lambda>k. g (get_usage us k)"]
    by (simp only:)
qed

text \<open>The bytes, used and reserved, that count against a configuration at an instant.\<close>

definition view :: "zones \<Rightarrow> (usage_key \<times> usage) list \<Rightarrow> budget_config \<Rightarrow> go_time \<Rightarrow> nat" where
  "view tz us c at =
     (if b_window c = ''rolling''
      then (\<Sum>k\<in>{k \<in> fst ` set us. in_window (b_id c) (rolling_cutoff c at) k}. load us k)
      else load us (key_or_zero tz at c))"

lemma usage_key_valid:
  assumes "budget_validate tz c = None" "at \<noteq> 0"
  shows "budget_usage_key tz c at = Inr (key_or_zero tz at c) \<and> fst (key_or_zero tz at c) = b_id c"
  using window_bounds_total [OF assms]
  by (auto simp: budget_usage_key_def key_or_zero_def)

lemma usage_locked_view:
  assumes "bm_store m = None" "distinct (keys_of (bm_usage m))" "usage_locked env m c at = Inr u"
  shows "unat (used u) + unat (reserved u) = view (be_zones env) (bm_usage m) c at"
    and "budget_validate (be_zones env) c = None" "at \<noteq> 0"
proof -
  have w: "\<exists>b. window_bounds (be_zones env) c at = Inr b"
    using assms(1,3) by (cases "window_bounds (be_zones env) c at")
      (auto simp: usage_locked_def budget_usage_key_def split: if_splits)
  then show v: "budget_validate (be_zones env) c = None" "at \<noteq> 0"
    using window_bounds_valid by blast+
  show "unat (used u) + unat (reserved u) = view (be_zones env) (bm_usage m) c at"
  proof (cases "b_window c = ''rolling''")
    case True
    then have "rolling_total (b_id c) (rolling_cutoff c at) (bm_usage m) empty_usage = Inr u"
      using assms(1,3) v by (simp add: usage_locked_def window_bounds_def rolling_cutoff_def)
    note rolling_total_sum [OF this]
    then show ?thesis
      using True sum_keys_list [OF assms(2), of "\<lambda>u. unat (used u) + unat (reserved u)"
          "in_window (b_id c) (rolling_cutoff c at)"]
      by (simp add: view_def load_def empty_usage_def)
  next
    case False
    then show ?thesis
      using assms(1,3) usage_key_valid [OF v] by (auto simp: usage_locked_def view_def load_def)
  qed
qed

text \<open>The key a reservation is booked under is itself part of the rolling window.\<close>

lemma rolling_key_in_window:
  assumes "budget_validate tz c = None" "b_window c = ''rolling''" "at \<noteq> 0"
  shows "in_window (b_id c) (rolling_cutoff c at) (key_or_zero tz at c)"
proof -
  have "truncate_time (at - b_rolling_seconds c * second) minute \<le> truncate_time at minute"
    using validated_rolling [OF assms(1,2)] by (intro truncate_time_mono) (simp add: second_def)
  then show ?thesis
    using assms
    by (simp add: in_window_def rolling_cutoff_def key_or_zero_def budget_usage_key_def
        window_bounds_def unix_nano_def)
qed

lemma load_le_view:
  assumes "budget_validate tz c = None" "at \<noteq> 0"
  shows "load us (key_or_zero tz at c) \<le> view tz us c at"
proof (cases "b_window c = ''rolling'' \<and> key_or_zero tz at c \<in> fst ` set us")
  case True
  then show ?thesis
    using rolling_key_in_window [OF assms(1) _ assms(2)]
    by (auto simp: view_def intro!: member_le_sum)
next
  case False
  then show ?thesis using load_absent by (auto simp: view_def)
qed

lemma view_superset:
  assumes "finite K" "fst ` set us \<subseteq> K" "b_window c = ''rolling''"
  shows "view tz us c at = (\<Sum>k\<in>{k \<in> K. in_window (b_id c) (rolling_cutoff c at) k}. load us k)"
proof -
  have "(\<Sum>k\<in>{k \<in> fst ` set us. in_window (b_id c) (rolling_cutoff c at) k}. load us k) =
      (\<Sum>k\<in>{k \<in> K. in_window (b_id c) (rolling_cutoff c at) k}. load us k)"
  proof (rule sum.mono_neutral_left)
    show "\<forall>k\<in>{k \<in> K. in_window (b_id c) (rolling_cutoff c at) k} -
        {k \<in> fst ` set us. in_window (b_id c) (rolling_cutoff c at) k}. load us k = 0"
      by (intro ballI load_absent) blast
  qed (use assms(1,2) in auto)
  then show ?thesis using assms(3) by (simp add: view_def)
qed

text \<open>A change that raises the load by at most n, and only under one key of the budget, raises the
  view by at most n.\<close>

lemma view_raise:
  assumes "\<And>k. fst k = b_id c \<Longrightarrow> load us' k \<le> load us k + (if k = k0 then n else 0)"
    and "b_window c = ''rolling'' \<or> fst (key_or_zero tz at c) = b_id c"
  shows "view tz us' c at \<le> view tz us c at + n"
proof (cases "b_window c = ''rolling''")
  case True
  define K where "K = fst ` set us \<union> fst ` set us' \<union> {k0}"
  define W where "W = {k \<in> K. in_window (b_id c) (rolling_cutoff c at) k}"
  have f: "finite W" by (simp add: W_def K_def)
  have "view tz us' c at = (\<Sum>k\<in>W. load us' k)" "view tz us c at = (\<Sum>k\<in>W. load us k)"
    using True unfolding W_def by (intro view_superset; auto simp: K_def)+
  moreover have "(\<Sum>k\<in>W. load us' k) \<le> (\<Sum>k\<in>W. load us k + (if k = k0 then n else 0))"
    by (rule sum_mono) (rule assms(1), simp add: W_def in_window_def)
  moreover have "(\<Sum>k\<in>W. if k = k0 then n else 0) \<le> n"
    using f by (simp add: sum.delta)
  ultimately show ?thesis by (simp add: sum.distrib)
next
  case False
  then show ?thesis
    using assms(1) [of "key_or_zero tz at c"] assms(2) by (auto simp: view_def split: if_splits)
qed

lemma view_mono_load:
  assumes "\<And>k. fst k = b_id c \<Longrightarrow> load us' k \<le> load us k"
    and "b_window c = ''rolling'' \<or> fst (key_or_zero tz at c) = b_id c"
  shows "view tz us' c at \<le> view tz us c at"
  using view_raise [of c us' us "(b_id c, 0)" 0 tz at] assms by auto

text \<open>A rolling view only shrinks while time passes.\<close>

lemma rolling_view_antimono:
  assumes "b_window c = ''rolling''" "s \<le> t"
  shows "view tz us c t \<le> view tz us c s"
proof -
  have "rolling_cutoff c s \<le> rolling_cutoff c t"
    using assms(2) by (simp add: rolling_cutoff_def unix_nano_def truncate_time_mono)
  then show ?thesis
    using assms(1) by (auto simp: view_def in_window_def intro!: sum_mono2)
qed

section \<open>The system\<close>

record 's budget_system =
  sys_manager :: "'s budget_manager"
  sys_leases :: "lease list"

datatype budget_event = Reconfigured | ReservedAt go_time | Settled

text \<open>One locked section each; the lease of a step is named by its position.\<close>

inductive budget_step ::
  "'s budget_env \<Rightarrow> 's budget_system \<Rightarrow> budget_event \<Rightarrow> 's budget_system \<Rightarrow> bool" for env where
  step_reserve: "reserve env cerr at is n m = (Inr l, m') \<Longrightarrow>
     budget_step env \<lparr>sys_manager = m, sys_leases = ls\<rparr> (ReservedAt at)
       \<lparr>sys_manager = m', sys_leases = ls @ [l]\<rparr>"
| step_refuse: "reserve env cerr at is n m = (Inl e, m') \<Longrightarrow>
     budget_step env \<lparr>sys_manager = m, sys_leases = ls\<rparr> (ReservedAt at)
       \<lparr>sys_manager = m', sys_leases = ls\<rparr>"
| step_consume: "i < length ls \<Longrightarrow> consume env cerr n (ls ! i) m = (r, l', m') \<Longrightarrow>
     budget_step env \<lparr>sys_manager = m, sys_leases = ls\<rparr> Settled
       \<lparr>sys_manager = m', sys_leases = ls[i := l']\<rparr>"
| step_close: "i < length ls \<Longrightarrow> close env (ls ! i) m = (e, l', m') \<Longrightarrow>
     budget_step env \<lparr>sys_manager = m, sys_leases = ls\<rparr> Settled
       \<lparr>sys_manager = m', sys_leases = ls[i := l']\<rparr>"
| step_put: "put_config env cerr c expected m = (r, m') \<Longrightarrow>
     budget_step env \<lparr>sys_manager = m, sys_leases = ls\<rparr> Reconfigured
       \<lparr>sys_manager = m', sys_leases = ls\<rparr>"
| step_delete: "delete_config env cerr i expected m = (e, m') \<Longrightarrow>
     budget_step env \<lparr>sys_manager = m, sys_leases = ls\<rparr> Reconfigured
       \<lparr>sys_manager = m', sys_leases = ls\<rparr>"

inductive budget_reachable :: "'s budget_env \<Rightarrow> 's budget_manager \<Rightarrow> 's budget_system \<Rightarrow> bool"
  for env m0 where
  reach_init: "budget_reachable env m0 \<lparr>sys_manager = m0, sys_leases = []\<rparr>"
| reach_step: "budget_reachable env m0 s \<Longrightarrow> budget_step env s ev s' \<Longrightarrow> budget_reachable env m0 s'"

section \<open>The ledger invariant\<close>

definition lease_keys :: "zones \<Rightarrow> lease \<Rightarrow> usage_key list" where
  "lease_keys tz l = map (key_or_zero tz (l_at l)) (l_configs l)"

definition lease_load :: "zones \<Rightarrow> usage_key \<Rightarrow> lease \<Rightarrow> nat" where
  "lease_load tz k l = (if k \<in> set (lease_keys tz l) then unat (l_remaining l) else 0)"

definition configs_ok :: "zones \<Rightarrow> 's budget_manager \<Rightarrow> bool" where
  "configs_ok tz m = (\<forall>i c. map_of (bm_configs m) i = Some c \<longrightarrow> b_id c = i \<and> budget_validate tz c = None)"

definition ledger_ok :: "'s budget_env \<Rightarrow> 's budget_system \<Rightarrow> bool" where
  "ledger_ok env s = (let m = sys_manager s; us = bm_usage m in
     bm_store m = None \<and> configs_ok (be_zones env) m \<and> distinct (keys_of us) \<and>
     (\<forall>l\<in>set (sys_leases s). distinct (lease_keys (be_zones env) l)) \<and>
     (\<forall>k. unat (reserved (get_usage us k)) =
            sum_list (map (lease_load (be_zones env) k) (sys_leases s))) \<and>
     (\<forall>k. load us k < 2 ^ 63))"

lemma sum_list_replace:
  fixes f :: "'a \<Rightarrow> nat"
  shows "i < length xs \<Longrightarrow> sum_list (map f (xs[i := y])) + f (xs ! i) = sum_list (map f xs) + f y"
  by (induction xs arbitrary: i) (auto split: nat.splits simp: less_Suc_eq_0_disj)

lemma sum_list_member_le:
  fixes f :: "'a \<Rightarrow> nat"
  shows "i < length xs \<Longrightarrow> f (xs ! i) \<le> sum_list (map f xs)"
  by (simp add: member_le_sum_list)

lemma put_config_frame:
  assumes "put_config env cerr c expected m = (r, m')" "bm_store m = None"
    "configs_ok (be_zones env) m"
  shows "bm_store m' = None" "bm_usage m' = bm_usage m" "configs_ok (be_zones env) m'"
  using assms by (auto simp: put_config_def configs_ok_def map_simps split: if_splits option.splits)

lemma delete_config_frame:
  assumes "delete_config env cerr i expected m = (e, m')" "bm_store m = None"
    "configs_ok (be_zones env) m"
  shows "bm_store m' = None" "bm_usage m' = bm_usage m" "configs_ok (be_zones env) m'"
  using assms
  by (auto simp: delete_config_def configs_ok_def map_simps split: if_splits option.splits)

text \<open>What a successful check of Reserve has established.\<close>

lemma reserve_check_ok:
  assumes "bm_store m = None" "configs_ok (be_zones env) m" "distinct (keys_of (bm_usage m))"
  shows "reserve_check env m at n seen is = Inr cs \<Longrightarrow>
    map b_id cs = is \<and> distinct is \<and> set is \<inter> set seen = {} \<and>
    (\<forall>c\<in>set cs. map_of (bm_configs m) (b_id c) = Some c \<and> budget_validate (be_zones env) c = None \<and>
       at \<noteq> 0 \<and> view (be_zones env) (bm_usage m) c at + unat n \<le> unat (b_limit c))"
proof (induction "is" arbitrary: seen cs)
  case (Cons i "is")
  then obtain c where c: "i \<notin> set seen" "map_of (bm_configs m) i = Some c"
    by (auto split: if_splits option.splits)
  then have v: "b_id c = i" "budget_validate (be_zones env) c = None"
    using assms(2) by (auto simp: configs_ok_def)
  obtain u cs' where u: "usage_locked env m c at = Inr u" "\<not> would_exceed u n (b_limit c)"
      "reserve_check env m at n (i # seen) is = Inr cs'" "cs = c # cs'"
    using Cons.prems c assms(1) validated_hard [OF v(2)]
    by (auto split: if_splits option.splits sum.splits)
  show ?case
    using Cons.IH [OF u(3)] u c v usage_locked_view [OF assms(1,3) u(1)]
    by (auto simp: would_exceed_iff not_less)
qed simp

lemma reserve_ok:
  assumes "reserve env cerr at is n m = (Inr l, m')" "bm_store m = None"
    "configs_ok (be_zones env) m" "distinct (keys_of (bm_usage m))"
  obtains cs where "l = \<lparr>l_configs = cs, l_at = at, l_remaining = n, l_closed = False\<rparr>"
    "m' = m\<lparr>bm_usage := touch_usage (add_reserved n) (lease_keys (be_zones env) l) (bm_usage m)\<rparr>"
    "distinct (lease_keys (be_zones env) l)" "map b_id cs = is"
    "\<And>c. c \<in> set cs \<Longrightarrow> map_of (bm_configs m) (b_id c) = Some c"
    "\<And>c. c \<in> set cs \<Longrightarrow> budget_validate (be_zones env) c = None" "is \<noteq> [] \<Longrightarrow> at \<noteq> 0"
    "\<And>c. c \<in> set cs \<Longrightarrow> view (be_zones env) (bm_usage m) c at + unat n \<le> unat (b_limit c)"
    "is \<noteq> []" "n \<noteq> 0" "n \<le> bm_max_reservation m" "cerr = None"
proof -
  obtain cs where cs: "reserve_check env m at n [] is = Inr cs"
    "l = \<lparr>l_configs = cs, l_at = at, l_remaining = n, l_closed = False\<rparr>"
    "m' = m\<lparr>bm_usage := touch_usage (add_reserved n) (lease_keys (be_zones env) l) (bm_usage m)\<rparr>"
    "is \<noteq> []" "n \<noteq> 0" "n \<le> bm_max_reservation m" "cerr = None"
    using assms(1,2)
    by (auto simp: reserve_def Let_def lease_keys_def split: option.splits if_splits sum.splits)
  note ok = reserve_check_ok [OF assms(2-4) cs(1)]
  then have at: "at \<noteq> 0" using cs(4) by (cases cs) auto
  have "map fst (lease_keys (be_zones env) l) = map b_id cs"
    using ok usage_key_valid by (auto simp: lease_keys_def cs(2))
  then have "distinct (lease_keys (be_zones env) l)"
    using ok by (metis distinct_map)
  then show ?thesis using that cs ok at by blast
qed

lemma consume_ok:
  assumes "consume env cerr n l m = (r, l', m')" "bm_store m = None"
  shows "(r = (0, snd r) \<and> snd r \<noteq> None \<and> l' = l \<and> m' = m \<and> (cerr \<noteq> None \<or> l_closed l)) \<or>
    (cerr = None \<and> \<not> l_closed l \<and>
     r = (min n (l_remaining l), if min n (l_remaining l) < n then Some BudgetErrExceeded else None) \<and>
     l' = l\<lparr>l_remaining := l_remaining l - min n (l_remaining l)\<rparr> \<and>
     m' = m\<lparr>bm_usage := touch_usage (move_used (min n (l_remaining l)))
       (lease_keys (be_zones env) l) (bm_usage m)\<rparr>)"
  using assms by (auto simp: consume_def Let_def lease_keys_def split: option.splits if_splits)

lemma close_ok:
  assumes "close env l m = (e, l', m')" "bm_store m = None"
  shows "(l_closed l \<and> e = Some BudgetErrClosed \<and> l' = l \<and> m' = m) \<or>
    (\<not> l_closed l \<and> e = None \<and> l' = l\<lparr>l_remaining := 0, l_closed := True\<rparr> \<and>
     m' = m\<lparr>bm_usage := touch_usage (drop_reserved (l_remaining l))
       (lease_keys (be_zones env) l) (bm_usage m)\<rparr>)"
  using assms by (auto simp: close_def Let_def lease_keys_def split: if_splits)

section \<open>Effects on one key\<close>

lemma add_reserved_exact:
  "unat (used u) + unat (reserved u) + unat n < 2 ^ 64 \<Longrightarrow>
     unat (reserved (add_reserved n u)) = unat (reserved u) + unat n \<and>
     used (add_reserved n u) = used u"
  by (simp add: add_reserved_def unat_add_exact)

lemma move_used_exact:
  assumes "unat n \<le> unat (reserved u)" "unat (used u) + unat (reserved u) < 2 ^ 64"
  shows "unat (reserved (move_used n u)) = unat (reserved u) - unat n"
    "unat (used (move_used n u)) = unat (used u) + unat n"
  using assms by (simp_all add: move_used_def unat_add_exact unat_diff_le word_le_nat_alt)

lemma drop_reserved_exact:
  assumes "unat n \<le> unat (reserved u)"
  shows "unat (reserved (drop_reserved n u)) = unat (reserved u) - unat n"
    "used (drop_reserved n u) = used u"
  using assms by (simp_all add: drop_reserved_def unat_diff_le word_le_nat_alt)

lemma ledger_okD:
  assumes "ledger_ok env s"
  shows "bm_store (sys_manager s) = None" "configs_ok (be_zones env) (sys_manager s)"
    "distinct (keys_of (bm_usage (sys_manager s)))"
    "l \<in> set (sys_leases s) \<Longrightarrow> distinct (lease_keys (be_zones env) l)"
    "unat (reserved (get_usage (bm_usage (sys_manager s)) k)) =
       sum_list (map (lease_load (be_zones env) k) (sys_leases s))"
    "load (bm_usage (sys_manager s)) k < 2 ^ 63"
  using assms unfolding ledger_ok_def Let_def by blast+

lemma ledger_okI:
  assumes "bm_store (sys_manager s) = None" "configs_ok (be_zones env) (sys_manager s)"
    "distinct (keys_of (bm_usage (sys_manager s)))"
    "\<And>l. l \<in> set (sys_leases s) \<Longrightarrow> distinct (lease_keys (be_zones env) l)"
    "\<And>k. unat (reserved (get_usage (bm_usage (sys_manager s)) k)) =
       sum_list (map (lease_load (be_zones env) k) (sys_leases s))"
    "\<And>k. load (bm_usage (sys_manager s)) k < 2 ^ 63"
  shows "ledger_ok env s"
  using assms unfolding ledger_ok_def Let_def by blast

lemma ledger_lease_covered:
  assumes "ledger_ok env s" "i < length (sys_leases s)"
    "k \<in> set (lease_keys (be_zones env) (sys_leases s ! i))"
  shows "unat (l_remaining (sys_leases s ! i)) \<le>
    unat (reserved (get_usage (bm_usage (sys_manager s)) k))"
  using sum_list_member_le [OF assms(2), of "lease_load (be_zones env) k"] assms(3)
  by (simp add: ledger_okD(5) [OF assms(1)] lease_load_def)

section \<open>Preservation\<close>

text \<open>Changing one lease and the usage under its keys keeps the ledger when the reserved bytes fall
  by what the lease gives up.\<close>

lemma ledger_settle:
  assumes ok: "ledger_ok env \<lparr>sys_manager = m, sys_leases = ls\<rparr>" and i: "i < length ls"
    and l': "lease_keys (be_zones env) l' = lease_keys (be_zones env) (ls ! i)"
    and r: "\<And>u. unat (l_remaining (ls ! i)) \<le> unat (reserved u) \<Longrightarrow>
        unat (used u) + unat (reserved u) < 2 ^ 63 \<Longrightarrow>
        unat (reserved (f u)) + unat (l_remaining (ls ! i)) = unat (reserved u) + unat (l_remaining l') \<and>
        unat (used (f u)) + unat (reserved (f u)) \<le> unat (used u) + unat (reserved u)"
  defines "m' \<equiv> m\<lparr>bm_usage := touch_usage f (lease_keys (be_zones env) (ls ! i)) (bm_usage m)\<rparr>"
  shows "ledger_ok env \<lparr>sys_manager = m', sys_leases = ls[i := l']\<rparr>"
    and "load (bm_usage m') k \<le> load (bm_usage m) k"
proof -
  let ?tz = "be_zones env" and ?us = "bm_usage m"
  let ?K = "lease_keys ?tz (ls ! i)"
  have d: "distinct ?K" using ledger_okD(4) [OF ok, of "ls ! i"] i by simp
  have b: "load ?us k < 2 ^ 63" for k using ledger_okD(6) [OF ok] by simp
  have u: "get_usage (bm_usage m') k = (if k \<in> set ?K then f (get_usage ?us k) else get_usage ?us k)" for k
    using d by (simp add: m'_def get_usage_touch)
  have eff: "unat (reserved (f (get_usage ?us k))) + unat (l_remaining (ls ! i)) =
        unat (reserved (get_usage ?us k)) + unat (l_remaining l') \<and>
      unat (used (f (get_usage ?us k))) + unat (reserved (f (get_usage ?us k))) \<le> load ?us k"
    if "k \<in> set ?K" for k
    using r [of "get_usage ?us k"] ledger_lease_covered [OF ok] i that b [of k]
    by (simp add: load_def)
  show le: "load (bm_usage m') k \<le> load ?us k" for k
    using eff [of k] u [of k] by (auto simp: load_def)
  have res: "unat (reserved (get_usage (bm_usage m') k)) =
      sum_list (map (lease_load ?tz k) (ls[i := l']))" for k
  proof -
    have "unat (reserved (get_usage ?us k)) = sum_list (map (lease_load ?tz k) ls)"
      using ledger_okD(5) [OF ok] by simp
    then show ?thesis
      using sum_list_replace [OF i, of "lease_load ?tz k" l'] u [of k] eff [of k] l'
      by (auto simp: lease_load_def split: if_splits)
  qed
  show "ledger_ok env \<lparr>sys_manager = m', sys_leases = ls[i := l']\<rparr>"
  proof (rule ledger_okI, goal_cases)
    case (4 l)
    then show ?case
      using d l' ledger_okD(4) [OF ok, of l] set_update_subset_insert [of ls i l'] by auto
  next
    case (6 k)
    then show ?case using le [of k] b [of k] by simp
  qed (use ledger_okD(1-3) [OF ok] res in
    \<open>simp_all add: m'_def touch_distinct configs_ok_def\<close>)
qed

lemma reserve_load:
  assumes "reserve env cerr at is n m = (Inr l, m')" "bm_store m = None"
    "configs_ok (be_zones env) m" "distinct (keys_of (bm_usage m))"
  shows "load (bm_usage m') k =
      load (bm_usage m) k + (if k \<in> set (lease_keys (be_zones env) l) then unat n else 0)"
    and "unat (reserved (get_usage (bm_usage m') k)) = unat (reserved (get_usage (bm_usage m) k)) +
      (if k \<in> set (lease_keys (be_zones env) l) then unat n else 0)"
    and "k \<in> set (lease_keys (be_zones env) l) \<Longrightarrow> load (bm_usage m') k < 2 ^ 63"
proof -
  let ?tz = "be_zones env" and ?us = "bm_usage m"
  obtain cs where cs: "l = \<lparr>l_configs = cs, l_at = at, l_remaining = n, l_closed = False\<rparr>"
    "m' = m\<lparr>bm_usage := touch_usage (add_reserved n) (lease_keys ?tz l) ?us\<rparr>"
    "distinct (lease_keys ?tz l)" "at \<noteq> 0"
    "\<And>c. c \<in> set cs \<Longrightarrow> budget_validate ?tz c = None"
    "\<And>c. c \<in> set cs \<Longrightarrow> view ?tz ?us c at + unat n \<le> unat (b_limit c)"
    by (rule reserve_ok [OF assms]) blast
  have g: "get_usage (bm_usage m') k =
      (if k \<in> set (lease_keys ?tz l) then add_reserved n (get_usage ?us k) else get_usage ?us k)"
    using cs(2,3) by (simp add: get_usage_touch)
  have b: "load ?us k + unat n < 2 ^ 63" if "k \<in> set (lease_keys ?tz l)"
  proof -
    obtain c where c: "c \<in> set cs" "k = key_or_zero ?tz at c"
      using \<open>k \<in> set (lease_keys ?tz l)\<close> by (auto simp: lease_keys_def cs(1))
    then have "load ?us k \<le> view ?tz ?us c at"
      using load_le_view [OF cs(5) cs(4)] by simp
    then show ?thesis using cs(6) [OF c(1)] validated_limit [OF cs(5) [OF c(1)]] by simp
  qed
  note add_reserved_exact [of "get_usage ?us k" n]
  then show load: "load (bm_usage m') k = load ?us k + (if k \<in> set (lease_keys ?tz l) then unat n else 0)"
    and "unat (reserved (get_usage (bm_usage m') k)) = unat (reserved (get_usage ?us k)) +
      (if k \<in> set (lease_keys ?tz l) then unat n else 0)"
    using g b by (auto simp: load_def)
  show "k \<in> set (lease_keys ?tz l) \<Longrightarrow> load (bm_usage m') k < 2 ^ 63"
    using load b by simp
qed

lemma ledger_reserve:
  assumes ok: "ledger_ok env \<lparr>sys_manager = m, sys_leases = ls\<rparr>"
    and r: "reserve env cerr at is n m = (Inr l, m')"
  shows "ledger_ok env \<lparr>sys_manager = m', sys_leases = ls @ [l]\<rparr>"
proof -
  note D = ledger_okD [OF ok, simplified]
  obtain cs where cs: "l = \<lparr>l_configs = cs, l_at = at, l_remaining = n, l_closed = False\<rparr>"
    "m' = m\<lparr>bm_usage := touch_usage (add_reserved n) (lease_keys (be_zones env) l) (bm_usage m)\<rparr>"
    "distinct (lease_keys (be_zones env) l)"
    by (rule reserve_ok [OF r D(1-3)]) blast
  note ld = reserve_load [OF r D(1-3)]
  show ?thesis
  proof (rule ledger_okI, goal_cases)
    case (5 k)
    then show ?case using ld(2) [of k] D(5) [of k] cs(1) by (auto simp: lease_load_def)
  next
    case (6 k)
    then show ?case
      using ld(1,3) [of k] D(6) [of k] by (cases "k \<in> set (lease_keys (be_zones env) l)") auto
  qed (use D(1-4) cs in \<open>auto simp: touch_distinct configs_ok_def\<close>)
qed

lemma reserve_refused: "reserve env cerr at is n m = (Inl e, m') \<Longrightarrow> bm_store m = None \<Longrightarrow> m' = m"
  by (auto simp: reserve_def Let_def split: option.splits if_splits sum.splits)

lemma ledger_consume:
  assumes ok: "ledger_ok env \<lparr>sys_manager = m, sys_leases = ls\<rparr>" and i: "i < length ls"
    and c: "consume env cerr n (ls ! i) m = (r, l', m')"
  shows "ledger_ok env \<lparr>sys_manager = m', sys_leases = ls[i := l']\<rparr>"
    "load (bm_usage m') k \<le> load (bm_usage m) k" "bm_configs m' = bm_configs m"
proof -
  let ?a = "min n (l_remaining (ls ! i))"
  have a: "unat ?a \<le> unat (l_remaining (ls ! i))" by (simp add: word_le_nat_alt [symmetric])
  have ans: "ledger_ok env \<lparr>sys_manager = m', sys_leases = ls[i := l']\<rparr> \<and>
      (\<forall>k. load (bm_usage m') k \<le> load (bm_usage m) k) \<and> bm_configs m' = bm_configs m"
  proof (rule disjE [OF consume_ok [OF c ledger_okD(1) [OF ok, simplified]]])
    assume "r = (0, snd r) \<and> snd r \<noteq> None \<and> l' = ls ! i \<and> m' = m \<and> (cerr \<noteq> None \<or> l_closed (ls ! i))"
    then show ?thesis using ok by simp
  next
    assume "cerr = None \<and> \<not> l_closed (ls ! i) \<and>
     r = (?a, if ?a < n then Some BudgetErrExceeded else None) \<and>
     l' = (ls ! i)\<lparr>l_remaining := l_remaining (ls ! i) - ?a\<rparr> \<and>
     m' = m\<lparr>bm_usage := touch_usage (move_used ?a) (lease_keys (be_zones env) (ls ! i)) (bm_usage m)\<rparr>"
    then have e: "l' = (ls ! i)\<lparr>l_remaining := l_remaining (ls ! i) - ?a\<rparr>"
      "m' = m\<lparr>bm_usage := touch_usage (move_used ?a) (lease_keys (be_zones env) (ls ! i)) (bm_usage m)\<rparr>"
      by auto
    have k: "lease_keys (be_zones env) l' = lease_keys (be_zones env) (ls ! i)"
      using e(1) by (simp add: lease_keys_def)
    have f: "unat (reserved (move_used ?a u)) + unat (l_remaining (ls ! i)) =
          unat (reserved u) + unat (l_remaining l') \<and>
        unat (used (move_used ?a u)) + unat (reserved (move_used ?a u)) \<le> unat (used u) + unat (reserved u)"
      if "unat (l_remaining (ls ! i)) \<le> unat (reserved u)" "unat (used u) + unat (reserved u) < 2 ^ 63" for u
      using a move_used_exact [of ?a u] that e(1)
      by (simp add: unat_diff_le word_le_nat_alt)
    show ?thesis
      using ledger_settle [OF ok i k f, folded e(2)] e(2) by auto
  qed
  then show "ledger_ok env \<lparr>sys_manager = m', sys_leases = ls[i := l']\<rparr>"
    "load (bm_usage m') k \<le> load (bm_usage m) k" "bm_configs m' = bm_configs m" by blast+
qed

lemma ledger_close:
  assumes ok: "ledger_ok env \<lparr>sys_manager = m, sys_leases = ls\<rparr>" and i: "i < length ls"
    and c: "close env (ls ! i) m = (e, l', m')"
  shows "ledger_ok env \<lparr>sys_manager = m', sys_leases = ls[i := l']\<rparr>"
    "load (bm_usage m') k \<le> load (bm_usage m) k" "bm_configs m' = bm_configs m"
proof -
  let ?r = "l_remaining (ls ! i)"
  have ans: "ledger_ok env \<lparr>sys_manager = m', sys_leases = ls[i := l']\<rparr> \<and>
      (\<forall>k. load (bm_usage m') k \<le> load (bm_usage m) k) \<and> bm_configs m' = bm_configs m"
  proof (rule disjE [OF close_ok [OF c ledger_okD(1) [OF ok, simplified]]])
    assume "l_closed (ls ! i) \<and> e = Some BudgetErrClosed \<and> l' = ls ! i \<and> m' = m"
    then show ?thesis using ok by simp
  next
    assume "\<not> l_closed (ls ! i) \<and> e = None \<and> l' = (ls ! i)\<lparr>l_remaining := 0, l_closed := True\<rparr> \<and>
      m' = m\<lparr>bm_usage := touch_usage (drop_reserved ?r) (lease_keys (be_zones env) (ls ! i)) (bm_usage m)\<rparr>"
    then have e: "l' = (ls ! i)\<lparr>l_remaining := 0, l_closed := True\<rparr>"
      "m' = m\<lparr>bm_usage := touch_usage (drop_reserved ?r) (lease_keys (be_zones env) (ls ! i)) (bm_usage m)\<rparr>"
      by auto
    have k: "lease_keys (be_zones env) l' = lease_keys (be_zones env) (ls ! i)"
      using e(1) by (simp add: lease_keys_def)
    have f: "unat (reserved (drop_reserved ?r u)) + unat ?r = unat (reserved u) + unat (l_remaining l') \<and>
        unat (used (drop_reserved ?r u)) + unat (reserved (drop_reserved ?r u))
          \<le> unat (used u) + unat (reserved u)"
      if "unat ?r \<le> unat (reserved u)" for u
      using drop_reserved_exact [OF that] that e(1) by simp
    show ?thesis
      using ledger_settle [OF ok i k f, folded e(2)] e(2) by auto
  qed
  then show "ledger_ok env \<lparr>sys_manager = m', sys_leases = ls[i := l']\<rparr>"
    "load (bm_usage m') k \<le> load (bm_usage m) k" "bm_configs m' = bm_configs m" by blast+
qed

lemma ledger_step: "budget_step env s ev s' \<Longrightarrow> ledger_ok env s \<Longrightarrow> ledger_ok env s'"
proof (induction rule: budget_step.induct)
  case (step_refuse cerr at "is" n m e m' ls)
  then show ?case using reserve_refused ledger_okD(1) by fastforce
next
  case (step_put cerr c expected m r m' ls)
  note D = ledger_okD [OF step_put(2), simplified]
  from put_config_frame [OF step_put(1) D(1,2)] show ?case
    using D by (intro ledger_okI) auto
next
  case (step_delete cerr i expected m e m' ls)
  note D = ledger_okD [OF step_delete(2), simplified]
  from delete_config_frame [OF step_delete(1) D(1,2)] show ?case
    using D by (intro ledger_okI) auto
qed (auto intro: ledger_reserve ledger_consume ledger_close)

section \<open>Fresh managers\<close>

lemma load_configs_ok:
  "load_configs tz cs acc = Inr r \<Longrightarrow>
     (\<forall>i c. map_of acc i = Some c \<longrightarrow> b_id c = i \<and> budget_validate tz c = None) \<Longrightarrow>
     (\<forall>i c. map_of r i = Some c \<longrightarrow> b_id c = i \<and> budget_validate tz c = None)"
proof (induction cs arbitrary: acc)
  case (Cons d cs)
  from Cons.prems(1) have d: "budget_validate tz d = None"
      "load_configs tz cs (AList.update (b_id d) d acc) = Inr r"
    by (auto split: if_splits)
  have "map_of (AList.update (b_id d) d acc) i = Some c \<Longrightarrow>
      (i = b_id d \<and> c = d) \<or> map_of acc i = Some c" for i c
    by (simp add: map_simps split: if_splits)
  then have "\<forall>i c. map_of (AList.update (b_id d) d acc) i = Some c \<longrightarrow>
      b_id c = i \<and> budget_validate tz c = None"
    using Cons.prems(2) d(1) by blast
  then show ?case by (rule Cons.IH [OF d(2)])
qed simp

lemma new_persistent_memory:
  assumes "new_persistent env cs n None = Inr m"
  shows "bm_store m = None" "configs_ok (be_zones env) m" "bm_usage m = []"
  using assms load_configs_ok [of "be_zones env" cs "[]"]
  by (auto simp: new_persistent_def configs_ok_def split: if_splits sum.splits)

lemma ledger_init:
  assumes "new_persistent env cs n None = Inr m"
  shows "ledger_ok env \<lparr>sys_manager = m, sys_leases = []\<rparr>"
  using new_persistent_memory [OF assms]
  by (intro ledger_okI) (auto simp: load_def get_usage_def empty_usage_def)

lemma budget_reachable_ledger:
  "budget_reachable env m0 s \<Longrightarrow> new_persistent env cs n None = Inr m0 \<Longrightarrow> ledger_ok env s"
  by (induction rule: budget_reachable.induct) (auto intro: ledger_init ledger_step)

section \<open>Runs with fixed limits\<close>

text \<open>A run in which no configuration changes and the clock of the reservations does not go back,
  with the last reading of that clock.\<close>

inductive fixed_run :: "'s budget_env \<Rightarrow> 's budget_system \<Rightarrow> go_time \<Rightarrow> 's budget_system \<Rightarrow> bool"
  for env s0 where
  run_start: "fixed_run env s0 t s0"
| run_reserve: "fixed_run env s0 t s \<Longrightarrow> budget_step env s (ReservedAt at) s' \<Longrightarrow> t \<le> at \<Longrightarrow>
     fixed_run env s0 at s'"
| run_settle: "fixed_run env s0 t s \<Longrightarrow> budget_step env s Settled s' \<Longrightarrow> fixed_run env s0 t s'"

inductive_cases settled_cases: "budget_step env s Settled s'"
inductive_cases reserved_cases: "budget_step env s (ReservedAt at) s'"

definition within_limits :: "zones \<Rightarrow> 's budget_manager \<Rightarrow> go_time \<Rightarrow> bool" where
  "within_limits tz m t = (\<forall>i c at. map_of (bm_configs m) i = Some c \<longrightarrow> t \<le> at \<longrightarrow> at \<noteq> 0 \<longrightarrow>
     view tz (bm_usage m) c at \<le> unat (b_limit c))"

lemma within_limitsD:
  "within_limits tz m t \<Longrightarrow> map_of (bm_configs m) i = Some c \<Longrightarrow> t \<le> at \<Longrightarrow> at \<noteq> 0 \<Longrightarrow>
     view tz (bm_usage m) c at \<le> unat (b_limit c)"
  unfolding within_limits_def by blast

lemma config_key:
  assumes "configs_ok tz m" "map_of (bm_configs m) i = Some c" "at \<noteq> 0"
  shows "fst (key_or_zero tz at c) = b_id c"
  using assms usage_key_valid by (auto simp: configs_ok_def)

lemma within_limits_settle:
  assumes "within_limits tz m t" "bm_configs m' = bm_configs m" "configs_ok tz m"
    "\<And>k. load (bm_usage m') k \<le> load (bm_usage m) k"
  shows "within_limits tz m' t"
  unfolding within_limits_def
proof (intro allI impI)
  fix i c at assume c: "map_of (bm_configs m') i = Some c" "t \<le> at" "at \<noteq> 0"
  then have "fst (key_or_zero tz at c) = b_id c" using assms(2,3) config_key by metis
  then have "view tz (bm_usage m') c at \<le> view tz (bm_usage m) c at"
    by (intro view_mono_load assms(4)) simp
  then show "view tz (bm_usage m') c at \<le> unat (b_limit c)"
    using within_limitsD [OF assms(1) _ c(2,3)] c(1) assms(2) by fastforce
qed

lemma within_limits_reserve:
  assumes "reserve env cerr at is n m = (Inr l, m')" "bm_store m = None"
    "configs_ok (be_zones env) m" "distinct (keys_of (bm_usage m))"
    "within_limits (be_zones env) m t" "t \<le> at"
  shows "within_limits (be_zones env) m' at"
  unfolding within_limits_def
proof (intro allI impI)
  fix i c at' assume c: "map_of (bm_configs m') i = Some c" "at \<le> at'" "at' \<noteq> 0"
  let ?tz = "be_zones env" and ?us = "bm_usage m" and ?us' = "bm_usage m'"
  obtain cs where cs: "l = \<lparr>l_configs = cs, l_at = at, l_remaining = n, l_closed = False\<rparr>"
    "m' = m\<lparr>bm_usage := touch_usage (add_reserved n) (lease_keys ?tz l) ?us\<rparr>" "at \<noteq> 0"
    "\<And>c. c \<in> set cs \<Longrightarrow> map_of (bm_configs m) (b_id c) = Some c"
    "\<And>c. c \<in> set cs \<Longrightarrow> view ?tz ?us c at + unat n \<le> unat (b_limit c)"
    by (rule reserve_ok [OF assms(1-4)]) blast
  have ci: "map_of (bm_configs m) i = Some c" "b_id c = i" "fst (key_or_zero ?tz at' c) = b_id c"
    "fst (key_or_zero ?tz at c) = b_id c"
    using c(1,3) cs(2,3) assms(3) config_key [OF assms(3)] by (auto simp: configs_ok_def)
  have touched: "c \<in> set cs \<and> k = key_or_zero ?tz at c"
    if k: "k \<in> set (lease_keys ?tz l)" "fst k = b_id c" for k
  proof -
    obtain c' where c': "c' \<in> set cs" "k = key_or_zero ?tz at c'"
      using k(1) by (auto simp: lease_keys_def cs(1))
    then have "b_id c' = b_id c"
      using k(2) config_key [OF assms(3) cs(4) cs(3)] by simp
    then have "c' = c" using cs(4) [OF c'(1)] ci(1,2) by simp
    then show ?thesis using c' by simp
  qed
  note ld = reserve_load(1) [OF assms(1-4)]
  show "view ?tz ?us' c at' \<le> unat (b_limit c)"
  proof (cases "c \<in> set cs")
    case True
    have le: "load ?us' k \<le> load ?us k + (if k = key_or_zero ?tz at c then unat n else 0)"
      if "fst k = b_id c" for k
      using ld [of k] touched [OF _ that] by auto
    have at: "view ?tz ?us' c at \<le> unat (b_limit c)"
      using view_raise [where tz = ?tz and at = at, OF le] ci(4) cs(5) [OF True] by fastforce
    show ?thesis
    proof (cases "b_window c = ''rolling'' \<or> key_or_zero ?tz at' c = key_or_zero ?tz at c")
      case True
      then show ?thesis
        using at rolling_view_antimono [OF _ c(2), of c ?tz ?us']
        by (auto simp: view_def split: if_splits)
    next
      case False
      then have "view ?tz ?us' c at' \<le> view ?tz ?us c at'"
        using le [OF ci(3)] by (simp add: view_def)
      moreover have "view ?tz ?us c at' \<le> unat (b_limit c)"
        using assms(6) c(2) by (intro within_limitsD [OF assms(5) ci(1) _ c(3)]) simp
      ultimately show ?thesis by simp
    qed
  next
    case False
    then have "view ?tz ?us' c at' \<le> view ?tz ?us c at'"
      using ld touched ci(3) by (intro view_mono_load) (metis add_0_right order_refl)+
    moreover have "view ?tz ?us c at' \<le> unat (b_limit c)"
      using assms(6) c(2) by (intro within_limitsD [OF assms(5) ci(1) _ c(3)]) simp
    ultimately show ?thesis by simp
  qed
qed

lemma within_limits_later: "within_limits tz m t \<Longrightarrow> t \<le> t' \<Longrightarrow> within_limits tz m t'"
  by (fastforce simp: within_limits_def)

lemma fixed_run_within_limits:
  assumes "fixed_run env s0 t s" "ledger_ok env s0"
    "\<And>t'. within_limits (be_zones env) (sys_manager s0) t'"
  shows "ledger_ok env s \<and> within_limits (be_zones env) (sys_manager s) t"
  using assms(1)
proof (induction rule: fixed_run.induct)
  case (run_start t)
  then show ?case using assms by blast
next
  case (run_reserve t s at s')
  then have ok: "ledger_ok env s'" using ledger_step by blast
  note D = ledger_okD [of env s]
  from run_reserve(2) have "within_limits (be_zones env) (sys_manager s') at"
  proof (rule reserved_cases)
    fix cerr "is" n m l m' ls
    assume s: "s = \<lparr>sys_manager = m, sys_leases = ls\<rparr>"
      "s' = \<lparr>sys_manager = m', sys_leases = ls @ [l]\<rparr>" "reserve env cerr at is n m = (Inr l, m')"
    then show ?thesis
      using within_limits_reserve [OF s(3), of t] D run_reserve by simp
  next
    fix cerr "is" n m e m' ls
    assume s: "s = \<lparr>sys_manager = m, sys_leases = ls\<rparr>"
      "s' = \<lparr>sys_manager = m', sys_leases = ls\<rparr>" "reserve env cerr at is n m = (Inl e, m')"
    then show ?thesis
      using reserve_refused [OF s(3)] D run_reserve within_limits_later [of "be_zones env" m t at]
      by simp
  qed
  then show ?case using ok by blast
next
  case (run_settle t s s')
  then have ok: "ledger_ok env s'" using ledger_step by blast
  have okm: "ledger_ok env s" using run_settle by blast
  from run_settle(2) have "within_limits (be_zones env) (sys_manager s') t"
  proof (rule settled_cases)
    fix i ls cerr n m r l' m'
    assume s: "s = \<lparr>sys_manager = m, sys_leases = ls\<rparr>"
      "s' = \<lparr>sys_manager = m', sys_leases = ls[i := l']\<rparr>" "i < length ls"
      "consume env cerr n (ls ! i) m = (r, l', m')"
    note c = ledger_consume [OF okm [unfolded s(1)] s(3,4)]
    show ?thesis
      using within_limits_settle [OF _ c(3) _ c(2)] run_settle(3) ledger_okD(2) [OF okm] s by simp
  next
    fix i ls m e l' m'
    assume s: "s = \<lparr>sys_manager = m, sys_leases = ls\<rparr>"
      "s' = \<lparr>sys_manager = m', sys_leases = ls[i := l']\<rparr>" "i < length ls"
      "close env (ls ! i) m = (e, l', m')"
    note c = ledger_close [OF okm [unfolded s(1)] s(3,4)]
    show ?thesis
      using within_limits_settle [OF _ c(3) _ c(2)] run_settle(3) ledger_okD(2) [OF okm] s by simp
  qed
  then show ?case using ok by blast
qed

section \<open>When a reservation is granted\<close>

lemma rolling_total_fails:
  "rolling_total i cutoff us acc = Inl e \<Longrightarrow> e = TrafficErrOverflow \<and>
     2 ^ 64 \<le> unat (used acc) + unat (reserved acc) +
       sum_list (map (\<lambda>(k, u). unat (used u) + unat (reserved u)) (filter (in_window i cutoff \<circ> fst) us))"
proof (induction us arbitrary: acc)
  case (Cons x us)
  obtain k u where x: "x = (k, u)" by fastforce
  show ?case
  proof (cases "fst k \<noteq> i \<or> snd k < cutoff")
    case True
    then show ?thesis using Cons x by (auto simp: in_window_def)
  next
    case False
    show ?thesis
    proof (cases "bytes_add (used acc) (used u)")
      case (Inl e1)
      then show ?thesis using Cons.prems False x bytes_add_Inl [THEN iffD1, OF Inl]
        by (auto simp: in_window_def)
    next
      case a: (Inr a)
      show ?thesis
      proof (cases "bytes_add (reserved acc) (reserved u)")
        case (Inl e1)
        then show ?thesis using Cons.prems False x a bytes_add_Inl [THEN iffD1, OF Inl]
          by (auto simp: in_window_def)
      next
        case (Inr b)
        then have "rolling_total i cutoff us \<lparr>used = a, reserved = b\<rparr> = Inl e"
          using Cons.prems False x a by simp
        from Cons.IH [OF this] show ?thesis
          using False x bytes_add_unat [OF a] bytes_add_unat [OF Inr]
          by (auto simp: in_window_def)
      qed
    qed
  qed
qed simp

lemma usage_locked_total:
  assumes "bm_store m = None" "distinct (keys_of (bm_usage m))"
    "budget_validate (be_zones env) c = None" "at \<noteq> 0"
  shows "usage_locked env m c at = Inl TrafficErrOverflow \<and> 2 ^ 64 \<le> view (be_zones env) (bm_usage m) c at \<or>
    (\<exists>u. usage_locked env m c at = Inr u \<and>
       unat (used u) + unat (reserved u) = view (be_zones env) (bm_usage m) c at)"
proof (cases "usage_locked env m c at")
  case (Inr u)
  then show ?thesis using usage_locked_view(1) [OF assms(1,2)] by blast
next
  case (Inl e)
  then have r: "b_window c = ''rolling''"
    using assms usage_key_valid [OF assms(3,4)] by (auto simp: usage_locked_def split: if_splits)
  then have "rolling_total (b_id c) (rolling_cutoff c at) (bm_usage m) empty_usage = Inl e"
    using Inl assms by (simp add: usage_locked_def window_bounds_def rolling_cutoff_def)
  note rolling_total_fails [OF this]
  then show ?thesis
    using r Inl sum_keys_list [OF assms(2), of "\<lambda>u. unat (used u) + unat (reserved u)"
        "in_window (b_id c) (rolling_cutoff c at)"]
    by (simp add: view_def load_def empty_usage_def)
qed

definition admits :: "'s budget_env \<Rightarrow> 's budget_manager \<Rightarrow> go_time \<Rightarrow> bytes \<Rightarrow> go_id \<Rightarrow> bool" where
  "admits env m at n i = (case map_of (bm_configs m) i of None \<Rightarrow> False
     | Some c \<Rightarrow> view (be_zones env) (bm_usage m) c at + unat n \<le> unat (b_limit c))"

lemma reserve_check_complete:
  assumes "bm_store m = None" "configs_ok (be_zones env) m" "distinct (keys_of (bm_usage m))" "at \<noteq> 0"
  shows "distinct is \<Longrightarrow> set is \<inter> set seen = {} \<Longrightarrow> \<forall>i\<in>set is. admits env m at n i \<Longrightarrow>
    \<exists>cs. reserve_check env m at n seen is = Inr cs"
proof (induction "is" arbitrary: seen)
  case (Cons i "is")
  then obtain c where c: "map_of (bm_configs m) i = Some c"
      "view (be_zones env) (bm_usage m) c at + unat n \<le> unat (b_limit c)"
    by (auto simp: admits_def split: option.splits)
  then have v: "budget_validate (be_zones env) c = None" using assms(2) by (auto simp: configs_ok_def)
  note lim = validated_limit [OF v]
  obtain u where u: "usage_locked env m c at = Inr u"
      "unat (used u) + unat (reserved u) = view (be_zones env) (bm_usage m) c at"
    using usage_locked_total [OF assms(1,3) v assms(4)] c(2) lim by auto
  then have "\<not> would_exceed u n (b_limit c)" "\<not> reserved u > - 1 - n"
    using c(2) lim by (auto simp: would_exceed_iff word_gt_max_sub)
  moreover obtain cs where "reserve_check env m at n (i # seen) is = Inr cs"
    using Cons by fastforce
  ultimately show ?case using Cons.prems c(1) u(1) assms(1) by simp
qed simp

lemma reserve_check_admits:
  assumes "bm_store m = None" "configs_ok (be_zones env) m" "distinct (keys_of (bm_usage m))"
    "reserve_check env m at n [] is = Inr cs"
  shows "distinct is \<and> (\<forall>i\<in>set is. admits env m at n i) \<and> (is \<noteq> [] \<longrightarrow> at \<noteq> 0)"
  using reserve_check_ok [OF assms] by (cases cs) (auto simp: admits_def)

section \<open>Properties\<close>

text \<open>C8: Whatever callers do in whatever order (reserve, consume, close, change or delete
  configurations), the reserved bytes under every key are exactly what the leases booked there
  still hold, and used plus reserved stays below 2^63, so no counter of the manager ever wraps.\<close>

theorem budget_ledger:
  assumes "new_persistent env cs n None = Inr m0" "budget_reachable env m0 s"
  shows "unat (reserved (get_usage (bm_usage (sys_manager s)) k)) =
      (\<Sum>l\<leftarrow>sys_leases s. if k \<in> set (lease_keys (be_zones env) l) then unat (l_remaining l) else 0) \<and>
    unat (used (get_usage (bm_usage (sys_manager s)) k)) +
      unat (reserved (get_usage (bm_usage (sys_manager s)) k)) < 2 ^ 63"
  using ledger_okD(5,6) [OF budget_reachable_ledger [OF assms(2,1)], of k]
  by (simp add: lease_load_def [abs_def] load_def)

text \<open>C1: A hard budget is never oversubscribed: while the configurations stay as they are and the
  clock does not go back, used plus reserved of every budget (over its calendar window or over the
  rolling window) is at most its limit, at the present and at every later instant.\<close>

theorem budget_never_oversubscribed:
  assumes "new_persistent env cs n None = Inr m0"
    "fixed_run env \<lparr>sys_manager = m0, sys_leases = []\<rparr> t s" "t \<le> at"
    "map_of (bm_configs (sys_manager s)) i = Some c" "usage_context env at i (sys_manager s) = Inr u"
  shows "unat (used u) + unat (reserved u) \<le> unat (b_limit c)"
proof -
  note i = ledger_init [OF assms(1)] and m = new_persistent_memory [OF assms(1)]
  have "within_limits (be_zones env) m0 t'" for t'
    using m(3) by (auto simp: within_limits_def view_def load_def get_usage_def empty_usage_def)
  then have s: "ledger_ok env s" "within_limits (be_zones env) (sys_manager s) t"
    using fixed_run_within_limits [OF assms(2) i] by simp_all
  have "usage_locked env (sys_manager s) c at = Inr u"
    using assms(4,5) by (simp add: usage_context_def)
  note v = usage_locked_view [OF ledger_okD(1,3) [OF s(1)] this]
  show ?thesis using within_limitsD [OF s(2) assms(4,3) v(3)] v(1) by simp
qed

text \<open>C31: Reserve is all or nothing and refuses nothing it could grant: in every reachable state it
  grants a lease over the named budgets exactly when the ids are distinct and known, the amount is
  positive and at most the maximum, and every budget has that many bytes left; a refusal leaves the
  manager unchanged, a grant books the amount under the key of every budget and nowhere else.\<close>

theorem reserve_all_or_nothing:
  assumes "new_persistent env cs k None = Inr m0" "budget_reachable env m0 s" "at \<noteq> 0"
    "reserve env None at is n (sys_manager s) = (r, m')"
  shows "((\<exists>l. r = Inr l) \<longleftrightarrow> is \<noteq> [] \<and> distinct is \<and> 0 < n \<and> n \<le> bm_max_reservation (sys_manager s) \<and>
      (\<forall>i\<in>set is. admits env (sys_manager s) at n i)) \<and>
    (\<forall>e. r = Inl e \<longrightarrow> m' = sys_manager s) \<and>
    (\<forall>l. r = Inr l \<longrightarrow> l_remaining l = n \<and> map b_id (l_configs l) = is \<and>
      (\<forall>key. load (bm_usage m') key = load (bm_usage (sys_manager s)) key +
         (if key \<in> set (lease_keys (be_zones env) l) then unat n else 0)))"
proof -
  let ?m = "sys_manager s"
  note D = ledger_okD(1-3) [OF budget_reachable_ledger [OF assms(2,1)]]
  have grant: "\<exists>l. r = Inr l" if "is \<noteq> []" "distinct is" "0 < n" "n \<le> bm_max_reservation ?m"
      "\<forall>i\<in>set is. admits env ?m at n i"
  proof -
    obtain cs where "reserve_check env ?m at n [] is = Inr cs"
      using reserve_check_complete [OF D assms(3), of "is" "[]" n] \<open>distinct is\<close>
        \<open>\<forall>i\<in>set is. admits env ?m at n i\<close> by auto
    moreover have "n \<noteq> 0" "\<not> bm_max_reservation ?m < n"
      using \<open>0 < n\<close> \<open>n \<le> bm_max_reservation ?m\<close> by auto
    ultimately show ?thesis
      using assms(4) D(1) \<open>is \<noteq> []\<close> by (auto simp: reserve_def Let_def)
  qed
  have granted: "is \<noteq> [] \<and> distinct is \<and> 0 < n \<and> n \<le> bm_max_reservation ?m \<and>
      (\<forall>i\<in>set is. admits env ?m at n i)" if "r = Inr l" for l
  proof -
    obtain cs where "reserve_check env ?m at n [] is = Inr cs" "is \<noteq> []" "n \<noteq> 0"
        "n \<le> bm_max_reservation ?m"
      using assms(4) \<open>r = Inr l\<close> D(1)
      by (auto simp: reserve_def Let_def not_less split: if_splits sum.splits)
    then show ?thesis using reserve_check_admits [OF D] by (simp add: word_neq_0_conv)
  qed
  have booked: "l_remaining l = n \<and> map b_id (l_configs l) = is \<and>
      (\<forall>key. load (bm_usage m') key = load (bm_usage ?m) key +
         (if key \<in> set (lease_keys (be_zones env) l) then unat n else 0))" if "r = Inr l" for l
  proof -
    note r = assms(4) [unfolded that]
    obtain cs where "l = \<lparr>l_configs = cs, l_at = at, l_remaining = n, l_closed = False\<rparr>" "map b_id cs = is"
      by (rule reserve_ok [OF r D]) blast
    then show ?thesis using reserve_load(1) [OF r D] by simp
  qed
  show ?thesis
    using grant granted booked reserve_refused [of env None at "is" n ?m _ m'] assms(4) D(1) by blast
qed

text \<open>The remaining bytes of a budget's status are what a single reservation may still take:
  CanReserve accepts an amount exactly when it does not exceed them, and they are the limit less
  the used and reserved bytes, never below zero.\<close>

theorem status_remaining_reservable:
  assumes "status_locked env m i at = Inr s" "0 < n" "n \<le> bm_max_reservation m"
  shows "(can_reserve env None at [i] n m = None \<longleftrightarrow> n \<le> s_remaining s) \<and>
    unat (s_remaining s) =
      unat (b_limit (s_config s)) - (unat (s_used s) + unat (s_reserved s)) \<and>
    (s_exhausted s \<longleftrightarrow> s_remaining s = 0)"
proof -
  obtain c u where c: "map_of (bm_configs m) i = Some c" "usage_locked env m c at = Inr u"
      "s_used s = used u" "s_reserved s = reserved u" "s_exhausted s = (s_remaining s = 0)"
      "b_limit (s_config s) = b_limit c"
      "s_remaining s = (if used u < b_limit c \<and> reserved u < b_limit c - used u
                        then b_limit c - used u - reserved u else 0)"
    using assms(1)
    by (auto simp: status_locked_def Let_def split: option.splits sum.splits)
  have r: "unat (s_remaining s) = unat (b_limit c) - (unat (used u) + unat (reserved u))"
  proof (cases "used u < b_limit c")
    case True
    then have "unat (b_limit c - used u) = unat (b_limit c) - unat (used u)"
      by (simp add: unat_diff_le)
    then show ?thesis
      using True unat_diff_le [of "reserved u" "b_limit c - used u"]
      by (cases "reserved u < b_limit c - used u")
         (auto simp: c(7) word_less_nat_alt word_le_nat_alt not_less)
  qed (simp add: c(7) word_less_nat_alt)
  have "can_reserve env None at [i] n m = None \<longleftrightarrow> \<not> would_exceed u n (b_limit c)"
    using assms(2,3) c(1,2) by (auto simp: can_reserve_def)
  also have "\<dots> \<longleftrightarrow> n \<le> s_remaining s"
    using assms(2) r by (auto simp: would_exceed_iff word_le_nat_alt word_less_nat_alt)
  finally show ?thesis using r c by simp
qed

text \<open>Budget configurations are guarded by optimistic concurrency: after a PutConfig that
  expected some revision succeeded, every other PutConfig or DeleteConfig of that budget with the
  same expectation is refused and changes nothing.\<close>

theorem put_config_no_lost_update:
  assumes "put_config env None c expected m = (Inr rec, m')" "bm_store m = None"
    "b_id c' = b_id c" "budget_validate (be_zones env) c' = None"
  shows "rec = (c, expected + 1) \<and> map_of (bm_configs m') (b_id c) = Some c \<and>
    put_config env None c' expected m' = (Inl StoreErrConflict, m') \<and>
    (0 < expected \<longrightarrow> delete_config env None (b_id c) expected m' = (Some StoreErrConflict, m'))"
proof -
  have m': "rec = (c, expected + 1)" "0 \<le> expected" "budget_validate (be_zones env) c = None"
    "m' = m\<lparr>bm_store := None, bm_configs := AList.update (b_id c) c (bm_configs m),
       bm_revisions := AList.update (b_id c) (expected + 1) (bm_revisions m)\<rparr>"
    using assms(1,2) by (auto simp: put_config_def split: if_splits)
  have i: "id_valid (b_id c)"
    using m'(3) by (auto simp: budget_validate_def split: if_splits)
  have e: "map_of (bm_configs m') (b_id c) = Some c" "revision_of m' (b_id c) = expected + 1"
    by (simp_all add: m'(4) map_simps revision_of_def)
  have "put_config env None c' expected m' = (Inl StoreErrConflict, m')"
    using assms(3,4) m'(2) e by (auto simp: put_config_def)
  moreover have "0 < expected \<longrightarrow>
      delete_config env None (b_id c) expected m' = (Some StoreErrConflict, m')"
    using i e by (auto simp: delete_config_def)
  ultimately show ?thesis using m'(1) e by blast
qed

section \<open>Witnesses\<close>

definition no_store :: "unit budget_store" where
  "no_store = \<lparr>bs_initialize = (\<lambda>cs s. (Inr [], s)), bs_put = (\<lambda>c e s. (Inr (c, e + 1), s)),
     bs_delete = (\<lambda>i e s. (None, s)), bs_reserve = (\<lambda>cs t n s. (None, s)),
     bs_consume = (\<lambda>cs t n s. (None, s)), bs_release = (\<lambda>cs t n s. (None, s)),
     bs_usage = (\<lambda>c t s. Inr empty_usage), bs_recover = (\<lambda>s. (None, s))\<rparr>"

definition sample_env :: "unit budget_env" where
  "sample_env = \<lparr>be_zones = sample_zones, be_store = no_store\<rparr>"

definition hourly_budget :: budget_config where
  "hourly_budget = monthly_budget\<lparr>b_id := ''b2'', b_window := ''rolling'', b_timezone := '''',
     b_rolling_seconds := 3600\<rparr>"

definition lifetime_budget :: budget_config where
  "lifetime_budget = monthly_budget\<lparr>b_window := ''lifetime'', b_timezone := ''''\<rparr>"

definition sample_manager :: "unit budget_manager" where
  "sample_manager = \<lparr>bm_configs = [(''b1'', lifetime_budget), (''b2'', hourly_budget)],
     bm_revisions = [(''b1'', 1), (''b2'', 1)], bm_usage = [], bm_max_reservation = 500,
     bm_store = None\<rparr>"

lemma sample_manager_new:
  "new_persistent sample_env [lifetime_budget, hourly_budget] 500 None = Inr sample_manager"
  by code_simp

lemma sample_budgets_valid:
  "budget_validate sample_zones lifetime_budget = None"
  "budget_validate sample_zones hourly_budget = None"
  by code_simp+

definition sample_lease :: lease where
  "sample_lease = \<lparr>l_configs = [lifetime_budget, hourly_budget], l_at = unix_epoch,
     l_remaining = 400, l_closed = False\<rparr>"

definition sample_manager_reserved :: "unit budget_manager" where
  "sample_manager_reserved = sample_manager\<lparr>bm_usage :=
     [((''b1'', 0), \<lparr>used = 0, reserved = 400\<rparr>), ((''b2'', 0), \<lparr>used = 0, reserved = 400\<rparr>)]\<rparr>"

lemma sample_keys:
  "key_or_zero sample_zones unix_epoch lifetime_budget = (''b1'', 0)"
  "key_or_zero sample_zones unix_epoch hourly_budget = (''b2'', 0)"
  using sample_budgets_valid
  by (simp_all add: key_or_zero_def budget_usage_key_def window_bounds_def unix_epoch_def
      unix_nano_def truncate_time_def minute_def second_def)
     (simp_all add: lifetime_budget_def hourly_budget_def monthly_budget_def)

lemma sample_windows:
  "window_bounds sample_zones lifetime_budget unix_epoch = Inr (0, 0)"
  "window_bounds sample_zones hourly_budget unix_epoch =
     Inr (unix_epoch - 3600 * second, unix_epoch)"
  using sample_budgets_valid
  by (simp_all add: window_bounds_def unix_epoch_def)
     (simp_all add: lifetime_budget_def hourly_budget_def monthly_budget_def)

lemma sample_window_kinds:
  "b_window hourly_budget = ''rolling''" "b_window lifetime_budget = ''lifetime''"
  by (simp_all add: lifetime_budget_def hourly_budget_def)

lemma sample_usage:
  "usage_locked sample_env sample_manager lifetime_budget unix_epoch = Inr empty_usage"
  "usage_locked sample_env sample_manager hourly_budget unix_epoch = Inr empty_usage"
  by (simp_all add: usage_locked_def sample_manager_def sample_env_def sample_windows
      budget_usage_key_def get_usage_def sample_window_kinds)

lemma sample_limits:
  "b_limit lifetime_budget = 1000" "b_limit hourly_budget = 1000"
  "map_of (bm_configs sample_manager) ''b1'' = Some lifetime_budget"
  "map_of (bm_configs sample_manager) ''b2'' = Some hourly_budget"
  "bm_store sample_manager = None" "bm_usage sample_manager = []"
  "bm_max_reservation sample_manager = 500"
  by (simp_all add: lifetime_budget_def hourly_budget_def monthly_budget_def sample_manager_def)

lemma sample_check:
  "reserve_check sample_env sample_manager unix_epoch 400 [] [''b1'', ''b2''] =
     Inr [lifetime_budget, hourly_budget]"
  by (simp add: sample_limits sample_usage would_exceed_def empty_usage_def)

lemma sample_reserve:
  "reserve sample_env None unix_epoch [''b1'', ''b2''] 400 sample_manager =
     (Inr sample_lease, sample_manager_reserved)"
  unfolding reserve_def sample_check
  by (simp add: sample_limits sample_lease_def sample_manager_reserved_def sample_keys
      get_usage_def empty_usage_def add_reserved_def sample_env_def Let_def)

definition sample_lease_used :: lease where
  "sample_lease_used = sample_lease\<lparr>l_remaining := 100\<rparr>"

definition sample_manager_used :: "unit budget_manager" where
  "sample_manager_used = sample_manager\<lparr>bm_usage :=
     [((''b1'', 0), \<lparr>used = 300, reserved = 100\<rparr>), ((''b2'', 0), \<lparr>used = 300, reserved = 100\<rparr>)]\<rparr>"

lemma sample_consume:
  "consume sample_env None 300 sample_lease sample_manager_reserved =
     ((300, None), sample_lease_used, sample_manager_used)"
proof -
  have "min (300 :: 64 word) 400 = 300" by (simp add: min_def)
  then show ?thesis
    by (simp add: consume_def sample_lease_def sample_lease_used_def sample_manager_reserved_def
        sample_manager_used_def sample_keys sample_limits get_usage_def move_used_def sample_env_def
        Let_def)
qed

lemma sample_steps:
  "budget_step sample_env \<lparr>sys_manager = sample_manager, sys_leases = []\<rparr> (ReservedAt unix_epoch)
     \<lparr>sys_manager = sample_manager_reserved, sys_leases = [sample_lease]\<rparr>"
  "budget_step sample_env \<lparr>sys_manager = sample_manager_reserved, sys_leases = [sample_lease]\<rparr> Settled
     \<lparr>sys_manager = sample_manager_used, sys_leases = [sample_lease_used]\<rparr>"
  using step_reserve [OF sample_reserve, of "[]"]
    step_consume [of 0 "[sample_lease]" sample_env None 300 sample_manager_reserved]
  by (simp_all add: sample_consume)

lemma sample_reachable:
  "budget_reachable sample_env sample_manager
     \<lparr>sys_manager = sample_manager_used, sys_leases = [sample_lease_used]\<rparr>"
  using reach_step [OF reach_step [OF reach_init sample_steps(1)] sample_steps(2)] .

lemma sample_run:
  "fixed_run sample_env \<lparr>sys_manager = sample_manager, sys_leases = []\<rparr> unix_epoch
     \<lparr>sys_manager = sample_manager_used, sys_leases = [sample_lease_used]\<rparr>"
  using run_settle [OF run_reserve [OF run_start [of _ _ unix_epoch] sample_steps(1)] sample_steps(2)]
  by simp

theorem budget_ledger_witness:
  "unat (used (get_usage (bm_usage sample_manager_used) (''b2'', 0))) +
     unat (reserved (get_usage (bm_usage sample_manager_used) (''b2'', 0))) < 2 ^ 63"
  using budget_ledger [OF sample_manager_new sample_reachable, of "(''b2'', 0)"] by simp

lemma sample_used_usage:
  "usage_context sample_env unix_epoch ''b1'' sample_manager_used = Inr \<lparr>used = 300, reserved = 100\<rparr>"
  "map_of (bm_configs sample_manager_used) ''b1'' = Some lifetime_budget"
  "bm_max_reservation sample_manager_used = 500"
  by (simp_all add: usage_context_def usage_locked_def sample_manager_used_def sample_limits sample_windows
      budget_usage_key_def get_usage_def sample_env_def)
     (simp_all add: lifetime_budget_def monthly_budget_def)

theorem budget_never_oversubscribed_witness:
  "unat (300 :: 64 word) + unat (100 :: 64 word) \<le> unat (b_limit lifetime_budget)"
  using budget_never_oversubscribed [OF sample_manager_new sample_run order_refl, of "''b1''"]
    sample_used_usage by fastforce

theorem reserve_all_or_nothing_witness:
  "\<exists>r m'. reserve sample_env None unix_epoch [''b1''] 600 sample_manager_used = (r, m') \<and>
     (\<exists>e. r = Inl e) \<and> m' = sample_manager_used"
proof -
  obtain r m' where r: "reserve sample_env None unix_epoch [''b1''] 600 sample_manager_used = (r, m')"
    by fastforce
  have "unix_epoch \<noteq> 0" by (simp add: unix_epoch_def)
  note t = reserve_all_or_nothing [OF sample_manager_new sample_reachable this, simplified, OF r]
  have "\<not> (600 :: 64 word) \<le> bm_max_reservation sample_manager_used"
    by (simp add: sample_used_usage)
  then show ?thesis using r t by (cases r) auto
qed

lemma sample_status:
  "\<exists>s. status_locked sample_env sample_manager_used ''b1'' unix_epoch = Inr s \<and> s_remaining s = 600"
  using sample_used_usage(1,2)
  by (simp add: status_locked_def usage_context_def sample_windows sample_env_def sample_limits Let_def)

theorem status_remaining_reservable_witness:
  "can_reserve sample_env None unix_epoch [''b1''] 500 sample_manager_used = None"
  using sample_status status_remaining_reservable [of sample_env sample_manager_used "''b1''" unix_epoch _ 500]
    sample_used_usage(3) by fastforce

theorem put_config_no_lost_update_witness:
  "\<exists>m'. put_config sample_env None (lifetime_budget\<lparr>b_limit := 2000\<rparr>) 1 sample_manager =
       (Inr (lifetime_budget\<lparr>b_limit := 2000\<rparr>, 2), m') \<and>
     put_config sample_env None lifetime_budget 1 m' = (Inl StoreErrConflict, m')"
proof -
  let ?c = "lifetime_budget\<lparr>b_limit := 2000\<rparr>"
  have v: "budget_validate sample_zones ?c = None" by code_simp
  then obtain m' where p: "put_config sample_env None ?c 1 sample_manager = (Inr (?c, 2), m')"
    by (simp add: put_config_def sample_env_def sample_manager_def revision_of_def
        lifetime_budget_def monthly_budget_def)
  have "b_id lifetime_budget = b_id ?c" "budget_validate (be_zones sample_env) lifetime_budget = None"
    using sample_budgets_valid(1) by (simp_all add: sample_env_def)
  note put_config_no_lost_update [OF p sample_limits(5) this]
  then show ?thesis using p by blast
qed

end
