(* ===== verification/Budget_IO.thy ===== *)
theory Budget_IO
  imports Budget_Ledger
begin

text \<open>internal/budget/io.go: the reader and the writer that gate a stream by reservations of at most
  64 KiB.  They reach the manager only through budget.ReserveFunc and budget.Lease; that interface
  is a locale here, the accounting of the streams is proved once inside it, and the manager's own
  ledger is its interpretation.\<close>

section \<open>The streams\<close>

record ('s, 'l) lease_ops =
  lo_reserve :: "bytes \<Rightarrow> 's \<Rightarrow> (error + 'l) \<times> 's"
  lo_consume :: "'l \<Rightarrow> bytes \<Rightarrow> 's \<Rightarrow> (bytes \<times> error option) \<times> 's"
  lo_close :: "'l \<Rightarrow> 's \<Rightarrow> error option \<times> 's"

definition max_transfer_reservation :: nat where
  "max_transfer_reservation = 65536"

text \<open>errors.Join drops the nil errors.\<close>

definition errs :: "error option \<Rightarrow> error list" where
  "errs e = (case e of None \<Rightarrow> [] | Some x \<Rightarrow> [x])"

function reserve_up_to :: "(bytes \<Rightarrow> 's \<Rightarrow> (error + 'l) \<times> 's) \<Rightarrow> nat \<Rightarrow> 's \<Rightarrow>
    (error + 'l \<times> nat) \<times> 's" where
  "reserve_up_to rsv n s =
     (if n = 0 then (Inl BudgetErrExceeded, s)
      else case rsv (of_nat n) s of
        (Inr l, s') \<Rightarrow> (Inr (l, n), s')
      | (Inl e, s') \<Rightarrow>
          if e \<noteq> BudgetErrExceeded \<or> n = 1 then (Inl e, s')
          else reserve_up_to rsv ((n + 1) div 2) s')"
  by pat_completeness auto
termination by (relation "measure (\<lambda>(rsv, n, s). n)") auto

declare reserve_up_to.simps [simp del]

text \<open>A source delivers at most the bytes it is asked for, and an error of its own.\<close>

definition reader_read :: "('s, 'l) lease_ops option \<Rightarrow>
    (nat \<Rightarrow> 'r \<Rightarrow> (string \<times> error option) \<times> 'r) \<Rightarrow> nat \<Rightarrow> bool \<times> 'r \<times> 's \<Rightarrow>
    (string \<times> error list) \<times> bool \<times> 'r \<times> 's" where
  "reader_read ops src plen st =
     (let (used_before, r, s) = st in
      if ops = None \<or> plen = 0 then
        (let ((d, e), r') = src plen r in ((d, errs e), used_before, r', s))
      else let opr = the ops in
        case reserve_up_to (lo_reserve opr) (min plen max_transfer_reservation) s of
          (Inl e, s1) \<Rightarrow>
            (([], if used_before \<and> e = BudgetErrExceeded then [IOEof] else [e]), used_before, r, s1)
        | (Inr (l, n), s1) \<Rightarrow>
            (let ((d, re), r') = src n r;
                 ((_, ce), s2) = lo_consume opr l (of_nat (length d)) s1;
                 (xe, s3) = lo_close opr l s2 in
             ((d, if ce = None \<and> xe = None then errs re else errs re @ errs ce @ errs xe),
              used_before \<or> d \<noteq> [], r', s3)))"

lemma reserve_up_to_amount:
  "reserve_up_to rsv n s = (Inr (l, k), s') \<Longrightarrow> 0 < k \<and> k \<le> n"
proof (induction n arbitrary: s rule: less_induct)
  case (less n)
  obtain x s1 where x: "rsv (of_nat n) s = (x, s1)" by fastforce
  show ?case
  proof (cases "n = 0 \<or> (\<exists>l. x = Inr l) \<or> (\<exists>e. x = Inl e \<and> (e \<noteq> BudgetErrExceeded \<or> n = 1))")
    case True
    then show ?thesis
      using less.prems x by (auto simp: reserve_up_to.simps [of _ n] split: if_splits)
  next
    case False
    then obtain e where e: "x = Inl e" "e = BudgetErrExceeded" "n \<noteq> 1" "n \<noteq> 0" by (cases x) auto
    then have "reserve_up_to rsv ((n + 1) div 2) s1 = (Inr (l, k), s')"
      using less.prems x by (simp add: reserve_up_to.simps [of _ n])
    moreover have "(n + 1) div 2 < n" using e by auto
    ultimately show ?thesis using less.IH [of "(n + 1) div 2" s1] by fastforce
  qed
qed

text \<open>The writer's loop; a destination writes some of the bytes and may return an error.\<close>

function writer_loop :: "('s, 'l) lease_ops \<Rightarrow>
    (string \<Rightarrow> 'r \<Rightarrow> (nat \<times> error option) \<times> 'r) \<Rightarrow> string \<Rightarrow> nat \<Rightarrow> 'r \<times> 's \<Rightarrow>
    (nat \<times> error list) \<times> 'r \<times> 's" where
  "writer_loop opr dst p written (r, s) =
     (if length p \<le> written then ((written, []), r, s)
      else case reserve_up_to (lo_reserve opr) (min (length p - written) max_transfer_reservation) s of
          (Inl e, s1) \<Rightarrow> ((written, [e]), r, s1)
        | (Inr (l, n), s1) \<Rightarrow>
            (case dst (take n (drop written p)) r of ((k, we), r') \<Rightarrow>
               (case lo_consume opr l (of_nat k) s1 of ((_, ce), s2) \<Rightarrow>
                  (case lo_close opr l s2 of (xe, s3) \<Rightarrow>
                     if we \<noteq> None \<or> ce \<noteq> None \<or> xe \<noteq> None
                     then ((written + k, errs we @ errs ce @ errs xe), r', s3)
                     else if k \<noteq> n then ((written + k, [IOShortWrite]), r', s3)
                     else writer_loop opr dst p (written + k) (r', s3)))))"
  by pat_completeness auto
termination
  by (relation "measure (\<lambda>(opr, dst, p, written, st). length p - written)")
     (auto dest!: reserve_up_to_amount [OF sym])

declare writer_loop.simps [simp del]

definition writer_write :: "('s, 'l) lease_ops option \<Rightarrow>
    (string \<Rightarrow> 'r \<Rightarrow> (nat \<times> error option) \<times> 'r) \<Rightarrow> string \<Rightarrow> 'r \<times> 's \<Rightarrow>
    (nat \<times> error list) \<times> 'r \<times> 's" where
  "writer_write ops dst p st =
     (let (r, s) = st in
      if ops = None \<or> p = [] then (let ((k, e), r') = dst p r in ((k, errs e), r', s))
      else writer_loop (the ops) dst p 0 (r, s))"

definition available :: "('s, 'l) lease_ops option \<Rightarrow> 's \<Rightarrow> error option \<times> 's" where
  "available ops s =
     (case ops of None \<Rightarrow> (None, s)
      | Some opr \<Rightarrow> (case lo_reserve opr 1 s of
          (Inl e, s') \<Rightarrow> (Some e, s') | (Inr l, s') \<Rightarrow> lo_close opr l s'))"

section \<open>The interface\<close>

text \<open>What the streams rely on, for one account of the provider: a lease holds what it was granted,
  a consumption within the lease succeeds and moves the bytes to the spent ones, closing returns
  the rest, and a refusal changes no balance.\<close>

locale byte_leases =
  fixes opr :: "('s, 'l) lease_ops"
    and inv :: "'s \<Rightarrow> bool"
    and spent :: "'s \<Rightarrow> nat"
    and booked :: "'s \<Rightarrow> nat"
    and held :: "'l \<Rightarrow> 's \<Rightarrow> nat option"
  assumes reserve_grant: "inv s \<Longrightarrow> lo_reserve opr n s = (Inr l, s') \<Longrightarrow>
      inv s' \<and> held l s' = Some (unat n) \<and> booked s' = booked s + unat n \<and> spent s' = spent s"
    and reserve_refuse: "inv s \<Longrightarrow> lo_reserve opr n s = (Inl e, s') \<Longrightarrow>
      inv s' \<and> booked s' = booked s \<and> spent s' = spent s"
    and consume_held: "inv s \<Longrightarrow> held l s = Some h \<Longrightarrow> unat n \<le> h \<Longrightarrow>
      lo_consume opr l n s = (a, s') \<Longrightarrow>
      a = (n, None) \<and> inv s' \<and> held l s' = Some (h - unat n) \<and>
      booked s' + unat n = booked s \<and> spent s' = spent s + unat n"
    and close_held: "inv s \<Longrightarrow> held l s = Some h \<Longrightarrow> lo_close opr l s = (x, s') \<Longrightarrow>
      x = None \<and> inv s' \<and> booked s' + h = booked s \<and> spent s' = spent s"
begin

lemma up_to_balance:
  "inv s \<Longrightarrow> n \<le> max_transfer_reservation \<Longrightarrow> reserve_up_to (lo_reserve opr) n s = (a, s') \<Longrightarrow>
     inv s' \<and> spent s' = spent s \<and>
     (case a of Inl e \<Rightarrow> booked s' = booked s
      | Inr (l, k) \<Rightarrow> 0 < k \<and> k \<le> n \<and> held l s' = Some k \<and> booked s' = booked s + k)"
proof (induction n arbitrary: s rule: less_induct)
  case (less n)
  obtain x s1 where x: "lo_reserve opr (of_nat n) s = (x, s1)" by fastforce
  have un: "unat (of_nat n :: bytes) = n"
    using less.prems(2) by (simp add: max_transfer_reservation_def unat_of_nat)
  show ?case
  proof (cases "n = 0")
    case True
    then show ?thesis using less.prems by (auto simp: reserve_up_to.simps)
  next
    case False
    show ?thesis
    proof (cases x)
      case (Inr l)
      then show ?thesis
        using False less.prems reserve_grant [OF less.prems(1)] x un
        by (auto simp: reserve_up_to.simps [of _ n])
    next
      case (Inl e)
      note r = reserve_refuse [OF less.prems(1) x [unfolded Inl]]
      show ?thesis
      proof (cases "e \<noteq> BudgetErrExceeded \<or> n = 1")
        case True
        then show ?thesis using False less.prems r x Inl by (auto simp: reserve_up_to.simps [of _ n])
      next
        case f: False
        then have "reserve_up_to (lo_reserve opr) ((n + 1) div 2) s1 = (a, s')"
          using False less.prems(3) x Inl by (simp add: reserve_up_to.simps [of _ n])
        moreover have "(n + 1) div 2 < n" using False f by auto
        ultimately show ?thesis
          using less.IH [of "(n + 1) div 2" s1] r less.prems(2)
          by (auto split: sum.splits)
      qed
    qed
  qed
qed

lemma settle_balance:
  assumes "inv s" "held l s = Some h" "k \<le> h" "h \<le> max_transfer_reservation"
    "lo_consume opr l (of_nat k) s = (a, s1)" "lo_close opr l s1 = (x, s2)"
  shows "snd a = None \<and> x = None \<and> inv s2 \<and> booked s2 + h = booked s \<and> spent s2 = spent s + k"
proof -
  have un: "unat (of_nat k :: bytes) = k"
    using assms(3,4) by (simp add: max_transfer_reservation_def unat_of_nat)
  have c: "a = (of_nat k, None) \<and> inv s1 \<and> held l s1 = Some (h - k) \<and> booked s1 + k = booked s \<and>
      spent s1 = spent s + k"
    using consume_held [OF assms(1,2) _ assms(5)] assms(3) un by simp
  then show ?thesis
    using close_held [of s1 l "h - k" x s2] assms(3,6) by auto
qed

lemma reader_balance:
  assumes "inv s" "\<And>n r. length (fst (fst (src n r))) \<le> n"
    "reader_read (Some opr) src plen (ub, r, s) = ((d, es), ub', r', s')"
  shows "inv s' \<and> booked s' = booked s \<and> length d \<le> max_transfer_reservation \<or> plen = 0"
    "plen \<noteq> 0 \<Longrightarrow> spent s' = spent s + length d"
proof -
  obtain a s1 where a: "reserve_up_to (lo_reserve opr) (min plen max_transfer_reservation) s = (a, s1)"
    by fastforce
  note b = up_to_balance [OF assms(1) _ a]
  have "plen \<noteq> 0 \<longrightarrow> inv s' \<and> booked s' = booked s \<and> length d \<le> max_transfer_reservation \<and>
      spent s' = spent s + length d"
  proof (cases a)
    case (Inl e)
    then show ?thesis using b assms(3) a by (auto simp: reader_read_def)
  next
    case (Inr lk)
    obtain l k where lk: "lk = (l, k)" by fastforce
    obtain d0 re r0 where src: "src k r = ((d0, re), r0)" by (metis prod.collapse)
    obtain c ce s2 where con: "lo_consume opr l (of_nat (length d0)) s1 = ((c, ce), s2)"
      by (metis prod.collapse)
    obtain xe s3 where clo: "lo_close opr l s2 = (xe, s3)" by fastforce
    have d0: "length d0 \<le> k" using assms(2) [of k r] src by simp
    have k: "inv s1" "held l s1 = Some k" "k \<le> max_transfer_reservation" "booked s1 = booked s + k"
        "spent s1 = spent s"
      using b Inr lk by auto
    note settle_balance [OF k(1,2) d0 k(3) con clo]
    then show ?thesis
      using assms(3) a Inr lk src con clo d0 k(3,4,5) by (auto simp: reader_read_def)
  qed
  then show "inv s' \<and> booked s' = booked s \<and> length d \<le> max_transfer_reservation \<or> plen = 0"
    "plen \<noteq> 0 \<Longrightarrow> spent s' = spent s + length d" by blast+
qed

lemma writer_balance:
  assumes "inv s" "\<And>q r. fst (fst (dst q r)) \<le> length q"
    "writer_loop opr dst p w (r, s) = ((n, es), r', s')"
  shows "inv s' \<and> booked s' = booked s \<and> w \<le> n \<and> spent s' + w = spent s + n \<and>
    (w \<le> length p \<longrightarrow> n \<le> length p) \<and> (es = [] \<longrightarrow> length p \<le> n)"
  using assms(1,3)
proof (induction "length p - w" arbitrary: w r s rule: less_induct)
  case less
  show ?case
  proof (cases "length p \<le> w")
    case True
    then show ?thesis using less.prems by (auto simp: writer_loop.simps)
  next
    case False
    let ?n = "min (length p - w) max_transfer_reservation"
    obtain a s1 where a: "reserve_up_to (lo_reserve opr) ?n s = (a, s1)" by fastforce
    note b = up_to_balance [OF less.prems(1) _ a]
    show ?thesis
    proof (cases a)
      case (Inl e)
      then show ?thesis using b False less.prems a by (auto simp: writer_loop.simps [of _ _ _ w])
    next
      case (Inr lk)
      obtain l k where lk: "lk = (l, k)" by fastforce
      obtain j we r0 where dst: "dst (take k (drop w p)) r = ((j, we), r0)" by (metis prod.collapse)
      obtain c ce s2 where con: "lo_consume opr l (of_nat j) s1 = ((c, ce), s2)"
        by (metis prod.collapse)
      obtain xe s3 where clo: "lo_close opr l s2 = (xe, s3)" by fastforce
      have k: "inv s1" "held l s1 = Some k" "0 < k" "k \<le> ?n" "booked s1 = booked s + k"
          "spent s1 = spent s"
        using b Inr lk by auto
      have j: "j \<le> k" using assms(2) [of "take k (drop w p)" r] dst k(4) by simp
      have km: "k \<le> max_transfer_reservation" using k(4) by simp
      have sb: "ce = None" "xe = None" "inv s3" "booked s3 = booked s" "spent s3 = spent s + j"
        using settle_balance [OF k(1,2) j km con clo] k(5,6) by auto
      show ?thesis
      proof (cases "we = None \<and> j = k")
        case True
        then have "writer_loop opr dst p (w + k) (r0, s3) = ((n, es), r', s')"
          using False less.prems(2) a Inr lk dst con clo sb(1,2)
          by (simp add: writer_loop.simps [of _ _ _ w])
        moreover have "length p - (w + k) < length p - w" using False k(3) by simp
        ultimately show ?thesis
          using less.hyps [of "w + k" s3 r0] sb True k(4) by auto
      next
        case f: False
        then have "n = w + j \<and> es \<noteq> [] \<and> s' = s3"
          using False less.prems(2) a Inr lk dst con clo sb(1,2)
          by (auto simp: writer_loop.simps [of _ _ _ w] errs_def split: if_splits option.splits)
        then show ?thesis using sb j k(4) by auto
      qed
    qed
  qed
qed

lemma available_balance:
  assumes "inv s" "available (Some opr) s = (e, s')"
  shows "inv s' \<and> booked s' = booked s \<and> spent s' = spent s"
proof -
  obtain x s1 where x: "lo_reserve opr 1 s = (x, s1)" by fastforce
  show ?thesis
  proof (cases x)
    case (Inl e1)
    then show ?thesis using assms x reserve_refuse [OF assms(1), of 1] by (simp add: available_def)
  next
    case (Inr l)
    then have "lo_close opr l s1 = (e, s')" using assms(2) x by (simp add: available_def)
    then show ?thesis
      using close_held [of s1 l 1] reserve_grant [OF assms(1) x [unfolded Inr]] by auto
  qed
qed

end

section \<open>The manager as the provider\<close>

definition sys_reserve :: "'s budget_env \<Rightarrow> go_time \<Rightarrow> go_id list \<Rightarrow> bytes \<Rightarrow> 's budget_system \<Rightarrow>
    (error + nat) \<times> 's budget_system" where
  "sys_reserve env at is n s = (case reserve env None at is n (sys_manager s) of
     (Inl e, m') \<Rightarrow> (Inl e, s\<lparr>sys_manager := m'\<rparr>)
   | (Inr l, m') \<Rightarrow> (Inr (length (sys_leases s)),
       \<lparr>sys_manager = m', sys_leases = sys_leases s @ [l]\<rparr>))"

definition sys_consume :: "'s budget_env \<Rightarrow> error option \<Rightarrow> nat \<Rightarrow> bytes \<Rightarrow> 's budget_system \<Rightarrow>
    (bytes \<times> error option) \<times> 's budget_system" where
  "sys_consume env cerr i n s = (case consume env cerr n (sys_leases s ! i) (sys_manager s) of
     (a, l', m') \<Rightarrow> (a, \<lparr>sys_manager = m', sys_leases = (sys_leases s)[i := l']\<rparr>))"

definition sys_close :: "'s budget_env \<Rightarrow> nat \<Rightarrow> 's budget_system \<Rightarrow> error option \<times> 's budget_system" where
  "sys_close env i s = (case close env (sys_leases s ! i) (sys_manager s) of
     (e, l', m') \<Rightarrow> (e, \<lparr>sys_manager = m', sys_leases = (sys_leases s)[i := l']\<rparr>))"

text \<open>The operations of a stream: the context's error at the time of the consumption is a parameter.\<close>

definition sys_ops :: "'s budget_env \<Rightarrow> error option \<Rightarrow> go_time \<Rightarrow> go_id list \<Rightarrow>
    ('s budget_system, nat) lease_ops" where
  "sys_ops env cerr at is = \<lparr>lo_reserve = sys_reserve env at is, lo_consume = sys_consume env cerr,
     lo_close = sys_close env\<rparr>"

text \<open>The account of one budget of the stream.\<close>

definition account_key :: "'s budget_env \<Rightarrow> go_time \<Rightarrow> go_id \<Rightarrow> 's budget_system \<Rightarrow> usage_key option" where
  "account_key env at i s =
     map_option (key_or_zero (be_zones env) at) (map_of (bm_configs (sys_manager s)) i)"

definition sys_inv :: "'s budget_env \<Rightarrow> go_time \<Rightarrow> go_id list \<Rightarrow> usage_key \<Rightarrow> 's budget_system \<Rightarrow> bool" where
  "sys_inv env at is k s = (ledger_ok env s \<and> (\<exists>i\<in>set is. account_key env at i s = Some k))"

definition sys_spent :: "usage_key \<Rightarrow> 's budget_system \<Rightarrow> nat" where
  "sys_spent k s = unat (used (get_usage (bm_usage (sys_manager s)) k))"

definition sys_booked :: "usage_key \<Rightarrow> 's budget_system \<Rightarrow> nat" where
  "sys_booked k s = unat (reserved (get_usage (bm_usage (sys_manager s)) k))"

definition sys_held :: "'s budget_env \<Rightarrow> usage_key \<Rightarrow> nat \<Rightarrow> 's budget_system \<Rightarrow> nat option" where
  "sys_held env k i s =
     (if i < length (sys_leases s) \<and> \<not> l_closed (sys_leases s ! i) \<and>
         k \<in> set (lease_keys (be_zones env) (sys_leases s ! i))
      then Some (unat (l_remaining (sys_leases s ! i))) else None)"

lemma sys_reserve_laws:
  assumes inv: "sys_inv env at is k s" and r: "sys_reserve env at is n s = (Inr i, s')"
  shows "sys_inv env at is k s' \<and> sys_held env k i s' = Some (unat n) \<and>
    sys_booked k s' = sys_booked k s + unat n \<and> sys_spent k s' = sys_spent k s"
proof -
  obtain m ls where s: "s = \<lparr>sys_manager = m, sys_leases = ls\<rparr>" by (cases s) auto
  obtain l m' where l: "reserve env None at is n m = (Inr l, m')" "i = length ls"
      "s' = \<lparr>sys_manager = m', sys_leases = ls @ [l]\<rparr>"
    using r by (auto simp: sys_reserve_def s split: prod.splits sum.splits)
  have ok: "ledger_ok env \<lparr>sys_manager = m, sys_leases = ls\<rparr>"
    using inv by (simp add: sys_inv_def s)
  note D = ledger_okD(1-3) [OF ok, simplified]
  obtain j c where j: "j \<in> set is" "map_of (bm_configs m) j = Some c" "k = key_or_zero (be_zones env) at c"
    using inv by (auto simp: sys_inv_def s account_key_def)
  obtain cs where cs: "l = \<lparr>l_configs = cs, l_at = at, l_remaining = n, l_closed = False\<rparr>"
    "m' = m\<lparr>bm_usage := touch_usage (add_reserved n) (lease_keys (be_zones env) l) (bm_usage m)\<rparr>"
    "map b_id cs = is" "\<And>c. c \<in> set cs \<Longrightarrow> map_of (bm_configs m) (b_id c) = Some c"
    by (rule reserve_ok [OF l(1) D]) blast
  have "c \<in> set cs"
    using j(1,2) cs(3,4) by auto
  then have k: "k \<in> set (lease_keys (be_zones env) l)"
    using cs(1) j(3) by (simp add: lease_keys_def)
  have "sys_inv env at is k s'"
    using ledger_reserve [OF ok l(1)] j cs(2) by (auto simp: sys_inv_def l(3) account_key_def)
  moreover have "sys_held env k i s' = Some (unat n)"
    using k cs(1) by (simp add: sys_held_def l(2,3) nth_append)
  ultimately show ?thesis
    using reserve_load(1,2) [OF l(1) D, of k] k
    by (simp add: sys_booked_def sys_spent_def s l(3) load_def)
qed

lemma sys_refuse_laws:
  assumes "sys_inv env at is k s" "sys_reserve env at is n s = (Inl e, s')"
  shows "s' = s"
  using assms reserve_refused [of env None at "is" n "sys_manager s" e] ledger_okD(1) [of env s]
  by (auto simp: sys_reserve_def sys_inv_def split: prod.splits sum.splits)

lemma sys_consume_laws:
  assumes inv: "sys_inv env at is k s" and h: "sys_held env k i s = Some h" "unat n \<le> h"
    and c: "sys_consume env None i n s = (a, s')"
  shows "a = (n, None) \<and> sys_inv env at is k s' \<and> sys_held env k i s' = Some (h - unat n) \<and>
    sys_booked k s' + unat n = sys_booked k s \<and> sys_spent k s' = sys_spent k s + unat n"
proof -
  obtain m ls where s: "s = \<lparr>sys_manager = m, sys_leases = ls\<rparr>" by (cases s) auto
  let ?l = "ls ! i" and ?K = "lease_keys (be_zones env) (ls ! i)"
  have i: "i < length ls" "\<not> l_closed ?l" "k \<in> set ?K" "h = unat (l_remaining ?l)"
    using h(1) by (auto simp: sys_held_def s split: if_splits)
  obtain l' m' where l: "consume env None n ?l m = (a, l', m')"
      "s' = \<lparr>sys_manager = m', sys_leases = ls[i := l']\<rparr>"
    using c by (auto simp: sys_consume_def s split: prod.splits)
  have ok: "ledger_ok env \<lparr>sys_manager = m, sys_leases = ls\<rparr>"
    using inv by (simp add: sys_inv_def s)
  note D = ledger_okD [OF ok, simplified]
  have "min n (l_remaining ?l) = n"
    using h(2) i(4) by (simp add: min_def word_le_nat_alt)
  then have e: "a = (n, None)" "l' = ?l\<lparr>l_remaining := l_remaining ?l - n\<rparr>"
      "m' = m\<lparr>bm_usage := touch_usage (move_used n) ?K (bm_usage m)\<rparr>"
    using consume_ok [OF l(1) D(1)] i(2) by auto
  have g: "get_usage (bm_usage m') k = move_used n (get_usage (bm_usage m) k)"
    using D(4) [of ?l] i(1,3) by (simp add: e(3) get_usage_touch)
  have r: "unat n \<le> unat (reserved (get_usage (bm_usage m) k))"
    using ledger_lease_covered [OF ok, of i k] i h(2) by simp
  have m: "unat (reserved (get_usage (bm_usage m') k)) = unat (reserved (get_usage (bm_usage m) k)) - unat n"
    "unat (used (get_usage (bm_usage m') k)) = unat (used (get_usage (bm_usage m) k)) + unat n"
    using move_used_exact [OF r] D(6) [of k] by (simp_all add: g load_def)
  have "sys_inv env at is k s'"
    using ledger_consume(1) [OF ok i(1) l(1)] inv e(3)
    by (auto simp: sys_inv_def l(2) s account_key_def)
  moreover have "sys_held env k i s' = Some (h - unat n)"
    using i h(2) by (simp add: sys_held_def l(2) e(2) lease_keys_def unat_diff_le word_le_nat_alt)
  ultimately show ?thesis
    using m r by (simp add: e(1) sys_booked_def sys_spent_def s l(2))
qed

lemma sys_close_laws:
  assumes inv: "sys_inv env at is k s" and h: "sys_held env k i s = Some h"
    and c: "sys_close env i s = (x, s')"
  shows "x = None \<and> sys_inv env at is k s' \<and> sys_booked k s' + h = sys_booked k s \<and>
    sys_spent k s' = sys_spent k s"
proof -
  obtain m ls where s: "s = \<lparr>sys_manager = m, sys_leases = ls\<rparr>" by (cases s) auto
  let ?l = "ls ! i" and ?K = "lease_keys (be_zones env) (ls ! i)"
  have i: "i < length ls" "\<not> l_closed ?l" "k \<in> set ?K" "h = unat (l_remaining ?l)"
    using h(1) by (auto simp: sys_held_def s split: if_splits)
  obtain l' m' where l: "close env ?l m = (x, l', m')"
      "s' = \<lparr>sys_manager = m', sys_leases = ls[i := l']\<rparr>"
    using c by (auto simp: sys_close_def s split: prod.splits)
  have ok: "ledger_ok env \<lparr>sys_manager = m, sys_leases = ls\<rparr>"
    using inv by (simp add: sys_inv_def s)
  note D = ledger_okD [OF ok, simplified]
  have e: "x = None" "m' = m\<lparr>bm_usage := touch_usage (drop_reserved (l_remaining ?l)) ?K (bm_usage m)\<rparr>"
    using close_ok [OF l(1) D(1)] i(2) by auto
  have g: "get_usage (bm_usage m') k = drop_reserved (l_remaining ?l) (get_usage (bm_usage m) k)"
    using D(4) [of ?l] i(1,3) by (simp add: e(2) get_usage_touch)
  have r: "unat (l_remaining ?l) \<le> unat (reserved (get_usage (bm_usage m) k))"
    using ledger_lease_covered [OF ok, of i k] i by simp
  have "sys_inv env at is k s'"
    using ledger_close(1) [OF ok i(1) l(1)] inv e(2)
    by (auto simp: sys_inv_def l(2) s account_key_def)
  then show ?thesis
    using drop_reserved_exact [OF r] r i(4)
    by (simp add: e(1) sys_booked_def sys_spent_def s l(2) g)
qed

interpretation stream: byte_leases "sys_ops env None at is" "sys_inv env at is k" "sys_spent k"
    "sys_booked k" "sys_held env k" for env at "is" k
proof (unfold_locales, goal_cases)
  case (1 s n l s')
  then show ?case using sys_reserve_laws by (simp add: sys_ops_def)
next
  case (2 s n e s')
  then show ?case using sys_refuse_laws [of env at "is" k s n e s'] by (simp add: sys_ops_def)
next
  case (3 s l h n a s')
  then show ?case using sys_consume_laws by (simp add: sys_ops_def)
next
  case (4 s l h x s')
  then show ?case using sys_close_laws by (simp add: sys_ops_def)
qed

section \<open>Properties\<close>

text \<open>C32: A gated read charges what it delivers: over a manager without cancellation, Read returns
  at most 64 KiB, adds exactly the number of bytes it returned to the used bytes of every budget of
  the stream, and leaves the reserved bytes as they were, whether or not the source failed.\<close>

theorem reader_charges_delivered:
  assumes "ledger_ok env s" "i \<in> set is" "account_key env at i s = Some k"
    "\<And>n r. length (fst (fst (src n r))) \<le> n" "0 < plen"
    "reader_read (Some (sys_ops env None at is)) src plen (ub, r, s) = ((d, es), ub', r', s')"
  shows "length d \<le> 65536 \<and> sys_spent k s' = sys_spent k s + length d \<and>
    sys_booked k s' = sys_booked k s"
proof -
  have inv: "sys_inv env at is k s" using assms(1-3) by (auto simp: sys_inv_def)
  show ?thesis
    using stream.reader_balance [OF inv assms(4,6)] assms(5) by (auto simp: max_transfer_reservation_def)
qed

text \<open>A gated write charges what it wrote: Write adds exactly the returned count to the used
  bytes of every budget of the stream, leaves the reserved bytes as they were, writes all bytes when
  it reports no error, and never reports more than it was given.\<close>

theorem writer_charges_written:
  assumes "ledger_ok env s" "i \<in> set is" "account_key env at i s = Some k"
    "\<And>q r. fst (fst (dst q r)) \<le> length q" "p \<noteq> []"
    "writer_write (Some (sys_ops env None at is)) dst p (r, s) = ((n, es), r', s')"
  shows "sys_spent k s' = sys_spent k s + n \<and> sys_booked k s' = sys_booked k s \<and>
    n \<le> length p \<and> (es = [] \<longrightarrow> n = length p)"
proof -
  have inv: "sys_inv env at is k s" using assms(1-3) by (auto simp: sys_inv_def)
  have "writer_loop (sys_ops env None at is) dst p 0 (r, s) = ((n, es), r', s')"
    using assms(5,6) by (simp add: writer_write_def)
  note stream.writer_balance [OF inv assms(4) this]
  then show ?thesis by auto
qed

text \<open>A context that is cancelled between the read and the consumption leaves the delivered bytes
  uncounted: Read returns them, together with the context's error, the lease is closed and its
  reservation returned, and the used bytes of the budget have not grown.\<close>

theorem reader_cancelled_uncounted:
  assumes "ledger_ok env s" "i \<in> set is" "account_key env at i s = Some k"
    "reserve_up_to (sys_reserve env at is) (min plen max_transfer_reservation) s = (Inr (l, n), s1)"
    "0 < plen" "src n r = ((d, None), r')"
    "reader_read (Some (sys_ops env (Some ContextErr) at is)) src plen (ub, r, s) = (a, st)"
  shows "a = (d, [ContextErr]) \<and> sys_spent k (snd (snd st)) = sys_spent k s \<and>
    sys_booked k (snd (snd st)) = sys_booked k s"
proof -
  have inv: "sys_inv env at is k s" using assms(1-3) by (auto simp: sys_inv_def)
  have r: "reserve_up_to (lo_reserve (sys_ops env None at is)) (min plen max_transfer_reservation) s =
      (Inr (l, n), s1)" using assms(4) by (simp add: sys_ops_def)
  have b: "sys_inv env at is k s1 \<and> sys_spent k s1 = sys_spent k s \<and> sys_held env k l s1 = Some n \<and>
      sys_booked k s1 = sys_booked k s + n"
    using stream.up_to_balance [OF inv _ r] by simp
  obtain x s3 where x: "sys_close env l s1 = (x, s3)" by fastforce
  have "l < length (sys_leases s1)"
    using b by (auto simp: sys_held_def split: if_splits)
  then have "sys_consume env (Some ContextErr) l (of_nat (length d)) s1 = ((0, Some ContextErr), s1)"
    by (simp add: sys_consume_def consume_def)
  then show ?thesis
    using assms(4-7) x b sys_close_laws [of env at "is" k s1 l n x s3]
    by (auto simp: reader_read_def sys_ops_def errs_def)
qed

section \<open>Witnesses\<close>

definition sample_system :: "unit budget_system" where
  "sample_system = \<lparr>sys_manager = sample_manager, sys_leases = []\<rparr>"

lemma sample_system_ok: "ledger_ok sample_env sample_system"
  unfolding sample_system_def by (rule ledger_init [OF sample_manager_new])

lemma sample_account: "account_key sample_env unix_epoch ''b1'' sample_system = Some (''b1'', 0)"
  by (simp add: account_key_def sample_system_def sample_limits sample_env_def sample_keys)

text \<open>A source with a fixed chunk and a destination that takes everything.\<close>

definition chunk_source :: "string \<Rightarrow> nat \<Rightarrow> unit \<Rightarrow> (string \<times> error option) \<times> unit" where
  "chunk_source c n r = ((take n c, None), r)"

definition full_destination :: "string \<Rightarrow> unit \<Rightarrow> (nat \<times> error option) \<times> unit" where
  "full_destination q r = ((length q, None), r)"

lemma four_parts:
  "x = ((fst (fst x), snd (fst x)), fst (snd x), fst (snd (snd x)), snd (snd (snd x)))"
  "y = ((fst (fst y), snd (fst y)), fst (snd y), snd (snd y))"
  by simp_all

theorem reader_charges_delivered_witness:
  "let x = reader_read (Some (sys_ops sample_env None unix_epoch [''b1'', ''b2'']))
      (chunk_source ''GET /'') 400 (False, (), sample_system) in
   sys_spent (''b1'', 0) (snd (snd (snd x))) = sys_spent (''b1'', 0) sample_system + length (fst (fst x))"
proof -
  have c: "length (fst (fst (chunk_source ''GET /'' n r))) \<le> n" for n r
    by (simp add: chunk_source_def)
  then show ?thesis
    unfolding Let_def
    using reader_charges_delivered [OF sample_system_ok _ sample_account, of "[''b1'', ''b2'']",
        OF _ c _ four_parts(1)] by simp
qed

theorem writer_charges_written_witness:
  "let x = writer_write (Some (sys_ops sample_env None unix_epoch [''b1'', ''b2''])) full_destination
      ''GET /'' ((), sample_system) in
   sys_spent (''b1'', 0) (snd (snd x)) = sys_spent (''b1'', 0) sample_system + fst (fst x)"
proof -
  have c: "fst (fst (full_destination q r)) \<le> length q" for q r
    by (simp add: full_destination_def)
  then show ?thesis
    unfolding Let_def
    using writer_charges_written [OF sample_system_ok _ sample_account, of "[''b1'', ''b2'']",
        OF _ c _ four_parts(2)] by simp
qed

lemma sample_sys_reserve:
  "sys_reserve sample_env unix_epoch [''b1'', ''b2''] 400 sample_system =
     (Inr 0, \<lparr>sys_manager = sample_manager_reserved, sys_leases = [sample_lease]\<rparr>)"
  by (simp add: sys_reserve_def sample_system_def sample_reserve)

theorem reader_cancelled_uncounted_witness:
  "let x = reader_read (Some (sys_ops sample_env (Some ContextErr) unix_epoch [''b1'', ''b2'']))
      (chunk_source ''GET /'') 400 (False, (), sample_system) in
   fst x = (''GET /'', [ContextErr]) \<and>
   sys_spent (''b1'', 0) (snd (snd (snd x))) = sys_spent (''b1'', 0) sample_system"
proof -
  have u: "reserve_up_to (sys_reserve sample_env unix_epoch [''b1'', ''b2''])
      (min 400 max_transfer_reservation) sample_system =
      (Inr (0, 400), \<lparr>sys_manager = sample_manager_reserved, sys_leases = [sample_lease]\<rparr>)"
    by (simp add: max_transfer_reservation_def reserve_up_to.simps sample_sys_reserve)
  have c: "chunk_source ''GET /'' 400 () = ((''GET /'', None), ())"
    by (simp add: chunk_source_def)
  show ?thesis
    unfolding Let_def
    using reader_cancelled_uncounted [where src = "chunk_source ''GET /''" and r = "()" and ub = False,
        OF sample_system_ok _ sample_account u _ c surjective_pairing]
    by simp
qed

end
