(* ===== verification/Go_Text.thy ===== *)
theory Go_Text
  imports Go_Base
begin

text \<open>The parsing and matching calls of the Go standard library the policies rest on:
  path.Match, strconv.ParseInt, netip.Addr and Prefix.Contains.  Parsers whose grammar the
  repository does not see (regexp, net/url, the textual form of addresses) are the fields of
  the record go_lib, an argument of the definitions that call them.\<close>

section \<open>path.Match\<close>

text \<open>A pattern is a sequence of stars, question marks, character classes and literals; a
  backslash quotes a byte, a class is a non-empty list of ranges, possibly negated.\<close>

datatype glob_item =
    GStar
  | GAny
  | GClass bool "(char \<times> char) list"
  | GLit char

definition get_esc :: "string \<Rightarrow> (char \<times> string) option" where
  "get_esc s = (case s of [] \<Rightarrow> None
     | c # cs \<Rightarrow>
        if c = CHR ''-'' \<or> c = CHR '']'' then None
        else if c = char_of (92::nat) then
          (case cs of d # ds \<Rightarrow> if ds = [] then None else Some (d, ds) | [] \<Rightarrow> None)
        else if cs = [] then None else Some (c, cs))"

lemma get_esc_length: "get_esc s = Some (c, r) \<Longrightarrow> length r < length s"
  by (auto simp: get_esc_def split: list.splits if_splits)

function parse_ranges :: "string \<Rightarrow> (char \<times> char) list \<Rightarrow> ((char \<times> char) list \<times> string) option" where
  "parse_ranges s acc =
     (if s \<noteq> [] \<and> hd s = CHR '']'' \<and> acc \<noteq> [] then Some (rev acc, tl s)
      else case get_esc s of None \<Rightarrow> None
        | Some (lo, r) \<Rightarrow>
           (if hd r = CHR ''-'' then
              (case get_esc (tl r) of None \<Rightarrow> None
               | Some (hi, r') \<Rightarrow>
                   if length r' < length s then parse_ranges r' ((lo, hi) # acc) else None)
            else if length r < length s then parse_ranges r ((lo, lo) # acc) else None))"
  by pat_completeness auto
termination by (relation "measure (\<lambda>(s, acc). length s)") auto

declare parse_ranges.simps [simp del]

fun parse_glob :: "nat \<Rightarrow> string \<Rightarrow> glob_item list option" where
  "parse_glob 0 s = None"
| "parse_glob (Suc n) s = (case s of [] \<Rightarrow> Some []
     | c # cs \<Rightarrow>
        if c = CHR ''*'' then map_option (Cons GStar) (parse_glob n cs)
        else if c = CHR ''?'' then map_option (Cons GAny) (parse_glob n cs)
        else if c = CHR ''['' then
          (let neg = (cs \<noteq> [] \<and> hd cs = CHR ''^''); body = (if neg then tl cs else cs) in
           case parse_ranges body [] of None \<Rightarrow> None
           | Some (rs, r) \<Rightarrow> map_option (Cons (GClass neg rs)) (parse_glob n r))
        else if c = char_of (92::nat) then
          (case cs of [] \<Rightarrow> None | d # ds \<Rightarrow> map_option (Cons (GLit d)) (parse_glob n ds))
        else map_option (Cons (GLit c)) (parse_glob n cs))"

text \<open>Every item consumes a byte, so one more step than bytes is enough.\<close>

definition glob_parse :: "string \<Rightarrow> glob_item list option" where
  "glob_parse s = parse_glob (Suc (length s)) s"

fun glob_match :: "glob_item list \<Rightarrow> string \<Rightarrow> bool" where
  "glob_match [] s = (s = [])"
| "glob_match (GStar # p) [] = glob_match p []"
| "glob_match (GStar # p) (c # s) =
     (glob_match p (c # s) \<or> (c \<noteq> CHR ''/'' \<and> glob_match (GStar # p) s))"
| "glob_match (GAny # p) (c # s) = (c \<noteq> CHR ''/'' \<and> glob_match p s)"
| "glob_match (GClass neg rs # p) (c # s) =
     ((list_ex (\<lambda>(lo, hi). lo \<le> c \<and> c \<le> hi) rs \<noteq> neg) \<and> glob_match p s)"
| "glob_match (GLit d # p) (c # s) = (c = d \<and> glob_match p s)"
| "glob_match _ _ = False"

text \<open>path.Match: None is ErrBadPattern.\<close>

definition path_match :: "string \<Rightarrow> string \<Rightarrow> bool option" where
  "path_match pat s = map_option (\<lambda>p. glob_match p s) (glob_parse pat)"

section \<open>strconv.ParseInt in base 10\<close>

definition digit_of :: "char \<Rightarrow> int option" where
  "digit_of c = (let n = (of_char c :: nat) in
     if 48 \<le> n \<and> n \<le> 57 then Some (int n - 48) else None)"

fun parse_digits :: "string \<Rightarrow> int \<Rightarrow> int option" where
  "parse_digits [] acc = Some acc"
| "parse_digits (c # cs) acc =
     (case digit_of c of None \<Rightarrow> None | Some d \<Rightarrow> parse_digits cs (10 * acc + d))"

definition parse_int64 :: "string \<Rightarrow> int option" where
  "parse_int64 s =
     (let neg = has_prefix s ''-'';
          body = (if neg \<or> has_prefix s ''+'' then tl s else s) in
      if body = [] then None
      else case parse_digits body 0 of None \<Rightarrow> None
        | Some n \<Rightarrow> (let v = (if neg then - n else n) in
            if - (2 ^ 63) \<le> v \<and> v < 2 ^ 63 then Some v else None))"

section \<open>net/netip\<close>

datatype ip_addr = IP4 "32 word" | IP6 "128 word" string

record ip_prefix =
  prefix_ip :: ip_addr
  prefix_bits :: nat

definition bit_len :: "ip_addr \<Rightarrow> nat" where
  "bit_len a = (case a of IP4 w \<Rightarrow> 32 | IP6 w z \<Rightarrow> 128)"

text \<open>Prefix.Contains: addresses of one family, without a zone, equal in the leading bits.\<close>

definition prefix_contains :: "ip_prefix \<Rightarrow> ip_addr \<Rightarrow> bool" where
  "prefix_contains p a =
     (if prefix_bits p > bit_len (prefix_ip p) then False
      else case (prefix_ip p, a) of
        (IP4 w, IP4 v) \<Rightarrow> drop_bit (32 - prefix_bits p) v = drop_bit (32 - prefix_bits p) w
      | (IP6 w zone, IP6 v z) \<Rightarrow>
          zone = [] \<and> z = [] \<and> drop_bit (128 - prefix_bits p) v = drop_bit (128 - prefix_bits p) w
      | _ \<Rightarrow> False)"

section \<open>Parsers the repository only calls\<close>

record url =
  url_scheme :: string
  url_host :: string
  url_path :: string
  url_fragment :: string
  url_has_user :: bool

record go_lib =
  regexp_compile :: "string \<Rightarrow> (string \<Rightarrow> bool) option"
  parse_addr :: "string \<Rightarrow> ip_addr option"
  addr_string :: "ip_addr \<Rightarrow> string"
  parse_prefix :: "string \<Rightarrow> ip_prefix option"
  url_parse :: "string \<Rightarrow> url option"
  url_parse_request_uri :: "string \<Rightarrow> url option"

end
