(* ===== verification/Policy_Model.thy ===== *)
theory Policy_Model
  imports Go_Text
begin

text \<open>pkg/policy/model.go: the policy documents and their validation.\<close>

datatype condition = Condition
  (c_field: string) (c_operator: string) (c_values: "string list")
  (c_all: "condition list") (c_any: "condition list") (c_not: "condition option")

record action =
  a_type :: string
  a_pool_id :: go_id
  a_chain_id :: go_id
  a_fallback_chain_ids :: "go_id list"
  a_value :: string

record rule =
  r_id :: go_id
  r_name :: string
  r_priority :: int
  r_enabled :: bool
  r_stop_processing :: bool
  r_conditions :: condition
  r_actions :: "action list"

record policy =
  p_version :: int
  p_id :: go_id
  p_name :: string
  p_rules :: "rule list"

record request_context =
  q_request_id :: go_id
  q_connection_id :: go_id
  q_client_id :: go_id
  q_listener :: string
  q_protocol :: string
  q_scheme :: string
  q_host :: string
  q_session_key :: string
  q_port :: "16 word"
  q_source_ip :: "ip_addr option"
  q_destination_ip :: "ip_addr option"
  q_method :: "string go_optional"
  q_path :: "string go_optional"
  q_resource_type :: "string go_optional"
  q_mime_hint :: "string go_optional"
  q_content_length :: "int go_optional"
  q_headers :: "(string \<times> string list) list go_optional"
  q_timestamp :: go_time
  q_inspect_mode :: bool

section \<open>Conditions\<close>

definition supported_condition_field :: "string \<Rightarrow> bool" where
  "supported_condition_field f = (f \<in> set [''host'', ''listener'', ''client'', ''protocol'',
     ''scheme'', ''method'', ''path'', ''resource_type'', ''destination_ip'', ''hour_utc''])"

definition supported_condition_operator :: "string \<Rightarrow> bool" where
  "supported_condition_operator opr =
     (opr \<in> set [''equals'', ''any'', ''suffix'', ''wildcard'', ''regex'', ''cidr''])"

definition valid_value :: "go_lib \<Rightarrow> string \<Rightarrow> string \<Rightarrow> string \<Rightarrow> bool" where
  "valid_value lib f opr v =
     (if v = [] \<or> length v > 4096 then False
      else if opr = ''regex'' then regexp_compile lib v \<noteq> None
      else if opr = ''wildcard'' then path_match v ''validation-target'' \<noteq> None
      else if opr = ''cidr'' then f = ''destination_ip'' \<and> parse_prefix lib v \<noteq> None
      else True)"

definition condition_forms :: "condition \<Rightarrow> nat" where
  "condition_forms c =
     (if c_field c \<noteq> [] \<or> c_operator c \<noteq> [] \<or> c_values c \<noteq> [] then 1 else 0) +
     (if c_all c \<noteq> [] then 1 else 0) + (if c_any c \<noteq> [] then 1 else 0) +
     (if c_not c \<noteq> None then 1 else 0)"

function valid_condition :: "go_lib \<Rightarrow> condition \<Rightarrow> nat \<Rightarrow> bool" where
  "valid_condition lib c depth =
     (if depth > 16 then False
      else if length (c_all c) > 64 \<or> length (c_any c) > 64 then False
      else if condition_forms c = 0 then True
      else if condition_forms c \<noteq> 1 then False
      else if c_all c \<noteq> [] then list_all (\<lambda>d. valid_condition lib d (depth + 1)) (c_all c)
      else if c_any c \<noteq> [] then list_all (\<lambda>d. valid_condition lib d (depth + 1)) (c_any c)
      else case c_not c of Some d \<Rightarrow> valid_condition lib d (depth + 1)
        | None \<Rightarrow>
           if \<not> supported_condition_field (c_field c) \<or> \<not> supported_condition_operator (c_operator c)
              \<or> c_values c = [] \<or> length (c_values c) > 4096
           then False
           else list_all (valid_value lib (c_field c) (c_operator c)) (c_values c))"
  by pat_completeness auto
termination by (relation "measure (\<lambda>(lib, c, depth). 17 - depth)") auto

declare valid_condition.simps [simp del]

section \<open>Actions\<close>

definition empty_route_fields :: "action \<Rightarrow> bool" where
  "empty_route_fields a = (a_pool_id a = [] \<and> a_chain_id a = [] \<and> a_fallback_chain_ids a = [])"

definition valid_redirect :: "go_lib \<Rightarrow> string \<Rightarrow> bool" where
  "valid_redirect lib raw =
     (if raw = [] \<or> length raw > 4096 then False
      else case url_parse lib raw of None \<Rightarrow> False
        | Some u \<Rightarrow>
          if url_has_user u \<or> url_fragment u \<noteq> [] then False
          else if url_scheme u \<noteq> [] then
            (url_scheme u = ''http'' \<or> url_scheme u = ''https'') \<and> url_host u \<noteq> []
          else has_prefix (url_path u) ''/'' \<and> url_host u = [])"

definition valid_rewrite :: "go_lib \<Rightarrow> string \<Rightarrow> bool" where
  "valid_rewrite lib raw =
     (if raw = [] \<or> length raw > 4096 then False
      else case url_parse_request_uri lib raw of None \<Rightarrow> False
        | Some u \<Rightarrow> url_scheme u = [] \<and> url_host u = [] \<and> url_fragment u = [] \<and>
            has_prefix (url_path u) ''/'' \<and> \<not> has_prefix (url_path u) ''//'')"

fun valid_ids :: "go_id list \<Rightarrow> go_id list \<Rightarrow> bool" where
  "valid_ids seen [] = True"
| "valid_ids seen (i # is) = (if \<not> id_valid i \<or> i \<in> set seen then False else valid_ids (i # seen) is)"

definition action_valid :: "go_lib \<Rightarrow> action \<Rightarrow> bool" where
  "action_valid lib a =
     (if a_type a \<in> set [''block'', ''reject'', ''direct''] then empty_route_fields a \<and> a_value a = []
      else if a_type a = ''cache'' then empty_route_fields a \<and> a_value a = []
      else if a_type a = ''throttle'' then
        (case parse_int64 (a_value a) of None \<Rightarrow> False
         | Some n \<Rightarrow> empty_route_fields a \<and> n > 0 \<and> n \<le> 2 ^ 40)
      else if a_type a = ''mock'' then empty_route_fields a \<and> length (a_value a) \<le> 4096
      else if a_type a = ''redirect'' then empty_route_fields a \<and> valid_redirect lib (a_value a)
      else if a_type a = ''rewrite'' then empty_route_fields a \<and> valid_rewrite lib (a_value a)
      else if a_type a = ''proxy'' then
        id_valid (a_pool_id a) \<and> a_chain_id a = [] \<and> a_fallback_chain_ids a = [] \<and> a_value a = []
      else if a_type a = ''chain'' then
        (if \<not> id_valid (a_chain_id a) \<or> a_pool_id a \<noteq> [] \<or> a_value a \<noteq> [] \<or>
            length (a_fallback_chain_ids a) > 15
         then False else valid_ids [a_chain_id a] (a_fallback_chain_ids a))
      else False)"

section \<open>Documents\<close>

fun valid_rules :: "go_lib \<Rightarrow> go_id list \<Rightarrow> rule list \<Rightarrow> bool" where
  "valid_rules lib seen [] = True"
| "valid_rules lib seen (r # rs) =
     (if \<not> id_valid (r_id r) \<or> r_id r \<in> set seen \<or> trim_space (r_name r) = [] \<or>
         length (r_name r) > 256 \<or> r_actions r = [] \<or> length (r_actions r) > 16
      then False
      else if \<not> valid_condition lib (r_conditions r) 0 then False
      else if \<not> list_all (action_valid lib) (r_actions r) then False
      else valid_rules lib (r_id r # seen) rs)"

definition policy_validate :: "go_lib \<Rightarrow> policy \<Rightarrow> error option" where
  "policy_validate lib p =
     (if p_version p \<noteq> 1 \<or> \<not> id_valid (p_id p) \<or> trim_space (p_name p) = [] \<or>
         length (p_name p) > 256 \<or> length (p_rules p) > 10000
      then Some PolicyErrInvalid
      else if valid_rules lib [] (p_rules p) then None else Some PolicyErrInvalid)"

section \<open>Consequences of validation\<close>

lemma valid_ids_iff:
  "valid_ids seen is \<longleftrightarrow> list_all id_valid is \<and> distinct is \<and> set seen \<inter> set is = {}"
  by (induction seen "is" rule: valid_ids.induct) auto

lemma valid_rules_iff:
  "valid_rules lib seen rs \<longleftrightarrow>
     distinct (map r_id rs) \<and> set seen \<inter> r_id ` set rs = {} \<and>
     (\<forall>r\<in>set rs. id_valid (r_id r) \<and> trim_space (r_name r) \<noteq> [] \<and> length (r_name r) \<le> 256 \<and>
        r_actions r \<noteq> [] \<and> length (r_actions r) \<le> 16 \<and>
        valid_condition lib (r_conditions r) 0 \<and> list_all (action_valid lib) (r_actions r))"
  by (induction lib seen rs rule: valid_rules.induct) (auto simp: not_less)

lemma policy_validate_None:
  "policy_validate lib p = None \<longleftrightarrow>
     p_version p = 1 \<and> id_valid (p_id p) \<and> trim_space (p_name p) \<noteq> [] \<and>
     length (p_name p) \<le> 256 \<and> length (p_rules p) \<le> 10000 \<and> valid_rules lib [] (p_rules p)"
  by (auto simp: policy_validate_def)

lemma validated_rule:
  assumes "policy_validate lib p = None" "r \<in> set (p_rules p)"
  shows "id_valid (r_id r)" "r_actions r \<noteq> []" "valid_condition lib (r_conditions r) 0"
    "list_all (action_valid lib) (r_actions r)"
  using assms by (auto simp: policy_validate_None valid_rules_iff)

lemma validated_ids_distinct:
  "policy_validate lib p = None \<Longrightarrow> distinct (map r_id (p_rules p))"
  by (simp add: policy_validate_None valid_rules_iff)

end
