(* ===== verification/Policy_Eval.thy ===== *)
theory Policy_Eval
  imports Policy_Model
begin

text \<open>pkg/policy/evaluate.go: the three-valued matching of conditions and the evaluation of a
  document.  The first part translates the code, the second states what it computes: Kleene's
  three-valued logic for a condition, the matching rules in priority order up to the first
  stop rule for a document.\<close>

section \<open>Match states\<close>

datatype match_state = Unknown | NoMatch | Match

text \<open>The order of truth, which makes conjunction a minimum and disjunction a maximum.\<close>

definition truth_rank :: "match_state \<Rightarrow> nat" where
  "truth_rank s = (case s of NoMatch \<Rightarrow> 0 | Unknown \<Rightarrow> 1 | Match \<Rightarrow> 2)"

instantiation match_state :: linorder
begin

definition less_eq_match_state :: "match_state \<Rightarrow> match_state \<Rightarrow> bool" where
  "less_eq_match_state a b = (truth_rank a \<le> truth_rank b)"

definition less_match_state :: "match_state \<Rightarrow> match_state \<Rightarrow> bool" where
  "less_match_state a b = (truth_rank a < truth_rank b)"

instance
  by standard (auto simp: less_eq_match_state_def less_match_state_def truth_rank_def
      split: match_state.splits)

end

record visibility =
  v_host :: bool
  v_method :: bool
  v_path :: bool
  v_headers :: bool
  v_resource_type :: bool

record condition_trace =
  t_field :: string
  t_operator :: string
  t_state :: match_state
  t_reason :: string

record rule_trace =
  rt_rule_id :: go_id
  rt_matched :: bool
  rt_conditions :: "condition_trace list"

record trace =
  tr_rules :: "rule_trace list"
  tr_unknown_fields :: "string list"

record result =
  res_policy_id :: go_id
  res_actions :: "action list"
  res_matched_rule_ids :: "go_id list"
  res_terminal_rule_id :: go_id
  res_trace :: trace
  res_runtime_revision :: int

definition empty_result :: result where
  "empty_result = \<lparr>res_policy_id = [], res_actions = [], res_matched_rule_ids = [],
     res_terminal_rule_id = [], res_trace = \<lparr>tr_rules = [], tr_unknown_fields = []\<rparr>,
     res_runtime_revision = 0\<rparr>"

section \<open>Conditions\<close>

definition two_digits :: "int \<Rightarrow> string" where
  "two_digits n = [char_of (nat (48 + n div 10)), char_of (nat (48 + n mod 10))]"

definition hour_utc :: "go_time \<Rightarrow> string" where
  "hour_utc t = two_digits (t div hour mod 24)"

text \<open>The value of a field and whether it is known.\<close>

definition leaf_value :: "go_lib \<Rightarrow> string \<Rightarrow> request_context \<Rightarrow> visibility \<Rightarrow> bool \<times> string" where
  "leaf_value lib f q v =
     (if f = ''host'' then (v_host v, q_host q)
      else if f = ''listener'' then (True, q_listener q)
      else if f = ''client'' then (True, q_client_id q)
      else if f = ''protocol'' then (True, q_protocol q)
      else if f = ''scheme'' then (True, q_scheme q)
      else if f = ''method'' then (v_method v \<and> known (q_method q), value_of (q_method q))
      else if f = ''path'' then (v_path v \<and> known (q_path q), value_of (q_path q))
      else if f = ''resource_type'' then
        (v_resource_type v \<and> known (q_resource_type q), value_of (q_resource_type q))
      else if f = ''destination_ip'' then
        (case q_destination_ip q of None \<Rightarrow> (False, []) | Some a \<Rightarrow> (True, addr_string lib a))
      else if f = ''hour_utc'' then
        (True, if q_timestamp q \<noteq> 0 then hour_utc (q_timestamp q) else hour_utc unix_epoch)
      else (False, []))"

definition leaf_matches :: "go_lib \<Rightarrow> string \<Rightarrow> string list \<Rightarrow> string \<Rightarrow> bool" where
  "leaf_matches lib opr vs val =
     (if opr = ''equals'' \<or> opr = ''any'' then list_ex (\<lambda>want. val = want) vs
      else if opr = ''suffix'' then list_ex (\<lambda>want. has_suffix (to_lower val) (to_lower want)) vs
      else if opr = ''wildcard'' then
        list_ex (\<lambda>want. path_match (to_lower want) (to_lower val) = Some True) vs
      else if opr = ''regex'' then
        list_ex (\<lambda>want. case regexp_compile lib want of None \<Rightarrow> False | Some re \<Rightarrow> re val) vs
      else if opr = ''cidr'' then
        (case parse_addr lib val of None \<Rightarrow> False
         | Some a \<Rightarrow> list_ex (\<lambda>want. case parse_prefix lib want of None \<Rightarrow> False
                      | Some p \<Rightarrow> prefix_contains p a) vs)
      else False)"

definition match_leaf ::
  "go_lib \<Rightarrow> string \<Rightarrow> string \<Rightarrow> string list \<Rightarrow> request_context \<Rightarrow> visibility \<Rightarrow>
     match_state \<times> condition_trace list" where
  "match_leaf lib f opr vs q v =
     (let (kn, val) = leaf_value lib f q v in
      if \<not> kn then (Unknown, [\<lparr>t_field = f, t_operator = opr, t_state = Unknown,
                               t_reason = ''attribute unavailable''\<rparr>])
      else let s = (if leaf_matches lib opr vs val then Match else NoMatch) in
        (s, [\<lparr>t_field = f, t_operator = opr, t_state = s, t_reason = []\<rparr>]))"

definition negate_state :: "match_state \<Rightarrow> match_state" where
  "negate_state s = (case s of Match \<Rightarrow> NoMatch | NoMatch \<Rightarrow> Match | Unknown \<Rightarrow> Unknown)"

fun match_condition :: "go_lib \<Rightarrow> request_context \<Rightarrow> visibility \<Rightarrow> condition \<Rightarrow>
      match_state \<times> condition_trace list"
  and match_all :: "go_lib \<Rightarrow> request_context \<Rightarrow> visibility \<Rightarrow> match_state \<Rightarrow>
      condition_trace list \<Rightarrow> condition list \<Rightarrow> match_state \<times> condition_trace list"
  and match_any :: "go_lib \<Rightarrow> request_context \<Rightarrow> visibility \<Rightarrow> match_state \<Rightarrow>
      condition_trace list \<Rightarrow> condition list \<Rightarrow> match_state \<times> condition_trace list" where
  "match_condition lib q v (Condition f opr vs as os nt) =
     (if as \<noteq> [] then match_all lib q v Match [] as
      else if os \<noteq> [] then match_any lib q v NoMatch [] os
      else case nt of
        Some d \<Rightarrow> (let (s, t) = match_condition lib q v d in (negate_state s, t))
      | None \<Rightarrow> if f = [] then (Match, []) else match_leaf lib f opr vs q v)"
| "match_all lib q v state traces [] = (state, traces)"
| "match_all lib q v state traces (child # children) =
     (let (s, t) = match_condition lib q v child; traces' = traces @ t in
      if s = NoMatch then (NoMatch, traces')
      else match_all lib q v (if s = Unknown then Unknown else state) traces' children)"
| "match_any lib q v state traces [] = (state, traces)"
| "match_any lib q v state traces (child # children) =
     (let (s, t) = match_condition lib q v child; traces' = traces @ t in
      if s = Match then (Match, traces')
      else match_any lib q v (if s = Unknown then Unknown else state) traces' children)"

section \<open>Documents\<close>

definition terminal_types :: "string list" where
  "terminal_types = [''block'', ''reject'', ''proxy'', ''chain'', ''direct'', ''mock'', ''redirect'']"

definition has_terminal :: "action list \<Rightarrow> bool" where
  "has_terminal actions = list_ex (\<lambda>a. a_type a \<in> set terminal_types) actions"

fun unknown_fields :: "condition_trace list \<Rightarrow> string list" where
  "unknown_fields [] = []"
| "unknown_fields (c # cs) = (if t_state c = Unknown then [t_field c] else []) @ unknown_fields cs"

definition add_rule_trace :: "rule \<Rightarrow> match_state \<Rightarrow> condition_trace list \<Rightarrow> trace \<Rightarrow> trace" where
  "add_rule_trace r s cs t =
     \<lparr>tr_rules = tr_rules t @
        [\<lparr>rt_rule_id = r_id r, rt_matched = (s = Match), rt_conditions = cs\<rparr>],
      tr_unknown_fields = tr_unknown_fields t @ unknown_fields cs\<rparr>"

definition add_rule_match :: "rule \<Rightarrow> result \<Rightarrow> result" where
  "add_rule_match r res = res
     \<lparr>res_matched_rule_ids := res_matched_rule_ids res @ [r_id r],
      res_terminal_rule_id :=
        (if res_terminal_rule_id res = [] \<and> has_terminal (r_actions r) then r_id r
         else res_terminal_rule_id res),
      res_actions := res_actions res @ r_actions r\<rparr>"

fun eval_rules ::
  "go_lib \<Rightarrow> request_context \<Rightarrow> visibility \<Rightarrow> bool \<Rightarrow> rule list \<Rightarrow> result \<Rightarrow> result" where
  "eval_rules lib q v tracing [] res = res"
| "eval_rules lib q v tracing (r # rs) res =
     (if \<not> r_enabled r then eval_rules lib q v tracing rs res
      else let (state, conds) = match_condition lib q v (r_conditions r);
               res' = (if tracing
                       then res\<lparr>res_trace := add_rule_trace r state conds (res_trace res)\<rparr>
                       else res) in
        if state \<noteq> Match then eval_rules lib q v tracing rs res'
        else let res'' = add_rule_match r res' in
          if r_stop_processing r then res'' else eval_rules lib q v tracing rs res'')"

definition by_priority :: "rule list \<Rightarrow> rule list" where
  "by_priority rs = sort_key (\<lambda>r. - r_priority r) rs"

definition evaluate :: "go_lib \<Rightarrow> policy \<Rightarrow> request_context \<Rightarrow> visibility \<Rightarrow> bool \<Rightarrow>
    result \<times> error option" where
  "evaluate lib p q v tracing =
     (if policy_validate lib p \<noteq> None then (empty_result, Some PolicyErrInvalidDocument)
      else let res = eval_rules lib q v tracing (by_priority (p_rules p))
                       (empty_result\<lparr>res_policy_id := p_id p\<rparr>) in
        if \<not> has_terminal (res_actions res) then (res, Some PolicyErrNoRoute) else (res, None))"

section \<open>Kleene's reading of a condition\<close>

fun cond_value :: "go_lib \<Rightarrow> request_context \<Rightarrow> visibility \<Rightarrow> condition \<Rightarrow> match_state" where
  "cond_value lib q v (Condition f opr vs as os nt) =
     (if as \<noteq> [] then foldr min (map (cond_value lib q v) as) Match
      else if os \<noteq> [] then foldr max (map (cond_value lib q v) os) NoMatch
      else case nt of Some d \<Rightarrow> negate_state (cond_value lib q v d)
        | None \<Rightarrow> if f = [] then Match else fst (match_leaf lib f opr vs q v))"

lemma min_state_simps [simp]:
  "min NoMatch s = NoMatch" "min s NoMatch = NoMatch" "min Match s = s" "min s Match = s"
  by (cases s; simp add: min_def less_eq_match_state_def truth_rank_def)+

lemma max_state_simps [simp]:
  "max NoMatch s = s" "max s NoMatch = s" "max Match s = Match" "max s Match = Match"
  by (cases s; simp add: max_def less_eq_match_state_def truth_rank_def)+

lemma match_condition_value:
  "fst (match_condition lib q v c) = cond_value lib q v c"
  "state \<noteq> NoMatch \<Longrightarrow> fst (match_all lib q v state traces cs) =
     min state (foldr min (map (cond_value lib q v) cs) Match)"
  "state \<noteq> Match \<Longrightarrow> fst (match_any lib q v state traces cs) =
     max state (foldr max (map (cond_value lib q v) cs) NoMatch)"
proof (induction lib q v c and lib q v state traces cs and lib q v state traces cs
    rule: match_condition_match_all_match_any.induct)
  case (1 lib q v f opr vs as os nt)
  then show ?case
    by (simp add: split_beta split: option.split)
next
  case (3 lib q v state traces child children)
  obtain s t where m: "match_condition lib q v child = (s, t)" by fastforce
  then have "cond_value lib q v child = s" using "3.IH"(1) by simp
  then show ?case
    using "3.IH"(2) [OF m [symmetric] refl] "3.prems" m
    by (cases s; cases state) (auto simp: ac_simps)
next
  case (5 lib q v state traces child children)
  obtain s t where m: "match_condition lib q v child = (s, t)" by fastforce
  then have "cond_value lib q v child = s" using "5.IH"(1) by simp
  then show ?case
    using "5.IH"(2) [OF m [symmetric] refl] "5.prems" m
    by (cases s; cases state) (auto simp: ac_simps)
qed simp_all

section \<open>Less visibility decides less, never differently\<close>

definition info_le :: "match_state \<Rightarrow> match_state \<Rightarrow> bool" where
  "info_le a b = (a = Unknown \<or> a = b)"

definition visibility_le :: "visibility \<Rightarrow> visibility \<Rightarrow> bool" where
  "visibility_le v w = ((v_host v \<longrightarrow> v_host w) \<and> (v_method v \<longrightarrow> v_method w) \<and>
     (v_path v \<longrightarrow> v_path w) \<and> (v_resource_type v \<longrightarrow> v_resource_type w))"

lemma info_le_refl [simp]: "info_le s s"
  by (simp add: info_le_def)

lemma info_le_min: "info_le a a' \<Longrightarrow> info_le b b' \<Longrightarrow> info_le (min a b) (min a' b')"
  by (cases a; cases b; cases a'; cases b')
     (auto simp: info_le_def min_def less_eq_match_state_def truth_rank_def)

lemma info_le_max: "info_le a a' \<Longrightarrow> info_le b b' \<Longrightarrow> info_le (max a b) (max a' b')"
  by (cases a; cases b; cases a'; cases b')
     (auto simp: info_le_def max_def less_eq_match_state_def truth_rank_def)

lemma info_le_negate: "info_le a b \<Longrightarrow> info_le (negate_state a) (negate_state b)"
  by (auto simp: info_le_def negate_state_def)

lemma info_le_foldr_min:
  "(\<And>x. x \<in> set xs \<Longrightarrow> info_le (f x) (g x)) \<Longrightarrow>
     info_le (foldr min (map f xs) Match) (foldr min (map g xs) Match)"
  by (induction xs) (simp_all add: info_le_min)

lemma info_le_foldr_max:
  "(\<And>x. x \<in> set xs \<Longrightarrow> info_le (f x) (g x)) \<Longrightarrow>
     info_le (foldr max (map f xs) NoMatch) (foldr max (map g xs) NoMatch)"
  by (induction xs) (simp_all add: info_le_max)

lemma leaf_value_mono:
  "visibility_le v w \<Longrightarrow> fst (leaf_value lib f q v) \<Longrightarrow> leaf_value lib f q w = leaf_value lib f q v"
  by (auto simp: leaf_value_def visibility_le_def split: if_splits option.splits)

lemma match_leaf_mono:
  "visibility_le v w \<Longrightarrow> info_le (fst (match_leaf lib f opr vs q v)) (fst (match_leaf lib f opr vs q w))"
  using leaf_value_mono [of v w lib f q]
  by (cases "leaf_value lib f q v") (auto simp: match_leaf_def info_le_def Let_def)

lemma cond_value_mono:
  assumes "visibility_le v w"
  shows "info_le (cond_value lib q v c) (cond_value lib q w c)"
proof (induction c)
  case (Condition f opr vs as os nt)
  have "info_le (foldr min (map (cond_value lib q v) as) Match)
      (foldr min (map (cond_value lib q w) as) Match)"
    by (rule info_le_foldr_min) (rule Condition.IH)
  moreover have "info_le (foldr max (map (cond_value lib q v) os) NoMatch)
      (foldr max (map (cond_value lib q w) os) NoMatch)"
    by (rule info_le_foldr_max) (rule Condition.IH)
  moreover have "info_le (negate_state (cond_value lib q v d)) (negate_state (cond_value lib q w d))"
    if "nt = Some d" for d
    using that by (intro info_le_negate Condition.IH) simp
  ultimately show ?case
    using match_leaf_mono [OF assms, of lib f opr vs q]
    by (cases nt) (simp_all del: foldr.simps)
qed

section \<open>The rules that apply\<close>

text \<open>The prefix of a list up to and including the first element with a property.\<close>

fun take_through :: "('a \<Rightarrow> bool) \<Rightarrow> 'a list \<Rightarrow> 'a list" where
  "take_through P [] = []"
| "take_through P (x # xs) = x # (if P x then [] else take_through P xs)"

definition applying ::
  "go_lib \<Rightarrow> request_context \<Rightarrow> visibility \<Rightarrow> rule list \<Rightarrow> rule list" where
  "applying lib q v rs = take_through r_stop_processing
     (filter (\<lambda>r. r_enabled r \<and> cond_value lib q v (r_conditions r) = Match) rs)"

definition matching_rules ::
  "go_lib \<Rightarrow> policy \<Rightarrow> request_context \<Rightarrow> visibility \<Rightarrow> rule list" where
  "matching_rules lib p q v = applying lib q v (by_priority (p_rules p))"

lemma set_take_through: "set (take_through P xs) \<subseteq> set xs"
  by (induction xs) auto

lemma applying_simps [simp]:
  "applying lib q v [] = []"
  "applying lib q v (r # rs) =
     (if r_enabled r \<and> cond_value lib q v (r_conditions r) = Match
      then r # (if r_stop_processing r then [] else applying lib q v rs)
      else applying lib q v rs)"
  by (simp_all add: applying_def)

text \<open>One step of the loop, with the trace kept apart.\<close>

lemma eval_rules_step:
  "\<exists>t. eval_rules lib q v tr (r # rs) res =
     (if r_enabled r \<and> cond_value lib q v (r_conditions r) = Match
      then (if r_stop_processing r then add_rule_match r (res\<lparr>res_trace := t\<rparr>)
            else eval_rules lib q v tr rs (add_rule_match r (res\<lparr>res_trace := t\<rparr>)))
      else eval_rules lib q v tr rs (res\<lparr>res_trace := t\<rparr>))"
proof -
  obtain s cs where m: "match_condition lib q v (r_conditions r) = (s, cs)" by fastforce
  then have s: "cond_value lib q v (r_conditions r) = s"
    by (metis match_condition_value(1) fst_conv)
  show ?thesis
  proof (cases "r_enabled r \<and> tr")
    case True
    then show ?thesis using m s
      by (intro exI [of _ "add_rule_trace r s cs (res_trace res)"]) (auto simp: Let_def)
  next
    case False
    then show ?thesis using m s
      by (intro exI [of _ "res_trace res"]) (auto simp: Let_def)
  qed
qed

lemma eval_rules_spec:
  "res_matched_rule_ids (eval_rules lib q v tr rs res) =
      res_matched_rule_ids res @ map r_id (applying lib q v rs) \<and>
   res_actions (eval_rules lib q v tr rs res) =
      res_actions res @ concat (map r_actions (applying lib q v rs)) \<and>
   res_policy_id (eval_rules lib q v tr rs res) = res_policy_id res"
proof (induction rs arbitrary: res)
  case (Cons r rs)
  obtain t where "eval_rules lib q v tr (r # rs) res =
     (if r_enabled r \<and> cond_value lib q v (r_conditions r) = Match
      then (if r_stop_processing r then add_rule_match r (res\<lparr>res_trace := t\<rparr>)
            else eval_rules lib q v tr rs (add_rule_match r (res\<lparr>res_trace := t\<rparr>)))
      else eval_rules lib q v tr rs (res\<lparr>res_trace := t\<rparr>))"
    using eval_rules_step by blast
  then show ?case using Cons by (simp add: add_rule_match_def)
qed simp

lemma eval_rules_terminal:
  assumes "\<And>r. r \<in> set rs \<Longrightarrow> r_id r \<noteq> []"
  shows "res_terminal_rule_id (eval_rules lib q v tr rs res) =
      (if res_terminal_rule_id res \<noteq> [] then res_terminal_rule_id res
       else case List.find (\<lambda>r. has_terminal (r_actions r)) (applying lib q v rs) of
         None \<Rightarrow> [] | Some r \<Rightarrow> r_id r)"
  using assms
proof (induction rs arbitrary: res)
  case (Cons r rs)
  obtain t where step: "eval_rules lib q v tr (r # rs) res =
     (if r_enabled r \<and> cond_value lib q v (r_conditions r) = Match
      then (if r_stop_processing r then add_rule_match r (res\<lparr>res_trace := t\<rparr>)
            else eval_rules lib q v tr rs (add_rule_match r (res\<lparr>res_trace := t\<rparr>)))
      else eval_rules lib q v tr rs (res\<lparr>res_trace := t\<rparr>))"
    using eval_rules_step by blast
  have "r_id r \<noteq> []" using Cons.prems by simp
  then show ?case unfolding step using Cons by (simp add: add_rule_match_def)
qed simp

lemma has_terminal_concat:
  "has_terminal (concat (map r_actions rs)) \<longleftrightarrow> (\<exists>r\<in>set rs. has_terminal (r_actions r))"
  by (auto simp: has_terminal_def list_ex_iff)

lemma by_priority_set [simp]: "set (by_priority rs) = set rs"
  by (simp add: by_priority_def)

lemma matching_rules_sound:
  "r \<in> set (matching_rules lib p q v) \<Longrightarrow>
     r \<in> set (p_rules p) \<and> r_enabled r \<and> cond_value lib q v (r_conditions r) = Match"
  using set_take_through [of r_stop_processing] by (fastforce simp: matching_rules_def applying_def)

lemma validated_rule_ids:
  "policy_validate lib p = None \<Longrightarrow> r \<in> set (by_priority (p_rules p)) \<Longrightarrow> r_id r \<noteq> []"
  using validated_rule(1) [of lib p r] id_valid_nonempty by simp

lemma evaluate_valid:
  assumes "policy_validate lib p = None"
  shows "evaluate lib p q v tr =
    (let res = eval_rules lib q v tr (by_priority (p_rules p)) (empty_result\<lparr>res_policy_id := p_id p\<rparr>)
     in (res, if has_terminal (concat (map r_actions (matching_rules lib p q v))) then None
              else Some PolicyErrNoRoute))"
  using assms
  by (simp add: evaluate_def Let_def eval_rules_spec matching_rules_def empty_result_def)

lemma evaluate_fields:
  assumes "policy_validate lib p = None" "evaluate lib p q v tr = (res, e)"
  shows "res_matched_rule_ids res = map r_id (matching_rules lib p q v)"
    and "res_actions res = concat (map r_actions (matching_rules lib p q v))"
    and "res_terminal_rule_id res =
      (case List.find (\<lambda>r. has_terminal (r_actions r)) (matching_rules lib p q v) of
         None \<Rightarrow> [] | Some r \<Rightarrow> r_id r)"
    and "e = (if \<exists>r\<in>set (matching_rules lib p q v). has_terminal (r_actions r)
              then None else Some PolicyErrNoRoute)"
  using assms(2) eval_rules_terminal [of "by_priority (p_rules p)"] validated_rule_ids [OF assms(1)]
  by (auto simp: evaluate_valid [OF assms(1)] Let_def eval_rules_spec matching_rules_def
      empty_result_def has_terminal_concat simp del: by_priority_set)

section \<open>Properties\<close>

text \<open>C4: Evaluate of a valid document returns exactly the rules that are enabled and known to
  match, in order of falling priority (document order within one priority), up to and including
  the first stop rule; their actions in that order; the first of them with a terminal action;
  and no error exactly when there is one.  Tracing changes none of it.\<close>

theorem evaluate_correct:
  assumes "policy_validate lib p = None" "evaluate lib p q v tr = (res, e)"
  shows "res_policy_id res = p_id p \<and>
    res_matched_rule_ids res = map r_id (matching_rules lib p q v) \<and>
    res_actions res = concat (map r_actions (matching_rules lib p q v)) \<and>
    res_terminal_rule_id res =
      (case List.find (\<lambda>r. has_terminal (r_actions r)) (matching_rules lib p q v) of
         None \<Rightarrow> [] | Some r \<Rightarrow> r_id r) \<and>
    (e = None \<longleftrightarrow> (\<exists>r\<in>set (matching_rules lib p q v). has_terminal (r_actions r))) \<and>
    (e = None \<or> e = Some PolicyErrNoRoute)"
  using evaluate_fields [OF assms] assms(2)
  by (auto simp: evaluate_valid [OF assms(1)] Let_def eval_rules_spec empty_result_def)

text \<open>A grant comes from a known match: when Evaluate returns no error, the terminal rule is an
  enabled rule of the document whose condition has the value Match, and it has a terminal action
  among the actions returned; a document that does not validate grants nothing.\<close>

theorem evaluate_grant_known:
  assumes "evaluate lib p q v tr = (res, None)"
  shows "policy_validate lib p = None \<and>
    (\<exists>r\<in>set (p_rules p). r_id r = res_terminal_rule_id res \<and> r_enabled r \<and>
       cond_value lib q v (r_conditions r) = Match \<and>
       (\<exists>a\<in>set (r_actions r). a \<in> set (res_actions res) \<and> a_type a \<in> set terminal_types))"
proof -
  have v: "policy_validate lib p = None"
    using assms by (cases "policy_validate lib p") (auto simp: evaluate_def)
  note f = evaluate_fields [OF v assms]
  have "\<exists>r\<in>set (matching_rules lib p q v). has_terminal (r_actions r)"
    using f(4) by (auto split: if_splits)
  then obtain r where
    r: "List.find (\<lambda>r. has_terminal (r_actions r)) (matching_rules lib p q v) = Some r"
    by (cases "List.find (\<lambda>r. has_terminal (r_actions r)) (matching_rules lib p q v)")
       (auto simp: find_None_iff)
  then have "r \<in> set (matching_rules lib p q v)" "has_terminal (r_actions r)"
    by (auto dest!: find_Some_iff [THEN iffD1])
  then show ?thesis
    using v f(2,3) r matching_rules_sound [of r lib p q v]
    by (force simp: has_terminal_def list_ex_iff)
qed

text \<open>More visibility refines, it never reverses: whatever Evaluate's matcher decides about a
  condition (Match or NoMatch) while fewer request attributes are visible, it decides the same
  when more are visible.\<close>

theorem match_visibility_monotone:
  assumes "visibility_le v w" "fst (match_condition lib q v c) \<noteq> Unknown"
  shows "fst (match_condition lib q w c) = fst (match_condition lib q v c)"
  using cond_value_mono [OF assms(1), of lib q c] assms(2)
  by (simp add: match_condition_value(1) info_le_def)

section \<open>Witnesses\<close>

definition sample_lib :: go_lib where
  "sample_lib = \<lparr>regexp_compile = (\<lambda>p. Some (\<lambda>s. s = p)), parse_addr = (\<lambda>s. None),
     addr_string = (\<lambda>a. ''''), parse_prefix = (\<lambda>s. None), url_parse = (\<lambda>s. None),
     url_parse_request_uri = (\<lambda>s. None)\<rparr>"

definition no_visibility :: visibility where
  "no_visibility = \<lparr>v_host = False, v_method = False, v_path = False, v_headers = False,
     v_resource_type = False\<rparr>"

definition host_visibility :: visibility where
  "host_visibility = no_visibility\<lparr>v_host := True\<rparr>"

definition unknown_text :: "string go_optional" where
  "unknown_text = \<lparr>known = False, value_of = ''''\<rparr>"

definition sample_request :: request_context where
  "sample_request = \<lparr>q_request_id = ''r1'', q_connection_id = ''c1'', q_client_id = ''alice'',
     q_listener = ''main'', q_protocol = ''http'', q_scheme = ''http'',
     q_host = ''www.Example.com'', q_session_key = '''', q_port = 80, q_source_ip = None,
     q_destination_ip = None, q_method = unknown_text, q_path = unknown_text,
     q_resource_type = unknown_text, q_mime_hint = unknown_text,
     q_content_length = \<lparr>known = False, value_of = 0\<rparr>,
     q_headers = \<lparr>known = False, value_of = []\<rparr>, q_timestamp = 0, q_inspect_mode = False\<rparr>"

definition leaf :: "string \<Rightarrow> string \<Rightarrow> string \<Rightarrow> condition" where
  "leaf f opr v = Condition f opr [v] [] [] None"

definition sample_action :: action where
  "sample_action = \<lparr>a_type = ''proxy'', a_pool_id = ''pool1'', a_chain_id = '''',
     a_fallback_chain_ids = [], a_value = ''''\<rparr>"

definition sample_policy :: policy where
  "sample_policy = \<lparr>p_version = 1, p_id = ''p1'', p_name = ''sample'', p_rules =
     [\<lparr>r_id = ''low'', r_name = ''low'', r_priority = 1, r_enabled = True,
       r_stop_processing = False, r_conditions = leaf ''client'' ''equals'' ''alice'',
       r_actions = [sample_action\<lparr>a_type := ''block'', a_pool_id := ''''\<rparr>]\<rparr>,
      \<lparr>r_id = ''high'', r_name = ''high'', r_priority = 9, r_enabled = True,
       r_stop_processing = True, r_conditions = leaf ''host'' ''wildcard'' ''*.example.com'',
       r_actions = [sample_action]\<rparr>]\<rparr>"

lemma sample_policy_valid: "policy_validate sample_lib sample_policy = None"
  by code_simp

lemma sample_evaluate:
  "evaluate sample_lib sample_policy sample_request host_visibility False =
     (empty_result\<lparr>res_policy_id := ''p1'', res_actions := [sample_action],
        res_matched_rule_ids := [''high''], res_terminal_rule_id := ''high''\<rparr>, None)"
  by code_simp

theorem evaluate_correct_witness:
  "map r_id (matching_rules sample_lib sample_policy sample_request host_visibility) = [''high'']"
proof -
  have "[''high''] = map r_id (matching_rules sample_lib sample_policy sample_request host_visibility)"
    using evaluate_correct [OF sample_policy_valid sample_evaluate, THEN conjunct2, THEN conjunct1]
    by simp
  then show ?thesis ..
qed

theorem evaluate_grant_known_witness:
  "\<exists>r\<in>set (p_rules sample_policy). r_id r = ''high'' \<and> r_enabled r"
  using evaluate_grant_known [OF sample_evaluate] by auto

theorem match_visibility_monotone_witness:
  "fst (match_condition sample_lib sample_request host_visibility
     (Condition '''' '''' [] [leaf ''client'' ''equals'' ''bob'', leaf ''host'' ''suffix'' ''.com'']
       [] None)) = NoMatch"
proof -
  let ?c = "Condition '''' '''' [] [leaf ''client'' ''equals'' ''bob'',
    leaf ''host'' ''suffix'' ''.com''] [] None"
  have "visibility_le no_visibility host_visibility" by code_simp
  moreover have n: "fst (match_condition sample_lib sample_request no_visibility ?c) = NoMatch"
    by code_simp
  ultimately show ?thesis
    using match_visibility_monotone [of no_visibility host_visibility sample_lib sample_request ?c]
    by simp
qed

end
