(* ===== verification/Session_Model.thy ===== *)
theory Session_Model
  imports Traffic_Values
begin

text \<open>pkg/session/session.go: sticky-session records, their policies and validation.\<close>

record session_policy =
  sp_strategy :: string
  sp_ttl :: duration
  sp_idle_ttl :: duration
  sp_max_requests :: "64 word"
  sp_max_bytes :: bytes

record session =
  ss_id :: go_id
  ss_client_id :: go_id
  ss_key_hash :: string
  ss_pool_id :: go_id
  ss_endpoint_id :: go_id
  ss_created_at :: go_time
  ss_last_used_at :: go_time
  ss_expires_at :: go_time
  ss_idle_expires_at :: go_time
  ss_request_count :: "64 word"
  ss_upload_bytes :: bytes
  ss_download_bytes :: bytes
  ss_status :: string
  ss_rotation_reason :: string
  ss_policy :: session_policy
  ss_runtime_revision :: int

record change_set =
  ch_upserts :: "session list"
  ch_deletes :: "go_id list"

definition normalized :: "session_policy \<Rightarrow> session_policy" where
  "normalized p = (if sp_strategy p = [] then p\<lparr>sp_strategy := ''none''\<rparr> else p)"

definition year_duration :: duration where "year_duration = 365 * 24 * hour"

definition session_policy_validate :: "session_policy \<Rightarrow> error option" where
  "session_policy_validate p0 = (let p = normalized p0 in
     if sp_strategy p \<notin> set [''none'', ''explicit'', ''client'', ''destination'', ''client_destination'']
     then Some SessionErrInvalid
     else if sp_ttl p < 0 \<or> sp_idle_ttl p < 0 \<or> sp_ttl p > year_duration \<or> sp_idle_ttl p > year_duration
     then Some SessionErrInvalid else None)"

definition reason_persisted :: "string \<Rightarrow> bool" where
  "reason_persisted r = (r \<in> set [''created'', ''manual'', ''expired'', ''idle_expired'',
     ''request_limit'', ''byte_limit'', ''policy_change'', ''health_quarantine'', ''proxy_failed''])"

definition valid_expiry :: "go_time \<Rightarrow> go_time \<Rightarrow> bool" where
  "valid_expiry v floor_at = (v = 0 \<or> \<not> v < floor_at)"

definition hex_char :: "char \<Rightarrow> bool" where
  "hex_char c = (let n = (of_char c :: nat) in
     (48 \<le> n \<and> n \<le> 57) \<or> (97 \<le> n \<and> n \<le> 102) \<or> (65 \<le> n \<and> n \<le> 70))"

definition session_validate :: "session \<Rightarrow> error option" where
  "session_validate s =
     (if \<not> id_valid (ss_id s) \<or> \<not> id_valid (ss_client_id s) \<or> \<not> id_valid (ss_pool_id s) \<or>
         \<not> id_valid (ss_endpoint_id s) \<or> ss_runtime_revision s < 0 \<or>
         session_policy_validate (ss_policy s) \<noteq> None \<or> length (ss_key_hash s) \<noteq> 64
      then Some SessionErrInvalid
      else if \<not> list_all hex_char (ss_key_hash s) then Some SessionErrInvalid
      else if ss_status s \<noteq> ''active'' \<and> ss_status s \<noteq> ''rotated'' \<or>
          \<not> reason_persisted (ss_rotation_reason s) then Some SessionErrInvalid
      else if ss_created_at s = 0 \<or> ss_last_used_at s < ss_created_at s \<or>
          \<not> valid_expiry (ss_expires_at s) (ss_created_at s) \<or>
          \<not> valid_expiry (ss_idle_expires_at s) (ss_last_used_at s) then Some SessionErrInvalid
      else None)"

definition active :: "session \<Rightarrow> bool" where
  "active s = (ss_status s = ''active'')"

end
