(* ===== verification/Session_Manager.thy ===== *)
theory Session_Manager
  imports Session_Model
begin

text \<open>internal/session/manager.go: the bounded table of sticky sessions.  Resolve releases the lock
  while the caller's Select runs, so it is two functions, one per locked section, and their
  composition when nothing interleaves.  The HMAC and the durable store are arguments; a fresh
  random id is an argument of the creating section.\<close>

record 'p session_env =
  se_mac :: "string \<Rightarrow> string \<Rightarrow> string"
  se_apply :: "error option \<Rightarrow> change_set \<Rightarrow> 'p \<Rightarrow> error option \<times> 'p"
  se_load :: "'p \<Rightarrow> error + session list"

record 'p session_manager =
  sm_sessions :: "(go_id \<times> session) list"
  sm_index :: "(string \<times> go_id) list"
  sm_key :: string
  sm_max :: nat
  sm_persistence :: "'p option"

record session_request =
  rq_client_id :: go_id
  rq_pool_id :: go_id
  rq_key :: string
  rq_policy :: session_policy
  rq_revision :: int

record session_result =
  sr_session :: session
  sr_reused :: bool

section \<open>Construction\<close>

definition new_manager :: "string \<Rightarrow> nat \<Rightarrow> error + 'p session_manager" where
  "new_manager key n =
     (if length key < 16 \<or> n < 1 \<or> n > 1000000 then Inl SessionErrInvalid
      else Inr \<lparr>sm_sessions = [], sm_index = [], sm_key = key, sm_max = n, sm_persistence = None\<rparr>)"

fun restore :: "session list \<Rightarrow> 'p session_manager \<Rightarrow> error + 'p session_manager" where
  "restore [] m = Inr m"
| "restore (e # es) m =
     (if session_validate e \<noteq> None then Inl SessionErrInvalid
      else if map_of (sm_sessions m) (ss_id e) \<noteq> None then Inl SessionErrInvalid
      else let m' = m\<lparr>sm_sessions := AList.update (ss_id e) e (sm_sessions m)\<rparr> in
        if ss_status e = ''active'' then
          (if map_of (sm_index m) (ss_key_hash e) \<noteq> None then Inl SessionErrInvalid
           else restore es (m'\<lparr>sm_index := AList.update (ss_key_hash e) (ss_id e) (sm_index m)\<rparr>))
        else restore es m')"

definition new_persistent_manager ::
  "'p session_env \<Rightarrow> string \<Rightarrow> nat \<Rightarrow> 'p \<Rightarrow> error + 'p session_manager" where
  "new_persistent_manager env key n p =
     (case new_manager key n of Inl e \<Rightarrow> Inl e
      | Inr m \<Rightarrow> (case se_load env p of Inl e \<Rightarrow> Inl e
        | Inr loaded \<Rightarrow>
            if length loaded > n then Inl SessionErrFull
            else restore loaded (m\<lparr>sm_persistence := Some p\<rparr>)))"

section \<open>Helpers\<close>

definition index_payload :: "go_id \<Rightarrow> go_id \<Rightarrow> string \<Rightarrow> string \<Rightarrow> string" where
  "index_payload client pool key strategy = client @ ''|'' @ pool @ ''|'' @ strategy @ ''|'' @ key"

definition index_key :: "'p session_env \<Rightarrow> 'p session_manager \<Rightarrow> go_id \<Rightarrow> go_id \<Rightarrow> string \<Rightarrow> string \<Rightarrow> string" where
  "index_key env m client pool key strategy =
     se_mac env (sm_key m) (index_payload client pool key strategy)"

definition expiry :: "go_time \<Rightarrow> duration \<Rightarrow> go_time" where
  "expiry start lifetime = (if lifetime \<le> 0 then 0 else start + lifetime)"

definition new_session :: "go_id \<Rightarrow> session_request \<Rightarrow> go_id \<Rightarrow> go_time \<Rightarrow> string \<Rightarrow> session" where
  "new_session nid req endpoint now reason =
     \<lparr>ss_id = nid, ss_client_id = rq_client_id req, ss_key_hash = [], ss_pool_id = rq_pool_id req,
      ss_endpoint_id = endpoint, ss_created_at = now, ss_last_used_at = now,
      ss_expires_at = (if sp_ttl (rq_policy req) > 0 then now + sp_ttl (rq_policy req) else 0),
      ss_idle_expires_at = (if sp_idle_ttl (rq_policy req) > 0 then now + sp_idle_ttl (rq_policy req) else 0),
      ss_request_count = 0, ss_upload_bytes = 0, ss_download_bytes = 0, ss_status = ''active'',
      ss_rotation_reason = reason, ss_policy = rq_policy req, ss_runtime_revision = rq_revision req\<rparr>"

definition rotation_reason :: "session \<Rightarrow> session_policy \<Rightarrow> int \<Rightarrow> go_time \<Rightarrow> string" where
  "rotation_reason s p revision now =
     (if ss_status s \<noteq> ''active'' then ''policy_change''
      else if ss_policy s \<noteq> p then ''policy_change''
      else if ss_runtime_revision s \<noteq> revision then ''policy_change''
      else if sp_ttl p > 0 \<and> \<not> now < ss_created_at s + sp_ttl p then ''expired''
      else if sp_idle_ttl p > 0 \<and> \<not> now < ss_last_used_at s + sp_idle_ttl p then ''idle_expired''
      else if sp_max_requests p > 0 \<and> ss_request_count s \<ge> sp_max_requests p then ''request_limit''
      else if sp_max_bytes p > 0 \<and> (ss_upload_bytes s \<ge> sp_max_bytes p \<or>
          ss_download_bytes s \<ge> sp_max_bytes p - ss_upload_bytes s) then ''byte_limit''
      else [])"

definition valid_rotation_reason :: "string \<Rightarrow> bool" where
  "valid_rotation_reason r = (r \<in> set [''manual'', ''expired'', ''idle_expired'', ''proxy_failed'',
     ''health_quarantine'', ''byte_limit'', ''request_limit'', ''policy_change''])"

fun oldest_inactive :: "(go_id \<times> session) list \<Rightarrow> go_id \<Rightarrow> go_time \<Rightarrow> go_id" where
  "oldest_inactive [] oid oat = oid"
| "oldest_inactive ((i, s) # ss) oid oat =
     (if ss_status s = ''active'' then oldest_inactive ss oid oat
      else if oid = [] \<or> ss_last_used_at s < oat then oldest_inactive ss i (ss_last_used_at s)
      else oldest_inactive ss oid oat)"

definition make_room :: "'p session_manager \<Rightarrow> go_id \<times> bool" where
  "make_room m =
     (if length (sm_sessions m) < sm_max m then ([], True)
      else let oid = oldest_inactive (sm_sessions m) [] 0 in
        if oid = [] then ([], False) else (oid, True))"

definition remove_locked :: "go_id \<Rightarrow> 'p session_manager \<Rightarrow> 'p session_manager" where
  "remove_locked i m = m\<lparr>sm_sessions := AList.delete i (sm_sessions m),
     sm_index := filter (\<lambda>(k, v). v \<noteq> i) (sm_index m)\<rparr>"

definition apply_locked :: "'p session_env \<Rightarrow> error option \<Rightarrow> change_set \<Rightarrow> 'p session_manager \<Rightarrow>
    error option \<times> 'p session_manager" where
  "apply_locked env cerr ch m =
     (case sm_persistence m of None \<Rightarrow> (None, m)
      | Some p \<Rightarrow>
          if ch_upserts ch = [] \<and> ch_deletes ch = [] then (None, m)
          else case se_apply env cerr ch p of (e, p') \<Rightarrow> (e, m\<lparr>sm_persistence := Some p'\<rparr>))"

definition upsert :: "session \<Rightarrow> change_set" where
  "upsert s = \<lparr>ch_upserts = [s], ch_deletes = []\<rparr>"

definition deletion :: "go_id \<Rightarrow> change_set" where
  "deletion i = \<lparr>ch_upserts = [], ch_deletes = [i]\<rparr>"

definition put_session :: "session \<Rightarrow> go_id \<Rightarrow> 'p session_manager \<Rightarrow> 'p session_manager" where
  "put_session s i m = m\<lparr>sm_sessions := AList.update i s (sm_sessions m)\<rparr>"

section \<open>Resolve\<close>

datatype resolve_outcome =
    Resolved "error + session_result"
  | CallSelect "string option"

text \<open>The end of the first locked section: room for one more session.\<close>

definition begin_room :: "'p session_env \<Rightarrow> error option \<Rightarrow> string \<Rightarrow> 'p session_manager \<Rightarrow>
    resolve_outcome \<times> 'p session_manager" where
  "begin_room env cerr idx m =
     (case make_room m of (evicted, ok) \<Rightarrow>
        if \<not> ok then (Resolved (Inl SessionErrFull), m)
        else if evicted \<noteq> [] then
          (case apply_locked env cerr (deletion evicted) m of
             (Some e, m') \<Rightarrow> (Resolved (Inl e), m')
           | (None, m') \<Rightarrow> (CallSelect (Some idx), remove_locked evicted m'))
        else (CallSelect (Some idx), m))"

definition drop_index :: "string \<Rightarrow> 'p session_manager \<Rightarrow> 'p session_manager" where
  "drop_index idx m = m\<lparr>sm_index := AList.delete idx (sm_index m)\<rparr>"

definition reused_session :: "session_policy \<Rightarrow> go_time \<Rightarrow> session \<Rightarrow> session" where
  "reused_session p now s = s\<lparr>ss_last_used_at := now, ss_policy := p,
     ss_expires_at := expiry (ss_created_at s) (sp_ttl p),
     ss_idle_expires_at := expiry now (sp_idle_ttl p)\<rparr>"

text \<open>The code sets the status first and computes the reason from the record it has just changed.\<close>

definition rotated_session :: "session_policy \<Rightarrow> int \<Rightarrow> go_time \<Rightarrow> session \<Rightarrow> session" where
  "rotated_session p revision now s = (let s1 = s\<lparr>ss_status := ''rotated''\<rparr> in
     s1\<lparr>ss_rotation_reason := rotation_reason s1 p revision now\<rparr>)"

text \<open>The part before Select: CallSelect carries the index of the binding to create, or None for the
  strategy without a binding.\<close>

definition resolve_begin :: "'p session_env \<Rightarrow> error option \<Rightarrow> go_time \<Rightarrow> session_request \<Rightarrow>
    'p session_manager \<Rightarrow> resolve_outcome \<times> 'p session_manager" where
  "resolve_begin env cerr now req m =
     (case cerr of Some e \<Rightarrow> (Resolved (Inl e), m)
      | None \<Rightarrow>
        let p = normalized (rq_policy req) in
        if \<not> id_valid (rq_client_id req) \<or> \<not> id_valid (rq_pool_id req) \<or>
           session_policy_validate p \<noteq> None \<or> rq_revision req < 0 \<or> length (rq_key req) > 4096
        then (Resolved (Inl SessionErrInvalid), m)
        else if sp_strategy p = ''none'' then (CallSelect None, m)
        else if rq_key req = [] then (Resolved (Inl SessionErrInvalid), m)
        else
          let idx = index_key env m (rq_client_id req) (rq_pool_id req) (rq_key req) (sp_strategy p) in
          case map_of (sm_index m) idx of
            None \<Rightarrow> begin_room env cerr idx m
          | Some i \<Rightarrow>
             (case map_of (sm_sessions m) i of
                None \<Rightarrow> begin_room env cerr idx (drop_index idx m)
              | Some s \<Rightarrow>
                 if rotation_reason s p (rq_revision req) now = [] then
                   (case apply_locked env cerr (upsert (reused_session p now s)) m of
                      (Some e, m1) \<Rightarrow> (Resolved (Inl e), m1)
                    | (None, m1) \<Rightarrow>
                       (Resolved (Inr \<lparr>sr_session = reused_session p now s, sr_reused = True\<rparr>),
                        put_session (reused_session p now s) i m1))
                 else
                   (case apply_locked env cerr (upsert (rotated_session p (rq_revision req) now s)) m of
                      (Some e, m1) \<Rightarrow> (Resolved (Inl e), m1)
                    | (None, m1) \<Rightarrow>
                        begin_room env cerr idx (drop_index idx
                          (put_session (rotated_session p (rq_revision req) now s) i m1)))))"

text \<open>The part after Select has returned an endpoint.\<close>

definition store_created :: "'p session_env \<Rightarrow> error option \<Rightarrow> string \<Rightarrow> session \<Rightarrow>
    'p session_manager \<Rightarrow> (error + session_result) \<times> 'p session_manager" where
  "store_created env cerr idx created m =
     (case make_room m of (evicted, ok) \<Rightarrow>
        if \<not> ok then (Inl SessionErrFull, m)
        else case apply_locked env cerr
               \<lparr>ch_upserts = [created], ch_deletes = (if evicted \<noteq> [] then [evicted] else [])\<rparr> m of
           (Some e, m1) \<Rightarrow> (Inl e, m1)
         | (None, m1) \<Rightarrow>
            (let m2 = (if evicted \<noteq> [] then remove_locked evicted m1 else m1) in
             (Inr \<lparr>sr_session = created, sr_reused = False\<rparr>,
              (put_session created (ss_id created) m2)
                \<lparr>sm_index := AList.update idx (ss_id created) (sm_index m2)\<rparr>)))"

definition resolve_finish :: "'p session_env \<Rightarrow> error option \<Rightarrow> go_time \<Rightarrow> session_request \<Rightarrow> string \<Rightarrow>
    go_id \<Rightarrow> go_id \<Rightarrow> 'p session_manager \<Rightarrow> (error + session_result) \<times> 'p session_manager" where
  "resolve_finish env cerr now req0 idx endpoint nid m =
     (let req = req0\<lparr>rq_policy := normalized (rq_policy req0)\<rparr>;
          created = (new_session nid req endpoint now ''created'')\<lparr>ss_key_hash := idx\<rparr> in
      case map_of (sm_index m) idx of
        None \<Rightarrow> store_created env cerr idx created m
      | Some i \<Rightarrow> (case map_of (sm_sessions m) i of
          None \<Rightarrow> store_created env cerr idx created m
        | Some s \<Rightarrow>
            if rotation_reason s (rq_policy req) (rq_revision req) now = []
            then (Inr \<lparr>sr_session = s, sr_reused = True\<rparr>, m)
            else store_created env cerr idx created m))"

text \<open>Resolve with a Select that nothing interleaves: it returns an endpoint or an error.\<close>

definition resolve :: "'p session_env \<Rightarrow> error option \<Rightarrow> go_time \<Rightarrow> session_request \<Rightarrow>
    (error + go_id) \<Rightarrow> go_id \<Rightarrow> 'p session_manager \<Rightarrow> (error + session_result) \<times> 'p session_manager" where
  "resolve env cerr now req sel nid m =
     (case resolve_begin env cerr now req m of
        (Resolved r, m') \<Rightarrow> (r, m')
      | (CallSelect idx, m') \<Rightarrow>
         (case sel of Inl e \<Rightarrow> (Inl e, m')
          | Inr endpoint \<Rightarrow>
             (case idx of
                None \<Rightarrow> (Inr \<lparr>sr_session = new_session nid
                    (req\<lparr>rq_policy := normalized (rq_policy req)\<rparr>) endpoint now ''none'',
                  sr_reused = False\<rparr>, m')
              | Some k \<Rightarrow> resolve_finish env cerr now req k endpoint nid m')))"

section \<open>The other operations\<close>

definition record_usage :: "'p session_env \<Rightarrow> error option \<Rightarrow> go_time \<Rightarrow> go_id \<Rightarrow> bytes \<Rightarrow> bytes \<Rightarrow>
    'p session_manager \<Rightarrow> error option \<times> 'p session_manager" where
  "record_usage env cerr now i upload download m =
     (case cerr of Some e \<Rightarrow> (Some e, m)
      | None \<Rightarrow>
        (case map_of (sm_sessions m) i of None \<Rightarrow> (Some SessionErrNotFound, m)
         | Some s \<Rightarrow>
          (case bytes_add (ss_upload_bytes s) upload of Inl e \<Rightarrow> (Some e, m)
           | Inr up \<Rightarrow>
            (case bytes_add (ss_download_bytes s) download of Inl e \<Rightarrow> (Some e, m)
             | Inr down \<Rightarrow>
                if ss_request_count s = - 1 then (Some TrafficErrOverflow, m)
                else let s' = s\<lparr>ss_upload_bytes := up, ss_download_bytes := down,
                        ss_request_count := ss_request_count s + 1, ss_last_used_at := now,
                        ss_idle_expires_at := expiry now (sp_idle_ttl (ss_policy s))\<rparr> in
                  (case apply_locked env cerr (upsert s') m of
                     (Some e, m') \<Rightarrow> (Some e, m')
                   | (None, m') \<Rightarrow> (None, put_session s' i m'))))))"

definition rotate_session :: "'p session_env \<Rightarrow> error option \<Rightarrow> go_id \<Rightarrow> string \<Rightarrow>
    'p session_manager \<Rightarrow> error option \<times> 'p session_manager" where
  "rotate_session env cerr i reason m =
     (case cerr of Some e \<Rightarrow> (Some e, m)
      | None \<Rightarrow>
        if \<not> valid_rotation_reason reason then (Some SessionErrInvalid, m)
        else case map_of (sm_sessions m) i of None \<Rightarrow> (Some SessionErrNotFound, m)
         | Some s \<Rightarrow>
            if ss_status s \<noteq> ''active'' then (Some SessionErrNotFound, m)
            else let s' = s\<lparr>ss_status := ''rotated'', ss_rotation_reason := reason\<rparr> in
              (case apply_locked env cerr (upsert s') m of
                 (Some e, m') \<Rightarrow> (Some e, m')
               | (None, m') \<Rightarrow> (None, (put_session s' i m')\<lparr>
                    sm_index := filter (\<lambda>(k, v). v \<noteq> i) (sm_index m')\<rparr>)))"

definition delete_session :: "'p session_env \<Rightarrow> error option \<Rightarrow> go_id \<Rightarrow>
    'p session_manager \<Rightarrow> error option \<times> 'p session_manager" where
  "delete_session env cerr i m =
     (case cerr of Some e \<Rightarrow> (Some e, m)
      | None \<Rightarrow>
        if \<not> id_valid i then (Some SessionErrInvalid, m)
        else if map_of (sm_sessions m) i = None then (Some SessionErrNotFound, m)
        else (case apply_locked env cerr (deletion i) m of
            (Some e, m') \<Rightarrow> (Some e, m')
          | (None, m') \<Rightarrow> (None, remove_locked i m')))"

definition get_session :: "error option \<Rightarrow> go_id \<Rightarrow> 'p session_manager \<Rightarrow> error + session" where
  "get_session cerr i m =
     (case cerr of Some e \<Rightarrow> Inl e
      | None \<Rightarrow> if \<not> id_valid i then Inl SessionErrInvalid
        else case map_of (sm_sessions m) i of None \<Rightarrow> Inl SessionErrNotFound | Some s \<Rightarrow> Inr s)"

text \<open>List sorts by creation, newest first, then by id.\<close>

definition list_sessions :: "error option \<Rightarrow> 'p session_manager \<Rightarrow> error + session list" where
  "list_sessions cerr m =
     (case cerr of Some e \<Rightarrow> Inl e
      | None \<Rightarrow> Inr (sort_key (\<lambda>s. - ss_created_at s) (sort_key ss_id (map snd (sm_sessions m)))))"

end
