(* ===== verification/Session_Invariants.thy ===== *)
theory Session_Invariants
  imports Session_Manager
begin

text \<open>What the session table guarantees: a system of interleaved Resolve calls and the other
  operations, the invariant of its maps, the capacity, stickiness, what the durable store holds
  (over the interface the code names Persistence), and two things it does not guarantee.\<close>

section \<open>The system\<close>

text \<open>A call of Resolve that is waiting for its Select: the request, its clock reading, its index.\<close>

record 'p session_system =
  sy_manager :: "'p session_manager"
  sy_waiting :: "(session_request \<times> go_time \<times> string) list"

inductive session_step :: "'p session_env \<Rightarrow> 'p session_system \<Rightarrow> 'p session_system \<Rightarrow> bool" for env where
  step_begin: "resolve_begin env cerr now req m = (Resolved r, m') \<Longrightarrow>
     session_step env \<lparr>sy_manager = m, sy_waiting = w\<rparr> \<lparr>sy_manager = m', sy_waiting = w\<rparr>"
| step_wait: "resolve_begin env cerr now req m = (CallSelect (Some idx), m') \<Longrightarrow>
     session_step env \<lparr>sy_manager = m, sy_waiting = w\<rparr>
       \<lparr>sy_manager = m', sy_waiting = (req, now, idx) # w\<rparr>"
| step_give_up: "session_step env \<lparr>sy_manager = m, sy_waiting = w1 @ c # w2\<rparr>
       \<lparr>sy_manager = m, sy_waiting = w1 @ w2\<rparr>"
| step_finish: "id_valid nid \<Longrightarrow> map_of (sm_sessions m) nid = None \<Longrightarrow>
     resolve_finish env cerr now req idx endpoint nid m = (r, m') \<Longrightarrow>
     session_step env \<lparr>sy_manager = m, sy_waiting = w1 @ (req, now, idx) # w2\<rparr>
       \<lparr>sy_manager = m', sy_waiting = w1 @ w2\<rparr>"
| step_usage: "record_usage env cerr now i up down m = (e, m') \<Longrightarrow>
     session_step env \<lparr>sy_manager = m, sy_waiting = w\<rparr> \<lparr>sy_manager = m', sy_waiting = w\<rparr>"
| step_rotate: "rotate_session env cerr i reason m = (e, m') \<Longrightarrow>
     session_step env \<lparr>sy_manager = m, sy_waiting = w\<rparr> \<lparr>sy_manager = m', sy_waiting = w\<rparr>"
| step_delete: "delete_session env cerr i m = (e, m') \<Longrightarrow>
     session_step env \<lparr>sy_manager = m, sy_waiting = w\<rparr> \<lparr>sy_manager = m', sy_waiting = w\<rparr>"

inductive session_reachable :: "'p session_env \<Rightarrow> 'p session_manager \<Rightarrow> 'p session_system \<Rightarrow> bool"
  for env m0 where
  session_init: "session_reachable env m0 \<lparr>sy_manager = m0, sy_waiting = []\<rparr>"
| session_next: "session_reachable env m0 s \<Longrightarrow> session_step env s s' \<Longrightarrow> session_reachable env m0 s'"

section \<open>The maps\<close>

definition sessions_ok :: "'p session_manager \<Rightarrow> bool" where
  "sessions_ok m = (distinct (keys_of (sm_sessions m)) \<and> distinct (keys_of (sm_index m)) \<and>
     length (sm_sessions m) \<le> sm_max m \<and>
     (\<forall>i s. map_of (sm_sessions m) i = Some s \<longrightarrow> ss_id s = i) \<and>
     (\<forall>k i. map_of (sm_index m) k = Some i \<longrightarrow>
        (\<exists>s. map_of (sm_sessions m) i = Some s \<and> active s \<and> ss_key_hash s = k)))"

lemma sessions_okD:
  assumes "sessions_ok m"
  shows "distinct (keys_of (sm_sessions m))" "distinct (keys_of (sm_index m))"
    "length (sm_sessions m) \<le> sm_max m"
    "map_of (sm_sessions m) i = Some s \<Longrightarrow> ss_id s = i"
    "map_of (sm_index m) k = Some i \<Longrightarrow>
       \<exists>s. map_of (sm_sessions m) i = Some s \<and> active s \<and> ss_key_hash s = k"
  using assms unfolding sessions_ok_def by blast+

lemma sessions_okI:
  assumes "distinct (keys_of (sm_sessions m))" "distinct (keys_of (sm_index m))"
    "length (sm_sessions m) \<le> sm_max m"
    "\<And>i s. map_of (sm_sessions m) i = Some s \<Longrightarrow> ss_id s = i"
    "\<And>k i. map_of (sm_index m) k = Some i \<Longrightarrow>
       \<exists>s. map_of (sm_sessions m) i = Some s \<and> active s \<and> ss_key_hash s = k"
  shows "sessions_ok m"
  using assms unfolding sessions_ok_def by blast

lemma map_of_filter_value:
  "distinct (keys_of xs) \<Longrightarrow> map_of (filter (\<lambda>(k, v). v \<noteq> i) xs) k =
     (case map_of xs k of None \<Rightarrow> None | Some v \<Rightarrow> if v = i then None else Some v)"
proof (induction xs)
  case (Cons x xs)
  obtain a b where x: "x = (a, b)" by fastforce
  have "a \<notin> fst ` set xs" using Cons.prems by (simp add: x)
  then have "map_of xs a = None" by (simp add: map_of_None_iff)
  then show ?case using Cons x by (auto split: option.splits)
qed simp

lemma apply_frame:
  assumes "apply_locked env cerr ch m = (e, m')"
  shows "sm_sessions m' = sm_sessions m" "sm_index m' = sm_index m" "sm_max m' = sm_max m"
    "sm_key m' = sm_key m" "sessions_ok m' = sessions_ok m"
  using assms
  by (auto simp: apply_locked_def sessions_ok_def split: option.splits if_splits prod.splits)

text \<open>The four changes of the table, each with the fact that keeps it in order.\<close>

lemma put_session_ok:
  assumes ok: "sessions_ok m" and i: "map_of (sm_sessions m) i = Some s" "ss_id s' = i"
    and ix: "distinct (keys_of ix)"
      "\<And>k j. map_of ix k = Some j \<Longrightarrow> map_of (sm_index m) k = Some j"
      "\<And>k. map_of ix k = Some i \<Longrightarrow> active s \<Longrightarrow> active s' \<and> ss_key_hash s' = ss_key_hash s"
  shows "sessions_ok ((put_session s' i m)\<lparr>sm_index := ix\<rparr>)"
proof (rule sessions_okI, goal_cases)
  case 1
  then show ?case using sessions_okD(1) [OF ok] by (simp add: put_session_def distinct_update)
next
  case 3
  then show ?case
    using sessions_okD(3) [OF ok] length_update_old [OF map_of_Some_key [OF i(1)]]
    by (simp add: put_session_def)
next
  case (4 j t)
  then show ?case
    using sessions_okD(4) [OF ok] i(2) by (simp add: put_session_def map_simps split: if_splits)
next
  case (5 k j)
  then have k: "map_of ix k = Some j" by simp
  obtain t where t: "map_of (sm_sessions m) j = Some t" "active t" "ss_key_hash t = k"
    using sessions_okD(5) [OF ok ix(2) [OF k]] by blast
  show ?case
  proof (cases "j = i")
    case True
    then have "s = t" using t(1) i(1) by simp
    then have "active s' \<and> ss_key_hash s' = k" using ix(3) [of k] k t True by simp
    then show ?thesis using True by (simp add: put_session_def map_simps)
  next
    case False
    then show ?thesis using t by (simp add: put_session_def map_simps)
  qed
qed (simp add: ix(1))

lemma update_ok:
  assumes "sessions_ok m" "map_of (sm_sessions m) i = Some s" "ss_id s' = i"
    "active s' = active s" "ss_key_hash s' = ss_key_hash s"
  shows "sessions_ok (put_session s' i m)"
proof -
  have "sessions_ok ((put_session s' i m)\<lparr>sm_index := sm_index m\<rparr>)"
    by (rule put_session_ok [OF assms(1-3)]) (simp_all add: assms(4,5) sessions_okD(2) [OF assms(1)])
  then show ?thesis by (simp add: put_session_def)
qed

lemma drop_index_ok: "sessions_ok m \<Longrightarrow> sessions_ok (drop_index idx m)"
  by (rule sessions_okI)
     (use sessions_okD [of m] in \<open>simp_all add: drop_index_def distinct_delete map_simps split: if_splits\<close>)

lemma unindexed_value:
  "distinct (keys_of xs) \<Longrightarrow> map_of (filter (\<lambda>(k, v). v \<noteq> i) xs) k = Some j \<longleftrightarrow> map_of xs k = Some j \<and> j \<noteq> i"
  by (cases "map_of xs k") (auto simp: map_of_filter_value simp del: map_of_eq_Some_iff)

lemma remove_ok:
  assumes ok: "sessions_ok m"
  shows "sessions_ok (remove_locked i m)"
proof (rule sessions_okI, goal_cases)
  case 3
  then show ?case
    using sessions_okD(3) [OF ok] length_delete_le [of i "sm_sessions m"] by (simp add: remove_locked_def)
next
  case (5 k j)
  then have "map_of (sm_index m) k = Some j" "j \<noteq> i"
    using unindexed_value [OF sessions_okD(2) [OF ok]] by (simp_all add: remove_locked_def)
  then show ?case
    using sessions_okD(5) [OF ok] by (fastforce simp: remove_locked_def map_simps)
qed (use sessions_okD(1,2,4) [OF ok] in
    \<open>simp_all add: remove_locked_def distinct_delete map_simps distinct_map_filter split: if_splits\<close>)

lemma create_ok:
  assumes ok: "sessions_ok m" and s: "length (sm_sessions m) < sm_max m"
    "map_of (sm_sessions m) (ss_id s) = None" "active s"
  shows "sessions_ok ((put_session s (ss_id s) m)
    \<lparr>sm_index := AList.update (ss_key_hash s) (ss_id s) (sm_index m)\<rparr>)"
proof (rule sessions_okI, goal_cases)
  case 3
  then show ?case
    using s(1) length_update_le [of "ss_id s" s "sm_sessions m"] by (simp add: put_session_def)
next
  case (4 j t)
  then show ?case
    using sessions_okD(4) [OF ok] by (simp add: put_session_def map_simps split: if_splits)
next
  case (5 k j)
  then show ?case
  proof (cases "k = ss_key_hash s")
    case True
    then show ?thesis using 5 s(3) by (simp add: put_session_def map_simps)
  next
    case False
    then obtain t where "map_of (sm_sessions m) j = Some t" "active t" "ss_key_hash t = k"
      using 5 sessions_okD(5) [OF ok, of k j] by (auto simp: map_simps)
    then show ?thesis using s(2) by (auto simp: put_session_def map_simps)
  qed
qed (use sessions_okD(1,2) [OF ok] in \<open>simp_all add: put_session_def distinct_update\<close>)

section \<open>Room\<close>

lemma oldest_inactive_cases:
  "oldest_inactive xs oid oat = oid \<or>
     (\<exists>s. (oldest_inactive xs oid oat, s) \<in> set xs \<and> \<not> active s)"
proof (induction xs arbitrary: oid oat)
  case (Cons x xs)
  obtain i s where x: "x = (i, s)" by fastforce
  show ?case
    using Cons.IH [of i "ss_last_used_at s"] Cons.IH [of oid oat] by (auto simp: x active_def)
qed simp

lemma make_room_cases:
  assumes "make_room m = (ev, True)"
  shows "ev = [] \<and> length (sm_sessions m) < sm_max m \<or>
    ev \<noteq> [] \<and> (\<exists>s. (ev, s) \<in> set (sm_sessions m) \<and> \<not> active s)"
  using assms oldest_inactive_cases [of "sm_sessions m" "[]" 0]
  by (auto simp: make_room_def Let_def split: if_splits)

lemma removed_room:
  assumes "sessions_ok m" "(i, s) \<in> set (sm_sessions m)"
  shows "length (sm_sessions (remove_locked i m)) < sm_max m"
    "map_of (sm_sessions (remove_locked i m)) j = (if j = i then None else map_of (sm_sessions m) j)"
proof -
  have "length (AList.delete i (sm_sessions m)) < length (sm_sessions m)"
    using assms(2) by (auto simp: AList.delete_eq intro!: length_filter_less)
  then show "length (sm_sessions (remove_locked i m)) < sm_max m"
    using sessions_okD(3) [OF assms(1)] by (simp add: remove_locked_def)
qed (simp add: remove_locked_def map_simps)

section \<open>Preservation\<close>

lemma begin_room_ok:
  assumes ok: "sessions_ok m" and r: "begin_room env cerr idx m = (r, m')"
  shows "sessions_ok m'"
proof -
  obtain ev b where e: "make_room m = (ev, b)" by fastforce
  obtain x m1 where a: "apply_locked env cerr (deletion ev) m = (x, m1)" by fastforce
  have "sessions_ok m1" using apply_frame(5) [OF a] ok by simp
  then show ?thesis
    using r e a ok by (auto simp: begin_room_def intro: remove_ok split: if_splits option.splits)
qed

lemma rotated_inactive: "\<not> active (rotated_session p revision now s)"
  "ss_id (rotated_session p revision now s) = ss_id s"
  "ss_key_hash (rotated_session p revision now s) = ss_key_hash s"
  by (simp_all add: rotated_session_def active_def Let_def)

lemma reused_same:
  "active (reused_session p now s) = active s" "ss_id (reused_session p now s) = ss_id s"
  "ss_key_hash (reused_session p now s) = ss_key_hash s"
  "ss_endpoint_id (reused_session p now s) = ss_endpoint_id s"
  by (simp_all add: reused_session_def active_def)

lemma rotate_drop_ok:
  assumes ok: "sessions_ok m" and i: "map_of (sm_index m) idx = Some i" "map_of (sm_sessions m) i = Some s"
    and s': "ss_id s' = i"
  shows "sessions_ok (drop_index idx (put_session s' i m))"
proof -
  have only: "k = idx" if "map_of (sm_index m) k = Some i" for k
    using sessions_okD(5) [OF ok that] sessions_okD(5) [OF ok i(1)] by auto
  have "sessions_ok ((put_session s' i m)\<lparr>sm_index := AList.delete idx (sm_index m)\<rparr>)"
    by (rule put_session_ok [OF ok i(2) s'])
       (use only sessions_okD(2) [OF ok] in \<open>auto simp: distinct_delete map_simps split: if_splits\<close>)
  then show ?thesis by (simp add: drop_index_def put_session_def)
qed

lemma resolve_begin_ok:
  assumes ok: "sessions_ok m" and r: "resolve_begin env cerr now req m = (r, m')"
  shows "sessions_ok m'"
proof -
  define p where "p = normalized (rq_policy req)"
  define idx where "idx = index_key env m (rq_client_id req) (rq_pool_id req) (rq_key req) (sp_strategy p)"
  have base: "sessions_ok m'" if "m' = m" using that ok by simp
  show ?thesis
  proof (cases "\<exists>i. cerr = None \<and> map_of (sm_index m) idx = Some i \<and>
      begin_room env cerr idx m \<noteq> (r, m') \<and> m' \<noteq> m")
    case False
    then show ?thesis
      using r base begin_room_ok [OF ok]
      by (auto simp: resolve_begin_def Let_def p_def [symmetric] idx_def [symmetric]
          split: option.splits if_splits)
  next
    case True
    then obtain i where i: "cerr = None" "map_of (sm_index m) idx = Some i" "m' \<noteq> m" by blast
    then obtain s where s: "map_of (sm_sessions m) i = Some s"
      using sessions_okD(5) [OF ok] by blast
    have id: "ss_id s = i" using sessions_okD(4) [OF ok s] .
    let ?u = "reused_session p now s" and ?t = "rotated_session p (rq_revision req) now s"
    obtain e1 m1 where a1: "apply_locked env cerr (upsert ?u) m = (e1, m1)" by fastforce
    obtain e2 m2 where a2: "apply_locked env cerr (upsert ?t) m = (e2, m2)" by fastforce
    have m1: "sessions_ok m1" "sessions_ok (put_session ?u i m1)"
      using apply_frame [OF a1] ok update_ok [of m1 i s ?u] s id by (simp_all add: reused_same)
    have m2: "sessions_ok m2" "sessions_ok (drop_index idx (put_session ?t i m2))"
      using apply_frame [OF a2] ok rotate_drop_ok [of m2 idx i s ?t] s id i(2)
      by (simp_all add: rotated_inactive)
    show ?thesis
      using r i s a1 a2 m1 m2 begin_room_ok [OF m2(2)]
      by (auto simp: resolve_begin_def Let_def p_def [symmetric] idx_def [symmetric]
          split: option.splits if_splits)
  qed
qed

lemma store_created_ok:
  assumes ok: "sessions_ok m" and c: "active c" "map_of (sm_sessions m) (ss_id c) = None"
    "ss_key_hash c = idx" and r: "store_created env cerr idx c m = (r, m')"
  shows "sessions_ok m'"
proof -
  obtain ev b where e: "make_room m = (ev, b)" by fastforce
  obtain x m1 where a: "apply_locked env cerr
      \<lparr>ch_upserts = [c], ch_deletes = (if ev \<noteq> [] then [ev] else [])\<rparr> m = (x, m1)" by fastforce
  note f = apply_frame [OF a]
  define m2 where "m2 = (if ev \<noteq> [] then remove_locked ev m1 else m1)"
  have ok1: "sessions_ok m1" using f ok by simp
  show ?thesis
  proof (cases "b \<and> x = None")
    case True
    have "sessions_ok m2" "length (sm_sessions m2) < sm_max m2" "map_of (sm_sessions m2) (ss_id c) = None"
      using make_room_cases [of m ev] e True ok1 f c(2) remove_ok [OF ok1, of ev] removed_room [OF ok1]
      by (auto simp: m2_def)
        (auto simp: remove_locked_def map_simps)
    note create_ok [OF this c(1)]
    then show ?thesis
      using r e a True c(3) by (simp add: store_created_def m2_def [symmetric] Let_def)
  next
    case False
    then show ?thesis
      using r e a ok ok1 by (auto simp: store_created_def split: option.splits if_splits)
  qed
qed

lemma resolve_finish_ok:
  assumes "sessions_ok m" "map_of (sm_sessions m) nid = None"
    "resolve_finish env cerr now req idx endpoint nid m = (r, m')"
  shows "sessions_ok m'"
proof -
  define c where "c = (new_session nid (req\<lparr>rq_policy := normalized (rq_policy req)\<rparr>) endpoint now
    ''created'')\<lparr>ss_key_hash := idx\<rparr>"
  have c: "active c" "map_of (sm_sessions m) (ss_id c) = None" "ss_key_hash c = idx"
    using assms(2) by (simp_all add: c_def new_session_def active_def)
  show ?thesis
    using assms(1,3) store_created_ok [OF assms(1) c, of env cerr r m']
    by (auto simp: resolve_finish_def Let_def c_def [symmetric] split: option.splits if_splits)
qed

lemma record_usage_ok:
  assumes ok: "sessions_ok m" and r: "record_usage env cerr now i up down m = (e, m')"
  shows "sessions_ok m'"
proof -
  have "sessions_ok (put_session s' i m1)"
    if "map_of (sm_sessions m) i = Some s" "apply_locked env c (upsert s') m = (x, m1)"
      "ss_id s' = ss_id s" "ss_status s' = ss_status s" "ss_key_hash s' = ss_key_hash s" for s s' c x m1
    using that apply_frame [OF that(2)] ok update_ok [of m1 i s s'] sessions_okD(4) [OF ok that(1)]
    by (simp add: active_def)
  then show ?thesis
    using r ok apply_frame(5)
    by (fastforce simp: record_usage_def Let_def split: option.splits sum.splits if_splits prod.splits)
qed

lemma rotate_session_ok:
  assumes ok: "sessions_ok m" and r: "rotate_session env cerr i reason m = (e, m')"
  shows "sessions_ok m'"
proof (cases "m' = m")
  case False
  then obtain s where s: "map_of (sm_sessions m) i = Some s" "cerr = None"
    using r by (auto simp: rotate_session_def split: option.splits if_splits)
  let ?s = "s\<lparr>ss_status := ''rotated'', ss_rotation_reason := reason\<rparr>"
  obtain x m1 where a: "apply_locked env cerr (upsert ?s) m = (x, m1)" by fastforce
  note f = apply_frame [OF a]
  have ok1: "sessions_ok m1" using f ok by simp
  have "sessions_ok ((put_session ?s i m1)\<lparr>sm_index := filter (\<lambda>(k, v). v \<noteq> i) (sm_index m1)\<rparr>)"
    by (rule put_session_ok [OF ok1, of i s])
       (use s f sessions_okD(2,4) [OF ok1] in
         \<open>auto simp: unindexed_value distinct_map_filter\<close>)
  then show ?thesis
    using r s a ok1 False by (auto simp: rotate_session_def Let_def split: option.splits if_splits)
qed (use ok in simp)

lemma delete_session_ok:
  assumes ok: "sessions_ok m" and r: "delete_session env cerr i m = (e, m')"
  shows "sessions_ok m'"
  using r ok apply_frame(5) remove_ok
  by (fastforce simp: delete_session_def split: option.splits if_splits prod.splits)

lemma session_step_ok: "session_step env s s' \<Longrightarrow> sessions_ok (sy_manager s) \<Longrightarrow> sessions_ok (sy_manager s')"
proof (induction rule: session_step.induct)
  case (step_finish nid m cerr now req idx endpoint r m' w1 w2)
  then show ?case using resolve_finish_ok by fastforce
qed (auto dest: resolve_begin_ok record_usage_ok rotate_session_ok delete_session_ok)

lemma session_reachable_ok:
  "session_reachable env m0 s \<Longrightarrow> sessions_ok m0 \<Longrightarrow> sessions_ok (sy_manager s)"
  by (induction rule: session_reachable.induct) (simp_all add: session_step_ok)

lemma new_manager_ok: "new_manager key n = Inr m \<Longrightarrow> sessions_ok m"
  by (auto simp: new_manager_def sessions_ok_def split: if_splits)

text \<open>Restoring from a store: every record is new, and so is the key hash of an active one.\<close>

definition loading_ok :: "'p session_manager \<Rightarrow> bool" where
  "loading_ok m = sessions_ok (m\<lparr>sm_max := length (sm_sessions m)\<rparr>)"

lemma restore_step_ok:
  assumes ok: "loading_ok m" and e: "map_of (sm_sessions m) (ss_id e) = None"
  shows "loading_ok (m\<lparr>sm_sessions := AList.update (ss_id e) e (sm_sessions m)\<rparr>)"
    and "active e \<Longrightarrow> map_of (sm_index m) (ss_key_hash e) = None \<Longrightarrow>
      loading_ok (m\<lparr>sm_sessions := AList.update (ss_id e) e (sm_sessions m),
        sm_index := AList.update (ss_key_hash e) (ss_id e) (sm_index m)\<rparr>)"
proof -
  note D = sessions_okD [OF ok [unfolded loading_ok_def], simplified]
  show "loading_ok (m\<lparr>sm_sessions := AList.update (ss_id e) e (sm_sessions m)\<rparr>)"
    unfolding loading_ok_def
  proof (rule sessions_okI, goal_cases)
    case (5 k i)
    then obtain s where "map_of (sm_sessions m) i = Some s" "active s" "ss_key_hash s = k"
      using D(5) by auto
    then show ?case using e by (auto simp: map_simps)
  qed (use D(1,2,4) e in \<open>simp_all add: distinct_update map_simps split: if_splits\<close>)
  assume a: "active e" "map_of (sm_index m) (ss_key_hash e) = None"
  show "loading_ok (m\<lparr>sm_sessions := AList.update (ss_id e) e (sm_sessions m),
      sm_index := AList.update (ss_key_hash e) (ss_id e) (sm_index m)\<rparr>)"
    unfolding loading_ok_def
  proof (rule sessions_okI, goal_cases)
    case (5 k i)
    then show ?case
    proof (cases "k = ss_key_hash e")
      case True
      then show ?thesis using 5 a by (simp add: map_simps)
    next
      case False
      then obtain s where "map_of (sm_sessions m) i = Some s" "active s" "ss_key_hash s = k"
        using 5 D(5) by (auto simp: map_simps)
      then show ?thesis using e by (auto simp: map_simps)
    qed
  qed (use D(1,2,4) e in \<open>simp_all add: distinct_update map_simps split: if_splits\<close>)
qed

lemma restore_ok:
  "restore es m = Inr m' \<Longrightarrow> loading_ok m \<Longrightarrow> length (sm_sessions m) + length es \<le> sm_max m \<Longrightarrow>
     sessions_ok m'"
proof (induction es arbitrary: m)
  case Nil
  then have "sessions_ok (m\<lparr>sm_max := length (sm_sessions m)\<rparr>)" by (simp add: loading_ok_def)
  then show ?case using Nil by (auto simp: sessions_ok_def)
next
  case (Cons e es)
  then have e: "map_of (sm_sessions m) (ss_id e) = None" by (auto simp: Let_def split: if_splits)
  then have l: "length (AList.update (ss_id e) e (sm_sessions m)) = Suc (length (sm_sessions m))"
    by (intro length_update_new) (simp add: map_of_None_iff)
  show ?case
  proof (cases "active e")
    case True
    then have i: "map_of (sm_index m) (ss_key_hash e) = None" "restore es
        (m\<lparr>sm_sessions := AList.update (ss_id e) e (sm_sessions m),
           sm_index := AList.update (ss_key_hash e) (ss_id e) (sm_index m)\<rparr>) = Inr m'"
      using Cons.prems(1) e by (auto simp: active_def Let_def split: if_splits)
    show ?thesis
      by (rule Cons.IH [OF i(2) restore_step_ok(2) [OF Cons.prems(2) e True i(1)]])
         (use Cons.prems(3) l in simp)
  next
    case False
    then have i: "restore es (m\<lparr>sm_sessions := AList.update (ss_id e) e (sm_sessions m)\<rparr>) = Inr m'"
      using Cons.prems(1) e by (auto simp: active_def Let_def split: if_splits)
    show ?thesis
      by (rule Cons.IH [OF i restore_step_ok(1) [OF Cons.prems(2) e]]) (use Cons.prems(3) l in simp)
  qed
qed

lemma new_persistent_ok:
  fixes m :: "'p session_manager"
  assumes "new_persistent_manager env key n p = Inr m"
  shows "sessions_ok m"
proof -
  obtain m0 :: "'p session_manager" where m0: "new_manager key n = Inr m0"
    using assms by (cases "new_manager key n :: error + 'p session_manager")
      (auto simp: new_persistent_manager_def)
  obtain loaded where m: "length loaded \<le> n" "restore loaded (m0\<lparr>sm_persistence := Some p\<rparr>) = Inr m"
    using assms m0
    by (auto simp: new_persistent_manager_def not_less [symmetric] split: sum.splits if_splits)
  have "sm_sessions m0 = []" "sm_index m0 = []" "sm_max m0 = n"
    using m0 by (auto simp: new_manager_def split: if_splits)
  then show ?thesis
    using m(1) by (intro restore_ok [OF m(2)]) (auto simp: loading_ok_def sessions_ok_def)
qed

section \<open>Stickiness\<close>

lemma begin_room_frame:
  assumes "begin_room env cerr idx m = (r, m')"
  shows "sm_key m' = sm_key m" "sm_persistence m = None \<Longrightarrow> sm_persistence m' = None"
    "map_of (sm_sessions m) i = None \<Longrightarrow> map_of (sm_sessions m') i = None"
    "r = CallSelect (Some idx) \<or> (\<exists>e. r = Resolved (Inl e))"
  using assms
  by (auto simp: begin_room_def apply_locked_def remove_locked_def map_simps
      split: prod.splits option.splits if_splits)

definition usable :: "session_request \<Rightarrow> bool" where
  "usable req = (let p = normalized (rq_policy req) in
     id_valid (rq_client_id req) \<and> id_valid (rq_pool_id req) \<and> session_policy_validate p = None \<and>
     0 \<le> rq_revision req \<and> length (rq_key req) \<le> 4096 \<and> sp_strategy p \<noteq> ''none'' \<and> rq_key req \<noteq> [])"

definition request_index :: "'p session_env \<Rightarrow> 'p session_manager \<Rightarrow> session_request \<Rightarrow> string" where
  "request_index env m req = index_key env m (rq_client_id req) (rq_pool_id req) (rq_key req)
     (sp_strategy (normalized (rq_policy req)))"

lemma resolve_begin_usable:
  assumes "usable req"
  shows "resolve_begin env None now req m =
    (let p = normalized (rq_policy req); idx = request_index env m req in
     case map_of (sm_index m) idx of
       None \<Rightarrow> begin_room env None idx m
     | Some i \<Rightarrow> (case map_of (sm_sessions m) i of
          None \<Rightarrow> begin_room env None idx (drop_index idx m)
        | Some s \<Rightarrow>
           if rotation_reason s p (rq_revision req) now = [] then
             (case apply_locked env None (upsert (reused_session p now s)) m of
                (Some e, m1) \<Rightarrow> (Resolved (Inl e), m1)
              | (None, m1) \<Rightarrow> (Resolved (Inr \<lparr>sr_session = reused_session p now s, sr_reused = True\<rparr>),
                  put_session (reused_session p now s) i m1))
           else (case apply_locked env None (upsert (rotated_session p (rq_revision req) now s)) m of
                (Some e, m1) \<Rightarrow> (Resolved (Inl e), m1)
              | (None, m1) \<Rightarrow> begin_room env None idx (drop_index idx
                  (put_session (rotated_session p (rq_revision req) now s) i m1)))))"
  using assms by (simp add: resolve_begin_def usable_def request_index_def Let_def not_le [symmetric])

lemma resolve_usable:
  assumes "resolve env None now req sel nid m = (Inr r, m')"
    "sp_strategy (normalized (rq_policy req)) \<noteq> ''none''"
  shows "usable req"
  using assms
  by (auto simp: resolve_def resolve_begin_def usable_def Let_def not_less split: if_splits)

text \<open>The binding of a resolved request is in the table.\<close>

definition bound :: "'p session_manager \<Rightarrow> string \<Rightarrow> session \<Rightarrow> bool" where
  "bound m idx s = (map_of (sm_index m) idx = Some (ss_id s) \<and>
     map_of (sm_sessions m) (ss_id s) = Some s)"

lemma store_created_bound:
  assumes "store_created env cerr idx c m = (Inr r, m')" "sm_persistence m = None"
  shows "sr_session r = c \<and> bound m' idx c \<and> sm_key m' = sm_key m \<and> sm_persistence m' = None"
  using assms
  by (auto simp: store_created_def apply_locked_def bound_def put_session_def remove_locked_def Let_def
      map_simps split: prod.splits if_splits)

lemma resolve_finish_bound:
  assumes "resolve_finish env cerr now req idx endpoint nid m = (Inr r, m')" "sm_persistence m = None"
    "sessions_ok m"
  shows "bound m' idx (sr_session r) \<and> sm_key m' = sm_key m \<and> sm_persistence m' = None"
proof -
  define c where "c = (new_session nid (req\<lparr>rq_policy := normalized (rq_policy req)\<rparr>) endpoint now
    ''created'')\<lparr>ss_key_hash := idx\<rparr>"
  show ?thesis
  proof (cases "store_created env cerr idx c m = (Inr r, m')")
    case True
    then show ?thesis using store_created_bound [OF True assms(2)] by simp
  next
    case False
    then obtain i where i: "map_of (sm_index m) idx = Some i"
      using assms(1) by (cases "map_of (sm_index m) idx")
        (auto simp: resolve_finish_def Let_def c_def [symmetric])
    then obtain s where s: "map_of (sm_sessions m) i = Some s"
      using sessions_okD(5) [OF assms(3)] by blast
    then have "r = \<lparr>sr_session = s, sr_reused = True\<rparr>" "m' = m"
      using assms(1) False i
      by (auto simp: resolve_finish_def Let_def c_def [symmetric] split: if_splits)
    then show ?thesis using sessions_okD(4) [OF assms(3) s] assms(2) i s by (simp add: bound_def)
  qed
qed

lemma begin_room_select:
  "begin_room env None idx m = (o1, m1) \<Longrightarrow> sm_persistence m = None \<Longrightarrow> sessions_ok m \<Longrightarrow>
     sm_key m1 = sm_key m \<and> sm_persistence m1 = None \<and> sessions_ok m1 \<and>
     (o1 = CallSelect (Some idx) \<or> (\<exists>e. o1 = Resolved (Inl e)))"
  using begin_room_frame(1,2,4) [of env None idx m o1 m1] begin_room_ok [of m env None idx o1 m1]
  by blast

lemma resolve_begin_outcome:
  assumes "usable req" "resolve_begin env None now req m = (o1, m1)" "sm_persistence m = None" "sessions_ok m"
  shows "sm_key m1 = sm_key m \<and> sm_persistence m1 = None \<and> sessions_ok m1 \<and>
    (o1 = CallSelect (Some (request_index env m req)) \<or> (\<exists>e. o1 = Resolved (Inl e)) \<or>
     (\<exists>r. o1 = Resolved (Inr r) \<and> bound m1 (request_index env m req) (sr_session r)))"
proof -
  let ?idx = "request_index env m req" and ?p = "normalized (rq_policy req)"
  show ?thesis
  proof (cases "map_of (sm_index m) ?idx")
    case None
    then show ?thesis
      using assms begin_room_select [of env ?idx m o1 m1] by (auto simp: resolve_begin_usable Let_def)
  next
    case (Some i)
    then obtain s where s: "map_of (sm_sessions m) i = Some s" using sessions_okD(5) [OF assms(4)] by blast
    have id: "ss_id s = i" using sessions_okD(4) [OF assms(4) s] .
    have a: "apply_locked env None ch m = (None, m)" for ch
      using assms(3) by (simp add: apply_locked_def)
    show ?thesis
    proof (cases "rotation_reason s ?p (rq_revision req) now = []")
      case True
      let ?u = "reused_session ?p now s"
      have "o1 = Resolved (Inr \<lparr>sr_session = ?u, sr_reused = True\<rparr>)" "m1 = put_session ?u i m"
        using assms(1,2) Some s a True by (simp_all add: resolve_begin_usable Let_def)
      then show ?thesis
        using update_ok [OF assms(4) s, of ?u] id assms(3) Some
        by (simp add: bound_def put_session_def reused_same map_simps)
    next
      case False
      let ?m = "drop_index ?idx (put_session (rotated_session ?p (rq_revision req) now s) i m)"
      have "begin_room env None ?idx ?m = (o1, m1)"
        using assms(1,2) Some s a False by (simp add: resolve_begin_usable Let_def)
      moreover have "sessions_ok ?m"
        using rotate_drop_ok [OF assms(4) Some s] id by (simp add: rotated_inactive)
      moreover have "sm_persistence ?m = None" "sm_key ?m = sm_key m"
        using assms(3) by (simp_all add: drop_index_def put_session_def)
      ultimately show ?thesis using begin_room_select [of env ?idx ?m o1 m1] by auto
    qed
  qed
qed

lemma resolve_bound:
  assumes "resolve env None now req sel nid m = (Inr r, m')" "usable req" "sm_persistence m = None"
    "sessions_ok m"
  shows "bound m' (request_index env m req) (sr_session r) \<and> sm_key m' = sm_key m \<and> sm_persistence m' = None"
proof -
  obtain o1 m1 where b: "resolve_begin env None now req m = (o1, m1)" by fastforce
  note o = resolve_begin_outcome [OF assms(2) b assms(3,4)]
  show ?thesis
    using assms(1) b o resolve_finish_bound [of env None now req "request_index env m req" _ nid m1 r m']
    by (auto simp: resolve_def split: sum.splits)
qed

section \<open>Affinity keys\<close>

lemma id_no_bar: "id_valid i \<Longrightarrow> CHR ''|'' \<notin> set i"
  by (cases i) (auto simp: id_valid_def alnum_char_def list_all_iff)

lemma split_bar:
  "CHR ''|'' \<notin> set a \<Longrightarrow> CHR ''|'' \<notin> set b \<Longrightarrow> a @ ''|'' @ x = b @ ''|'' @ y \<Longrightarrow> a = b \<and> x = y"
proof (induction a arbitrary: b)
  case Nil
  then show ?case by (cases b) auto
next
  case (Cons c a)
  then show ?case by (cases b) auto
qed

definition strategies :: "string list" where
  "strategies = [''none'', ''explicit'', ''client'', ''destination'', ''client_destination'']"

lemma strategy_no_bar: "p \<in> set strategies \<Longrightarrow> CHR ''|'' \<notin> set p"
  by (auto simp: strategies_def)

section \<open>Properties\<close>

text \<open>C33: In every interleaving of the session operations, over a new or a restored table, every
  affinity key points to a session that is in the table, is active and carries that key, and the
  table never holds more sessions than its capacity.\<close>

theorem session_table_invariant:
  assumes "new_manager key n = Inr m0 \<or> new_persistent_manager env key n p = Inr m0"
    "session_reachable env m0 s"
  shows "length (sm_sessions (sy_manager s)) \<le> sm_max (sy_manager s) \<and>
    (\<forall>k i. map_of (sm_index (sy_manager s)) k = Some i \<longrightarrow>
       (\<exists>t. map_of (sm_sessions (sy_manager s)) i = Some t \<and> ss_id t = i \<and> active t \<and> ss_key_hash t = k))"
proof -
  have "sessions_ok m0"
    by (rule disjE [OF assms(1)]) (erule new_manager_ok new_persistent_ok)+
  note ok = session_reachable_ok [OF assms(2) this]
  show ?thesis
  proof (intro conjI allI impI)
    show "length (sm_sessions (sy_manager s)) \<le> sm_max (sy_manager s)"
      by (rule sessions_okD(3) [OF ok])
    fix k i assume "map_of (sm_index (sy_manager s)) k = Some i"
    then obtain t where "map_of (sm_sessions (sy_manager s)) i = Some t" "active t" "ss_key_hash t = k"
      using sessions_okD(5) [OF ok] by blast
    then show "\<exists>t. map_of (sm_sessions (sy_manager s)) i = Some t \<and> ss_id t = i \<and> active t \<and>
        ss_key_hash t = k"
      using sessions_okD(4) [OF ok] by blast
  qed
qed


text \<open>The reason of a rotation is lost: when Resolve finds a binding that has reached a limit
  (expired, idle, too many requests or bytes), the record it keeps says policy_change, whatever the
  reason was, because the reason is computed after the status has been set to rotated.\<close>

theorem rotation_reason_lost:
  assumes "sessions_ok m" "sm_persistence m = None" "usable req"
    "map_of (sm_index m) (request_index env m req) = Some i" "map_of (sm_sessions m) i = Some s"
    "rotation_reason s (normalized (rq_policy req)) (rq_revision req) now = reason" "reason \<noteq> []"
    "length (sm_sessions m) < sm_max m"
    "resolve_begin env None now req m = (out, m')"
  shows "\<exists>s'. map_of (sm_sessions m') i = Some s' \<and> ss_status s' = ''rotated'' \<and>
    ss_rotation_reason s' = ''policy_change''"
proof -
  let ?p = "normalized (rq_policy req)" and ?idx = "request_index env m req"
  let ?t = "rotated_session ?p (rq_revision req) now s"
  have "i \<in> fst ` set (sm_sessions m)" using assms(5) by (rule map_of_Some_key)
  then have room: "make_room (drop_index ?idx (put_session ?t i m)) = ([], True)"
    using assms(8) by (simp add: make_room_def drop_index_def put_session_def length_update_old)
  have "m' = drop_index ?idx (put_session ?t i m)"
    using assms(3-7,9) assms(2) room
    by (simp add: resolve_begin_usable Let_def apply_locked_def begin_room_def)
  then show ?thesis
    by (simp add: drop_index_def put_session_def map_simps rotated_session_def rotation_reason_def Let_def)
qed

text \<open>Two requests share an affinity index exactly if client, pool, strategy and key agree, as far as
  the HMAC does not collide: a client never gets the binding of another one.\<close>

theorem affinity_separates_clients:
  assumes "id_valid c" "id_valid c'" "id_valid p" "id_valid p'" "s \<in> set strategies" "s' \<in> set strategies"
    "inj (se_mac env (sm_key m))"
  shows "index_key env m c p k s = index_key env m c' p' k' s' \<longleftrightarrow>
    c = c' \<and> p = p' \<and> s = s' \<and> k = k'"
proof
  assume "index_key env m c p k s = index_key env m c' p' k' s'"
  then have e: "index_payload c p k s = index_payload c' p' k' s'"
    using assms(7) by (simp add: index_key_def inj_eq)
  have n: "CHR ''|'' \<notin> set c" "CHR ''|'' \<notin> set c'" "CHR ''|'' \<notin> set p" "CHR ''|'' \<notin> set p'"
      "CHR ''|'' \<notin> set s" "CHR ''|'' \<notin> set s'"
    using assms(1-6) id_no_bar strategy_no_bar by blast+
  have 1: "c = c'" "p @ ''|'' @ s @ ''|'' @ k = p' @ ''|'' @ s' @ ''|'' @ k'"
    using split_bar [OF n(1,2)] e by (auto simp: index_payload_def)
  have 2: "p = p'" "s @ ''|'' @ k = s' @ ''|'' @ k'"
    using split_bar [OF n(3,4)] 1(2) by auto
  show "c = c' \<and> p = p' \<and> s = s' \<and> k = k'" using 1 2 split_bar [OF n(5,6) 2(2)] by blast
qed simp

section \<open>Witnesses\<close>

definition plain_env :: "unit session_env" where
  "plain_env = \<lparr>se_mac = (\<lambda>k msg. msg), se_apply = (\<lambda>e ch p. (None, p)), se_load = (\<lambda>p. Inr [])\<rparr>"

definition sticky_policy :: session_policy where
  "sticky_policy = \<lparr>sp_strategy = ''client'', sp_ttl = 100, sp_idle_ttl = 0, sp_max_requests = 0,
     sp_max_bytes = 0\<rparr>"

definition alice_request :: session_request where
  "alice_request = \<lparr>rq_client_id = ''alice'', rq_pool_id = ''pool1'', rq_key = ''alice'',
     rq_policy = sticky_policy, rq_revision = 1\<rparr>"

definition empty_table :: "unit session_manager" where
  "empty_table = \<lparr>sm_sessions = [], sm_index = [], sm_key = ''0123456789abcdef'', sm_max = 4,
     sm_persistence = None\<rparr>"

lemma empty_table_new: "new_manager ''0123456789abcdef'' 4 = Inr empty_table"
  by (simp add: new_manager_def empty_table_def)

definition alice_session :: session where
  "alice_session = (new_session ''s1'' alice_request ''e1'' 1000 ''created'')
     \<lparr>ss_key_hash := ''alice|pool1|client|alice''\<rparr>"

definition alice_table :: "unit session_manager" where
  "alice_table = empty_table\<lparr>sm_sessions := [(''s1'', alice_session)],
     sm_index := [(''alice|pool1|client|alice'', ''s1'')]\<rparr>"

lemma alice_resolved:
  "resolve plain_env None 1000 alice_request (Inr ''e1'') ''s1'' empty_table =
     (Inr \<lparr>sr_session = alice_session, sr_reused = False\<rparr>, alice_table)"
  by code_simp

lemma alice_table_ok: "sessions_ok alice_table"
proof -
  have "resolve_begin plain_env None 1000 alice_request empty_table =
      (CallSelect (Some ''alice|pool1|client|alice''), empty_table)" by code_simp
  moreover have "resolve_finish plain_env None 1000 alice_request ''alice|pool1|client|alice'' ''e1'' ''s1''
      empty_table = (Inr \<lparr>sr_session = alice_session, sr_reused = False\<rparr>, alice_table)" by code_simp
  moreover have "map_of (sm_sessions empty_table) ''s1'' = None" by (simp add: empty_table_def)
  ultimately show ?thesis
    using resolve_finish_ok [OF new_manager_ok [OF empty_table_new]] by blast
qed

lemma alice_reachable:
  "session_reachable plain_env empty_table \<lparr>sy_manager = alice_table, sy_waiting = []\<rparr>"
proof -
  have b: "resolve_begin plain_env None 1000 alice_request empty_table =
      (CallSelect (Some ''alice|pool1|client|alice''), empty_table)" by code_simp
  have f: "resolve_finish plain_env None 1000 alice_request ''alice|pool1|client|alice'' ''e1'' ''s1''
      empty_table = (Inr \<lparr>sr_session = alice_session, sr_reused = False\<rparr>, alice_table)" by code_simp
  have n: "id_valid ''s1''" "map_of (sm_sessions empty_table) ''s1'' = None" by code_simp+
  show ?thesis
    using session_next [OF session_next [OF session_init step_wait [OF b, of "[]"]],
        OF step_finish [OF n f, of "[]" "[]", simplified]] .
qed

theorem session_table_invariant_witness:
  "\<exists>t. map_of (sm_sessions alice_table) ''s1'' = Some t \<and> active t \<and>
     ss_key_hash t = ''alice|pool1|client|alice''"
proof -
  have "map_of (sm_index alice_table) ''alice|pool1|client|alice'' = Some ''s1''"
    by (simp add: alice_table_def)
  then show ?thesis
    using session_table_invariant [OF disjI1 [OF empty_table_new] alice_reachable] by auto
qed


text \<open>The session of the example has expired after 100 ticks; its record says policy_change.\<close>

theorem rotation_reason_lost_witness:
  "rotation_reason alice_session (normalized (rq_policy alice_request)) (rq_revision alice_request) 1200
     = ''expired'' \<and>
   (\<exists>s'. map_of (sm_sessions (snd (resolve_begin plain_env None 1200 alice_request alice_table))) ''s1''
     = Some s' \<and> ss_rotation_reason s' = ''policy_change'')"
proof -
  have f: "sm_persistence alice_table = None" "usable alice_request"
    "map_of (sm_index alice_table) (request_index plain_env alice_table alice_request) = Some ''s1''"
    "map_of (sm_sessions alice_table) ''s1'' = Some alice_session"
    "rotation_reason alice_session (normalized (rq_policy alice_request)) (rq_revision alice_request) 1200
       = ''expired''"
    "length (sm_sessions alice_table) < sm_max alice_table"
    by code_simp+
  show ?thesis
    using rotation_reason_lost [OF alice_table_ok f(1-5) _ f(6) surjective_pairing] f(5) by auto
qed

theorem affinity_separates_clients_witness:
  "index_key plain_env empty_table ''alice'' ''pool1'' ''x'' ''client'' \<noteq>
   index_key plain_env empty_table ''bob'' ''pool1'' ''x'' ''client''"
proof -
  have v: "id_valid ''alice''" "id_valid ''bob''" "id_valid ''pool1''" "''client'' \<in> set strategies"
    by code_simp+
  have "inj (se_mac plain_env (sm_key empty_table))" by (simp add: plain_env_def)
  then show ?thesis using affinity_separates_clients [OF v(1,2,3,3,4,4)] by simp
qed

end
