(* ===== verification/Session_Store.thy ===== *)
theory Session_Store
  imports Session_Invariants
begin

text \<open>The durable side of the sessions: the interface pkg/session names Persistence as a locale, its
  provider internal/storage/sqlite/sessions.go, and what the two give together.  The database is a
  table of documents by id; json encoding is the identity up to its length, and where the engine or
  the context may fail the failure is an input.\<close>

section \<open>The interface\<close>

definition apply_changes :: "change_set \<Rightarrow> (go_id \<Rightarrow> session option) \<Rightarrow> go_id \<Rightarrow> session option" where
  "apply_changes ch f = foldl (\<lambda>g i. g(i := None)) (foldl (\<lambda>g s. g(ss_id s := Some s)) f (ch_upserts ch))
     (ch_deletes ch)"

text \<open>What the manager has in memory is what the store holds.\<close>

definition mirrored :: "('p \<Rightarrow> go_id \<Rightarrow> session option) \<Rightarrow> 'p session_manager \<Rightarrow> bool" where
  "mirrored contents m =
     (case sm_persistence m of None \<Rightarrow> False | Some p \<Rightarrow> contents p = map_of (sm_sessions m))"

lemma apply_changes_upsert: "apply_changes (upsert s) f = f(ss_id s := Some s)"
  by (simp add: apply_changes_def upsert_def)

lemma apply_changes_delete: "apply_changes (deletion i) f = f(i := None)"
  by (simp add: apply_changes_def deletion_def)

lemma map_of_put: "map_of (sm_sessions (put_session s i m)) = (map_of (sm_sessions m))(i := Some s)"
  by (simp add: put_session_def update_conv')

lemma map_of_remove: "map_of (sm_sessions (remove_locked i m)) = (map_of (sm_sessions m))(i := None)"
  by (simp add: remove_locked_def delete_conv')

text \<open>A batch is applied whole or not at all.\<close>

locale session_persistence =
  fixes commit :: "error option \<Rightarrow> change_set \<Rightarrow> 'p \<Rightarrow> error option \<times> 'p"
    and contents :: "'p \<Rightarrow> go_id \<Rightarrow> session option"
  assumes commit_ok: "commit cerr ch p = (None, p') \<Longrightarrow> contents p' = apply_changes ch (contents p)"
    and commit_fail: "commit cerr ch p = (Some e, p') \<Longrightarrow> contents p' = contents p"
begin

lemma apply_mirror:
  assumes "se_apply env = commit" "mirrored contents m" "ch_upserts ch \<noteq> [] \<or> ch_deletes ch \<noteq> []"
    "apply_locked env cerr ch m = (e, m')"
  shows "e \<noteq> None \<Longrightarrow> mirrored contents m'"
    "e = None \<Longrightarrow> \<exists>p. sm_persistence m' = Some p \<and> contents p = apply_changes ch (map_of (sm_sessions m))"
proof -
  obtain p where p: "sm_persistence m = Some p" "contents p = map_of (sm_sessions m)"
    using assms(2) by (auto simp: mirrored_def split: option.splits)
  obtain x p' where x: "commit cerr ch p = (x, p')" by fastforce
  then have m': "e = x" "m' = m\<lparr>sm_persistence := Some p'\<rparr>"
    using assms(1,3,4) p(1) by (auto simp: apply_locked_def)
  show "e \<noteq> None \<Longrightarrow> mirrored contents m'"
    using commit_fail x p m' by (auto simp: mirrored_def)
  show "e = None \<Longrightarrow> \<exists>p. sm_persistence m' = Some p \<and>
      contents p = apply_changes ch (map_of (sm_sessions m))"
    using commit_ok x p m' by auto
qed

text \<open>A committed change followed by the same change of the memory.\<close>

lemma upsert_mirror:
  assumes "se_apply env = commit" "mirrored contents m" "apply_locked env cerr (upsert s) m = (None, m')"
    "ss_id s = i"
  shows "mirrored contents (put_session s i m')"
  using apply_mirror(2) [OF assms(1,2) _ assms(3)] apply_frame(1) [OF assms(3)] assms(4)
  by (auto simp: mirrored_def map_of_put apply_changes_upsert)
     (auto simp: upsert_def put_session_def update_conv')

lemma delete_mirror:
  assumes "se_apply env = commit" "mirrored contents m" "apply_locked env cerr (deletion i) m = (None, m')"
  shows "mirrored contents (remove_locked i m')"
  using apply_mirror(2) [OF assms(1,2) _ assms(3)] apply_frame(1) [OF assms(3)]
  by (auto simp: mirrored_def map_of_remove apply_changes_delete)
     (auto simp: deletion_def remove_locked_def delete_conv')

lemma fail_mirror:
  assumes "se_apply env = commit" "mirrored contents m" "apply_locked env cerr ch m = (Some e, m')"
  shows "mirrored contents m'"
proof (cases "ch_upserts ch \<noteq> [] \<or> ch_deletes ch \<noteq> []")
  case True
  then show ?thesis using apply_mirror(1) [OF assms(1,2) True assms(3)] by simp
next
  case False
  then show ?thesis using assms(2,3) by (auto simp: apply_locked_def split: option.splits)
qed

lemma index_mirror: "mirrored contents (m\<lparr>sm_index := ix\<rparr>) = mirrored contents m"
  by (simp add: mirrored_def split: option.split)

lemma begin_room_mirror:
  assumes "se_apply env = commit" "mirrored contents m" "begin_room env cerr idx m = (r, m')"
  shows "mirrored contents m'"
  using assms fail_mirror [OF assms(1,2)] delete_mirror [OF assms(1,2)]
  by (auto simp: begin_room_def split: prod.splits if_splits option.splits)

lemma resolve_begin_mirror:
  assumes "se_apply env = commit" "mirrored contents m" "sessions_ok m"
    "resolve_begin env cerr now req m = (r, m')"
  shows "mirrored contents m'"
proof (cases "m' = m \<or> (\<exists>idx. begin_room env cerr idx m = (r, m'))")
  case True
  then show ?thesis using assms(2) begin_room_mirror [OF assms(1,2)] by blast
next
  case False
  define p where "p = normalized (rq_policy req)"
  define idx where "idx = index_key env m (rq_client_id req) (rq_pool_id req) (rq_key req) (sp_strategy p)"
  have c: "cerr = None"
    using assms(4) False by (auto simp: resolve_begin_def split: option.splits)
  obtain i where i: "map_of (sm_index m) idx = Some i"
    using assms(4) False c by (cases "map_of (sm_index m) idx")
      (auto simp: resolve_begin_def Let_def p_def [symmetric] idx_def [symmetric] split: if_splits)
  then obtain s where s: "map_of (sm_sessions m) i = Some s" using sessions_okD(5) [OF assms(3)] by blast
  have id: "ss_id s = i" using sessions_okD(4) [OF assms(3) s] .
  let ?u = "reused_session p now s" and ?t = "rotated_session p (rq_revision req) now s"
  obtain e1 m1 where a1: "apply_locked env cerr (upsert ?u) m = (e1, m1)" by fastforce
  obtain e2 m2 where a2: "apply_locked env cerr (upsert ?t) m = (e2, m2)" by fastforce
  have m1: "mirrored contents (case e1 of None \<Rightarrow> put_session ?u i m1 | Some e \<Rightarrow> m1)"
    using upsert_mirror [OF assms(1,2)] fail_mirror [OF assms(1,2)] a1 id
    by (auto simp: reused_same split: option.splits)
  have m2: "mirrored contents (case e2 of None \<Rightarrow> drop_index idx (put_session ?t i m2) | Some e \<Rightarrow> m2)"
    using upsert_mirror [OF assms(1,2)] fail_mirror [OF assms(1,2)] a2 id
    by (auto simp: rotated_inactive drop_index_def index_mirror split: option.splits)
  show ?thesis
    using assms(4) False c i s a1 a2 m1 m2 begin_room_mirror [OF assms(1)]
    by (auto simp: resolve_begin_def Let_def p_def [symmetric] idx_def [symmetric]
        split: option.splits if_splits)
qed

lemma store_created_mirror:
  assumes "se_apply env = commit" "mirrored contents m" "sessions_ok m"
    "map_of (sm_sessions m) (ss_id c) = None" "store_created env cerr idx c m = (r, m')"
  shows "mirrored contents m'"
proof -
  obtain ev b where e: "make_room m = (ev, b)" by fastforce
  let ?ch = "\<lparr>ch_upserts = [c], ch_deletes = (if ev \<noteq> [] then [ev] else [])\<rparr>"
  obtain x m1 where a: "apply_locked env cerr ?ch m = (x, m1)" by fastforce
  show ?thesis
  proof (cases "b \<and> x = None")
    case False
    then show ?thesis using assms(2,5) e a fail_mirror [OF assms(1,2)]
      by (auto simp: store_created_def split: option.splits if_splits)
  next
    case True
    obtain p where p: "sm_persistence m1 = Some p" "contents p = apply_changes ?ch (map_of (sm_sessions m))"
      using apply_mirror(2) [OF assms(1,2) _ a] True by auto
    have ev: "ev \<noteq> [] \<Longrightarrow> ev \<noteq> ss_id c"
      using make_room_cases [of m ev] e True assms(4) by (auto simp: map_of_None_iff image_iff)
    have m': "m' = (put_session c (ss_id c) (if ev \<noteq> [] then remove_locked ev m1 else m1))
        \<lparr>sm_index := sm_index m'\<rparr>"
      using assms(5) e a True by (auto simp: store_created_def Let_def)
    have "map_of (sm_sessions m') = apply_changes ?ch (map_of (sm_sessions m))"
      by (subst m') (use ev apply_frame(1) [OF a] in
          \<open>auto simp: map_of_put map_of_remove apply_changes_def fun_upd_twist\<close>)
    moreover have "sm_persistence m' = Some p"
      by (subst m') (use p(1) in \<open>auto simp: put_session_def remove_locked_def\<close>)
    ultimately show ?thesis using p(2) by (simp add: mirrored_def)
  qed
qed

lemma resolve_finish_mirror:
  assumes "se_apply env = commit" "mirrored contents m" "sessions_ok m"
    "map_of (sm_sessions m) nid = None" "resolve_finish env cerr now req idx endpoint nid m = (r, m')"
  shows "mirrored contents m'"
proof -
  define c where "c = (new_session nid (req\<lparr>rq_policy := normalized (rq_policy req)\<rparr>) endpoint now
    ''created'')\<lparr>ss_key_hash := idx\<rparr>"
  have c: "map_of (sm_sessions m) (ss_id c) = None"
    using assms(4) by (simp add: c_def new_session_def)
  show ?thesis
    using assms(2,5) store_created_mirror [OF assms(1-3) c]
    by (auto simp: resolve_finish_def Let_def c_def [symmetric] split: option.splits if_splits)
qed

lemma record_usage_mirror:
  assumes "se_apply env = commit" "mirrored contents m" "sessions_ok m"
    "record_usage env cerr now i up down m = (e, m')"
  shows "mirrored contents m'"
proof -
  have "mirrored contents (put_session s' i m1)"
    if "map_of (sm_sessions m) i = Some s" "apply_locked env c (upsert s') m = (None, m1)" "ss_id s' = ss_id s"
    for s s' c m1
    using upsert_mirror [OF assms(1,2) that(2)] sessions_okD(4) [OF assms(3) that(1)] that(3) by simp
  then show ?thesis
    using assms(2,4) fail_mirror [OF assms(1,2)]
    by (fastforce simp: record_usage_def Let_def split: option.splits sum.splits if_splits prod.splits)
qed

lemma rotate_session_mirror:
  assumes "se_apply env = commit" "mirrored contents m" "sessions_ok m"
    "rotate_session env cerr i reason m = (e, m')"
  shows "mirrored contents m'"
proof -
  have "mirrored contents ((put_session s' i m1)\<lparr>sm_index := ix\<rparr>)"
    if "map_of (sm_sessions m) i = Some s" "apply_locked env c (upsert s') m = (None, m1)" "ss_id s' = ss_id s"
    for s s' c m1 ix
    using upsert_mirror [OF assms(1,2) that(2)] sessions_okD(4) [OF assms(3) that(1)] that(3)
    by (simp add: index_mirror)
  then show ?thesis
    using assms(2,4) fail_mirror [OF assms(1,2)]
    by (fastforce simp: rotate_session_def Let_def split: option.splits if_splits prod.splits)
qed

lemma delete_session_mirror:
  assumes "se_apply env = commit" "mirrored contents m" "delete_session env cerr i m = (e, m')"
  shows "mirrored contents m'"
  using assms(2,3) fail_mirror [OF assms(1,2)] delete_mirror [OF assms(1,2)]
  by (fastforce simp: delete_session_def split: option.splits if_splits prod.splits)

lemma session_step_mirror:
  assumes "se_apply env = commit"
  shows "session_step env s s' \<Longrightarrow> sessions_ok (sy_manager s) \<Longrightarrow>
     mirrored contents (sy_manager s) \<Longrightarrow> mirrored contents (sy_manager s')"
proof (induction rule: session_step.induct)
  case (step_finish nid m cerr now req idx endpoint r m' w1 w2)
  then show ?case using resolve_finish_mirror [OF assms] by simp
next
  case (step_begin cerr now req m r m' w)
  then show ?case using resolve_begin_mirror [OF assms] by simp
next
  case (step_wait cerr now req m idx m' w)
  then show ?case using resolve_begin_mirror [OF assms] by simp
next
  case (step_usage cerr now i up down m e m' w)
  then show ?case using record_usage_mirror [OF assms] by simp
next
  case (step_rotate cerr i reason m e m' w)
  then show ?case using rotate_session_mirror [OF assms] by simp
next
  case (step_delete cerr i m e m' w)
  then show ?case using delete_session_mirror [OF assms] by simp
qed simp

lemma session_reachable_mirror:
  assumes "se_apply env = commit" "sessions_ok m0" "mirrored contents m0"
  shows "session_reachable env m0 s \<Longrightarrow> mirrored contents (sy_manager s)"
proof (induction rule: session_reachable.induct)
  case (session_next s s')
  then show ?case
    using session_step_mirror [OF assms(1) session_next(2)] session_reachable_ok [OF _ assms(2)] by blast
qed (simp add: assms(3))

end

section \<open>The provider\<close>

type_synonym session_table = "(go_id \<times> session) list"

text \<open>Where one run of a transaction fails, if it does.\<close>

record db_faults =
  db_begin :: "error option"
  db_exec :: "error option list"
  db_commit :: "error option"

definition exec_fault :: "db_faults \<Rightarrow> nat \<Rightarrow> error option" where
  "exec_fault ft n = (if n < length (db_exec ft) then db_exec ft ! n else None)"

definition max_durable_sessions :: nat where "max_durable_sessions = 10000"

fun exec_upserts :: "(session \<Rightarrow> nat) \<Rightarrow> db_faults \<Rightarrow> nat \<Rightarrow> go_id list \<Rightarrow> session list \<Rightarrow>
    session_table \<Rightarrow> error + nat \<times> go_id list \<times> session_table" where
  "exec_upserts size_of ft n seen [] t = Inr (n, seen, t)"
| "exec_upserts size_of ft n seen (e # es) t =
     (if session_validate e \<noteq> None \<or> ss_id e \<in> set seen then Inl StoreErrInvalid
      else if size_of e = 0 \<or> size_of e > 2 ^ 20 then Inl StoreErrInvalid
      else case exec_fault ft n of Some x \<Rightarrow> Inl x
        | None \<Rightarrow> exec_upserts size_of ft (n + 1) (ss_id e # seen) es (AList.update (ss_id e) e t))"

fun exec_deletes :: "db_faults \<Rightarrow> nat \<Rightarrow> go_id list \<Rightarrow> go_id list \<Rightarrow> session_table \<Rightarrow>
    error + session_table" where
  "exec_deletes ft n seen [] t = Inr t"
| "exec_deletes ft n seen (i # is) t =
     (if \<not> id_valid i \<or> i \<in> set seen then Inl StoreErrInvalid
      else case exec_fault ft n of Some x \<Rightarrow> Inl x
        | None \<Rightarrow> exec_deletes ft (n + 1) (i # seen) is (AList.delete i t))"

text \<open>ApplySessions: the statements run on the transaction's copy of the table, which becomes the
  table only when the commit succeeds.\<close>

definition apply_sessions :: "(session \<Rightarrow> nat) \<Rightarrow> db_faults \<Rightarrow> error option \<Rightarrow> change_set \<Rightarrow>
    session_table \<Rightarrow> error option \<times> session_table" where
  "apply_sessions size_of ft cerr ch t =
     (if ch_upserts ch = [] \<and> ch_deletes ch = [] \<or>
         length (ch_upserts ch) + length (ch_deletes ch) > max_durable_sessions
      then (Some StoreErrInvalid, t)
      else case db_begin ft of Some e \<Rightarrow> (Some e, t)
      | None \<Rightarrow> (case exec_upserts size_of ft 0 [] (ch_upserts ch) t of Inl e \<Rightarrow> (Some e, t)
        | Inr (n, seen, t1) \<Rightarrow> (case exec_deletes ft n seen (ch_deletes ch) t1 of Inl e \<Rightarrow> (Some e, t)
          | Inr t2 \<Rightarrow> (case cerr of Some e \<Rightarrow> (Some e, t)
            | None \<Rightarrow> (case db_commit ft of Some e \<Rightarrow> (Some e, t) | None \<Rightarrow> (None, t2))))))"

text \<open>LoadSessions, in the order of the table; the query's order is by the text of the creation time.\<close>

definition load_sessions :: "session_table \<Rightarrow> error + session list" where
  "load_sessions t =
     (if \<not> list_all (\<lambda>(i, e). ss_id e = i \<and> session_validate e = None) t then Inl StoreErrSchema
      else if length t > max_durable_sessions then Inl StoreErrSchema
      else Inr (map snd t))"

lemma exec_upserts_contents:
  "exec_upserts size_of ft n seen es t = Inr (n', seen', t') \<Longrightarrow>
     map_of t' = foldl (\<lambda>g s. g(ss_id s := Some s)) (map_of t) es"
proof (induction es arbitrary: n seen t)
  case (Cons e es)
  then have "exec_upserts size_of ft (n + 1) (ss_id e # seen) es (AList.update (ss_id e) e t) =
      Inr (n', seen', t')"
    by (auto split: if_splits option.splits)
  from Cons.IH [OF this] show ?case by (simp add: update_conv')
qed simp

lemma exec_deletes_contents:
  "exec_deletes ft n seen is t = Inr t' \<Longrightarrow> map_of t' = foldl (\<lambda>g i. g(i := None)) (map_of t) is"
proof (induction "is" arbitrary: n seen t)
  case (Cons i "is")
  then have "exec_deletes ft (n + 1) (i # seen) is (AList.delete i t) = Inr t'"
    by (auto split: if_splits option.splits)
  from Cons.IH [OF this] show ?case by (simp add: delete_conv')
qed simp

lemma apply_sessions_fail: "apply_sessions size_of ft cerr ch t = (Some e, t') \<Longrightarrow> t' = t"
  by (auto simp: apply_sessions_def split: if_splits option.splits sum.splits)

lemma apply_sessions_ok:
  "apply_sessions size_of ft cerr ch t = (None, t') \<Longrightarrow> map_of t' = apply_changes ch (map_of t)"
  by (auto simp: apply_sessions_def apply_changes_def exec_upserts_contents exec_deletes_contents
      split: if_splits option.splits sum.splits)

text \<open>A database with the failures of the transactions to come.\<close>

record db_state =
  db_table :: session_table
  db_schedule :: "db_faults list"

definition no_faults :: db_faults where
  "no_faults = \<lparr>db_begin = None, db_exec = [], db_commit = None\<rparr>"

definition apply_scheduled :: "(session \<Rightarrow> nat) \<Rightarrow> error option \<Rightarrow> change_set \<Rightarrow> db_state \<Rightarrow>
    error option \<times> db_state" where
  "apply_scheduled size_of cerr ch st =
     (let ft = (case db_schedule st of [] \<Rightarrow> no_faults | f # fs \<Rightarrow> f) in
      case apply_sessions size_of ft cerr ch (db_table st) of
        (e, t) \<Rightarrow> (e, \<lparr>db_table = t, db_schedule = tl (db_schedule st)\<rparr>))"

definition table_of :: "db_state \<Rightarrow> go_id \<Rightarrow> session option" where
  "table_of st = map_of (db_table st)"

interpretation sqlite: session_persistence "apply_scheduled size_of" table_of for size_of
  by unfold_locales
     (auto simp: apply_scheduled_def table_of_def Let_def dest: apply_sessions_ok apply_sessions_fail
       split: prod.splits)

definition sqlite_env :: "(string \<Rightarrow> string \<Rightarrow> string) \<Rightarrow> (session \<Rightarrow> nat) \<Rightarrow> db_state session_env" where
  "sqlite_env mac size_of = \<lparr>se_mac = mac, se_apply = apply_scheduled size_of,
     se_load = load_sessions \<circ> db_table\<rparr>"

lemma restore_contents:
  "restore es m = Inr m' \<Longrightarrow> sm_persistence m' = sm_persistence m \<and>
     map_of (sm_sessions m') = foldl (\<lambda>g e. g(ss_id e := Some e)) (map_of (sm_sessions m)) es"
proof (induction es arbitrary: m)
  case (Cons e es)
  then obtain m1 where "restore es m1 = Inr m'" "sm_persistence m1 = sm_persistence m"
      "sm_sessions m1 = AList.update (ss_id e) e (sm_sessions m)"
    by (auto simp: Let_def split: if_splits)
  then show ?case using Cons.IH [of m1] by (simp add: update_conv')
qed simp

lemma foldl_table:
  "distinct (keys_of t) \<Longrightarrow> list_all (\<lambda>(i, e). ss_id e = i) t \<Longrightarrow>
     foldl (\<lambda>g e. g(ss_id e := Some e)) f (map snd t) = f ++ map_of t"
proof (induction t arbitrary: f)
  case (Cons x t)
  obtain i e where x: "x = (i, e)" by fastforce
  then have "i \<notin> dom (map_of t)" "ss_id e = i" using Cons.prems by (auto simp: dom_map_of_conv_image_fst)
  then show ?case
    using Cons x by (auto simp: map_add_def fun_eq_iff dom_def split: option.splits)
qed simp

section \<open>Properties\<close>


section \<open>Two resolves at once\<close>

definition flat_mac :: "string \<Rightarrow> string \<Rightarrow> string" where
  "flat_mac k msg = replicate 64 CHR ''a''"

definition demo_env :: "db_state session_env" where
  "demo_env = sqlite_env flat_mac (\<lambda>s. 100)"

definition demo_key :: string where "demo_key = ''0123456789abcdef''"

definition empty_db :: db_state where
  "empty_db = \<lparr>db_table = [], db_schedule = []\<rparr>"

definition demo_table :: "db_state session_manager" where
  "demo_table = \<lparr>sm_sessions = [], sm_index = [], sm_key = demo_key, sm_max = 4,
     sm_persistence = Some empty_db\<rparr>"

definition demo_session :: "go_id \<Rightarrow> go_id \<Rightarrow> int \<Rightarrow> session" where
  "demo_session nid endpoint revision =
     (new_session nid (alice_request\<lparr>rq_revision := revision\<rparr>) endpoint 1000 ''created'')
       \<lparr>ss_key_hash := replicate 64 CHR ''a''\<rparr>"

definition demo_table1 :: "db_state session_manager" where
  "demo_table1 = demo_table\<lparr>sm_sessions := [(''s1'', demo_session ''s1'' ''e1'' 1)],
     sm_index := [(replicate 64 CHR ''a'', ''s1'')],
     sm_persistence := Some \<lparr>db_table = [(''s1'', demo_session ''s1'' ''e1'' 1)], db_schedule = []\<rparr>\<rparr>"

definition demo_db2 :: db_state where
  "demo_db2 = \<lparr>db_table = [(''s1'', demo_session ''s1'' ''e1'' 1), (''s2'', demo_session ''s2'' ''e2'' 2)],
     db_schedule = []\<rparr>"

definition demo_table2 :: "db_state session_manager" where
  "demo_table2 = demo_table\<lparr>sm_sessions := [(''s1'', demo_session ''s1'' ''e1'' 1),
       (''s2'', demo_session ''s2'' ''e2'' 2)],
     sm_index := [(replicate 64 CHR ''a'', ''s2'')], sm_persistence := Some demo_db2\<rparr>"

lemma demo_new: "new_persistent_manager demo_env demo_key 4 empty_db = Inr demo_table"
  by (simp add: new_persistent_manager_def new_manager_def demo_key_def demo_env_def sqlite_env_def
      load_sessions_def empty_db_def demo_table_def)

lemma demo_session_valid:
  "session_validate (demo_session ''s1'' ''e1'' 1) = None"
  "session_validate (demo_session ''s2'' ''e2'' 2) = None"
  by code_simp+

lemma demo_upsert:
  "session_validate e = None \<Longrightarrow>
     apply_scheduled (\<lambda>s. 100) None \<lparr>ch_upserts = [e], ch_deletes = []\<rparr> \<lparr>db_table = t, db_schedule = []\<rparr> =
     (None, \<lparr>db_table = AList.update (ss_id e) e t, db_schedule = []\<rparr>)"
  by (simp add: apply_scheduled_def apply_sessions_def no_faults_def exec_fault_def
      max_durable_sessions_def)

lemma demo_ids: "ss_id (demo_session i e r) = i"
  by (simp add: demo_session_def new_session_def)

lemma demo_created:
  "(new_session nid (alice_request\<lparr>rq_revision := r, rq_policy := normalized (rq_policy
     (alice_request\<lparr>rq_revision := r\<rparr>))\<rparr>) e 1000 ''created'')\<lparr>ss_key_hash := replicate 64 CHR ''a''\<rparr> =
   demo_session nid e r"
  by (simp add: demo_session_def new_session_def normalized_def alice_request_def sticky_policy_def)

lemma demo_begin:
  "resolve_begin demo_env None 1000 (alice_request\<lparr>rq_revision := 1\<rparr>) demo_table =
     (CallSelect (Some (replicate 64 CHR ''a'')), demo_table)"
  "resolve_begin demo_env None 1000 (alice_request\<lparr>rq_revision := 2\<rparr>) demo_table =
     (CallSelect (Some (replicate 64 CHR ''a'')), demo_table)"
  by code_simp+

lemma demo_finish:
  "resolve_finish demo_env None 1000 (alice_request\<lparr>rq_revision := 1\<rparr>) (replicate 64 CHR ''a'') ''e1'' ''s1''
     demo_table = (Inr \<lparr>sr_session = demo_session ''s1'' ''e1'' 1, sr_reused = False\<rparr>, demo_table1)"
  "resolve_finish demo_env None 1000 (alice_request\<lparr>rq_revision := 2\<rparr>) (replicate 64 CHR ''a'') ''e2'' ''s2''
     demo_table1 = (Inr \<lparr>sr_session = demo_session ''s2'' ''e2'' 2, sr_reused = False\<rparr>, demo_table2)"
proof -
  let ?h = "replicate 64 CHR ''a''"
  have c: "store_created demo_env None ?h (demo_session ''s1'' ''e1'' 1) demo_table =
      (Inr \<lparr>sr_session = demo_session ''s1'' ''e1'' 1, sr_reused = False\<rparr>, demo_table1)"
    by (simp add: store_created_def make_room_def apply_locked_def demo_env_def sqlite_env_def demo_upsert
        demo_session_valid demo_ids put_session_def Let_def demo_table_def demo_table1_def empty_db_def)
  have d: "store_created demo_env None ?h (demo_session ''s2'' ''e2'' 2) demo_table1 =
      (Inr \<lparr>sr_session = demo_session ''s2'' ''e2'' 2, sr_reused = False\<rparr>, demo_table2)"
    by (simp add: store_created_def make_room_def apply_locked_def demo_env_def sqlite_env_def demo_upsert
        demo_session_valid demo_ids put_session_def Let_def demo_table_def demo_table1_def demo_table2_def
        demo_db2_def)
  show "resolve_finish demo_env None 1000 (alice_request\<lparr>rq_revision := 1\<rparr>) ?h ''e1'' ''s1''
     demo_table = (Inr \<lparr>sr_session = demo_session ''s1'' ''e1'' 1, sr_reused = False\<rparr>, demo_table1)"
    unfolding resolve_finish_def Let_def session_request.update_convs demo_created
    using c by (simp add: demo_table_def)
  have r: "rotation_reason (demo_session ''s1'' ''e1'' 1) p 2 1000 \<noteq> []" for p
    by (simp add: rotation_reason_def demo_session_def new_session_def)
  show "resolve_finish demo_env None 1000 (alice_request\<lparr>rq_revision := 2\<rparr>) ?h ''e2'' ''s2''
     demo_table1 = (Inr \<lparr>sr_session = demo_session ''s2'' ''e2'' 2, sr_reused = False\<rparr>, demo_table2)"
    unfolding resolve_finish_def Let_def session_request.update_convs demo_created
    using d r by (simp add: demo_table1_def)
qed

lemma demo_fresh:
  "id_valid ''s1''" "id_valid ''s2''" "map_of (sm_sessions demo_table) ''s1'' = None"
  "map_of (sm_sessions demo_table1) ''s2'' = None"
  by code_simp+

lemma demo_reachable:
  "session_reachable demo_env demo_table \<lparr>sy_manager = demo_table2, sy_waiting = []\<rparr>"
proof -
  have 1: "session_reachable demo_env demo_table \<lparr>sy_manager = demo_table,
      sy_waiting = [(alice_request\<lparr>rq_revision := 1\<rparr>, 1000, replicate 64 CHR ''a'')]\<rparr>"
    by (rule session_next [OF session_init step_wait [OF demo_begin(1)]])
  have 2: "session_reachable demo_env demo_table \<lparr>sy_manager = demo_table,
      sy_waiting = [(alice_request\<lparr>rq_revision := 2\<rparr>, 1000, replicate 64 CHR ''a''),
        (alice_request\<lparr>rq_revision := 1\<rparr>, 1000, replicate 64 CHR ''a'')]\<rparr>"
    by (rule session_next [OF 1 step_wait [OF demo_begin(2)]])
  have 3: "session_reachable demo_env demo_table \<lparr>sy_manager = demo_table1,
      sy_waiting = [(alice_request\<lparr>rq_revision := 2\<rparr>, 1000, replicate 64 CHR ''a'')]\<rparr>"
    using session_next [OF 2 step_finish [OF demo_fresh(1,3) demo_finish(1),
        of "[(alice_request\<lparr>rq_revision := 2\<rparr>, 1000, replicate 64 CHR ''a'')]" "[]", simplified append.simps]]
    by simp
  show ?thesis
    using session_next [OF 3 step_finish [OF demo_fresh(2,4) demo_finish(2), of "[]" "[]",
        simplified append.simps]] .
qed

text \<open>Two Resolve calls of one affinity key under different runtime revisions, both waiting for
  their Select, leave two active sessions with one key hash, in memory and in the database: the
  second section of Resolve does not rotate the binding it replaces.  The database is then refused
  by NewPersistent, so the process does not start again.\<close>

theorem concurrent_resolve_blocks_restart:
  "\<exists>m0 s st s1 s2. new_persistent_manager demo_env demo_key 4 empty_db = Inr m0 \<and>
     session_reachable demo_env m0 s \<and> sy_waiting s = [] \<and> sm_persistence (sy_manager s) = Some st \<and>
     map_of (db_table st) ''s1'' = Some s1 \<and> map_of (db_table st) ''s2'' = Some s2 \<and>
     active s1 \<and> active s2 \<and> ss_key_hash s1 = ss_key_hash s2 \<and>
     new_persistent_manager demo_env demo_key 4 st = Inl SessionErrInvalid"
proof -
  have "load_sessions (db_table demo_db2) =
      Inr [demo_session ''s1'' ''e1'' 1, demo_session ''s2'' ''e2'' 2]"
    by (simp add: load_sessions_def demo_db2_def demo_ids demo_session_valid max_durable_sessions_def)
  then have "new_persistent_manager demo_env demo_key 4 demo_db2 = Inl SessionErrInvalid"
    using demo_session_valid
    by (simp add: new_persistent_manager_def new_manager_def demo_key_def demo_env_def sqlite_env_def demo_ids)
       (simp add: demo_session_def new_session_def)
  moreover have "sm_persistence demo_table2 = Some demo_db2"
    by (simp add: demo_table2_def)
  moreover have "map_of (db_table demo_db2) ''s1'' = Some (demo_session ''s1'' ''e1'' 1)"
    "map_of (db_table demo_db2) ''s2'' = Some (demo_session ''s2'' ''e2'' 2)"
    by (simp_all add: demo_db2_def)
  moreover have "active (demo_session i e r)" "ss_key_hash (demo_session i e r) = replicate 64 CHR ''a''"
    for i e r by (simp_all add: demo_session_def new_session_def active_def)
  ultimately show ?thesis
    using demo_new demo_reachable by (metis session_system.select_convs)
qed


end
