(* ===== verification/Health_Manager.thy ===== *)
theory Health_Manager
  imports Go_Base Complex_Main "HOL-Library.Log_Nat"
begin

text \<open>pkg/health/health.go and internal/health/manager.go: the score, the sliding window of
  outcomes and the circuit breaker of every endpoint.\<close>

section \<open>Model (pkg/health/health.go)\<close>

text \<open>Both types are strings in the code; the first constructor is the empty string of a zero
  value.\<close>

datatype health_state =
  NoState | HUnknown | Healthy | Degraded | Quarantined | HHalfOpen | Disabled

datatype circuit = NoCircuit | CircuitClosed | CircuitOpen | CircuitHalfOpen

record health_config =
  hc_failure_threshold :: "32 word"
  hc_success_threshold :: "32 word"
  hc_open_duration :: duration
  hc_initial_score :: "8 word"
  hc_success_gain :: "8 word"
  hc_failure_penalty :: "8 word"
  hc_treat_403 :: bool
  hc_treat_429 :: bool
  hc_treat_5xx :: bool

definition health_config_validate :: "health_config \<Rightarrow> error option" where
  "health_config_validate c =
     (if hc_failure_threshold c < 1 \<or> hc_success_threshold c < 1 \<or> hc_open_duration c \<le> 0 \<or>
         hc_open_duration c > 24 * hour \<or> hc_initial_score c > 100 \<or> hc_success_gain c > 100 \<or>
         hc_failure_penalty c > 100
      then Some HealthErrInvalid else None)"

definition health_defaults :: health_config where
  "health_defaults = \<lparr>hc_failure_threshold = 3, hc_success_threshold = 2, hc_open_duration = minute,
     hc_initial_score = 50, hc_success_gain = 5, hc_failure_penalty = 15, hc_treat_403 = False,
     hc_treat_429 = True, hc_treat_5xx = True\<rparr>"

record observation =
  ob_at :: go_time
  ob_success :: bool
  ob_http_status :: int
  ob_auth_failure :: bool
  ob_timeout :: bool
  ob_dns_failure :: bool
  ob_tls_failure :: bool
  ob_latency :: duration
  ob_connect_latency :: duration
  ob_ttfb :: duration
  ob_health_check :: bool

record health_snapshot =
  hs_endpoint_id :: go_id
  hs_state :: health_state
  hs_circuit :: circuit
  hs_score :: "8 word"
  hs_latency :: duration
  hs_observations :: "32 word"
  hs_successes :: "32 word"
  hs_failures :: "32 word"
  hs_timeouts :: "32 word"
  hs_auth_failures :: "32 word"
  hs_status403 :: "32 word"
  hs_status407 :: "32 word"
  hs_status429 :: "32 word"
  hs_status5xx :: "32 word"
  hs_dns_failures :: "32 word"
  hs_tls_failures :: "32 word"
  hs_connect_latency :: duration
  hs_ttfb :: duration
  hs_throughput :: "64 word"
  hs_consecutive_failures :: "32 word"
  hs_consecutive_successes :: "32 word"
  hs_last_success :: go_time
  hs_last_failure :: go_time
  hs_open_until :: go_time
  hs_active_connections :: "64 word"

text \<open>The zero value with the fields the manager sets for an endpoint it has not seen.\<close>

definition fresh_snapshot :: "go_id \<Rightarrow> 8 word \<Rightarrow> health_snapshot" where
  "fresh_snapshot i score = \<lparr>hs_endpoint_id = i, hs_state = HUnknown, hs_circuit = CircuitClosed,
     hs_score = score, hs_latency = 0, hs_observations = 0, hs_successes = 0, hs_failures = 0,
     hs_timeouts = 0, hs_auth_failures = 0, hs_status403 = 0, hs_status407 = 0, hs_status429 = 0,
     hs_status5xx = 0, hs_dns_failures = 0, hs_tls_failures = 0, hs_connect_latency = 0,
     hs_ttfb = 0, hs_throughput = 0, hs_consecutive_failures = 0, hs_consecutive_successes = 0,
     hs_last_success = 0, hs_last_failure = 0, hs_open_until = 0, hs_active_connections = 0\<rparr>"

definition zero_snapshot :: health_snapshot where
  "zero_snapshot = (fresh_snapshot [] 0)\<lparr>hs_state := NoState, hs_circuit := NoCircuit\<rparr>"

definition snapshot_eligible :: "health_snapshot \<Rightarrow> go_time \<Rightarrow> bool" where
  "snapshot_eligible s now = (hs_state s \<noteq> Disabled \<and>
     (hs_circuit s = CircuitClosed \<or> (hs_circuit s = CircuitHalfOpen \<and> \<not> now < hs_open_until s)))"

section \<open>State (internal/health/manager.go)\<close>

record sample =
  sa_failed :: bool
  sa_timeout :: bool
  sa_auth :: bool
  sa_dns :: bool
  sa_tls :: bool
  sa_status403 :: bool
  sa_status407 :: bool
  sa_status429 :: bool
  sa_status5xx :: bool

text \<open>The maps of the manager: a missing probe reads false, a missing window is empty.\<close>

record health_manager =
  hm_config :: health_config
  hm_states :: "go_id \<Rightarrow> health_snapshot option"
  hm_probes :: "go_id \<Rightarrow> bool"
  hm_recent :: "go_id \<Rightarrow> sample list"

definition metric_window_size :: nat where "metric_window_size = 100"

definition new_health_manager :: "health_config \<Rightarrow> error + health_manager" where
  "new_health_manager c =
     (if health_config_validate c \<noteq> None then Inl HealthErrInvalid
      else Inr \<lparr>hm_config = c, hm_states = (\<lambda>i. None), hm_probes = (\<lambda>i. False),
                hm_recent = (\<lambda>i. [])\<rparr>)"

section \<open>Pure helpers\<close>

definition increase :: "8 word \<Rightarrow> 8 word \<Rightarrow> 8 word" where
  "increase score gain = (if 100 - score < gain then 100 else score + gain)"

definition decrease :: "8 word \<Rightarrow> 8 word \<Rightarrow> 8 word" where
  "decrease score penalty = (if score < penalty then 0 else score - penalty)"

definition rolling_duration :: "duration \<Rightarrow> duration \<Rightarrow> duration" where
  "rolling_duration current next =
     (if current = 0 then next else current + go_div (next - current) 4)"

definition is_failure :: "health_config \<Rightarrow> observation \<Rightarrow> bool" where
  "is_failure c ob =
     (if \<not> ob_success ob \<or> ob_auth_failure ob \<or> ob_timeout ob then True
      else if ob_http_status ob = 403 \<and> hc_treat_403 c then True
      else if ob_http_status ob = 407 then True
      else if ob_http_status ob = 429 \<and> hc_treat_429 c then True
      else ob_http_status ob \<ge> 500 \<and> ob_http_status ob \<le> 599 \<and> hc_treat_5xx c)"

definition after_cooldown :: "health_snapshot \<Rightarrow> go_time \<Rightarrow> health_snapshot" where
  "after_cooldown s now =
     (if hs_state s \<noteq> Disabled \<and> hs_circuit s = CircuitOpen \<and> \<not> now < hs_open_until s
      then s\<lparr>hs_circuit := CircuitHalfOpen, hs_state := HHalfOpen, hs_consecutive_successes := 0\<rparr>
      else s)"

section \<open>Observations\<close>

definition sample_of :: "observation \<Rightarrow> bool \<Rightarrow> sample" where
  "sample_of ob failed = \<lparr>sa_failed = failed, sa_timeout = ob_timeout ob,
     sa_auth = (ob_auth_failure ob \<or> ob_http_status ob = 407), sa_dns = ob_dns_failure ob,
     sa_tls = ob_tls_failure ob, sa_status403 = (ob_http_status ob = 403),
     sa_status407 = (ob_http_status ob = 407), sa_status429 = (ob_http_status ob = 429),
     sa_status5xx = (ob_http_status ob \<ge> 500 \<and> ob_http_status ob \<le> 599)\<rparr>"

definition push_sample :: "sample \<Rightarrow> sample list \<Rightarrow> sample list" where
  "push_sample x recent =
     (if length recent = metric_window_size then tl recent @ [x] else recent @ [x])"

text \<open>A counter that is incremented for the samples that satisfy f.\<close>

definition tally :: "(sample \<Rightarrow> bool) \<Rightarrow> sample list \<Rightarrow> 32 word" where
  "tally f recent = foldl (\<lambda>n x. if f x then n + 1 else n) 0 recent"

definition track :: "go_id \<Rightarrow> health_snapshot \<Rightarrow> observation \<Rightarrow> bool \<Rightarrow> health_manager \<Rightarrow>
    health_snapshot \<times> health_manager" where
  "track i s ob failed m =
     (let recent = push_sample (sample_of ob failed) (hm_recent m i) in
      (s\<lparr>hs_observations := of_nat (length recent),
         hs_successes := tally (\<lambda>x. \<not> sa_failed x) recent,
         hs_failures := tally sa_failed recent,
         hs_timeouts := tally sa_timeout recent,
         hs_auth_failures := tally sa_auth recent,
         hs_dns_failures := tally sa_dns recent,
         hs_tls_failures := tally sa_tls recent,
         hs_status403 := tally sa_status403 recent,
         hs_status407 := tally sa_status407 recent,
         hs_status429 := tally sa_status429 recent,
         hs_status5xx := tally sa_status5xx recent\<rparr>,
       m\<lparr>hm_recent := (hm_recent m)(i := recent)\<rparr>))"

definition state_of :: "health_manager \<Rightarrow> go_id \<Rightarrow> health_snapshot" where
  "state_of m i = (case hm_states m i of Some s \<Rightarrow> s
     | None \<Rightarrow> fresh_snapshot i (hc_initial_score (hm_config m)))"

definition put_state :: "go_id \<Rightarrow> health_snapshot \<Rightarrow> health_manager \<Rightarrow> health_manager" where
  "put_state i s m = m\<lparr>hm_states := (hm_states m)(i := Some s)\<rparr>"

definition clear_probe :: "go_id \<Rightarrow> health_manager \<Rightarrow> health_manager" where
  "clear_probe i m = m\<lparr>hm_probes := (hm_probes m)(i := False)\<rparr>"

text \<open>The latencies an observation carries.\<close>

definition with_latencies :: "observation \<Rightarrow> health_snapshot \<Rightarrow> health_snapshot" where
  "with_latencies ob s =
     s\<lparr>hs_latency := (if ob_latency ob > 0 then rolling_duration (hs_latency s) (ob_latency ob)
          else hs_latency s),
       hs_connect_latency := (if ob_connect_latency ob > 0
          then rolling_duration (hs_connect_latency s) (ob_connect_latency ob)
          else hs_connect_latency s),
       hs_ttfb := (if ob_ttfb ob > 0 then rolling_duration (hs_ttfb s) (ob_ttfb ob)
          else hs_ttfb s)\<rparr>"

text \<open>The two branches that move the circuit.\<close>

definition on_failure :: "health_config \<Rightarrow> go_time \<Rightarrow> health_snapshot \<Rightarrow> health_snapshot" where
  "on_failure c t s =
     (let s1 = s\<lparr>hs_consecutive_failures := hs_consecutive_failures s + 1,
                 hs_consecutive_successes := 0, hs_last_failure := t,
                 hs_score := decrease (hs_score s) (hc_failure_penalty c)\<rparr> in
      if hs_consecutive_failures s1 \<ge> hc_failure_threshold c \<or> hs_circuit s1 = CircuitHalfOpen
      then s1\<lparr>hs_state := Quarantined, hs_circuit := CircuitOpen,
              hs_open_until := t + hc_open_duration c\<rparr>
      else s1\<lparr>hs_state := Degraded\<rparr>)"

definition on_success :: "health_config \<Rightarrow> go_time \<Rightarrow> health_snapshot \<Rightarrow> health_snapshot" where
  "on_success c t s =
     (let s1 = s\<lparr>hs_consecutive_successes := hs_consecutive_successes s + 1,
                 hs_consecutive_failures := 0, hs_last_success := t,
                 hs_score := increase (hs_score s) (hc_success_gain c)\<rparr> in
      if hs_circuit s1 = CircuitHalfOpen \<and> hs_consecutive_successes s1 \<ge> hc_success_threshold c
      then s1\<lparr>hs_circuit := CircuitClosed, hs_state := Healthy, hs_open_until := 0\<rparr>
      else if hs_state s1 = HUnknown \<or> hs_state s1 = Degraded then s1\<lparr>hs_state := Healthy\<rparr>
      else s1)"

definition observe :: "go_time \<Rightarrow> go_id \<Rightarrow> observation \<Rightarrow> health_manager \<Rightarrow>
    (error + health_snapshot) \<times> health_manager" where
  "observe now i ob0 m0 =
     (if \<not> id_valid i then (Inl HealthErrInvalid, m0)
      else let ob = (if ob_at ob0 = 0 then ob0\<lparr>ob_at := now\<rparr> else ob0);
               m = clear_probe i m0; s = state_of m i in
        if hs_state s = Disabled then (Inr s, put_state i s m)
        else if hs_circuit s = CircuitOpen \<and> ob_at ob < hs_open_until s
        then (Inr s, put_state i s m)
        else let s1 = (if hs_circuit s = CircuitOpen
                 then s\<lparr>hs_circuit := CircuitHalfOpen, hs_state := HHalfOpen,
                        hs_consecutive_successes := 0\<rparr> else s);
                 s2 = with_latencies ob s1;
                 failed = is_failure (hm_config m) ob;
                 (s3, m1) = track i s2 ob failed m;
                 s4 = (if failed then on_failure (hm_config m) (ob_at ob) s3
                       else on_success (hm_config m) (ob_at ob) s3) in
          (Inr s4, put_state i s4 m1))"

section \<open>Throughput\<close>

text \<open>float64: the value rounded to 53 significant bits, ties to even.\<close>

definition pow2 :: "int \<Rightarrow> rat" where
  "pow2 k = (if 0 \<le> k then 2 ^ nat k else 1 / 2 ^ nat (- k))"

definition f64_exponent :: "rat \<Rightarrow> int" where
  "f64_exponent x = (case quotient_of x of (n, d) \<Rightarrow>
     let e = bitlen n - bitlen d in if pow2 e \<le> x then e else e - 1)"

definition round_even :: "rat \<Rightarrow> int" where
  "round_even x = (let q = \<lfloor>x\<rfloor>; r = x - of_int q in
     if r < 1 / 2 then q else if r > 1 / 2 then q + 1 else if even q then q else q + 1)"

definition f64 :: "rat \<Rightarrow> rat" where
  "f64 x = (if x \<le> 0 then 0
     else let u = pow2 (f64_exponent x - 52) in of_int (round_even (x / u)) * u)"

definition go_seconds :: "duration \<Rightarrow> rat" where
  "go_seconds d = f64 (f64 (of_int (d div second)) + f64 (of_int (d mod second) / 1000000000))"

text \<open>What Go converts a float64 of 2^64 or more to is up to the machine: the argument big.\<close>

definition f64_to_uint64 :: "64 word \<Rightarrow> rat \<Rightarrow> 64 word" where
  "f64_to_uint64 big x = (if x < 2 ^ 64 then of_int \<lfloor>x\<rfloor> else big)"

definition throughput_rate :: "64 word \<Rightarrow> 64 word \<Rightarrow> duration \<Rightarrow> 64 word" where
  "throughput_rate big bytes elapsed =
     (let v = f64 (f64 (of_int (uint bytes)) / go_seconds elapsed) in
      if v < f64 (of_int (uint (- 1 :: 64 word))) then f64_to_uint64 big v else - 1)"

definition record_throughput :: "64 word \<Rightarrow> go_id \<Rightarrow> 64 word \<Rightarrow> duration \<Rightarrow> health_manager \<Rightarrow>
    error option \<times> health_manager" where
  "record_throughput big i bytes elapsed m =
     (if \<not> id_valid i \<or> bytes = 0 \<or> elapsed \<le> 0 then (Some HealthErrInvalid, m)
      else case hm_states m i of None \<Rightarrow> (Some HealthErrNotFound, m)
        | Some s \<Rightarrow>
          let rate = throughput_rate big bytes elapsed;
              t = (if hs_throughput s = 0 then rate
                   else f64_to_uint64 big
                     (f64 (f64 (f64 (f64 (of_int (uint (hs_throughput s))) * 3) +
                       f64 (of_int (uint rate))) / 4))) in
          (None, put_state i (s\<lparr>hs_throughput := t\<rparr>) m))"

section \<open>Queries and attempts\<close>

definition get_health :: "go_id \<Rightarrow> go_time \<Rightarrow> health_manager \<Rightarrow>
    (error + health_snapshot) \<times> health_manager" where
  "get_health i now m = (case hm_states m i of None \<Rightarrow> (Inl HealthErrNotFound, m)
     | Some s0 \<Rightarrow> let s = after_cooldown s0 now in (Inr s, put_state i s m))"

definition eligible_snapshot :: "go_id \<Rightarrow> go_time \<Rightarrow> health_manager \<Rightarrow>
    (health_snapshot \<times> bool) \<times> health_manager" where
  "eligible_snapshot i now m =
     (if \<not> id_valid i then ((zero_snapshot, False), m)
      else let s = after_cooldown (state_of m i) now;
               m1 = (if hm_states m i \<noteq> None then put_state i s m else m) in
        ((s, snapshot_eligible s now \<and> \<not> hm_probes m i), m1))"

definition health_eligible :: "go_id \<Rightarrow> go_time \<Rightarrow> health_manager \<Rightarrow> bool \<times> health_manager" where
  "health_eligible i now m = (let ((s, b), m1) = eligible_snapshot i now m in (b, m1))"

definition acquire :: "go_id \<Rightarrow> go_time \<Rightarrow> health_manager \<Rightarrow> bool \<times> health_manager" where
  "acquire i now m =
     (if \<not> id_valid i then (False, m)
      else case hm_states m i of None \<Rightarrow> (True, m)
        | Some s0 \<Rightarrow>
          let s = after_cooldown s0 now; m1 = put_state i s m in
          if \<not> snapshot_eligible s now \<or> hm_probes m1 i then (False, m1)
          else if hs_circuit s = CircuitHalfOpen
          then (True, m1\<lparr>hm_probes := (hm_probes m1)(i := True)\<rparr>)
          else (True, m1))"

definition release :: "go_id \<Rightarrow> health_manager \<Rightarrow> health_manager" where
  "release i m = clear_probe i m"

definition set_disabled :: "go_id \<Rightarrow> bool \<Rightarrow> health_manager \<Rightarrow>
    (error + health_snapshot) \<times> health_manager" where
  "set_disabled i off m0 =
     (if \<not> id_valid i then (Inl HealthErrInvalid, m0)
      else let m = clear_probe i m0; s = state_of m i;
               s1 = (if off then s\<lparr>hs_state := Disabled, hs_circuit := CircuitOpen\<rparr>
                     else if hs_state s = Disabled
                     then s\<lparr>hs_state := HUnknown, hs_circuit := CircuitClosed, hs_open_until := 0\<rparr>
                     else s) in
        (Inr s1, put_state i s1 m))"

end
