(* ===== verification/Health_Circuit.thy ===== *)
theory Health_Circuit
  imports Health_Manager
begin

text \<open>What the health manager guarantees: the invariant of every stored snapshot, the quarantine
  and recovery of an endpoint, the exclusive probe of a half-open circuit and the completion
  that breaks it.\<close>

section \<open>Runs\<close>

datatype health_op =
    HObserve go_time go_id observation
  | HThroughput "64 word" go_id "64 word" duration
  | HGet go_id go_time
  | HEligible go_id go_time
  | HAcquire go_id go_time
  | HRelease go_id
  | HSetDisabled go_id bool

fun health_step :: "health_op \<Rightarrow> health_manager \<Rightarrow> health_manager" where
  "health_step (HObserve now i ob) m = snd (observe now i ob m)"
| "health_step (HThroughput big i b d) m = snd (record_throughput big i b d m)"
| "health_step (HGet i now) m = snd (get_health i now m)"
| "health_step (HEligible i now) m = snd (eligible_snapshot i now m)"
| "health_step (HAcquire i now) m = snd (acquire i now m)"
| "health_step (HRelease i) m = release i m"
| "health_step (HSetDisabled i off) m = snd (set_disabled i off m)"

abbreviation health_run :: "health_op list \<Rightarrow> health_manager \<Rightarrow> health_manager" where
  "health_run ops m \<equiv> fold health_step ops m"

section \<open>The invariant of a snapshot\<close>

text \<open>The state names the circuit: which pairs can be stored.\<close>

definition coherent :: "health_state \<Rightarrow> circuit \<Rightarrow> bool" where
  "coherent st c = (case st of
       HUnknown \<Rightarrow> c = CircuitClosed | Healthy \<Rightarrow> c = CircuitClosed | Degraded \<Rightarrow> c = CircuitClosed
     | Quarantined \<Rightarrow> c = CircuitOpen | Disabled \<Rightarrow> c = CircuitOpen
     | HHalfOpen \<Rightarrow> c = CircuitHalfOpen | NoState \<Rightarrow> False)"

definition snapshot_ok :: "health_snapshot \<Rightarrow> sample list \<Rightarrow> bool" where
  "snapshot_ok s recent = (hs_score s \<le> 100 \<and> coherent (hs_state s) (hs_circuit s) \<and>
     unat (hs_observations s) = length recent \<and>
     unat (hs_failures s) = length (filter sa_failed recent) \<and>
     unat (hs_successes s) + unat (hs_failures s) = unat (hs_observations s) \<and>
     unat (hs_timeouts s) = length (filter sa_timeout recent))"

definition health_ok :: "health_manager \<Rightarrow> bool" where
  "health_ok m = (health_config_validate (hm_config m) = None \<and>
     (\<forall>i. length (hm_recent m i) \<le> metric_window_size) \<and>
     (\<forall>i. hm_states m i = None \<longrightarrow> hm_recent m i = []) \<and>
     (\<forall>i. hm_probes m i \<longrightarrow> (\<exists>s. hm_states m i = Some s \<and> hs_circuit s = CircuitHalfOpen)) \<and>
     (\<forall>i s. hm_states m i = Some s \<longrightarrow> snapshot_ok s (hm_recent m i)))"

lemma length_push: "length recent \<le> metric_window_size \<Longrightarrow>
    length (push_sample x recent) \<le> metric_window_size"
  by (cases recent) (auto simp: push_sample_def metric_window_size_def)

lemma tally_from:
  "foldl (\<lambda>n x. if f x then n + 1 else n) (k :: 32 word) xs = k + of_nat (length (filter f xs))"
  by (induction xs arbitrary: k) (simp_all add: ac_simps)

lemma unat_small: "n \<le> 100 \<Longrightarrow> unat (of_nat n :: 32 word) = n"
  by (simp add: unat_of_nat)

lemma unat_tally: "length xs \<le> 100 \<Longrightarrow> unat (tally f xs) = length (filter f xs)"
  using unat_small [OF order_trans [OF length_filter_le [of f xs]]] by (simp add: tally_def tally_from)

lemma increase_exact:
  assumes "s \<le> 100" "g \<le> 100"
  shows "unat (increase s g) = min 100 (unat s + unat g)"
proof -
  have b: "unat s \<le> 100" "unat g \<le> 100" using assms by (simp_all add: word_le_nat_alt)
  have "unat (100 - s) = 100 - unat s" using assms by (simp add: unat_diff_le)
  moreover have "unat (s + g) = unat s + unat g" using b by (intro unat_add_exact) simp
  ultimately show ?thesis using b
    by (cases "100 - unat s < unat g") (simp_all add: increase_def word_less_nat_alt)
qed

lemma decrease_exact: "unat (decrease s p) = unat s - unat p"
  by (cases "s < p") (simp_all add: decrease_def word_less_nat_alt unat_diff_le word_le_nat_alt)

lemma score_increase: "s \<le> 100 \<Longrightarrow> g \<le> 100 \<Longrightarrow> increase s g \<le> 100"
  using increase_exact [of s g] by (simp add: word_le_nat_alt)

lemma score_decrease: "s \<le> 100 \<Longrightarrow> decrease s p \<le> 100"
  using decrease_exact [of s p] by (simp add: word_le_nat_alt)

lemma coherent_cooldown:
  "coherent (hs_state s) (hs_circuit s) \<Longrightarrow>
     coherent (hs_state (after_cooldown s now)) (hs_circuit (after_cooldown s now))"
  by (simp add: after_cooldown_def coherent_def)

lemma snapshot_ok_cooldown: "snapshot_ok s r \<Longrightarrow> snapshot_ok (after_cooldown s now) r"
  using coherent_cooldown [of s now] by (auto simp: snapshot_ok_def after_cooldown_def)

lemma length_filter_split: "length (filter (\<lambda>x. \<not> f x) xs) + length (filter f xs) = length xs"
  using sum_length_filter_compl [of f xs] by simp

lemma track_ok:
  assumes "track i s ob fl m = (s1, m1)" "length (hm_recent m i) \<le> metric_window_size"
    "hs_score s \<le> 100" "coherent (hs_state s) (hs_circuit s)"
  shows "snapshot_ok s1 (hm_recent m1 i)" "hs_score s1 \<le> 100"
    "length (hm_recent m1 i) \<le> metric_window_size"
    "hs_state s1 = hs_state s" "hs_circuit s1 = hs_circuit s"
proof -
  let ?r = "push_sample (sample_of ob fl) (hm_recent m i)"
  have l: "length ?r \<le> 100" using length_push [OF assms(2)] by (simp add: metric_window_size_def)
  show "snapshot_ok s1 (hm_recent m1 i)"
    using assms(1,3,4) l length_filter_split [of sa_failed ?r]
    by (auto simp: track_def Let_def snapshot_ok_def unat_tally unat_small)
  show "hs_score s1 \<le> 100" "length (hm_recent m1 i) \<le> metric_window_size"
    "hs_state s1 = hs_state s" "hs_circuit s1 = hs_circuit s"
    using assms(1,3) l by (auto simp: track_def Let_def metric_window_size_def)
qed

lemma one_le_word: "1 \<le> (w :: 32 word) \<longleftrightarrow> w \<noteq> 0"
  by (simp add: word_le_nat_alt Suc_le_eq unat_gt_0)

lemma config_bounds:
  "health_config_validate c = None \<Longrightarrow> hc_success_gain c \<le> 100 \<and> hc_initial_score c \<le> 100 \<and>
     1 \<le> hc_failure_threshold c \<and> 1 \<le> hc_success_threshold c \<and> 0 < hc_open_duration c"
  by (auto simp: health_config_validate_def one_le_word split: if_splits)

lemma on_failure_ok:
  "snapshot_ok s r \<Longrightarrow> hs_state s \<noteq> Disabled \<Longrightarrow> hs_circuit s \<noteq> CircuitOpen \<Longrightarrow>
     snapshot_ok (on_failure c t s) r"
  by (auto simp: on_failure_def snapshot_ok_def Let_def score_decrease coherent_def
      split: health_state.splits)

lemma on_success_ok:
  "snapshot_ok s r \<Longrightarrow> hc_success_gain c \<le> 100 \<Longrightarrow> hs_circuit s \<noteq> CircuitOpen \<Longrightarrow>
     snapshot_ok (on_success c t s) r"
  by (auto simp: on_success_def snapshot_ok_def Let_def score_increase coherent_def
      split: health_state.splits)

lemma health_okD:
  assumes "health_ok m"
  shows "health_config_validate (hm_config m) = None" "length (hm_recent m i) \<le> metric_window_size"
    "hm_states m i = None \<Longrightarrow> hm_recent m i = []"
    "hm_states m i = Some s \<Longrightarrow> snapshot_ok s (hm_recent m i)"
    "hm_probes m i \<Longrightarrow> \<exists>s. hm_states m i = Some s \<and> hs_circuit s = CircuitHalfOpen"
  using assms unfolding health_ok_def by blast+

lemma fresh_ok: "sc \<le> 100 \<Longrightarrow> snapshot_ok (fresh_snapshot i sc) []"
  by (simp add: fresh_snapshot_def snapshot_ok_def coherent_def)

lemma state_of_ok: "health_ok m \<Longrightarrow> snapshot_ok (state_of m i) (hm_recent m i)"
  using health_okD(1,3,4) [of m] config_bounds [of "hm_config m"] fresh_ok [of "hc_initial_score (hm_config m)"]
  by (cases "hm_states m i") (simp_all add: state_of_def)

lemma put_state_ok:
  "health_ok m \<Longrightarrow> snapshot_ok s (hm_recent m i) \<Longrightarrow>
     (hm_probes m i \<Longrightarrow> hs_circuit s = CircuitHalfOpen) \<Longrightarrow> health_ok (put_state i s m)"
  by (auto simp: health_ok_def put_state_def)

lemma no_probe [simp]: "\<not> hm_probes (clear_probe i m) i"
  by (simp add: clear_probe_def)

lemma put_cleared_ok:
  "health_ok m \<Longrightarrow> snapshot_ok s (hm_recent m i) \<Longrightarrow> health_ok (put_state i s (clear_probe i m))"
  by (auto simp: health_ok_def put_state_def clear_probe_def)

lemma clear_probe_ok: "health_ok m \<Longrightarrow> health_ok (clear_probe i m)"
  by (auto simp: health_ok_def clear_probe_def)

lemma clear_probe_simps [simp]:
  "hm_states (clear_probe i m) = hm_states m" "hm_recent (clear_probe i m) = hm_recent m"
  "hm_config (clear_probe i m) = hm_config m" "state_of (clear_probe i m) = state_of m"
  by (simp_all add: clear_probe_def state_of_def [abs_def] cong: option.case_cong)

lemma with_latencies_ok [simp]:
  "snapshot_ok (with_latencies ob s) r = snapshot_ok s r"
  "hs_state (with_latencies ob s) = hs_state s" "hs_circuit (with_latencies ob s) = hs_circuit s"
  "hs_score (with_latencies ob s) = hs_score s"
  "hs_consecutive_failures (with_latencies ob s) = hs_consecutive_failures s"
  "hs_consecutive_successes (with_latencies ob s) = hs_consecutive_successes s"
  by (simp_all add: with_latencies_def snapshot_ok_def)

lemma rolling_between:
  "0 < a \<Longrightarrow> 0 < b \<Longrightarrow> min a b \<le> rolling_duration a b \<and> rolling_duration a b \<le> max a b"
  by (auto simp: rolling_duration_def go_div_def)

section \<open>Every operation keeps the invariant\<close>

text \<open>The snapshot an observation leaves, when it is not ignored.\<close>

definition stamped :: "go_time \<Rightarrow> observation \<Rightarrow> observation" where
  "stamped now ob = (if ob_at ob = 0 then ob\<lparr>ob_at := now\<rparr> else ob)"

definition ignored :: "go_time \<Rightarrow> health_snapshot \<Rightarrow> bool" where
  "ignored t s = (hs_state s = Disabled \<or> (hs_circuit s = CircuitOpen \<and> t < hs_open_until s))"

definition half_opened :: "health_snapshot \<Rightarrow> health_snapshot" where
  "half_opened s = (if hs_circuit s = CircuitOpen
     then s\<lparr>hs_circuit := CircuitHalfOpen, hs_state := HHalfOpen, hs_consecutive_successes := 0\<rparr>
     else s)"

definition settle :: "health_config \<Rightarrow> observation \<Rightarrow> health_snapshot \<Rightarrow> health_snapshot" where
  "settle c ob s = (if is_failure c ob then on_failure c (ob_at ob) s else on_success c (ob_at ob) s)"

lemma observe_eq:
  assumes "id_valid i"
  shows "observe now i ob m =
    (let s = state_of m i; ob = stamped now ob; m = clear_probe i m in
     if ignored (ob_at ob) s then (Inr s, put_state i s m)
     else let (s1, m1) = track i (with_latencies ob (half_opened s)) ob (is_failure (hm_config m) ob) m;
              s2 = settle (hm_config m) ob s1 in (Inr s2, put_state i s2 m1))"
  using assms
  by (auto simp: observe_def stamped_def ignored_def half_opened_def settle_def Let_def
      split: prod.splits)

lemma half_opened_ok:
  "snapshot_ok s r \<Longrightarrow> hs_state s \<noteq> Disabled \<Longrightarrow> snapshot_ok (half_opened s) r"
  by (auto simp: half_opened_def snapshot_ok_def coherent_def)

lemma half_opened_circuit [simp]: "hs_circuit (half_opened s) \<noteq> CircuitOpen"
  by (simp add: half_opened_def)

lemma half_opened_state: "hs_state s \<noteq> Disabled \<Longrightarrow> hs_state (half_opened s) \<noteq> Disabled"
  by (simp add: half_opened_def)

lemma track_states:
  "track i s ob fl m = (s1, m1) \<Longrightarrow> hm_states m1 = hm_states m \<and> hm_probes m1 = hm_probes m \<and>
     hm_config m1 = hm_config m \<and> (\<forall>j. j \<noteq> i \<longrightarrow> hm_recent m1 j = hm_recent m j)"
  by (auto simp: track_def Let_def)

lemma snapshot_okD:
  "snapshot_ok s r \<Longrightarrow> hs_score s \<le> 100" "snapshot_ok s r \<Longrightarrow> coherent (hs_state s) (hs_circuit s)"
  by (simp_all add: snapshot_ok_def)

lemma observe_ok:
  assumes "health_ok m"
  shows "health_ok (snd (observe now i ob m))"
proof (cases "id_valid i")
  case True
  note v = True
  let ?o = "stamped now ob" and ?s = "state_of m i"
  note so = state_of_ok [OF assms, of i]
  show ?thesis
  proof (cases "ignored (ob_at ?o) ?s")
    case True
    then show ?thesis using v put_cleared_ok [OF assms so]
      by (simp add: observe_eq Let_def)
  next
    case False
    then have nd: "hs_state ?s \<noteq> Disabled" by (simp add: ignored_def)
    let ?t = "with_latencies ?o (half_opened ?s)" and ?c = "hm_config m"
    obtain s1 m1 where t: "track i ?t ?o (is_failure ?c ?o) (clear_probe i m) = (s1, m1)"
      by (metis surj_pair)
    have h: "snapshot_ok ?t (hm_recent (clear_probe i m) i)"
      using half_opened_ok [OF so nd] by simp
    note k = track_ok [OF t _ snapshot_okD [OF h]]
    have l: "length (hm_recent (clear_probe i m) i) \<le> metric_window_size"
      using health_okD(2) [OF assms] by simp
    have s2: "snapshot_ok (settle ?c ?o s1) (hm_recent m1 i)"
      using on_failure_ok [OF k(1) [OF l]] on_success_ok [OF k(1) [OF l]] k(4,5) [OF l]
        half_opened_state [OF nd] config_bounds [OF health_okD(1) [OF assms]]
      by (simp add: settle_def)
    have "health_ok (put_state i (settle ?c ?o s1) m1)"
      using assms s2 k(3) [OF l] track_states [OF t]
      unfolding health_ok_def put_state_def by (auto simp: clear_probe_def split: if_splits)
    then show ?thesis using v False t by (simp add: observe_eq Let_def)
  qed
qed (simp add: observe_def assms)

lemma probe_half_open:
  "health_ok m \<Longrightarrow> hm_states m i = Some s \<Longrightarrow> hm_probes m i \<Longrightarrow> hs_circuit s = CircuitHalfOpen"
  using health_okD(5) [of m i] by auto

lemma record_throughput_ok:
  assumes "health_ok m"
  shows "health_ok (snd (record_throughput big i b d m))"
proof -
  have "health_ok (put_state i (s\<lparr>hs_throughput := t\<rparr>) m)" if "hm_states m i = Some s" for s t
    using put_state_ok [OF assms, of "s\<lparr>hs_throughput := t\<rparr>" i] health_okD(4) [OF assms that]
      probe_half_open [OF assms that] by (simp add: snapshot_ok_def)
  then show ?thesis using assms
    by (auto simp: record_throughput_def Let_def split: option.splits)
qed

lemma cooldown_ok:
  assumes "health_ok m" "hm_states m i = Some s"
  shows "health_ok (put_state i (after_cooldown s now) m)"
  using put_state_ok [OF assms(1) snapshot_ok_cooldown [OF health_okD(4) [OF assms]]]
    probe_half_open [OF assms] by (simp add: after_cooldown_def)

lemma eligible_ok: "health_ok m \<Longrightarrow> health_ok (snd (eligible_snapshot i now m))"
  by (auto simp: eligible_snapshot_def Let_def state_of_def cooldown_ok)

lemma set_probe_ok:
  "health_ok m \<Longrightarrow> hm_states m i = Some s \<Longrightarrow> hs_circuit s = CircuitHalfOpen \<Longrightarrow>
     health_ok (m\<lparr>hm_probes := (hm_probes m)(i := True)\<rparr>)"
  by (auto simp: health_ok_def)

lemma put_state_simps [simp]:
  "hm_states (put_state i s m) = (hm_states m)(i \<mapsto> s)" "hm_probes (put_state i s m) = hm_probes m"
  "hm_config (put_state i s m) = hm_config m" "hm_recent (put_state i s m) = hm_recent m"
  by (simp_all add: put_state_def)

lemma acquire_ok: "health_ok m \<Longrightarrow> health_ok (snd (acquire i now m))"
  using cooldown_ok [of m i] set_probe_ok [OF cooldown_ok [of m i], where i = i and now1 = now]
  by (auto simp: acquire_def Let_def split: option.splits)

lemma set_disabled_ok:
  assumes "health_ok m"
  shows "health_ok (snd (set_disabled i off m))"
  using assms state_of_ok [OF assms, of i] put_cleared_ok [OF assms, of _ i]
  by (simp add: set_disabled_def Let_def snapshot_ok_def coherent_def)

lemma health_step_ok: "health_ok m \<Longrightarrow> health_ok (health_step opr m)"
  by (cases opr)
     (simp_all add: observe_ok record_throughput_ok eligible_ok acquire_ok release_def clear_probe_ok
        set_disabled_ok get_health_def cooldown_ok Let_def split: option.splits)

lemma new_health_ok: "new_health_manager c = Inr m \<Longrightarrow> health_ok m"
  by (auto simp: new_health_manager_def health_ok_def metric_window_size_def split: if_splits)

lemma health_run_ok: "health_ok m \<Longrightarrow> health_ok (health_run ops m)"
  by (induction ops arbitrary: m) (simp_all add: health_step_ok)

section \<open>What the manager guarantees\<close>

text \<open>In every reachable state the score of an endpoint is at most 100, its state names its
  circuit, its counters are those of the last hundred observations, and successes and failures
  add up to the observations.\<close>

theorem health_table_invariant:
  assumes "new_health_manager c = Inr m0" "m = health_run ops m0" "hm_states m i = Some s"
  shows "hs_score s \<le> 100 \<and> coherent (hs_state s) (hs_circuit s) \<and>
    unat (hs_successes s) + unat (hs_failures s) = unat (hs_observations s) \<and>
    unat (hs_observations s) = length (hm_recent m i) \<and> length (hm_recent m i) \<le> 100 \<and>
    unat (hs_failures s) = length (filter sa_failed (hm_recent m i)) \<and>
    (hm_probes m i \<longrightarrow> hs_circuit s = CircuitHalfOpen)"
proof -
  have ok: "health_ok m" using health_run_ok [OF new_health_ok [OF assms(1)]] assms(2) by simp
  show ?thesis using health_okD(2) [OF ok, of i] health_okD(4) [OF ok assms(3)]
      probe_half_open [OF ok assms(3)]
    by (simp add: snapshot_ok_def metric_window_size_def)
qed

subsection \<open>Quarantine\<close>

text \<open>The effect of one counted observation on the circuit.\<close>

lemma observe_result:
  assumes "health_ok m" "id_valid i" "\<not> ignored (ob_at (stamped now ob)) (state_of m i)"
  obtains s where "hm_states (snd (observe now i ob m)) i = Some s"
    "hm_config (snd (observe now i ob m)) = hm_config m"
    "\<not> hm_probes (snd (observe now i ob m)) i"
    "\<exists>t. s = settle (hm_config m) (stamped now ob) t \<and>
       hs_circuit t = hs_circuit (half_opened (state_of m i)) \<and>
       hs_consecutive_failures t = hs_consecutive_failures (state_of m i) \<and>
       hs_consecutive_successes t = hs_consecutive_successes (half_opened (state_of m i))"
proof -
  let ?o = "stamped now ob" and ?c = "hm_config m"
  let ?t = "with_latencies ?o (half_opened (state_of m i))"
  obtain s1 m1 where t: "track i ?t ?o (is_failure ?c ?o) (clear_probe i m) = (s1, m1)"
    by (metis surj_pair)
  have e: "observe now i ob m = (Inr (settle ?c ?o s1), put_state i (settle ?c ?o s1) m1)"
    using assms(2,3) t by (simp add: observe_eq Let_def)
  have f: "hs_circuit s1 = hs_circuit (half_opened (state_of m i))"
      "hs_consecutive_failures s1 = hs_consecutive_failures (state_of m i)"
      "hs_consecutive_successes s1 = hs_consecutive_successes (half_opened (state_of m i))"
    using t by (auto simp: track_def Let_def half_opened_def)
  have "hm_states (put_state i (settle ?c ?o s1) m1) i = Some (settle ?c ?o s1)"
      "hm_config (put_state i (settle ?c ?o s1) m1) = ?c"
      "\<not> hm_probes (put_state i (settle ?c ?o s1) m1) i"
    using track_states [OF t] by simp_all
  moreover have "\<exists>u. settle ?c ?o s1 = settle ?c ?o u \<and>
       hs_circuit u = hs_circuit (half_opened (state_of m i)) \<and>
       hs_consecutive_failures u = hs_consecutive_failures (state_of m i) \<and>
       hs_consecutive_successes u = hs_consecutive_successes (half_opened (state_of m i))"
    using f by blast
  ultimately show ?thesis using that e by (metis snd_conv)
qed

abbreviation observe_all :: "go_time \<Rightarrow> go_id \<Rightarrow> observation list \<Rightarrow> health_manager \<Rightarrow> health_manager" where
  "observe_all now i obs m \<equiv> fold (\<lambda>ob m. snd (observe now i ob m)) obs m"

lemma closed_not_disabled:
  "health_ok m \<Longrightarrow> hs_circuit (state_of m i) \<noteq> CircuitOpen \<Longrightarrow> hs_state (state_of m i) \<noteq> Disabled"
  using snapshot_okD(2) [OF state_of_ok [of m i]] by (auto simp: coherent_def)

lemma closed_failure:
  assumes "health_ok m" "id_valid i" "hs_circuit (state_of m i) = CircuitClosed"
    "is_failure (hm_config m) (stamped now ob)"
    "unat (hs_consecutive_failures (state_of m i)) < unat (hc_failure_threshold (hm_config m))"
  shows "let m' = snd (observe now i ob m); s = state_of m' i;
             n = Suc (unat (hs_consecutive_failures (state_of m i))) in
     hm_states m' i = Some s \<and> hm_config m' = hm_config m \<and>
     unat (hs_consecutive_failures s) = n \<and>
     (if n < unat (hc_failure_threshold (hm_config m)) then hs_circuit s = CircuitClosed
      else hs_circuit s = CircuitOpen \<and> hs_state s = Quarantined \<and>
        hs_open_until s = ob_at (stamped now ob) + hc_open_duration (hm_config m))"
proof -
  have "\<not> ignored (ob_at (stamped now ob)) (state_of m i)"
    using closed_not_disabled [OF assms(1)] assms(3) by (simp add: ignored_def)
  then obtain s t where s: "hm_states (snd (observe now i ob m)) i = Some s"
      "hm_config (snd (observe now i ob m)) = hm_config m"
      "s = settle (hm_config m) (stamped now ob) t" "hs_circuit t = CircuitClosed"
      "hs_consecutive_failures t = hs_consecutive_failures (state_of m i)"
    using observe_result [OF assms(1,2)] assms(3) by (metis (no_types, lifting) half_opened_def circuit.distinct(7))
  have "unat (hc_failure_threshold (hm_config m)) < 2 ^ LENGTH(32)" by (rule unsigned_less)
  then have "unat (hs_consecutive_failures (state_of m i)) + 1 < 2 ^ 32"
    using assms(5) by simp
  then have "unat (hs_consecutive_failures t + 1) = Suc (unat (hs_consecutive_failures (state_of m i)))"
    using s(5) unat_add_exact [of "hs_consecutive_failures t" 1] by simp
  then show ?thesis using s assms(4)
    by (auto simp: Let_def state_of_def settle_def on_failure_def word_le_nat_alt)
qed

lemma closed_failures:
  assumes "health_ok m" "id_valid i" "hs_circuit (state_of m i) = CircuitClosed"
    "\<forall>ob\<in>set obs. is_failure (hm_config m) (stamped now ob)"
    "unat (hs_consecutive_failures (state_of m i)) + length obs < unat (hc_failure_threshold (hm_config m))"
  shows "let m' = observe_all now i obs m in hs_circuit (state_of m' i) = CircuitClosed \<and>
     hm_config m' = hm_config m \<and> health_ok m' \<and>
     unat (hs_consecutive_failures (state_of m' i)) =
       unat (hs_consecutive_failures (state_of m i)) + length obs"
  using assms
proof (induction obs arbitrary: m)
  case (Cons ob obs)
  let ?m = "snd (observe now i ob m)"
  have "hs_circuit (state_of ?m i) = CircuitClosed" "hm_config ?m = hm_config m"
      "unat (hs_consecutive_failures (state_of ?m i)) =
         Suc (unat (hs_consecutive_failures (state_of m i)))"
    using closed_failure [of m i now ob] Cons.prems by (auto simp: Let_def)
  then show ?case using Cons.IH [of ?m] Cons.prems observe_ok by (simp add: Let_def)
qed simp

lemma acquire_blocked:
  "hm_states m i = Some s \<Longrightarrow> hs_circuit s = CircuitOpen \<Longrightarrow> now < hs_open_until s \<Longrightarrow>
     \<not> fst (acquire i now m) \<and> \<not> fst (health_eligible i now m)"
  by (auto simp: acquire_def after_cooldown_def snapshot_eligible_def health_eligible_def
      eligible_snapshot_def state_of_def Let_def)

text \<open>C38: An endpoint with a closed circuit is quarantined by exactly as many failures in a row as
  the threshold still allows: before the last one its circuit stays closed, after it neither
  Eligible nor Acquire admits the endpoint until the open duration has passed since that failure.\<close>

theorem failures_quarantine:
  assumes "new_health_manager c = Inr m0" "m = health_run ops m0" "id_valid i"
    "hs_circuit (state_of m i) = CircuitClosed"
    "\<forall>ob\<in>set (obs @ [final]). is_failure c (stamped now ob)" "hm_config m = c"
    "unat (hs_consecutive_failures (state_of m i)) + Suc (length obs) = unat (hc_failure_threshold c)"
    "t < ob_at (stamped now final) + hc_open_duration c"
  shows "hs_circuit (state_of (observe_all now i obs m) i) = CircuitClosed \<and>
    (let m' = observe_all now i (obs @ [final]) m in
     hs_circuit (state_of m' i) = CircuitOpen \<and> hs_state (state_of m' i) = Quarantined \<and>
     \<not> fst (acquire i t m') \<and> \<not> fst (health_eligible i t m'))"
proof -
  have ok: "health_ok m" using health_run_ok [OF new_health_ok [OF assms(1)]] assms(2) by simp
  let ?m = "observe_all now i obs m"
  have p: "hs_circuit (state_of ?m i) = CircuitClosed" "hm_config ?m = c" "health_ok ?m"
      "unat (hs_consecutive_failures (state_of ?m i)) =
         unat (hs_consecutive_failures (state_of m i)) + length obs"
    using closed_failures [OF ok assms(3,4), of obs now] assms(5-7) by (simp_all add: Let_def)
  have "is_failure (hm_config ?m) (stamped now final)"
      "unat (hs_consecutive_failures (state_of ?m i)) < unat (hc_failure_threshold (hm_config ?m))"
    using assms(5,7) p by simp_all
  from closed_failure [OF p(3) assms(3) p(1) this] obtain s where s:
      "hm_states (observe_all now i (obs @ [final]) m) i = Some s" "hs_circuit s = CircuitOpen"
      "hs_state s = Quarantined" "hs_open_until s = ob_at (stamped now final) + hc_open_duration c"
    using p(2,4) assms(7) by (auto simp: Let_def)
  show ?thesis using p(1) s acquire_blocked [OF s(1,2)] assms(8)
    by (simp add: Let_def state_of_def)
qed

text \<open>C39: Quarantine ends: once the open duration has passed, the next Acquire of a quarantined
  endpoint succeeds and makes its circuit half-open.\<close>

theorem quarantine_ends:
  assumes "new_health_manager c = Inr m0" "m = health_run ops m0" "id_valid i"
    "hm_states m i = Some s" "hs_state s = Quarantined" "hs_open_until s \<le> t"
  shows "fst (acquire i t m) \<and> hs_circuit (state_of (snd (acquire i t m)) i) = CircuitHalfOpen"
proof -
  have ok: "health_ok m" using health_run_ok [OF new_health_ok [OF assms(1)]] assms(2) by simp
  have c: "hs_circuit s = CircuitOpen"
    using snapshot_okD(2) [OF health_okD(4) [OF ok assms(4)]] assms(5) by (simp add: coherent_def)
  have "\<not> hm_probes m i" using probe_half_open [OF ok assms(4)] c by auto
  then show ?thesis using assms(3-6) c
    by (simp add: acquire_def after_cooldown_def snapshot_eligible_def Let_def state_of_def put_state_def)
qed

subsection \<open>Recovery\<close>

lemma half_open_observation:
  assumes "health_ok m" "id_valid i" "hs_circuit (state_of m i) = CircuitHalfOpen"
    "unat (hs_consecutive_successes (state_of m i)) < unat (hc_success_threshold (hm_config m))"
  shows "let m' = snd (observe now i ob m); s = state_of m' i;
             n = Suc (unat (hs_consecutive_successes (state_of m i))) in
     hm_config m' = hm_config m \<and>
     (if is_failure (hm_config m) (stamped now ob)
      then hs_circuit s = CircuitOpen \<and> hs_state s = Quarantined \<and>
        hs_open_until s = ob_at (stamped now ob) + hc_open_duration (hm_config m)
      else unat (hs_consecutive_successes s) = n \<and>
        (if n < unat (hc_success_threshold (hm_config m)) then hs_circuit s = CircuitHalfOpen
         else hs_circuit s = CircuitClosed \<and> hs_state s = Healthy))"
proof -
  have "\<not> ignored (ob_at (stamped now ob)) (state_of m i)"
    using closed_not_disabled [OF assms(1)] assms(3) by (simp add: ignored_def)
  then obtain s t where s: "hm_states (snd (observe now i ob m)) i = Some s"
      "hm_config (snd (observe now i ob m)) = hm_config m"
      "s = settle (hm_config m) (stamped now ob) t" "hs_circuit t = CircuitHalfOpen"
      "hs_consecutive_successes t = hs_consecutive_successes (state_of m i)"
    using observe_result [OF assms(1,2)] assms(3)
    by (metis (no_types, lifting) half_opened_def circuit.distinct(11))
  have "unat (hc_success_threshold (hm_config m)) < 2 ^ LENGTH(32)" by (rule unsigned_less)
  then have "unat (hs_consecutive_successes (state_of m i)) + 1 < 2 ^ 32"
    using assms(4) by simp
  then have "unat (hs_consecutive_successes t + 1) = Suc (unat (hs_consecutive_successes (state_of m i)))"
    using s(5) unat_add_exact [of "hs_consecutive_successes t" 1] by simp
  then show ?thesis using s assms(4)
    by (auto simp: Let_def state_of_def settle_def on_failure_def on_success_def word_le_nat_alt)
qed

text \<open>The successes among the observations before the first failure.\<close>

lemma half_open_successes:
  assumes "health_ok m" "id_valid i" "hs_circuit (state_of m i) = CircuitHalfOpen"
    "\<forall>ob\<in>set obs. \<not> is_failure (hm_config m) (stamped now ob)"
    "unat (hs_consecutive_successes (state_of m i)) + length obs < unat (hc_success_threshold (hm_config m))"
  shows "let m' = observe_all now i obs m in hs_circuit (state_of m' i) = CircuitHalfOpen \<and>
     hm_config m' = hm_config m \<and> health_ok m' \<and>
     unat (hs_consecutive_successes (state_of m' i)) =
       unat (hs_consecutive_successes (state_of m i)) + length obs"
  using assms
proof (induction obs arbitrary: m)
  case (Cons ob obs)
  let ?m = "snd (observe now i ob m)"
  have "hs_circuit (state_of ?m i) = CircuitHalfOpen" "hm_config ?m = hm_config m"
      "unat (hs_consecutive_successes (state_of ?m i)) =
         Suc (unat (hs_consecutive_successes (state_of m i)))"
    using half_open_observation [of m i now ob] Cons.prems by (auto simp: Let_def split: if_splits)
  then show ?case using Cons.IH [of ?m] Cons.prems observe_ok by (simp add: Let_def)
qed simp

text \<open>A half-open circuit closes after exactly the configured number of successes in a row and
  not before; one failure on the way quarantines the endpoint again.\<close>

theorem half_open_recovery:
  assumes "new_health_manager c = Inr m0" "m = health_run ops m0" "id_valid i" "hm_config m = c"
    "hs_circuit (state_of m i) = CircuitHalfOpen"
    "\<forall>ob\<in>set obs. \<not> is_failure c (stamped now ob)"
    "unat (hs_consecutive_successes (state_of m i)) + length obs < unat (hc_success_threshold c)"
  shows "hs_circuit (state_of (observe_all now i obs m) i) = CircuitHalfOpen \<and>
    (let s = state_of (observe_all now i (obs @ [final]) m) i in
     if is_failure c (stamped now final)
     then hs_state s = Quarantined \<and> hs_open_until s = ob_at (stamped now final) + hc_open_duration c
     else if unat (hs_consecutive_successes (state_of m i)) + Suc (length obs) =
             unat (hc_success_threshold c)
     then hs_circuit s = CircuitClosed \<and> hs_state s = Healthy
     else hs_circuit s = CircuitHalfOpen)"
proof -
  have ok: "health_ok m" using health_run_ok [OF new_health_ok [OF assms(1)]] assms(2) by simp
  let ?m = "observe_all now i obs m"
  have p: "hs_circuit (state_of ?m i) = CircuitHalfOpen" "hm_config ?m = c" "health_ok ?m"
      "unat (hs_consecutive_successes (state_of ?m i)) =
         unat (hs_consecutive_successes (state_of m i)) + length obs"
    using half_open_successes [OF ok assms(3,5), of obs now] assms(4,6,7) by (simp_all add: Let_def)
  have "unat (hs_consecutive_successes (state_of ?m i)) < unat (hc_success_threshold (hm_config ?m))"
    using assms(7) p by simp
  from half_open_observation [OF p(3) assms(3) p(1) this, of now final] show ?thesis
    using p assms(7) by (auto simp: Let_def)
qed

subsection \<open>The probe of a half-open circuit\<close>

text \<open>The operations that end an attempt on an endpoint.\<close>

fun completes :: "go_id \<Rightarrow> health_op \<Rightarrow> bool" where
  "completes i (HObserve now j ob) = (i = j)"
| "completes i (HRelease j) = (i = j)"
| "completes i (HSetDisabled j off) = (i = j)"
| "completes i opr = False"

lemma observe_probes: "hm_probes (snd (observe now j ob m)) =
    (if id_valid j then (hm_probes m)(j := False) else hm_probes m)"
proof (cases "id_valid j")
  case True
  let ?o = "stamped now ob"
  obtain s1 m1 where t: "track j (with_latencies ?o (half_opened (state_of m j))) ?o
      (is_failure (hm_config m) ?o) (clear_probe j m) = (s1, m1)"
    by (metis surj_pair)
  then have "hm_probes m1 = (hm_probes m)(j := False)"
    using track_states [OF t] by (simp add: clear_probe_def)
  then show ?thesis using True t by (simp add: observe_eq Let_def clear_probe_def)
qed (simp add: observe_def)

lemma step_probes:
  "hm_probes (snd (record_throughput big j b d m)) = hm_probes m"
  "hm_probes (snd (get_health j now m)) = hm_probes m"
  "hm_probes (snd (eligible_snapshot j now m)) = hm_probes m"
  "hm_probes m i \<Longrightarrow> hm_probes (snd (acquire j now m)) i"
  "i \<noteq> j \<Longrightarrow> hm_probes (snd (set_disabled j off m)) i = hm_probes m i"
  by (simp_all add: record_throughput_def get_health_def eligible_snapshot_def acquire_def
        set_disabled_def clear_probe_def Let_def split: option.split)

lemma probe_kept: "\<not> completes i opr \<Longrightarrow> hm_probes m i \<Longrightarrow> hm_probes (health_step opr m) i"
  by (cases opr) (simp_all add: observe_probes step_probes release_def clear_probe_def)

lemma probe_kept_run:
  "\<forall>opr\<in>set ops. \<not> completes i opr \<Longrightarrow> hm_probes m i \<Longrightarrow> hm_probes (health_run ops m) i"
  by (induction ops arbitrary: m) (simp_all add: probe_kept)


section \<open>A concrete endpoint\<close>

definition outcome :: "go_time \<Rightarrow> bool \<Rightarrow> observation" where
  "outcome t good = \<lparr>ob_at = t, ob_success = good, ob_http_status = 0, ob_auth_failure = False,
     ob_timeout = False, ob_dns_failure = False, ob_tls_failure = False, ob_latency = 5,
     ob_connect_latency = 0, ob_ttfb = 0, ob_health_check = False\<rparr>"

definition new_health :: health_manager where
  "new_health = \<lparr>hm_config = health_defaults, hm_states = (\<lambda>i. None), hm_probes = (\<lambda>i. False),
     hm_recent = (\<lambda>i. [])\<rparr>"

lemma new_health: "new_health_manager health_defaults = Inr new_health"
  by (simp add: new_health_manager_def new_health_def health_config_validate_def health_defaults_def
      minute_def hour_def second_def)

definition fail_run :: "health_op list" where
  "fail_run = [HAcquire ''px'' 1, HObserve 0 ''px'' (outcome 10 False),
     HObserve 0 ''px'' (outcome 20 False), HObserve 0 ''px'' (outcome 30 False)]"

definition probe_run :: "health_op list" where
  "probe_run = fail_run @ [HAcquire ''px'' (30 + minute)]"

text \<open>An attempt admitted while the circuit was closed ends by releasing the endpoint; when it
  ends after the circuit has become half-open it frees the probe of the attempt that runs then,
  and a second attempt is admitted although the first probe is still in flight.\<close>

theorem late_release_second_probe:
  "fst (acquire ''px'' 1 new_health) \<and>
   fst (acquire ''px'' (30 + minute) (health_run fail_run new_health)) \<and>
   hs_circuit (state_of (health_run probe_run new_health) ''px'') = CircuitHalfOpen \<and>
   \<not> fst (acquire ''px'' (40 + minute) (health_run probe_run new_health)) \<and>
   fst (acquire ''px'' (40 + minute) (release ''px'' (health_run probe_run new_health)))"
  by code_simp

theorem health_table_invariant_witness:
  "\<exists>s. hm_states (health_run probe_run new_health) ''px'' = Some s \<and> hs_score s = 5 \<and>
     unat (hs_successes s) + unat (hs_failures s) = unat (hs_observations s)"
proof -
  have e: "map_option hs_score (hm_states (health_run probe_run new_health) ''px'') = Some 5"
    by code_simp
  then obtain s where s: "hm_states (health_run probe_run new_health) ''px'' = Some s" "hs_score s = 5"
    by auto
  show ?thesis using s health_table_invariant [OF new_health refl s(1)] by blast
qed

theorem failures_quarantine_witness:
  "\<not> fst (acquire ''px'' (29 + minute)
     (observe_all 0 ''px'' ([outcome 10 False, outcome 20 False] @ [outcome 30 False]) new_health))"
proof -
  have "id_valid ''px''" "hs_circuit (state_of new_health ''px'') = CircuitClosed"
    "\<forall>ob\<in>set ([outcome 10 False, outcome 20 False] @ [outcome 30 False]).
       is_failure health_defaults (stamped 0 ob)" "hm_config new_health = health_defaults"
    "unat (hs_consecutive_failures (state_of new_health ''px'')) +
       Suc (length [outcome 10 False, outcome 20 False]) = unat (hc_failure_threshold health_defaults)"
    "29 + minute < ob_at (stamped 0 (outcome 30 False)) + hc_open_duration health_defaults"
    by code_simp+
  from failures_quarantine [OF new_health _ this, of "[]"] show ?thesis by (simp add: Let_def)
qed

theorem quarantine_ends_witness:
  "fst (acquire ''px'' (30 + minute) (health_run fail_run new_health))"
proof -
  have e: "map_option (\<lambda>s. (hs_state s, hs_open_until s)) (hm_states (health_run fail_run new_health) ''px'')
      = Some (Quarantined, 30 + minute)"
    by code_simp
  then obtain s where s: "hm_states (health_run fail_run new_health) ''px'' = Some s"
      "hs_state s = Quarantined" "hs_open_until s \<le> 30 + minute"
    by auto
  have "id_valid ''px''" by code_simp
  then show ?thesis using quarantine_ends [OF new_health refl _ s(1,2,3)] by blast
qed

theorem half_open_recovery_witness:
  "hs_circuit (state_of (observe_all 0 ''px'' ([outcome (31 + minute) True] @ [outcome (32 + minute) True])
     (health_run probe_run new_health)) ''px'') = CircuitClosed"
proof -
  have f: "id_valid ''px''" "hm_config (health_run probe_run new_health) = health_defaults"
    "hs_circuit (state_of (health_run probe_run new_health) ''px'') = CircuitHalfOpen"
    "\<forall>ob\<in>set [outcome (31 + minute) True]. \<not> is_failure health_defaults (stamped 0 ob)"
    "unat (hs_consecutive_successes (state_of (health_run probe_run new_health) ''px'')) +
       length [outcome (31 + minute) True] < unat (hc_success_threshold health_defaults)"
    by code_simp+
  have "\<not> is_failure health_defaults (stamped 0 (outcome (32 + minute) True))"
    "unat (hs_consecutive_successes (state_of (health_run probe_run new_health) ''px'')) +
       Suc (length [outcome (31 + minute) True]) = unat (hc_success_threshold health_defaults)"
    by code_simp+
  then show ?thesis
    using half_open_recovery [OF new_health refl f, of "outcome (32 + minute) True"]
    by (simp only: Let_def if_True if_False HOL.simp_thms)
qed


end
