(* ===== verification/Go_Strings.thy ===== *)
theory Go_Strings
  imports Go_Text
begin

text \<open>The calls of package strings and strconv the inventory and the routing use.  Case folding
  and trimming are those of ASCII text, as everywhere in the development.\<close>

section \<open>strings.Split, Contains, EqualFold, TrimSuffix\<close>

fun split_on :: "char \<Rightarrow> string \<Rightarrow> string list" where
  "split_on d [] = [[]]"
| "split_on d (c # cs) =
     (if c = d then [] # split_on d cs
      else case split_on d cs of [] \<Rightarrow> [[c]] | x # xs \<Rightarrow> (c # x) # xs)"

fun join_on :: "char \<Rightarrow> string list \<Rightarrow> string" where
  "join_on d [] = []"
| "join_on d [x] = x"
| "join_on d (x # y # xs) = x @ d # join_on d (y # xs)"

lemma split_on_nonempty [simp]: "split_on d s \<noteq> []"
  by (cases s) (auto split: list.splits)

lemma join_split: "join_on d (split_on d s) = s"
proof (induction s)
  case (Cons c cs)
  obtain x xs where x: "split_on d cs = x # xs" by (cases "split_on d cs") auto
  then have j: "join_on d (x # xs) = cs" using Cons.IH by simp
  show ?case using x j by (cases xs) auto
qed simp

lemma split_on_absent: "\<forall>x\<in>set (split_on d s). d \<notin> set x"
  by (induction s) (auto split: list.splits)

lemma split_no_sep: "d \<notin> set s \<Longrightarrow> split_on d s = [s]"
  by (induction s) auto

lemma split_append: "d \<notin> set x \<Longrightarrow> split_on d (x @ d # s) = x # split_on d s"
  by (induction x) auto

lemma split_join:
  "xs \<noteq> [] \<Longrightarrow> \<forall>x\<in>set xs. d \<notin> set x \<Longrightarrow> split_on d (join_on d xs) = xs"
  by (induction xs rule: join_on.induct) (auto simp: split_no_sep split_append)

fun contains :: "string \<Rightarrow> string \<Rightarrow> bool" where
  "contains [] p = (p = [])"
| "contains (c # cs) p = (has_prefix (c # cs) p \<or> contains cs p)"

lemma contains_iff: "contains s p \<longleftrightarrow> (\<exists>a b. s = a @ p @ b)"
proof (induction s)
  case (Cons c cs)
  note ih = Cons.IH
  show ?case
  proof
    assume "contains (c # cs) p"
    then consider b where "c # cs = p @ b" | a b where "cs = a @ p @ b"
      using Cons.IH by (auto simp: has_prefix_iff)
    then show "\<exists>a b. c # cs = a @ p @ b"
    proof cases
      case 1 then show ?thesis by (metis append_Nil)
    next
      case 2 then show ?thesis by (metis append_Cons)
    qed
  next
    assume "\<exists>a b. c # cs = a @ p @ b"
    then obtain a b where e: "c # cs = a @ p @ b" by blast
    show "contains (c # cs) p"
    proof (cases a)
      case Nil
      then have "has_prefix (c # cs) p" using e unfolding has_prefix_iff by (metis append_Nil)
      then show ?thesis by simp
    next
      case (Cons x a')
      then have "contains cs p" using e ih by auto
      then show ?thesis by simp
    qed
  qed
qed auto

definition contains_any :: "string \<Rightarrow> string \<Rightarrow> bool" where
  "contains_any s chars = list_ex (\<lambda>c. c \<in> set chars) s"

definition equal_fold :: "string \<Rightarrow> string \<Rightarrow> bool" where
  "equal_fold a b = (to_lower a = to_lower b)"

definition trim_suffix :: "string \<Rightarrow> string \<Rightarrow> string" where
  "trim_suffix s p = (if has_suffix s p then take (length s - length p) s else s)"

lemma trim_suffix_append [simp]: "trim_suffix (s @ p) p = s"
  by (simp add: trim_suffix_def has_suffix_def)

section \<open>strconv.Itoa and ParseUint\<close>

definition digit_char :: "nat \<Rightarrow> char" where
  "digit_char n = char_of (48 + n)"

fun itoa :: "nat \<Rightarrow> string" where
  "itoa n = (if n < 10 then [digit_char n] else itoa (n div 10) @ [digit_char (n mod 10)])"

declare itoa.simps [simp del]

lemma digit_of_char: "n < 10 \<Longrightarrow> digit_of (digit_char n) = Some (int n)"
  by (simp add: digit_of_def digit_char_def Let_def of_char_of)

lemma parse_digits_append:
  "parse_digits (a @ b) acc = Option.bind (parse_digits a acc) (parse_digits b)"
  by (induction a arbitrary: acc) (auto split: option.splits)

lemma parse_itoa: "parse_digits (itoa n) 0 = Some (int n)"
proof (induction n rule: itoa.induct)
  case (1 n)
  show ?case
  proof (cases "n < 10")
    case True
    then show ?thesis by (simp add: itoa.simps [of n] digit_of_char)
  next
    case False
    then have "parse_digits (itoa n) 0 = parse_digits [digit_char (n mod 10)] (int (n div 10))"
      using 1 by (simp add: itoa.simps [of n] parse_digits_append)
    also have "\<dots> = Some (int n)" by (simp add: digit_of_char) presburger
    finally show ?thesis .
  qed
qed

lemma itoa_nonempty [simp]: "itoa n \<noteq> []"
  by (simp add: itoa.simps [of n])

lemma itoa_inj: "itoa a = itoa b \<Longrightarrow> a = b"
  by (metis nat_int option.inject parse_itoa)

lemma itoa_digits: "c \<in> set (itoa n) \<Longrightarrow> digit_of c \<noteq> None"
proof (induction n rule: itoa.induct)
  case (1 n)
  then show ?case
    by (cases "n < 10") (auto simp: itoa.simps [of n] digit_of_char)
qed

text \<open>ParseUint in base 10 with a bit size: no sign, at least one digit, in range.\<close>

definition parse_uint :: "nat \<Rightarrow> string \<Rightarrow> int option" where
  "parse_uint bits s =
     (if s = [] then None
      else case parse_digits s 0 of None \<Rightarrow> None
        | Some n \<Rightarrow> if n < 2 ^ bits then Some n else None)"

lemma parse_uint_itoa: "int n < 2 ^ bits \<Longrightarrow> parse_uint bits (itoa n) = Some (int n)"
  by (simp add: parse_uint_def parse_itoa)

end
