(* ===== verification/Endpoint_Model.thy ===== *)
theory Endpoint_Model
  imports Traffic_Values Go_Strings
begin

text \<open>pkg/proxy/proxy.go: upstream endpoints and inventory sources, and pkg/secret's references.\<close>

section \<open>Credential references (pkg/secret)\<close>

definition ref_char :: "char \<Rightarrow> bool" where
  "ref_char c = (alnum_char c \<or> c = CHR ''_'' \<or> c = CHR ''-'')"

definition secret_ref_valid :: "string \<Rightarrow> bool" where
  "secret_ref_valid r = (length r \<le> 256 \<and> has_prefix r ''secret://'' \<and>
     (let parts = split_on (CHR ''/'') (drop 9 r) in
      length parts \<le> 8 \<and> list_all (\<lambda>p. p \<noteq> [] \<and> list_all ref_char p) parts))"

section \<open>Endpoints\<close>

definition protocol_valid :: "string \<Rightarrow> bool" where
  "protocol_valid p = (p \<in> set [''http'', ''https'', ''socks5'', ''socks5h''])"

record endpoint =
  ep_id :: go_id
  ep_name :: string
  ep_protocol :: string
  ep_host :: string
  ep_port :: "16 word"
  ep_credential_ref :: string
  ep_provider_id :: go_id
  ep_source_id :: go_id
  ep_tags :: "string list"
  ep_country :: string
  ep_weight :: "32 word"
  ep_priority :: int
  ep_enabled :: bool
  ep_trusted_remote_dns :: bool
  ep_rate :: "rate option"
  ep_created_at :: go_time
  ep_updated_at :: go_time
  ep_metadata :: "(string \<times> string) list"

text \<open>The bytes no host may contain: slash, at, question mark, hash, percent, backslash, blank,
  tab, carriage return and newline.\<close>

definition host_forbidden :: "char list" where
  "host_forbidden = ''/@?#% '' @ [char_of (92::nat), char_of (9::nat), char_of (13::nat), char_of (10::nat)]"

definition label_char :: "char \<Rightarrow> bool" where
  "label_char c = (alnum_char c \<or> c = CHR ''-'')"

definition valid_label :: "string \<Rightarrow> bool" where
  "valid_label l = (l \<noteq> [] \<and> length l \<le> 63 \<and> hd l \<noteq> CHR ''-'' \<and> last l \<noteq> CHR ''-'' \<and>
     list_all label_char l)"

definition addr_zone :: "ip_addr \<Rightarrow> string" where
  "addr_zone a = (case a of IP4 w \<Rightarrow> [] | IP6 w z \<Rightarrow> z)"

definition valid_host :: "go_lib \<Rightarrow> string \<Rightarrow> bool" where
  "valid_host lib h =
     (if h = [] \<or> length h > 253 \<or> contains_any h host_forbidden then False
      else case parse_addr lib h of Some a \<Rightarrow> addr_zone a = []
        | None \<Rightarrow> list_all valid_label (split_on (CHR ''.'') (trim_suffix h ''.'')))"

definition endpoint_validate :: "go_lib \<Rightarrow> endpoint \<Rightarrow> error option" where
  "endpoint_validate lib e =
     (if \<not> id_valid (ep_id e) \<or> length (ep_name e) > 256 \<or> \<not> protocol_valid (ep_protocol e) \<or>
         \<not> valid_host lib (ep_host e) \<or> ep_port e = 0 then Some ModelErrInvalid
      else if ep_credential_ref e \<noteq> [] \<and> \<not> secret_ref_valid (ep_credential_ref e)
      then Some ModelErrInvalid
      else if (ep_provider_id e \<noteq> [] \<and> \<not> id_valid (ep_provider_id e)) \<or>
         (ep_source_id e \<noteq> [] \<and> \<not> id_valid (ep_source_id e)) then Some ModelErrInvalid
      else if length (ep_tags e) > 64 \<or> length (ep_metadata e) > 64 \<or> ep_weight e > 1000000
      then Some ModelErrInvalid
      else if list_ex (\<lambda>t. length t = 0 \<or> length t > 128) (ep_tags e) then Some ModelErrInvalid
      else if list_ex (\<lambda>(k, v). length k = 0 \<or> length k > 128 \<or> length v > 4096) (ep_metadata e)
      then Some ModelErrInvalid
      else if (case ep_rate e of None \<Rightarrow> False | Some r \<Rightarrow> rate_validate r \<noteq> None)
      then Some ModelErrInvalid
      else if ep_created_at e \<noteq> 0 \<and> ep_updated_at e \<noteq> 0 \<and> ep_updated_at e < ep_created_at e
      then Some ModelErrInvalid
      else None)"

text \<open>net.JoinHostPort puts an address with a colon in brackets.\<close>

definition join_host_port :: "string \<Rightarrow> string \<Rightarrow> string" where
  "join_host_port h p =
     (if CHR '':'' \<in> set h then ''['' @ h @ '']:'' @ p else h @ '':'' @ p)"

definition endpoint_address :: "endpoint \<Rightarrow> string" where
  "endpoint_address e = join_host_port (ep_host e) (itoa (unat (ep_port e)))"

definition endpoint_string :: "go_lib \<Rightarrow> endpoint \<Rightarrow> string" where
  "endpoint_string lib e =
     (if \<not> protocol_valid (ep_protocol e) \<or> \<not> valid_host lib (ep_host e) then ''[invalid endpoint]''
      else ep_protocol e @ ''://'' @ endpoint_address e)"

section \<open>Sources\<close>

record source =
  sr_id :: go_id
  sr_name :: string
  sr_type :: string
  sr_provider_id :: go_id
  sr_config :: "(string \<times> string) list"
  sr_refresh_interval :: duration
  sr_last_refresh_at :: go_time
  sr_last_refresh_status :: string
  sr_credential_ref :: string
  sr_enabled :: bool

definition sensitive_config_key :: "string \<Rightarrow> bool" where
  "sensitive_config_key key = (let l = to_lower key in
     contains l ''password'' \<or> contains l ''secret'' \<or> contains l ''token'' \<or>
     contains l ''api_key'' \<or> contains l ''apikey'' \<or> contains l ''credential'')"

definition source_validate :: "source \<Rightarrow> error option" where
  "source_validate s =
     (if \<not> id_valid (sr_id s) \<or> length (sr_name s) = 0 \<or> length (sr_name s) > 256 \<or>
         length (sr_config s) > 32 \<or> length (sr_last_refresh_status s) > 256 \<or>
         sr_refresh_interval s < 0 \<or> sr_refresh_interval s > 30 * 24 * hour then Some ModelErrInvalid
      else if sr_type s \<notin> set [''manual'', ''file'', ''api'', ''provider'', ''rotating'']
      then Some ModelErrInvalid
      else if (sr_provider_id s \<noteq> [] \<and> \<not> id_valid (sr_provider_id s)) \<or>
         (sr_credential_ref s \<noteq> [] \<and> \<not> secret_ref_valid (sr_credential_ref s))
      then Some ModelErrInvalid
      else if list_ex (\<lambda>(k, v). length k = 0 \<or> length k > 64 \<or> length v > 4096 \<or>
         sensitive_config_key k) (sr_config s) then Some ModelErrInvalid
      else None)"

lemma endpoint_validD:
  assumes "endpoint_validate lib e = None"
  shows "id_valid (ep_id e)" "valid_host lib (ep_host e)" "protocol_valid (ep_protocol e)"
    "ep_port e \<noteq> 0" "ep_weight e \<le> 1000000"
  using assms by (auto simp: endpoint_validate_def split: if_splits)

lemma source_validD:
  assumes "source_validate s = None"
  shows "id_valid (sr_id s)" "(k, v) \<in> set (sr_config s) \<Longrightarrow> \<not> sensitive_config_key k"
  using assms by (auto simp: source_validate_def list_ex_iff split: if_splits)

end
