(* ===== verification/Routing_Model.thy ===== *)
theory Routing_Model
  imports Endpoint_Model Session_Model
begin

text \<open>pkg/routing: chains, pools and the built-in selectors.\<close>

section \<open>Chains (chain.go)\<close>

definition max_chain_hops :: nat where "max_chain_hops = 8"
definition default_hop_timeout :: duration where "default_hop_timeout = 15 * second"

record hop =
  hop_pool_id :: go_id
  hop_timeout :: duration

record chain =
  cn_id :: go_id
  cn_name :: string
  cn_hops :: "hop list"
  cn_enabled :: bool

fun valid_hops :: "go_id list \<Rightarrow> hop list \<Rightarrow> bool" where
  "valid_hops seen [] = True"
| "valid_hops seen (h # hs) =
     (if \<not> id_valid (hop_pool_id h) \<or> hop_pool_id h \<in> set seen \<or> hop_timeout h < 0 \<or>
         hop_timeout h > 2 * minute then False
      else valid_hops (hop_pool_id h # seen) hs)"

definition chain_validate :: "chain \<Rightarrow> error option" where
  "chain_validate c =
     (if \<not> id_valid (cn_id c) \<or> trim_space (cn_name c) = [] \<or> length (cn_name c) > 256 \<or>
         length (cn_hops c) < 2 \<or> length (cn_hops c) > max_chain_hops then Some ModelErrInvalid
      else if valid_hops [] (cn_hops c) then None else Some ModelErrInvalid)"

definition effective_timeout :: "hop \<Rightarrow> duration" where
  "effective_timeout h = (if hop_timeout h = 0 then default_hop_timeout else hop_timeout h)"

section \<open>Pools (routing.go)\<close>

datatype strategy =
    RandomStrategy | RoundRobin | WeightedRandom | LeastConnections | LeastTraffic
  | LowestLatency | HighestHealth | LowestCost | CostAware | Sticky | OtherStrategy string

definition strategy_valid :: "strategy \<Rightarrow> bool" where
  "strategy_valid s = (case s of OtherStrategy x \<Rightarrow> False | _ \<Rightarrow> True)"

record pool =
  pl_id :: go_id
  pl_name :: string
  pl_strategy :: strategy
  pl_endpoint_ids :: "go_id list"
  pl_fallback_pool_ids :: "go_id list"
  pl_required_tags :: "string list"
  pl_country :: string
  pl_min_health_score :: "8 word"
  pl_max_latency :: duration
  pl_session_policy :: session_policy
  pl_enabled :: bool

fun distinct_such :: "('a \<Rightarrow> bool) \<Rightarrow> 'a list \<Rightarrow> 'a list \<Rightarrow> bool" where
  "distinct_such P seen [] = True"
| "distinct_such P seen (x # xs) =
     (if \<not> P x \<or> x \<in> set seen then False else distinct_such P (x # seen) xs)"

definition pool_validate :: "pool \<Rightarrow> error option" where
  "pool_validate p =
     (if \<not> id_valid (pl_id p) \<or> \<not> strategy_valid (pl_strategy p) \<or> trim_space (pl_name p) = [] \<or>
         length (pl_name p) > 256 \<or> pl_min_health_score p > 100 \<or> pl_max_latency p < 0 \<or>
         session_policy_validate (pl_session_policy p) \<noteq> None \<or> length (pl_endpoint_ids p) > 1000 \<or>
         length (pl_fallback_pool_ids p) > 1000 \<or> length (pl_required_tags p) > 1000 \<or>
         length (pl_country p) > 128 then Some ModelErrInvalid
      else if \<not> distinct_such id_valid [] (pl_endpoint_ids p) then Some ModelErrInvalid
      else if \<not> distinct_such (\<lambda>i. id_valid i \<and> i \<noteq> pl_id p) [] (pl_fallback_pool_ids p)
      then Some ModelErrInvalid
      else if \<not> distinct_such (\<lambda>t. length t \<noteq> 0 \<and> length t \<le> 128) [] (pl_required_tags p)
      then Some ModelErrInvalid
      else None)"

lemma distinct_such_iff:
  "distinct_such P seen xs \<longleftrightarrow> distinct xs \<and> (\<forall>x\<in>set xs. P x) \<and> set xs \<inter> set seen = {}"
  by (induction xs arbitrary: seen) auto

lemma valid_hops_iff:
  "valid_hops seen hs \<longleftrightarrow> distinct (map hop_pool_id hs) \<and>
     (\<forall>h\<in>set hs. id_valid (hop_pool_id h) \<and> 0 \<le> hop_timeout h \<and> hop_timeout h \<le> 2 * minute) \<and>
     hop_pool_id ` set hs \<inter> set seen = {}"
  by (induction hs arbitrary: seen) auto

section \<open>Selectors (selectors.go)\<close>

record selection_context =
  sc_client_id :: go_id
  sc_pool_id :: go_id
  sc_session_key :: string
  sc_host :: string

record candidate =
  cd_endpoint :: endpoint
  cd_active_connections :: "64 word"
  cd_health_score :: "8 word"
  cd_latency :: duration
  cd_traffic :: bytes

text \<open>The eight bytes crypto/rand yields, None when it fails, are an argument.\<close>

definition random_index :: "64 word option \<Rightarrow> 64 word \<Rightarrow> 64 word" where
  "random_index rnd n = (case rnd of None \<Rightarrow> 0 | Some r \<Rightarrow> r mod n)"

text \<open>hash/fnv New64a.\<close>

definition fnv64a :: "string \<Rightarrow> 64 word" where
  "fnv64a s = foldl (\<lambda>h c. (Bit_Operations.xor h (of_nat (of_char c))) * 1099511628211)
     14695981039346656037 s"

definition stable_index :: "nat \<Rightarrow> selection_context \<Rightarrow> nat" where
  "stable_index n inp = unat (fnv64a (sc_client_id inp @ ''|'' @ sc_pool_id inp @ ''|'' @
      sc_session_key inp @ ''|'' @ sc_host inp) mod of_nat n)"

definition weight_of :: "candidate \<Rightarrow> 64 word" where
  "weight_of x = (let w = ucast (ep_weight (cd_endpoint x)) in if w = 0 then 1 else w)"

text \<open>The sum of the weights, None when it would wrap.\<close>

fun weight_sum :: "64 word \<Rightarrow> candidate list \<Rightarrow> 64 word option" where
  "weight_sum acc [] = Some acc"
| "weight_sum acc (x # xs) =
     (if - 1 - acc < weight_of x then None else weight_sum (acc + weight_of x) xs)"

fun walk_weights :: "64 word \<Rightarrow> candidate list \<Rightarrow> candidate option" where
  "walk_weights r [] = None"
| "walk_weights r (x # xs) =
     (if r < weight_of x then Some x else walk_weights (r - weight_of x) xs)"

definition weighted :: "64 word option \<Rightarrow> candidate list \<Rightarrow> candidate" where
  "weighted rnd c = (case weight_sum 0 c of None \<Rightarrow> hd c
     | Some acc \<Rightarrow> (case walk_weights (random_index rnd acc) c of Some x \<Rightarrow> x | None \<Rightarrow> last c))"

definition pick_step :: "(candidate \<Rightarrow> candidate \<Rightarrow> bool) \<Rightarrow> candidate \<Rightarrow> candidate \<Rightarrow> candidate" where
  "pick_step better best nxt =
     (if better nxt best \<or> (\<not> better best nxt \<and> ep_id (cd_endpoint nxt) < ep_id (cd_endpoint best))
      then nxt else best)"

definition pick :: "(candidate \<Rightarrow> candidate \<Rightarrow> bool) \<Rightarrow> candidate list \<Rightarrow> candidate" where
  "pick better c = foldl (pick_step better) (hd c) (tl c)"

definition cost :: "candidate \<Rightarrow> int" where
  "cost c = (case ep_rate (cd_endpoint c) of None \<Rightarrow> 2 ^ 63 - 1 | Some r \<Rightarrow> sint (micros (price r)))"

text \<open>A selector has the strategy of its pool and the counter of round-robin.\<close>

record selector =
  sl_strategy :: strategy
  sl_counter :: "64 word"

definition new_built_in :: "strategy \<Rightarrow> error + selector" where
  "new_built_in s = (if strategy_valid s then Inr \<lparr>sl_strategy = s, sl_counter = 0\<rparr>
     else Inl RoutingErrNoCandidate)"

definition eligible_candidates :: "go_lib \<Rightarrow> candidate list \<Rightarrow> candidate list" where
  "eligible_candidates lib cs =
     filter (\<lambda>c. endpoint_validate lib (cd_endpoint c) = None \<and> ep_enabled (cd_endpoint c)) cs"

definition select_candidate :: "64 word option \<Rightarrow> selector \<Rightarrow> selection_context \<Rightarrow> candidate list \<Rightarrow>
    (error + candidate) \<times> selector" where
  "select_candidate rnd s inp el =
     (case sl_strategy s of
       RoundRobin \<Rightarrow> (let n = sl_counter s + 1 in
         (Inr (el ! unat ((n - 1) mod of_nat (length el))), s\<lparr>sl_counter := n\<rparr>))
     | RandomStrategy \<Rightarrow> (Inr (el ! unat (random_index rnd (of_nat (length el)))), s)
     | WeightedRandom \<Rightarrow> (Inr (weighted rnd el), s)
     | LeastConnections \<Rightarrow>
         (Inr (pick (\<lambda>a b. cd_active_connections a < cd_active_connections b) el), s)
     | LeastTraffic \<Rightarrow> (Inr (pick (\<lambda>a b. cd_traffic a < cd_traffic b) el), s)
     | LowestLatency \<Rightarrow> (Inr (pick (\<lambda>a b. cd_latency a < cd_latency b) el), s)
     | HighestHealth \<Rightarrow> (Inr (pick (\<lambda>a b. cd_health_score a > cd_health_score b) el), s)
     | LowestCost \<Rightarrow> (Inr (pick (\<lambda>a b. cost a < cost b) el), s)
     | CostAware \<Rightarrow> (Inr (pick (\<lambda>a b. cost a < cost b) el), s)
     | Sticky \<Rightarrow> (Inr (el ! stable_index (length el) inp), s)
     | OtherStrategy x \<Rightarrow> (Inl RoutingErrNoCandidate, s))"

definition select :: "go_lib \<Rightarrow> error option \<Rightarrow> 64 word option \<Rightarrow> selector \<Rightarrow> selection_context \<Rightarrow>
    candidate list \<Rightarrow> (error + go_id) \<times> selector" where
  "select lib cerr rnd s inp cs =
     (case cerr of Some e \<Rightarrow> (Inl e, s)
      | None \<Rightarrow>
        let el = eligible_candidates lib cs in
        if el = [] then (Inl RoutingErrNoCandidate, s)
        else case select_candidate rnd s inp el of
            (Inl e, s1) \<Rightarrow> (Inl e, s1)
          | (Inr c, s1) \<Rightarrow> (Inr (ep_id (cd_endpoint c)), s1))"

end
