(* ===== verification/Memory_Store.thy ===== *)
theory Memory_Store
  imports Routing_Model Policy_Model
begin

text \<open>internal/storage/memory: the bounded repositories of endpoints, pools, chains, policies and
  sources.  The five files repeat one protocol of optimistic revisions; it is defined once over
  the identifier and the validation of a document, and every repository is an instance.\<close>

section \<open>Pages and records (pkg/store)\<close>

record page =
  pg_after :: go_id
  pg_limit :: int

definition page_validate :: "page \<Rightarrow> error option" where
  "page_validate p =
     (if pg_limit p < 1 \<or> pg_limit p > 1000 \<or> (pg_after p \<noteq> [] \<and> \<not> id_valid (pg_after p))
      then Some StoreErrInvalid else None)"

record 'd stored =
  st_doc :: 'd
  st_revision :: int

record 'd memory =
  mem_rows :: "(go_id \<times> 'd stored) list"
  mem_max :: int

definition max_int64_value :: int where "max_int64_value = 2 ^ 63 - 1"

section \<open>The common operations\<close>

definition new_memory :: "int \<Rightarrow> error + 'd memory" where
  "new_memory mx = (if mx < 1 \<or> mx > 1000000 then Inl StoreErrInvalid
     else Inr \<lparr>mem_rows = [], mem_max = mx\<rparr>)"

definition mem_get :: "error option \<Rightarrow> go_id \<Rightarrow> 'd memory \<Rightarrow> error + 'd stored" where
  "mem_get cerr i m =
     (case cerr of Some e \<Rightarrow> Inl e | None \<Rightarrow>
       if \<not> id_valid i then Inl StoreErrInvalid
       else case map_of (mem_rows m) i of None \<Rightarrow> Inl StoreErrNotFound | Some r \<Rightarrow> Inr r)"

definition mem_put :: "('d \<Rightarrow> go_id) \<Rightarrow> ('d \<Rightarrow> error option) \<Rightarrow> error option \<Rightarrow> 'd \<Rightarrow> int \<Rightarrow>
    'd memory \<Rightarrow> (error + 'd stored) \<times> 'd memory" where
  "mem_put id_of validate cerr d expected m =
     (case cerr of Some e \<Rightarrow> (Inl e, m) | None \<Rightarrow>
       if validate d \<noteq> None \<or> expected < 0 \<or> expected = max_int64_value
       then (Inl StoreErrInvalid, m)
       else let current = map_of (mem_rows m) (id_of d) in
         if expected > 0 \<and> current = None then (Inl StoreErrNotFound, m)
         else if (case current of Some r \<Rightarrow> st_revision r \<noteq> expected | None \<Rightarrow> False)
         then (Inl StoreErrConflict, m)
         else if current = None \<and> int (length (mem_rows m)) \<ge> mem_max m
         then (Inl StoreErrUnavailable, m)
         else let r = \<lparr>st_doc = d, st_revision = expected + 1\<rparr> in
           (Inr r, m\<lparr>mem_rows := AList.update (id_of d) r (mem_rows m)\<rparr>))"

definition mem_delete :: "error option \<Rightarrow> go_id \<Rightarrow> int \<Rightarrow> 'd memory \<Rightarrow> error option \<times> 'd memory" where
  "mem_delete cerr i expected m =
     (case cerr of Some e \<Rightarrow> (Some e, m) | None \<Rightarrow>
       if \<not> id_valid i \<or> expected < 1 then (Some StoreErrInvalid, m)
       else case map_of (mem_rows m) i of None \<Rightarrow> (Some StoreErrNotFound, m)
         | Some r \<Rightarrow>
             if st_revision r \<noteq> expected then (Some StoreErrConflict, m)
             else (None, m\<lparr>mem_rows := AList.delete i (mem_rows m)\<rparr>))"

definition page_ids :: "page \<Rightarrow> 'd memory \<Rightarrow> go_id list" where
  "page_ids p m = take (nat (pg_limit p)) (sort (filter (\<lambda>i. i > pg_after p) (keys_of (mem_rows m))))"

definition mem_list :: "error option \<Rightarrow> page \<Rightarrow> 'd memory \<Rightarrow> error + 'd stored list" where
  "mem_list cerr p m =
     (case cerr of Some e \<Rightarrow> Inl e | None \<Rightarrow>
       (case page_validate p of Some e \<Rightarrow> Inl e
        | None \<Rightarrow> Inr (map (\<lambda>i. the (map_of (mem_rows m) i)) (page_ids p m))))"

section \<open>Chains, pools, policies and sources\<close>

definition new_chains :: "int \<Rightarrow> error + chain memory" where "new_chains = new_memory"
definition get_chain :: "error option \<Rightarrow> go_id \<Rightarrow> chain memory \<Rightarrow> error + chain stored" where
  "get_chain = mem_get"
definition put_chain :: "error option \<Rightarrow> chain \<Rightarrow> int \<Rightarrow> chain memory \<Rightarrow>
    (error + chain stored) \<times> chain memory" where
  "put_chain = mem_put cn_id chain_validate"
definition delete_chain :: "error option \<Rightarrow> go_id \<Rightarrow> int \<Rightarrow> chain memory \<Rightarrow> error option \<times> chain memory" where
  "delete_chain = mem_delete"
definition list_chains :: "error option \<Rightarrow> page \<Rightarrow> chain memory \<Rightarrow> error + chain stored list" where
  "list_chains = mem_list"

definition new_pools :: "int \<Rightarrow> error + pool memory" where "new_pools = new_memory"
definition get_pool :: "error option \<Rightarrow> go_id \<Rightarrow> pool memory \<Rightarrow> error + pool stored" where
  "get_pool = mem_get"
definition put_pool :: "error option \<Rightarrow> pool \<Rightarrow> int \<Rightarrow> pool memory \<Rightarrow>
    (error + pool stored) \<times> pool memory" where
  "put_pool = mem_put pl_id pool_validate"
definition delete_pool :: "error option \<Rightarrow> go_id \<Rightarrow> int \<Rightarrow> pool memory \<Rightarrow> error option \<times> pool memory" where
  "delete_pool = mem_delete"
definition list_pools :: "error option \<Rightarrow> page \<Rightarrow> pool memory \<Rightarrow> error + pool stored list" where
  "list_pools = mem_list"

definition new_policies :: "int \<Rightarrow> error + policy memory" where "new_policies = new_memory"
definition get_policy :: "error option \<Rightarrow> go_id \<Rightarrow> policy memory \<Rightarrow> error + policy stored" where
  "get_policy = mem_get"
definition put_policy :: "go_lib \<Rightarrow> error option \<Rightarrow> policy \<Rightarrow> int \<Rightarrow> policy memory \<Rightarrow>
    (error + policy stored) \<times> policy memory" where
  "put_policy lib = mem_put p_id (policy_validate lib)"
definition delete_policy :: "error option \<Rightarrow> go_id \<Rightarrow> int \<Rightarrow> policy memory \<Rightarrow>
    error option \<times> policy memory" where
  "delete_policy = mem_delete"
definition list_policies :: "error option \<Rightarrow> page \<Rightarrow> policy memory \<Rightarrow> error + policy stored list" where
  "list_policies = mem_list"

definition new_sources :: "int \<Rightarrow> error + source memory" where "new_sources = new_memory"
definition get_source :: "error option \<Rightarrow> go_id \<Rightarrow> source memory \<Rightarrow> error + source stored" where
  "get_source = mem_get"
definition put_source :: "error option \<Rightarrow> source \<Rightarrow> int \<Rightarrow> source memory \<Rightarrow>
    (error + source stored) \<times> source memory" where
  "put_source = mem_put sr_id source_validate"
definition delete_source :: "error option \<Rightarrow> go_id \<Rightarrow> int \<Rightarrow> source memory \<Rightarrow>
    error option \<times> source memory" where
  "delete_source = mem_delete"
definition list_sources :: "error option \<Rightarrow> page \<Rightarrow> source memory \<Rightarrow> error + source stored list" where
  "list_sources = mem_list"

section \<open>Endpoints and their transactions (endpoints.go)\<close>

record transaction =
  tx_rows :: "(go_id \<times> endpoint stored) list"
  tx_max :: int
  tx_closed :: bool

definition tx_ready :: "error option \<Rightarrow> transaction \<Rightarrow> error option" where
  "tx_ready cerr t = (case cerr of Some e \<Rightarrow> Some e
     | None \<Rightarrow> if tx_closed t then Some StoreErrUnavailable else None)"

definition tx_get :: "error option \<Rightarrow> go_id \<Rightarrow> transaction \<Rightarrow> error + endpoint stored" where
  "tx_get cerr i t =
     (case tx_ready cerr t of Some e \<Rightarrow> Inl e | None \<Rightarrow>
       if \<not> id_valid i then Inl StoreErrInvalid
       else case map_of (tx_rows t) i of None \<Rightarrow> Inl StoreErrNotFound | Some r \<Rightarrow> Inr r)"

definition tx_put :: "go_lib \<Rightarrow> error option \<Rightarrow> endpoint \<Rightarrow> int \<Rightarrow> transaction \<Rightarrow>
    (error + endpoint stored) \<times> transaction" where
  "tx_put lib cerr d expected t =
     (case tx_ready cerr t of Some e \<Rightarrow> (Inl e, t) | None \<Rightarrow>
       if endpoint_validate lib d \<noteq> None \<or> expected < 0 \<or> expected = max_int64_value
       then (Inl StoreErrInvalid, t)
       else let current = map_of (tx_rows t) (ep_id d) in
         if expected > 0 \<and> current = None then (Inl StoreErrNotFound, t)
         else if (case current of Some r \<Rightarrow> st_revision r \<noteq> expected | None \<Rightarrow> False)
         then (Inl StoreErrConflict, t)
         else if current = None \<and> int (length (tx_rows t)) \<ge> tx_max t
         then (Inl StoreErrUnavailable, t)
         else let r = \<lparr>st_doc = d, st_revision = expected + 1\<rparr> in
           (Inr r, t\<lparr>tx_rows := AList.update (ep_id d) r (tx_rows t)\<rparr>))"

definition tx_delete :: "error option \<Rightarrow> go_id \<Rightarrow> int \<Rightarrow> transaction \<Rightarrow> error option \<times> transaction" where
  "tx_delete cerr i expected t =
     (if expected < 1 then (Some StoreErrInvalid, t)
      else case tx_get cerr i t of Inl e \<Rightarrow> (Some e, t)
        | Inr r \<Rightarrow>
            if st_revision r \<noteq> expected then (Some StoreErrConflict, t)
            else (None, t\<lparr>tx_rows := AList.delete i (tx_rows t)\<rparr>))"

definition tx_list :: "error option \<Rightarrow> page \<Rightarrow> transaction \<Rightarrow> error + endpoint stored list" where
  "tx_list cerr p t =
     (case tx_ready cerr t of Some e \<Rightarrow> Inl e | None \<Rightarrow>
       (case page_validate p of Some e \<Rightarrow> Inl e
        | None \<Rightarrow> Inr (map (\<lambda>i. the (map_of (tx_rows t) i))
            (take (nat (pg_limit p)) (sort (filter (\<lambda>i. i > pg_after p) (keys_of (tx_rows t))))))))"

definition open_tx :: "endpoint memory \<Rightarrow> transaction" where
  "open_tx m = \<lparr>tx_rows = mem_rows m, tx_max = mem_max m, tx_closed = False\<rparr>"

definition new_endpoints :: "int \<Rightarrow> error + endpoint memory" where
  "new_endpoints mx = (if mx < 1 \<or> mx > 1000000 then Inl StoreErrInvalid
     else Inr \<lparr>mem_rows = [], mem_max = mx\<rparr>)"

definition endpoints_get :: "error option \<Rightarrow> go_id \<Rightarrow> endpoint memory \<Rightarrow> error + endpoint stored" where
  "endpoints_get cerr i m = tx_get cerr i (open_tx m)"

definition endpoints_put :: "go_lib \<Rightarrow> error option \<Rightarrow> endpoint \<Rightarrow> int \<Rightarrow> endpoint memory \<Rightarrow>
    (error + endpoint stored) \<times> endpoint memory" where
  "endpoints_put lib cerr d expected m =
     (case tx_put lib cerr d expected (open_tx m) of (r, t) \<Rightarrow> (r, m\<lparr>mem_rows := tx_rows t\<rparr>))"

definition endpoints_delete :: "error option \<Rightarrow> go_id \<Rightarrow> int \<Rightarrow> endpoint memory \<Rightarrow>
    error option \<times> endpoint memory" where
  "endpoints_delete cerr i expected m =
     (case tx_delete cerr i expected (open_tx m) of (r, t) \<Rightarrow> (r, m\<lparr>mem_rows := tx_rows t\<rparr>))"

definition endpoints_list :: "error option \<Rightarrow> page \<Rightarrow> endpoint memory \<Rightarrow> error + endpoint stored list" where
  "endpoints_list cerr p m = tx_list cerr p (open_tx m)"

text \<open>The callback of WithinTransaction is a function on the transaction; the two context errors
  are those before and after it.  A nil callback is None.\<close>

definition within_transaction :: "error option \<Rightarrow> error option \<Rightarrow>
    (transaction \<Rightarrow> error option \<times> transaction) option \<Rightarrow> endpoint memory \<Rightarrow>
    error option \<times> endpoint memory" where
  "within_transaction cerr1 cerr2 fn m =
     (case fn of None \<Rightarrow> (Some StoreErrInvalid, m)
      | Some f \<Rightarrow>
        (case cerr1 of Some e \<Rightarrow> (Some e, m)
         | None \<Rightarrow>
           (case f (open_tx m) of
              (Some e, t) \<Rightarrow> (Some e, m)
            | (None, t) \<Rightarrow> (case cerr2 of Some e \<Rightarrow> (Some e, m)
                | None \<Rightarrow> (None, m\<lparr>mem_rows := tx_rows t\<rparr>)))))"

end
