(* ===== verification/Routing_Select.thy ===== *)
theory Routing_Select
  imports Routing_Model
begin

text \<open>What the selectors of pkg/routing promise: membership, optimality, rotation and the exact
  share of every weight.\<close>

section \<open>Strict preferences\<close>

text \<open>Every comparison the code passes to pick compares a key; the contract of such a preference.\<close>

locale preference =
  fixes better :: "candidate \<Rightarrow> candidate \<Rightarrow> bool" and key :: "candidate \<Rightarrow> int"
  assumes better_key: "better a b \<longleftrightarrow> key a < key b"
begin

definition rank_le :: "candidate \<Rightarrow> candidate \<Rightarrow> bool" where
  "rank_le a b = (key a < key b \<or> (key a = key b \<and> ep_id (cd_endpoint a) \<le> ep_id (cd_endpoint b)))"

lemma rank_refl [simp]: "rank_le a a"
  by (simp add: rank_le_def)

lemma rank_trans: "rank_le a b \<Longrightarrow> rank_le b c \<Longrightarrow> rank_le a c"
  by (auto simp: rank_le_def)

lemma step_le: "rank_le (pick_step better a b) a" "rank_le (pick_step better a b) b"
  by (auto simp: pick_step_def rank_le_def better_key not_less)

lemma step_in: "pick_step better a b \<in> {a, b}"
  by (simp add: pick_step_def)

lemma fold_best:
  "foldl (pick_step better) a xs \<in> set (a # xs) \<and>
     (\<forall>x\<in>set (a # xs). rank_le (foldl (pick_step better) a xs) x)"
proof (induction xs arbitrary: a)
  case (Cons b xs)
  let ?s = "pick_step better a b"
  have i: "foldl (pick_step better) ?s xs \<in> set (?s # xs)"
      "\<forall>x\<in>set (?s # xs). rank_le (foldl (pick_step better) ?s xs) x"
    using Cons.IH by blast+
  then have "rank_le (foldl (pick_step better) ?s xs) a" "rank_le (foldl (pick_step better) ?s xs) b"
    using rank_trans step_le [of a b] by (meson list.set_intros(1))+
  then show ?case using i step_in [of a b] by auto
qed simp

lemma pick_best:
  assumes "cs \<noteq> []"
  shows "pick better cs \<in> set cs \<and> (\<forall>c\<in>set cs. rank_le (pick better cs) c)"
  using fold_best [of "hd cs" "tl cs"] assms by (simp add: pick_def)

end

interpretation connections: preference
  "\<lambda>a b. cd_active_connections a < cd_active_connections b" "\<lambda>c. uint (cd_active_connections c)"
  by unfold_locales (simp add: word_less_def)

interpretation traffic: preference "\<lambda>a b. cd_traffic a < cd_traffic b" "\<lambda>c. uint (cd_traffic c)"
  by unfold_locales (simp add: word_less_def)

interpretation latency: preference "\<lambda>a b. cd_latency a < cd_latency b" cd_latency
  by unfold_locales simp

interpretation score: preference
  "\<lambda>a b. cd_health_score a > cd_health_score b" "\<lambda>c. - uint (cd_health_score c)"
  by unfold_locales (simp add: word_less_def)

interpretation cheapest: preference "\<lambda>a b. cost a < cost b" cost
  by unfold_locales simp

text \<open>The key each deterministic strategy minimises.\<close>

definition strategy_key :: "strategy \<Rightarrow> candidate \<Rightarrow> int" where
  "strategy_key s c = (case s of
       LeastConnections \<Rightarrow> uint (cd_active_connections c) | LeastTraffic \<Rightarrow> uint (cd_traffic c)
     | LowestLatency \<Rightarrow> cd_latency c | HighestHealth \<Rightarrow> - uint (cd_health_score c)
     | _ \<Rightarrow> cost c)"

definition comparing :: "strategy \<Rightarrow> bool" where
  "comparing s = (s \<in> set [LeastConnections, LeastTraffic, LowestLatency, HighestHealth, LowestCost,
     CostAware])"

lemma comparing_select:
  assumes "comparing (sl_strategy s)" "el \<noteq> []"
  obtains c where "select_candidate rnd s inp el = (Inr c, s)" "c \<in> set el"
    "\<forall>d\<in>set el. strategy_key (sl_strategy s) c < strategy_key (sl_strategy s) d \<or>
       (strategy_key (sl_strategy s) c = strategy_key (sl_strategy s) d \<and>
        ep_id (cd_endpoint c) \<le> ep_id (cd_endpoint d))"
  using assms(1) that connections.pick_best [OF assms(2)] traffic.pick_best [OF assms(2)]
    latency.pick_best [OF assms(2)] score.pick_best [OF assms(2)] cheapest.pick_best [OF assms(2)]
  by (cases "sl_strategy s")
     (simp_all add: comparing_def select_candidate_def strategy_key_def connections.rank_le_def
        traffic.rank_le_def latency.rank_le_def score.rank_le_def cheapest.rank_le_def)

section \<open>Weights\<close>

definition total_weight :: "candidate list \<Rightarrow> nat" where
  "total_weight cs = sum_list (map (\<lambda>c. unat (weight_of c)) cs)"

lemma weight_pos: "0 < weight_of x"
  by (simp add: weight_of_def Let_def word_neq_0_conv)

lemma weight_sum_exact:
  "unat acc + total_weight cs < 2 ^ 64 \<Longrightarrow>
     \<exists>t. weight_sum acc cs = Some t \<and> unat t = unat acc + total_weight cs"
proof (induction cs arbitrary: acc)
  case (Cons x xs)
  have s: "unat acc + unat (weight_of x) < 2 ^ 64"
    using Cons.prems by (simp add: total_weight_def)
  then have "unat (acc + weight_of x) = unat acc + unat (weight_of x)"
    by (intro unat_add_exact) simp
  moreover have "\<not> - 1 - acc < weight_of x"
    using s word_gt_max_sub [of acc "weight_of x"] by simp
  ultimately show ?case using Cons.IH [of "acc + weight_of x"] Cons.prems
    by (simp add: total_weight_def ac_simps)
qed (simp add: total_weight_def)

lemma walk_weights_share:
  assumes "unat r < total_weight cs"
  shows "\<exists>k < length cs. walk_weights r cs = Some (cs ! k) \<and>
    total_weight (take k cs) \<le> unat r \<and> unat r < total_weight (take (Suc k) cs)"
  using assms
proof (induction cs arbitrary: r)
  case (Cons x xs)
  show ?case
  proof (cases "r < weight_of x")
    case True
    then show ?thesis by (intro exI [of _ 0]) (simp add: total_weight_def word_less_nat_alt)
  next
    case False
    then have u: "unat (r - weight_of x) = unat r - unat (weight_of x)"
        "unat (weight_of x) \<le> unat r"
      by (simp_all add: unat_diff_le word_le_nat_alt not_less)
    then have "unat (r - weight_of x) < total_weight xs"
      using Cons.prems by (simp add: total_weight_def)
    then obtain k where "k < length xs" "walk_weights (r - weight_of x) xs = Some (xs ! k)"
        "total_weight (take k xs) \<le> unat (r - weight_of x)"
        "unat (r - weight_of x) < total_weight (take (Suc k) xs)"
      using Cons.IH by blast
    then show ?thesis using False u
      by (intro exI [of _ "Suc k"]) (auto simp: total_weight_def)
  qed
qed (simp add: total_weight_def)

lemma weighted_in: "cs \<noteq> [] \<Longrightarrow> weighted rnd cs \<in> set cs"
proof -
  have w: "walk_weights r xs = Some x \<Longrightarrow> x \<in> set xs" for r xs x
    by (induction xs arbitrary: r) (auto split: if_splits)
  show "cs \<noteq> [] \<Longrightarrow> ?thesis"
    by (auto simp: weighted_def split: option.splits dest: w)
qed

section \<open>Properties\<close>

lemma unat_mod_length:
  assumes "xs \<noteq> []" "length xs < 2 ^ 64"
  shows "unat ((w :: 64 word) mod of_nat (length xs)) < length xs"
    "unat (w mod of_nat (length xs)) = unat w mod length xs"
  using assms by (simp_all add: unat_mod unat_of_nat)

lemma select_candidate_in:
  assumes "el \<noteq> []" "length el < 2 ^ 64" "select_candidate rnd s inp el = (Inr c, s1)"
  shows "c \<in> set el"
proof (cases "comparing (sl_strategy s)")
  case True
  then show ?thesis using comparing_select [OF True assms(1)] assms(3) by (metis Inr_inject Pair_inject)
next
  case False
  have "0 < length el" using assms(1) by simp
  then show ?thesis
    using assms(3) False weighted_in [OF assms(1)] unat_mod_length [OF assms(1,2)]
    by (cases "sl_strategy s")
       (auto simp: select_candidate_def comparing_def Let_def stable_index_def random_index_def
          split: option.splits)
qed

lemma select_total:
  assumes "length cs < 2 ^ 64" "strategy_valid (sl_strategy s)"
    "\<exists>c\<in>set cs. ep_enabled (cd_endpoint c) \<and> endpoint_validate lib (cd_endpoint c) = None"
  shows "\<exists>c s1. c \<in> set cs \<and> ep_enabled (cd_endpoint c) \<and> endpoint_validate lib (cd_endpoint c) = None \<and>
    select lib None rnd s inp cs = (Inr (ep_id (cd_endpoint c)), s1) \<and> sl_strategy s1 = sl_strategy s"
proof -
  let ?el = "eligible_candidates lib cs"
  have e: "?el \<noteq> []" using assms(3) by (auto simp: eligible_candidates_def filter_empty_conv)
  have l: "length ?el < 2 ^ 64"
    using assms(1) length_filter_le le_less_trans unfolding eligible_candidates_def by blast
  obtain r s1 where r: "select_candidate rnd s inp ?el = (r, s1)" by (metis surj_pair)
  obtain c where c: "r = Inr c" "sl_strategy s1 = sl_strategy s"
    using r assms(2) by (cases "sl_strategy s") (auto simp: select_candidate_def strategy_valid_def Let_def)
  have "c \<in> set ?el" using select_candidate_in [OF e l] r c by blast
  then show ?thesis using e r c by (auto simp: select_def eligible_candidates_def intro!: exI [of _ c])
qed

text \<open>Whatever the strategy, a selected endpoint is one of the candidates, valid and enabled, and a
  selection fails with ErrNoCandidate exactly if there is no such candidate.\<close>

theorem select_sound:
  assumes "length cs < 2 ^ 64" "strategy_valid (sl_strategy s)"
  shows "case select lib None rnd s inp cs of
      (Inr i, s1) \<Rightarrow> \<exists>c\<in>set cs. ep_id (cd_endpoint c) = i \<and> ep_enabled (cd_endpoint c) \<and>
        endpoint_validate lib (cd_endpoint c) = None
    | (Inl e, s1) \<Rightarrow> e = RoutingErrNoCandidate \<and> s1 = s \<and>
        (\<forall>c\<in>set cs. \<not> ep_enabled (cd_endpoint c) \<or> endpoint_validate lib (cd_endpoint c) \<noteq> None)"
proof (cases "eligible_candidates lib cs = []")
  case True
  then show ?thesis by (auto simp: select_def eligible_candidates_def filter_empty_conv)
next
  case False
  then have "\<exists>c\<in>set cs. ep_enabled (cd_endpoint c) \<and> endpoint_validate lib (cd_endpoint c) = None"
    by (auto simp: eligible_candidates_def filter_empty_conv)
  from select_total [OF assms this, of rnd inp] show ?thesis by clarsimp blast
qed

text \<open>A comparing strategy selects a candidate with the best key among the eligible ones, the
  smallest identifier breaking ties, and does not change the selector.\<close>

theorem select_optimal:
  assumes "comparing (sl_strategy s)" "eligible_candidates lib cs \<noteq> []"
  shows "\<exists>c\<in>set (eligible_candidates lib cs).
    select lib None rnd s inp cs = (Inr (ep_id (cd_endpoint c)), s) \<and>
    (\<forall>d\<in>set (eligible_candidates lib cs).
       strategy_key (sl_strategy s) c < strategy_key (sl_strategy s) d \<or>
       (strategy_key (sl_strategy s) c = strategy_key (sl_strategy s) d \<and>
        ep_id (cd_endpoint c) \<le> ep_id (cd_endpoint d)))"
proof -
  obtain c where "select_candidate rnd s inp (eligible_candidates lib cs) = (Inr c, s)"
      "c \<in> set (eligible_candidates lib cs)"
      "\<forall>d\<in>set (eligible_candidates lib cs).
         strategy_key (sl_strategy s) c < strategy_key (sl_strategy s) d \<or>
         (strategy_key (sl_strategy s) c = strategy_key (sl_strategy s) d \<and>
          ep_id (cd_endpoint c) \<le> ep_id (cd_endpoint d))"
    using comparing_select [OF assms] by blast
  then show ?thesis using assms(2) by (auto simp: select_def)
qed

text \<open>With the total weight below 2^64, the candidate at position k is selected for exactly the
  random values whose remainder lies in an interval as long as its weight (one for weight zero).\<close>

theorem weighted_share:
  assumes "cs \<noteq> []" "total_weight cs < 2 ^ 64"
  shows "\<exists>k < length cs. weighted (Some r) cs = cs ! k \<and>
    total_weight (take k cs) \<le> unat r mod total_weight cs \<and>
    unat r mod total_weight cs < total_weight (take k cs) + unat (weight_of (cs ! k))"
proof -
  obtain t where t: "weight_sum 0 cs = Some t" "unat t = total_weight cs"
    using weight_sum_exact [of 0 cs] assms(2) by auto
  have pos: "0 < total_weight cs"
    using assms(1) weight_pos by (cases cs) (simp_all add: total_weight_def word_less_nat_alt)
  have r: "unat (r mod t) = unat r mod total_weight cs" using t(2) by (simp add: unat_mod)
  then obtain k where "k < length cs" "walk_weights (r mod t) cs = Some (cs ! k)"
      "total_weight (take k cs) \<le> unat (r mod t)" "unat (r mod t) < total_weight (take (Suc k) cs)"
    using walk_weights_share [of "r mod t" cs] pos by (metis mod_less_divisor)
  then show ?thesis using t r
    by (auto simp: weighted_def random_index_def take_Suc_conv_app_nth total_weight_def)
qed

fun select_times :: "nat \<Rightarrow> go_lib \<Rightarrow> selection_context \<Rightarrow> candidate list \<Rightarrow> selector \<Rightarrow> (error + go_id) list" where
  "select_times 0 lib inp cs s = []"
| "select_times (Suc n) lib inp cs s = (case select lib None None s inp cs of
     (r, s1) \<Rightarrow> r # select_times n lib inp cs s1)"

lemma round_robin_nth:
  assumes "sl_strategy s = RoundRobin" "eligible_candidates lib cs = el" "el \<noteq> []"
    "unat (sl_counter s) + n < 2 ^ 64" "k < n" "length el < 2 ^ 64"
  shows "select_times n lib inp cs s ! k =
    Inr (ep_id (cd_endpoint (el ! ((unat (sl_counter s) + k) mod length el))))"
  using assms
proof (induction n arbitrary: s k)
  case (Suc n)
  let ?s = "s\<lparr>sl_counter := sl_counter s + 1\<rparr>"
  have e: "select lib None None s inp cs =
      (Inr (ep_id (cd_endpoint (el ! (unat (sl_counter s) mod length el)))), ?s)"
    using Suc.prems unat_mod_length(2) [OF Suc.prems(3,6)]
    by (simp add: select_def select_candidate_def Let_def)
  have u: "unat (sl_counter s + 1) = Suc (unat (sl_counter s))"
    using Suc.prems(4,5) unat_add_exact [of "sl_counter s" 1] by simp
  show ?case
  proof (cases k)
    case (Suc k')
    then show ?thesis using Suc.IH [of ?s k'] Suc.prems e u by simp
  qed (simp add: e)
qed simp

text \<open>Round-robin visits the eligible candidates in order, each once in every round, until its
  64 bit counter wraps.\<close>

theorem round_robin_rotates:
  assumes "sl_strategy s = RoundRobin" "eligible_candidates lib cs \<noteq> []"
    "unat (sl_counter s) + n < 2 ^ 64" "k < n" "length cs < 2 ^ 64"
  shows "select_times n lib inp cs s ! k =
    (let el = eligible_candidates lib cs in
     Inr (ep_id (cd_endpoint (el ! ((unat (sl_counter s) + k) mod length el)))))"
proof -
  have "length (eligible_candidates lib cs) < 2 ^ 64"
    using assms(5) length_filter_le le_less_trans unfolding eligible_candidates_def by blast
  then show ?thesis using round_robin_nth [OF assms(1) refl assms(2-4)] by (simp add: Let_def)
qed

section \<open>Witnesses\<close>

definition plain_lib :: go_lib where
  "plain_lib = \<lparr>regexp_compile = (\<lambda>s. None), parse_addr = (\<lambda>s. None), addr_string = (\<lambda>a. []),
     parse_prefix = (\<lambda>s. None), url_parse = (\<lambda>s. None), url_parse_request_uri = (\<lambda>s. None)\<rparr>"

definition demo_endpoint :: "go_id \<Rightarrow> 32 word \<Rightarrow> endpoint" where
  "demo_endpoint i w = \<lparr>ep_id = i, ep_name = ''proxy'', ep_protocol = ''http'', ep_host = ''proxy.test'',
     ep_port = 8080, ep_credential_ref = [], ep_provider_id = [], ep_source_id = [], ep_tags = [],
     ep_country = [], ep_weight = w, ep_priority = 0, ep_enabled = True, ep_trusted_remote_dns = True,
     ep_rate = None, ep_created_at = 0, ep_updated_at = 0, ep_metadata = []\<rparr>"

definition demo_candidate :: "go_id \<Rightarrow> 32 word \<Rightarrow> duration \<Rightarrow> candidate" where
  "demo_candidate i w l = \<lparr>cd_endpoint = demo_endpoint i w, cd_active_connections = 0,
     cd_health_score = 50, cd_latency = l, cd_traffic = 0\<rparr>"

definition demo_candidates :: "candidate list" where
  "demo_candidates = [demo_candidate ''px1'' 2 30, demo_candidate ''px2'' 0 10]"

definition demo_context :: selection_context where
  "demo_context = \<lparr>sc_client_id = ''alice'', sc_pool_id = ''pool'', sc_session_key = [], sc_host = ''h''\<rparr>"

lemma demo_eligible: "eligible_candidates plain_lib demo_candidates = demo_candidates"
  by code_simp

lemma demo_nonempty: "eligible_candidates plain_lib demo_candidates \<noteq> []"
  unfolding demo_eligible by (simp add: demo_candidates_def)

theorem select_sound_witness:
  "\<exists>i. fst (select plain_lib None None \<lparr>sl_strategy = Sticky, sl_counter = 0\<rparr> demo_context demo_candidates)
      = Inr i \<and> (\<exists>c\<in>set demo_candidates. ep_id (cd_endpoint c) = i)"
proof -
  have l: "length demo_candidates < 2 ^ 64" by (simp add: demo_candidates_def)
  let ?s = "\<lparr>sl_strategy = Sticky, sl_counter = 0\<rparr>"
  have v: "strategy_valid (sl_strategy ?s)" by (simp add: strategy_valid_def)
  have e: "\<exists>c\<in>set demo_candidates. ep_enabled (cd_endpoint c) \<and>
      endpoint_validate plain_lib (cd_endpoint c) = None"
    by code_simp
  show ?thesis using select_sound [OF l v, of plain_lib None demo_context] e
    by (auto split: prod.splits sum.splits)
qed

theorem select_optimal_witness:
  "fst (select plain_lib None None \<lparr>sl_strategy = LowestLatency, sl_counter = 0\<rparr> demo_context demo_candidates)
     = Inr ''px2''"
proof -
  let ?s = "\<lparr>sl_strategy = LowestLatency, sl_counter = 0\<rparr>"
  have "comparing (sl_strategy ?s)" "eligible_candidates plain_lib demo_candidates \<noteq> []"
    by (simp_all add: comparing_def demo_nonempty)
  from select_optimal [OF this, of None demo_context] show ?thesis
    unfolding demo_eligible
    by (auto simp: demo_candidates_def demo_candidate_def demo_endpoint_def strategy_key_def)
qed

theorem weighted_share_witness:
  "weighted (Some 4) demo_candidates = demo_candidate ''px1'' 2 30"
proof -
  have w: "demo_candidates \<noteq> []" "total_weight demo_candidates = 3"
    by (simp_all add: demo_candidates_def demo_candidate_def demo_endpoint_def total_weight_def weight_of_def)
  obtain k where k: "k < length demo_candidates" "weighted (Some 4) demo_candidates = demo_candidates ! k"
      "total_weight (take k demo_candidates) \<le> unat (4 :: 64 word) mod total_weight demo_candidates"
    using weighted_share [OF w(1), of 4] w(2) by auto
  then have "k = 0 \<or> k = 1" by (auto simp: demo_candidates_def)
  moreover have "k \<noteq> 1" using k(3) w(2)
    by (auto simp: demo_candidates_def demo_candidate_def demo_endpoint_def total_weight_def weight_of_def)
  ultimately show ?thesis using k(2) by (simp add: demo_candidates_def)
qed

theorem round_robin_rotates_witness:
  "select_times 3 plain_lib demo_context demo_candidates \<lparr>sl_strategy = RoundRobin, sl_counter = 1\<rparr> ! 2
     = Inr ''px2''"
proof -
  let ?s = "\<lparr>sl_strategy = RoundRobin, sl_counter = 1\<rparr>"
  have "sl_strategy ?s = RoundRobin" "eligible_candidates plain_lib demo_candidates \<noteq> []"
    "unat (sl_counter ?s) + 3 < 2 ^ 64" "(2::nat) < 3" "length demo_candidates < 2 ^ 64"
    by (simp_all add: demo_nonempty) (simp add: demo_candidates_def)
  from round_robin_rotates [OF this, of demo_context]
  have "select_times 3 plain_lib demo_context demo_candidates ?s ! 2 =
      Inr (ep_id (cd_endpoint (demo_candidates ! ((unat (sl_counter ?s) + 2) mod length demo_candidates))))"
    unfolding demo_eligible Let_def .
  moreover have "ep_id (cd_endpoint (demo_candidates ! ((unat (sl_counter ?s) + 2) mod length demo_candidates)))
      = ''px2''"
    by code_simp
  ultimately show ?thesis by simp
qed

end
