(* ===== verification/Store_Laws.thy ===== *)
theory Store_Laws
  imports Memory_Store Routing_Select
begin

text \<open>The contract of a revisioned repository and what a client may conclude from it; the
  repositories of internal/storage/memory keep it.\<close>

section \<open>The contract\<close>

datatype 'd store_op = SPut "error option" 'd int | SRemove "error option" go_id int

fun store_step :: "(error option \<Rightarrow> 'd \<Rightarrow> int \<Rightarrow> 's \<Rightarrow> (error + 'd stored) \<times> 's) \<Rightarrow>
    (error option \<Rightarrow> go_id \<Rightarrow> int \<Rightarrow> 's \<Rightarrow> error option \<times> 's) \<Rightarrow> 'd store_op \<Rightarrow> 's \<Rightarrow> 's" where
  "store_step put rm (SPut ce d e) s = snd (put ce d e s)"
| "store_step put rm (SRemove ce i e) s = snd (rm ce i e s)"

fun removes :: "go_id \<Rightarrow> 'd store_op \<Rightarrow> bool" where
  "removes i (SRemove ce j e) = (i = j)"
| "removes i (SPut ce d e) = False"

locale revisioned_store =
  fixes put :: "error option \<Rightarrow> 'd \<Rightarrow> int \<Rightarrow> 's \<Rightarrow> (error + 'd stored) \<times> 's"
    and rm :: "error option \<Rightarrow> go_id \<Rightarrow> int \<Rightarrow> 's \<Rightarrow> error option \<times> 's"
    and rows :: "'s \<Rightarrow> go_id \<Rightarrow> 'd stored option"
    and id_of :: "'d \<Rightarrow> go_id"
  assumes put_ok: "put ce d e s = (Inr r, s') \<Longrightarrow> r = \<lparr>st_doc = d, st_revision = e + 1\<rparr> \<and>
      rows s' = (rows s)(id_of d \<mapsto> r) \<and> 0 \<le> e \<and>
      (case rows s (id_of d) of None \<Rightarrow> e = 0 | Some q \<Rightarrow> st_revision q = e)"
    and put_err: "put ce d e s = (Inl x, s') \<Longrightarrow> s' = s"
    and rm_ok: "rm ce i e s = (None, s') \<Longrightarrow> rows s' = (rows s)(i := None) \<and>
      (\<exists>q. rows s i = Some q \<and> st_revision q = e)"
    and rm_err: "rm ce i e s = (Some x, s') \<Longrightarrow> s' = s"
begin

lemma step_grows:
  assumes "rows s i = Some q" "\<not> removes i opr"
  shows "\<exists>q'. rows (store_step put rm opr s) i = Some q' \<and>
    (q' = q \<or> st_revision q < st_revision q')"
proof (cases opr)
  case (SPut ce d e)
  obtain x s' where p: "put ce d e s = (x, s')" by (metis surj_pair)
  show ?thesis
  proof (cases x)
    case (Inl y)
    then show ?thesis using p SPut assms put_err [of ce d e s] by auto
  next
    case (Inr r)
    note o = put_ok [OF p [unfolded Inr]]
    show ?thesis using o p SPut assms by (cases "id_of d = i") auto
  qed
next
  case (SRemove ce j e)
  obtain x s' where p: "rm ce j e s = (x, s')" by (metis surj_pair)
  show ?thesis using p SRemove assms rm_ok [of ce j e s s'] rm_err [of ce j e s _ s']
    by (cases x) auto
qed

lemma run_grows:
  "rows s i = Some q \<Longrightarrow> \<forall>opr\<in>set ops. \<not> removes i opr \<Longrightarrow>
     \<exists>q'. rows (fold (store_step put rm) ops s) i = Some q' \<and> (q' = q \<or> st_revision q < st_revision q')"
proof (induction ops arbitrary: s q)
  case (Cons opr ops)
  obtain q1 where q1: "rows (store_step put rm opr s) i = Some q1"
      "q1 = q \<or> st_revision q < st_revision q1"
    using step_grows [OF Cons.prems(1)] Cons.prems(2) by auto
  obtain q' where "rows (fold (store_step put rm) ops (store_step put rm opr s)) i = Some q'"
      "q' = q1 \<or> st_revision q1 < st_revision q'"
    using Cons.IH [OF q1(1)] Cons.prems(2) by auto
  then show ?case using q1(2) by (auto intro: less_trans)
qed simp

lemma no_lost_update:
  assumes "put ce d e s = (Inr r, s1)" "\<forall>opr\<in>set ops. \<not> removes (id_of d) opr" "id_of d' = id_of d"
  shows "\<exists>x. put ce' d' e (fold (store_step put rm) ops s1) =
    (Inl x, fold (store_step put rm) ops s1)"
proof -
  let ?s = "fold (store_step put rm) ops s1"
  have "rows s1 (id_of d) = Some r" "st_revision r = e + 1" using put_ok [OF assms(1)] by auto
  then obtain q where q: "rows ?s (id_of d) = Some q" "e < st_revision q"
    using run_grows [OF _ assms(2)] by force
  obtain x s' where p: "put ce' d' e ?s = (x, s')" by (metis surj_pair)
  show ?thesis
  proof (cases x)
    case (Inl y)
    then show ?thesis using p put_err by blast
  next
    case (Inr r')
    then show ?thesis using put_ok [OF p [unfolded Inr]] q assms(3) by simp
  qed
qed

end

interpretation memory: revisioned_store "mem_put id_of validate" mem_delete
  "\<lambda>m. map_of (mem_rows m)" id_of for id_of validate
  by unfold_locales
     (auto simp: mem_put_def mem_delete_def Let_def map_simps fun_eq_iff split: option.splits if_splits)

lemma endpoints_put_eq: "endpoints_put lib = mem_put ep_id (endpoint_validate lib)"
  by (auto simp: endpoints_put_def mem_put_def tx_put_def tx_ready_def open_tx_def Let_def fun_eq_iff
      split: option.splits prod.splits)

interpretation endpoints: revisioned_store "endpoints_put lib" endpoints_delete
  "\<lambda>m. map_of (mem_rows m)" ep_id for lib
  by unfold_locales
     (auto simp: endpoints_put_eq memory.put_ok endpoints_delete_def tx_delete_def tx_get_def tx_ready_def
        open_tx_def map_simps fun_eq_iff dest: memory.put_err split: option.splits if_splits)

section \<open>The invariant of a repository\<close>

definition memory_ok :: "('d \<Rightarrow> go_id) \<Rightarrow> ('d \<Rightarrow> error option) \<Rightarrow> 'd memory \<Rightarrow> bool" where
  "memory_ok id_of validate m = (distinct (keys_of (mem_rows m)) \<and>
     int (length (mem_rows m)) \<le> mem_max m \<and>
     (\<forall>(k, r)\<in>set (mem_rows m). id_of (st_doc r) = k \<and> validate (st_doc r) = None \<and>
        1 \<le> st_revision r \<and> st_revision r \<le> max_int64_value))"

lemma new_memory_ok: "new_memory mx = Inr m \<Longrightarrow> memory_ok id_of validate m"
  by (auto simp: new_memory_def memory_ok_def split: if_splits)

lemma mem_put_ok:
  assumes "memory_ok id_of validate m" "expected \<le> max_int64_value"
  shows "memory_ok id_of validate (snd (mem_put id_of validate ce d expected m))"
proof -
  have len: "int (length (AList.update (id_of d) r (mem_rows m))) \<le> mem_max m"
    if "map_of (mem_rows m) (id_of d) = None \<Longrightarrow> int (length (mem_rows m)) < mem_max m" for r
    using that assms(1) length_update_new [of "id_of d" "mem_rows m" r]
      length_update_old [of "id_of d" "mem_rows m" r] map_of_None_iff [of "mem_rows m" "id_of d"]
    by (cases "id_of d \<in> fst ` set (mem_rows m)") (auto simp: memory_ok_def)
  have upd: "memory_ok id_of validate
      (m\<lparr>mem_rows := AList.update (id_of d) \<lparr>st_doc = d, st_revision = expected + 1\<rparr> (mem_rows m)\<rparr>)"
    if "validate d = None" "0 \<le> expected" "expected \<noteq> max_int64_value"
      "map_of (mem_rows m) (id_of d) = None \<Longrightarrow> int (length (mem_rows m)) < mem_max m"
    using that assms len [OF that(4)]
    by (auto simp: memory_ok_def set_update_distinct distinct_update)
  show ?thesis using assms(1) upd
    by (auto simp: mem_put_def Let_def not_le split: option.splits)
qed

lemma mem_delete_ok: "memory_ok id_of validate m \<Longrightarrow>
    memory_ok id_of validate (snd (mem_delete ce i expected m))"
  using length_delete_le [of i "mem_rows m"]
  by (auto simp: mem_delete_def memory_ok_def set_delete distinct_delete split: option.splits)

section \<open>Properties\<close>

abbreviation memory_run :: "('d \<Rightarrow> go_id) \<Rightarrow> ('d \<Rightarrow> error option) \<Rightarrow> 'd store_op list \<Rightarrow> 'd memory \<Rightarrow> 'd memory" where
  "memory_run id_of validate ops m \<equiv> fold (store_step (mem_put id_of validate) mem_delete) ops m"

fun int64_op :: "'d store_op \<Rightarrow> bool" where
  "int64_op (SPut ce d e) = (e \<le> max_int64_value)"
| "int64_op (SRemove ce i e) = (e \<le> max_int64_value)"

lemma memory_run_ok:
  "memory_ok id_of validate m \<Longrightarrow> \<forall>opr\<in>set ops. int64_op opr \<Longrightarrow>
     memory_ok id_of validate (memory_run id_of validate ops m)"
proof (induction ops arbitrary: m)
  case (Cons opr ops)
  have "memory_ok id_of validate (store_step (mem_put id_of validate) mem_delete opr m)"
    using Cons.prems mem_put_ok mem_delete_ok by (cases opr) auto
  then show ?case using Cons.IH Cons.prems(2) by simp
qed simp

text \<open>In every state a repository reaches, its documents are valid, each stands under its own
  identifier once, the revisions are int64 values from 1 on and the capacity is respected.\<close>

theorem repository_invariant:
  assumes "new_memory mx = Inr m0" "\<forall>opr\<in>set ops. int64_op opr"
  shows "let m = memory_run id_of validate ops m0 in
    distinct (keys_of (mem_rows m)) \<and> int (length (mem_rows m)) \<le> mem_max m \<and>
    list_all (\<lambda>(k, r). id_of (st_doc r) = k \<and> validate (st_doc r) = None \<and>
       1 \<le> st_revision r \<and> st_revision r \<le> max_int64_value) (mem_rows m)"
  using memory_run_ok [OF new_memory_ok [OF assms(1)] assms(2), of id_of validate]
  by (simp add: Let_def memory_ok_def list_all_iff)

text \<open>After a successful update, and as long as nobody deletes the document, no other update that
  expects the same revision succeeds, whatever operations come in between; this holds for pools,
  chains, policies and sources, and for endpoints.\<close>

theorem repository_no_lost_update:
  assumes "mem_put id_of validate ce d e m = (Inr r, m1)"
    "\<forall>opr\<in>set ops. \<not> removes (id_of d) opr" "id_of d' = id_of d"
    "endpoints_put lib ce ep e n = (Inr r', n1)"
    "\<forall>opr\<in>set eops. \<not> removes (ep_id ep) opr" "ep_id ep' = ep_id ep"
  shows "(\<exists>x. mem_put id_of validate ce' d' e (memory_run id_of validate ops m1) =
      (Inl x, memory_run id_of validate ops m1)) \<and>
    (\<exists>x. endpoints_put lib ce' ep' e (fold (store_step (endpoints_put lib) endpoints_delete) eops n1) =
      (Inl x, fold (store_step (endpoints_put lib) endpoints_delete) eops n1))"
  using memory.no_lost_update [OF assms(1-3)] endpoints.no_lost_update [OF assms(4-6)] by blast

subsection \<open>Pages\<close>

text \<open>A client that lists page after page, each after the last identifier it has seen.\<close>

fun walk_pages :: "nat \<Rightarrow> ('d \<Rightarrow> go_id) \<Rightarrow> int \<Rightarrow> go_id \<Rightarrow> 'd memory \<Rightarrow> 'd stored list option" where
  "walk_pages 0 id_of limit after m = None"
| "walk_pages (Suc n) id_of limit after m =
     (case mem_list None \<lparr>pg_after = after, pg_limit = limit\<rparr> m of
        Inl e \<Rightarrow> None
      | Inr rs \<Rightarrow> if rs = [] then Some []
          else map_option (append rs) (walk_pages n id_of limit (id_of (st_doc (last rs))) m))"

lemma filter_after_last:
  assumes "sorted_wrt (<) (xs :: go_id list)" "0 < n" "xs \<noteq> []"
  shows "filter (\<lambda>i. i > last (take n xs)) xs = drop n xs"
proof -
  have "take n xs \<noteq> []" using assms by simp
  then have l: "last (take n xs) \<in> set (take n xs)" by (rule last_in_set)
  have s: "sorted_wrt (<) (take n xs @ drop n xs)" using assms(1) by simp
  then have d: "\<forall>y\<in>set (drop n xs). last (take n xs) < y"
    using l by (simp only: sorted_wrt_append) blast
  have "\<not> last (take n xs) < y" if "y \<in> set (take n xs)" for y
  proof -
    have "sorted_wrt (<) (take n xs)" using s by (simp add: sorted_wrt_append)
    then have "y \<le> last (take n xs)" if "y \<in> set (take n xs)" for y
      using that strict_sorted_imp_sorted
      by (metis append_butlast_last_id empty_iff in_set_conv_nth last_conv_nth length_greater_0_conv
          less_imp_diff_less list.set(1) nth_take order_refl sorted_iff_nth_mono diff_less
          less_numeral_extra(1) Suc_pred' less_Suc_eq_le \<open>take n xs \<noteq> []\<close>)
    then show ?thesis using that by (simp add: not_less)
  qed
  then have t: "filter (\<lambda>i. i > last (take n xs)) (take n xs) = []"
    by (simp add: filter_empty_conv)
  have "filter (\<lambda>i. i > last (take n xs)) (take n xs @ drop n xs) = drop n xs"
    using t d by (simp only: filter_append) simp
  then show ?thesis by simp
qed

definition sorted_keys :: "'d memory \<Rightarrow> go_id list" where
  "sorted_keys m = sort (keys_of (mem_rows m))"

lemma page_ids_filter:
  "page_ids p m = take (nat (pg_limit p)) (filter (\<lambda>i. i > pg_after p) (sorted_keys m))"
  by (simp add: page_ids_def sorted_keys_def filter_sort)

definition row_of :: "'d memory \<Rightarrow> go_id \<Rightarrow> 'd stored" where
  "row_of m i = the (map_of (mem_rows m) i)"

lemma memory_okD:
  assumes "memory_ok id_of validate m" "i \<in> set (keys_of (mem_rows m))"
  shows "id_of (st_doc (row_of m i)) = i" "validate (st_doc (row_of m i)) = None"
proof -
  obtain r where r: "(i, r) \<in> set (mem_rows m)" using assms(2) by auto
  then have "map_of (mem_rows m) i = Some r" using assms(1) by (simp add: memory_ok_def)
  then show "id_of (st_doc (row_of m i)) = i" "validate (st_doc (row_of m i)) = None"
    using r assms(1) by (auto simp: row_of_def memory_ok_def)
qed

lemma walk_from:
  assumes "memory_ok id_of validate m" "1 \<le> limit" "limit \<le> 1000"
    "\<And>d. validate d = None \<Longrightarrow> id_valid (id_of d)" "after = [] \<or> id_valid after"
    "length (filter (\<lambda>i. i > after) (sorted_keys m)) < n"
  shows "walk_pages n id_of limit after m =
    Some (map (row_of m) (filter (\<lambda>i. i > after) (sorted_keys m)))"
  using assms(5,6)
proof (induction n arbitrary: after)
  case (Suc n)
  let ?ks = "filter (\<lambda>i. i > after) (sorted_keys m)"
  have ks: "sorted_wrt (<) ?ks" "set ?ks \<subseteq> set (keys_of (mem_rows m))"
    using assms(1) sorted_filter [of "\<lambda>x. x" "sorted_keys m" "\<lambda>i. i > after"]
    by (auto simp: sorted_keys_def memory_ok_def strict_sorted_iff)
  have ml: "mem_list None \<lparr>pg_after = after, pg_limit = limit\<rparr> m =
      Inr (map (row_of m) (take (nat limit) ?ks))"
    using assms(2,3) Suc.prems(1)
    by (auto simp: mem_list_def page_validate_def page_ids_filter row_of_def)
  show ?case
  proof (cases "?ks = []")
    case True
    then show ?thesis using ml by simp
  next
    case False
    let ?l = "last (take (nat limit) ?ks)"
    have ne: "take (nat limit) ?ks \<noteq> []" using False assms(2) by simp
    then have lin: "?l \<in> set ?ks" by (meson in_set_takeD last_in_set)
    then have lk: "?l \<in> set (keys_of (mem_rows m))" "after < ?l" using ks(2) by auto
    have lv: "id_valid ?l" using memory_okD [OF assms(1) lk(1)] assms(4) by metis
    have f: "filter (\<lambda>i. i > ?l) (sorted_keys m) = drop (nat limit) ?ks"
    proof -
      have "filter (\<lambda>i. i > ?l) (sorted_keys m) = filter (\<lambda>i. i > ?l) ?ks"
        using lk(2) by (simp add: conj_commute) (metis (no_types, lifting) less_trans)
      then show ?thesis using filter_after_last [OF ks(1) _ False, of "nat limit"] assms(2) by simp
    qed
    have "length (drop (nat limit) ?ks) < n"
      using Suc.prems(2) False assms(2) by (cases ?ks) auto
    then have "walk_pages n id_of limit ?l m = Some (map (row_of m) (drop (nat limit) ?ks))"
      using Suc.IH [of ?l] lv f by simp
    moreover have "id_of (st_doc (last (map (row_of m) (take (nat limit) ?ks)))) = ?l"
      using ne memory_okD(1) [OF assms(1) lk(1)] by (simp add: last_map)
    ultimately show ?thesis using ml ne
      by (simp flip: map_append)
  qed
qed simp

text \<open>Listing page after page ends and yields every document exactly once, in the order of the
  identifiers, for every page size the code accepts.\<close>

theorem pages_enumerate:
  assumes "new_memory mx = Inr m0" "\<forall>opr\<in>set ops. int64_op opr" "m = memory_run id_of validate ops m0"
    "\<And>d. validate d = None \<Longrightarrow> id_valid (id_of d)" "1 \<le> limit" "limit \<le> 1000"
    "length (mem_rows m) < n"
  shows "\<exists>rs. walk_pages n id_of limit [] m = Some rs \<and>
    map (\<lambda>r. id_of (st_doc r)) rs = sort (keys_of (mem_rows m)) \<and>
    mset rs = mset (map snd (mem_rows m))"
proof -
  have ok: "memory_ok id_of validate m"
    using memory_run_ok [OF new_memory_ok [OF assms(1)] assms(2)] assms(3) by simp
  have pos: "filter (\<lambda>i. i > []) (sorted_keys m) = sorted_keys m"
    using memory_okD [OF ok] assms(4)
    by (auto simp: sorted_keys_def filter_id_conv) (metis Nil_less_Cons id_valid_empty image_eqI list.exhaust snd_conv fst_conv)
  have w: "walk_pages n id_of limit [] m = Some (map (row_of m) (sorted_keys m))"
    using walk_from [OF ok assms(5,6,4), of "[]" n] pos assms(7) by (simp add: sorted_keys_def)
  have "map (\<lambda>r. id_of (st_doc r)) (map (row_of m) (sorted_keys m)) = map (\<lambda>k. k) (sorted_keys m)"
    unfolding map_map by (intro map_cong refl) (simp add: memory_okD [OF ok] sorted_keys_def)
  moreover have "mset (map (row_of m) (sorted_keys m)) = mset (map snd (mem_rows m))"
  proof -
    have "map (row_of m) (keys_of (mem_rows m)) = map snd (mem_rows m)"
      using ok by (auto simp: row_of_def memory_ok_def)
    then show ?thesis by (metis mset_map mset_sort sorted_keys_def)
  qed
  ultimately show ?thesis using w by (auto simp: sorted_keys_def)
qed

subsection \<open>Transactions\<close>

text \<open>A callback that performs operations in order and returns the first error.\<close>

fun tx_batch :: "go_lib \<Rightarrow> endpoint store_op list \<Rightarrow> transaction \<Rightarrow> error option \<times> transaction" where
  "tx_batch lib [] t = (None, t)"
| "tx_batch lib (SPut ce d e # ops) t = (case tx_put lib ce d e t of
     (Inl x, t1) \<Rightarrow> (Some x, t1) | (Inr r, t1) \<Rightarrow> tx_batch lib ops t1)"
| "tx_batch lib (SRemove ce i e # ops) t = (case tx_delete ce i e t of
     (Some x, t1) \<Rightarrow> (Some x, t1) | (None, t1) \<Rightarrow> tx_batch lib ops t1)"

lemma open_tx_state: "t = open_tx m \<Longrightarrow> tx_max t' = tx_max t \<Longrightarrow> \<not> tx_closed t' \<Longrightarrow>
    t' = open_tx (m\<lparr>mem_rows := tx_rows t'\<rparr>)"
  by (cases t') (simp add: open_tx_def)

lemma tx_put_keeps: "tx_put lib ce d e t = (x, t') \<Longrightarrow> tx_max t' = tx_max t \<and> tx_closed t' = tx_closed t"
  by (auto simp: tx_put_def Let_def split: option.splits if_splits)

lemma tx_delete_keeps: "tx_delete ce i e t = (x, t') \<Longrightarrow> tx_max t' = tx_max t \<and> tx_closed t' = tx_closed t"
  by (auto simp: tx_delete_def split: sum.splits if_splits)

lemma batch_applies:
  "tx_batch lib ops (open_tx m) = (None, t) \<Longrightarrow>
     t = open_tx (fold (store_step (endpoints_put lib) endpoints_delete) ops m)"
proof (induction ops arbitrary: m)
  case (Cons opr ops)
  show ?case
  proof (cases opr)
    case (SPut ce d e)
    obtain x t1 where x: "tx_put lib ce d e (open_tx m) = (x, t1)" by (metis surj_pair)
    then have t1: "t1 = open_tx (m\<lparr>mem_rows := tx_rows t1\<rparr>)"
      using tx_put_keeps [OF x] by (intro open_tx_state [OF refl]) (simp_all add: open_tx_def)
    have "snd (endpoints_put lib ce d e m) = m\<lparr>mem_rows := tx_rows t1\<rparr>"
      using x by (simp add: endpoints_put_def)
    then show ?thesis using Cons.prems Cons.IH [of "m\<lparr>mem_rows := tx_rows t1\<rparr>"] SPut x t1
      by (cases x) auto
  next
    case (SRemove ce i e)
    obtain x t1 where x: "tx_delete ce i e (open_tx m) = (x, t1)" by (metis surj_pair)
    then have t1: "t1 = open_tx (m\<lparr>mem_rows := tx_rows t1\<rparr>)"
      using tx_delete_keeps [OF x] by (intro open_tx_state [OF refl]) (simp_all add: open_tx_def)
    have "snd (endpoints_delete ce i e m) = m\<lparr>mem_rows := tx_rows t1\<rparr>"
      using x by (simp add: endpoints_delete_def)
    then show ?thesis using Cons.prems Cons.IH [of "m\<lparr>mem_rows := tx_rows t1\<rparr>"] SRemove x t1
      by (cases x) auto
  qed
qed simp

text \<open>A transaction that performs operations one after the other and stops at the first error
  commits exactly the state those operations reach without a transaction, or nothing at all.\<close>

theorem transaction_all_or_nothing:
  "case within_transaction None ce (Some (tx_batch lib ops)) m of
     (None, m') \<Rightarrow> m' = fold (store_step (endpoints_put lib) endpoints_delete) ops m
   | (Some e, m') \<Rightarrow> m' = m"
proof -
  obtain r t where b: "tx_batch lib ops (open_tx m) = (r, t)" by (metis surj_pair)
  have k: "mem_max (fold (store_step (endpoints_put lib) endpoints_delete) ops m) = mem_max m"
    by (induction ops arbitrary: m; simp; rename_tac a ops m; case_tac a;
        simp add: endpoints_put_def endpoints_delete_def split: prod.split)
  show ?thesis
  proof (cases r)
    case None
    then have "t = open_tx (fold (store_step (endpoints_put lib) endpoints_delete) ops m)"
      using batch_applies b by blast
    then have "m\<lparr>mem_rows := tx_rows t\<rparr> = fold (store_step (endpoints_put lib) endpoints_delete) ops m"
      using k by (cases "fold (store_step (endpoints_put lib) endpoints_delete) ops m")
        (simp add: open_tx_def)
    then show ?thesis using b None by (simp add: within_transaction_def split: option.splits)
  qed (simp add: within_transaction_def b)
qed

section \<open>A deleted and recreated document\<close>

definition pool_named :: "string \<Rightarrow> pool" where
  "pool_named n = \<lparr>pl_id = ''main'', pl_name = n, pl_strategy = RoundRobin, pl_endpoint_ids = [''px1''],
     pl_fallback_pool_ids = [], pl_required_tags = [], pl_country = [], pl_min_health_score = 0,
     pl_max_latency = 0, pl_session_policy = \<lparr>sp_strategy = [], sp_ttl = 0, sp_idle_ttl = 0,
       sp_max_requests = 0, sp_max_bytes = 0\<rparr>, pl_enabled = True\<rparr>"

definition no_pools :: "pool memory" where
  "no_pools = \<lparr>mem_rows = [], mem_max = 10\<rparr>"

definition pool_created :: "pool memory" where
  "pool_created = snd (put_pool None (pool_named ''first'') 0 no_pools)"

definition pool_recreated :: "pool memory" where
  "pool_recreated = snd (put_pool None (pool_named ''second'') 0
     (snd (delete_pool None ''main'' 1 pool_created)))"

text \<open>Revisions start at one again after a deletion: an edit made from the first version of a pool,
  with the revision read then, overwrites the newer pool created under the same identifier.\<close>

theorem stale_edit_after_recreation:
  "get_pool None ''main'' pool_created = Inr \<lparr>st_doc = pool_named ''first'', st_revision = 1\<rparr> \<and>
   get_pool None ''main'' pool_recreated = Inr \<lparr>st_doc = pool_named ''second'', st_revision = 1\<rparr> \<and>
   (let m = snd (put_pool None (pool_named ''stale edit'') 1 pool_recreated) in
    get_pool None ''main'' m = Inr \<lparr>st_doc = pool_named ''stale edit'', st_revision = 2\<rparr>)"
  by code_simp

section \<open>Witnesses\<close>

lemma no_pools_new: "new_memory 10 = Inr no_pools"
  by (simp add: new_memory_def no_pools_def)

abbreviation demo_ops :: "pool store_op list" where
  "demo_ops \<equiv> [SPut None (pool_named ''first'') 0]"

lemma demo_ops_int64: "\<forall>opr\<in>set demo_ops. int64_op opr"
  by (simp add: max_int64_value_def)

lemma demo_ops_run: "memory_run pl_id pool_validate demo_ops no_pools = pool_created"
  by (simp add: pool_created_def put_pool_def)

lemma pool_id_valid: "pool_validate p = None \<Longrightarrow> id_valid (pl_id p)"
  by (simp add: pool_validate_def split: if_splits)

theorem repository_invariant_witness:
  "distinct (keys_of (mem_rows pool_created)) \<and> int (length (mem_rows pool_created)) \<le> 10"
  using repository_invariant [OF no_pools_new demo_ops_int64, of pl_id pool_validate]
  unfolding demo_ops_run Let_def
  by (simp add: pool_created_def no_pools_def put_pool_def mem_put_def Let_def split: if_splits option.splits)

definition no_endpoints :: "endpoint memory" where
  "no_endpoints = \<lparr>mem_rows = [], mem_max = 10\<rparr>"

theorem repository_no_lost_update_witness:
  "(\<exists>x. fst (put_pool None (pool_named ''late'') 0 pool_created) = Inl x) \<and>
   (\<exists>x. fst (endpoints_put plain_lib None (demo_endpoint ''px1'' 9) 0
      (snd (endpoints_put plain_lib None (demo_endpoint ''px1'' 1) 0 no_endpoints))) = Inl x)"
proof -
  have p: "mem_put pl_id pool_validate None (pool_named ''first'') 0 no_pools =
      (Inr \<lparr>st_doc = pool_named ''first'', st_revision = 1\<rparr>, pool_created)"
    by code_simp
  have e: "endpoints_put plain_lib None (demo_endpoint ''px1'' 1) 0 no_endpoints =
      (Inr \<lparr>st_doc = demo_endpoint ''px1'' 1, st_revision = 1\<rparr>,
       \<lparr>mem_rows = [(''px1'', \<lparr>st_doc = demo_endpoint ''px1'' 1, st_revision = 1\<rparr>)], mem_max = 10\<rparr>)"
    by code_simp
  have i: "pl_id (pool_named ''late'') = pl_id (pool_named ''first'')"
      "ep_id (demo_endpoint ''px1'' 9) = ep_id (demo_endpoint ''px1'' 1)"
    by (simp_all add: pool_named_def demo_endpoint_def)
  note t = repository_no_lost_update [where ops = "[]" and eops = "[]" and ce' = None, OF p _ i(1) e _ i(2)]
  have "\<exists>x. fst (put_pool None (pool_named ''late'') 0 pool_created) = Inl x"
    unfolding put_pool_def using t by force
  moreover have "\<exists>x. fst (endpoints_put plain_lib None (demo_endpoint ''px1'' 9) 0
      (snd (endpoints_put plain_lib None (demo_endpoint ''px1'' 1) 0 no_endpoints))) = Inl x"
    unfolding e using t by force
  ultimately show ?thesis ..
qed

theorem pages_enumerate_witness:
  "\<exists>rs. walk_pages 2 pl_id 1 [] pool_created = Some rs \<and> map (\<lambda>r. pl_id (st_doc r)) rs = [''main'']"
proof -
  have k: "keys_of (mem_rows pool_created) = [''main'']" by code_simp
  show ?thesis
    using pages_enumerate [OF no_pools_new demo_ops_int64 demo_ops_run [symmetric] pool_id_valid, of 1 2] k
    by fastforce
qed

end
