(* ===== verification/Sqlite_Inventory.thy ===== *)
theory Sqlite_Inventory
  imports Store_Laws
begin

text \<open>internal/storage/sqlite/{endpoints,pools,chains,policies,sources}.go and the transactions of
  sqlite.go: the durable repositories.  A table is the list of its rows (id, document, revision)
  with the id as primary key; encoding/json is a codec argument; a fault of the n-th call to the
  driver is an argument, and a call that faults changes nothing.\<close>

section \<open>Tables and statements\<close>

type_synonym sql_table = "(go_id \<times> string \<times> int) list"

type_synonym sql_faults = "nat \<Rightarrow> error option"

record 'd codec =
  marshal :: "'d \<Rightarrow> string option"
  unmarshal :: "string \<Rightarrow> 'd option"

definition safe_error :: "error option \<Rightarrow> error \<Rightarrow> error" where
  "safe_error cerr e = (case cerr of Some c \<Rightarrow> c
     | None \<Rightarrow> if e = StoreErrSchema then StoreErrSchema else StoreErrUnavailable)"

text \<open>INSERT ... ON CONFLICT(id) DO NOTHING, UPDATE ... WHERE id=? AND revision=?,
  DELETE ... WHERE id=? AND revision=?: the number of rows and the table.\<close>

definition sql_insert :: "go_id \<Rightarrow> string \<Rightarrow> sql_table \<Rightarrow> nat \<times> sql_table" where
  "sql_insert i doc t = (case map_of t i of None \<Rightarrow> (1, t @ [(i, doc, 1)]) | Some r \<Rightarrow> (0, t))"

definition sql_update :: "go_id \<Rightarrow> string \<Rightarrow> int \<Rightarrow> sql_table \<Rightarrow> nat \<times> sql_table" where
  "sql_update i doc rn t = (case map_of t i of None \<Rightarrow> (0, t)
     | Some (old, r) \<Rightarrow> if r = rn then (1, AList.update i (doc, r + 1) t) else (0, t))"

definition sql_remove :: "go_id \<Rightarrow> int \<Rightarrow> sql_table \<Rightarrow> nat \<times> sql_table" where
  "sql_remove i rn t = (case map_of t i of None \<Rightarrow> (0, t)
     | Some (old, r) \<Rightarrow> if r = rn then (1, AList.delete i t) else (0, t))"

section \<open>The common operations\<close>

definition decode_row :: "'d codec \<Rightarrow> ('d \<Rightarrow> go_id) \<Rightarrow> ('d \<Rightarrow> error option) \<Rightarrow> go_id \<Rightarrow> string \<Rightarrow> int \<Rightarrow>
    error + 'd stored" where
  "decode_row cd id_of validate i doc rn = (case unmarshal cd doc of None \<Rightarrow> Inl StoreErrSchema
     | Some d \<Rightarrow> if validate d \<noteq> None \<or> id_of d \<noteq> i then Inl StoreErrSchema
         else Inr \<lparr>st_doc = d, st_revision = rn\<rparr>)"

definition sql_get :: "'d codec \<Rightarrow> ('d \<Rightarrow> go_id) \<Rightarrow> ('d \<Rightarrow> error option) \<Rightarrow> error option \<Rightarrow>
    error option \<Rightarrow> go_id \<Rightarrow> sql_table \<Rightarrow> error + 'd stored" where
  "sql_get cd id_of validate cerr fault i t =
     (if \<not> id_valid i then Inl StoreErrInvalid
      else case fault of Some e \<Rightarrow> Inl (safe_error cerr e)
        | None \<Rightarrow> (case map_of t i of None \<Rightarrow> Inl StoreErrNotFound
            | Some (doc, rn) \<Rightarrow> decode_row cd id_of validate i doc rn))"

definition max_document :: nat where "max_document = 1048576"

definition sql_put :: "'d codec \<Rightarrow> ('d \<Rightarrow> go_id) \<Rightarrow> ('d \<Rightarrow> error option) \<Rightarrow> error option \<Rightarrow> sql_faults \<Rightarrow>
    'd \<Rightarrow> int \<Rightarrow> sql_table \<Rightarrow> (error + 'd stored) \<times> sql_table" where
  "sql_put cd id_of validate cerr ft d expected t =
     (if validate d \<noteq> None \<or> expected < 0 \<or> expected = max_int64_value then (Inl StoreErrInvalid, t)
      else case marshal cd d of None \<Rightarrow> (Inl StoreErrInvalid, t)
        | Some doc \<Rightarrow>
          if length doc > max_document then (Inl StoreErrInvalid, t)
          else case ft 0 of Some e \<Rightarrow> (Inl (safe_error cerr e), t)
            | None \<Rightarrow>
              let (n, t1) = (if expected = 0 then sql_insert (id_of d) doc t
                             else sql_update (id_of d) doc expected t) in
              case ft 1 of Some e \<Rightarrow> (Inl (safe_error cerr e), t1)
              | None \<Rightarrow>
                if n = 0 then
                  (if expected > 0 then
                     (case sql_get cd id_of validate cerr (ft 2) (id_of d) t1 of
                        Inl e \<Rightarrow> (Inl e, t1) | Inr r \<Rightarrow> (Inl StoreErrConflict, t1))
                   else (Inl StoreErrConflict, t1))
                else (Inr \<lparr>st_doc = d, st_revision = expected + 1\<rparr>, t1))"

definition sql_delete :: "'d codec \<Rightarrow> ('d \<Rightarrow> go_id) \<Rightarrow> ('d \<Rightarrow> error option) \<Rightarrow> error option \<Rightarrow>
    sql_faults \<Rightarrow> go_id \<Rightarrow> int \<Rightarrow> sql_table \<Rightarrow> error option \<times> sql_table" where
  "sql_delete cd id_of validate cerr ft i expected t =
     (if \<not> id_valid i \<or> expected < 1 then (Some StoreErrInvalid, t)
      else case ft 0 of Some e \<Rightarrow> (Some (safe_error cerr e), t)
        | None \<Rightarrow>
          let (n, t1) = sql_remove i expected t in
          case ft 1 of Some e \<Rightarrow> (Some (safe_error cerr e), t1)
          | None \<Rightarrow>
            if n = 0 then
              (case sql_get cd id_of validate cerr (ft 2) i t1 of
                 Inl e \<Rightarrow> (Some e, t1) | Inr r \<Rightarrow> (Some StoreErrConflict, t1))
            else (None, t1))"

text \<open>The loop over the rows of a SELECT; the fault of a row is that of its Scan.\<close>

fun scan_rows :: "'d codec \<Rightarrow> ('d \<Rightarrow> go_id) \<Rightarrow> ('d \<Rightarrow> error option) \<Rightarrow> error option \<Rightarrow> sql_faults \<Rightarrow>
    nat \<Rightarrow> (go_id \<times> string \<times> int) list \<Rightarrow> error + 'd stored list" where
  "scan_rows cd id_of validate cerr ft k [] = Inr []"
| "scan_rows cd id_of validate cerr ft k ((i, doc, rn) # rows) =
     (case ft k of Some e \<Rightarrow> Inl (safe_error cerr e)
      | None \<Rightarrow> (case decode_row cd id_of validate i doc rn of Inl e \<Rightarrow> Inl e
          | Inr r \<Rightarrow> (case scan_rows cd id_of validate cerr ft (Suc k) rows of Inl e \<Rightarrow> Inl e
              | Inr rs \<Rightarrow> Inr (r # rs))))"

definition select_page :: "page \<Rightarrow> sql_table \<Rightarrow> (go_id \<times> string \<times> int) list" where
  "select_page p t = take (nat (pg_limit p))
     (map (\<lambda>i. (i, the (map_of t i))) (sort (filter (\<lambda>i. i > pg_after p) (keys_of t))))"

definition sql_list :: "'d codec \<Rightarrow> ('d \<Rightarrow> go_id) \<Rightarrow> ('d \<Rightarrow> error option) \<Rightarrow> error option \<Rightarrow>
    sql_faults \<Rightarrow> page \<Rightarrow> sql_table \<Rightarrow> error + 'd stored list" where
  "sql_list cd id_of validate cerr ft p t =
     (case page_validate p of Some e \<Rightarrow> Inl e
      | None \<Rightarrow>
        (case ft 0 of Some e \<Rightarrow> Inl (safe_error cerr e)
         | None \<Rightarrow> (case scan_rows cd id_of validate cerr ft 2 (select_page p t) of Inl e \<Rightarrow> Inl e
             | Inr rs \<Rightarrow> (case ft 1 of Some e \<Rightarrow> Inl (safe_error cerr e) | None \<Rightarrow> Inr rs))))"

section \<open>The five repositories\<close>

definition sqlite_get_endpoint where
  "sqlite_get_endpoint lib cd = sql_get cd ep_id (endpoint_validate lib)"
definition sqlite_put_endpoint where
  "sqlite_put_endpoint lib cd = sql_put cd ep_id (endpoint_validate lib)"
definition sqlite_delete_endpoint where
  "sqlite_delete_endpoint lib cd = sql_delete cd ep_id (endpoint_validate lib)"
definition sqlite_list_endpoints where
  "sqlite_list_endpoints lib cd = sql_list cd ep_id (endpoint_validate lib)"

definition sqlite_get_pool where "sqlite_get_pool cd = sql_get cd pl_id pool_validate"
definition sqlite_put_pool where "sqlite_put_pool cd = sql_put cd pl_id pool_validate"
definition sqlite_delete_pool where "sqlite_delete_pool cd = sql_delete cd pl_id pool_validate"
definition sqlite_list_pools where "sqlite_list_pools cd = sql_list cd pl_id pool_validate"

definition sqlite_get_chain where "sqlite_get_chain cd = sql_get cd cn_id chain_validate"
definition sqlite_put_chain where "sqlite_put_chain cd = sql_put cd cn_id chain_validate"
definition sqlite_delete_chain where "sqlite_delete_chain cd = sql_delete cd cn_id chain_validate"
definition sqlite_list_chains where "sqlite_list_chains cd = sql_list cd cn_id chain_validate"

definition sqlite_get_policy where
  "sqlite_get_policy lib cd = sql_get cd p_id (policy_validate lib)"
definition sqlite_put_policy where
  "sqlite_put_policy lib cd = sql_put cd p_id (policy_validate lib)"
definition sqlite_delete_policy where
  "sqlite_delete_policy lib cd = sql_delete cd p_id (policy_validate lib)"
definition sqlite_list_policies where
  "sqlite_list_policies lib cd = sql_list cd p_id (policy_validate lib)"

definition sqlite_get_source where "sqlite_get_source cd = sql_get cd sr_id source_validate"
definition sqlite_put_source where "sqlite_put_source cd = sql_put cd sr_id source_validate"
definition sqlite_delete_source where "sqlite_delete_source cd = sql_delete cd sr_id source_validate"
definition sqlite_list_sources where "sqlite_list_sources cd = sql_list cd sr_id source_validate"

section \<open>Transactions (sqlite.go)\<close>

text \<open>The endpoint and the source tables; the faults are those of BeginTx and Commit.\<close>

record inventory_db =
  iv_endpoints :: sql_table
  iv_sources :: sql_table

definition run_transaction :: "error option \<Rightarrow> error option \<Rightarrow> error option \<Rightarrow> error option \<Rightarrow>
    (inventory_db \<Rightarrow> error option \<times> inventory_db) \<Rightarrow> inventory_db \<Rightarrow> error option \<times> inventory_db" where
  "run_transaction begin_fault cerr cerr2 commit_fault f db =
     (case begin_fault of Some e \<Rightarrow> (Some (safe_error cerr e), db)
      | None \<Rightarrow>
        (case f db of (Some e, db1) \<Rightarrow> (Some e, db)
         | (None, db1) \<Rightarrow>
           (case cerr2 of Some e \<Rightarrow> (Some e, db)
            | None \<Rightarrow> (case commit_fault of Some e \<Rightarrow> (Some (safe_error cerr2 e), db)
                | None \<Rightarrow> (None, db1)))))"

definition within_endpoint_transaction :: "error option \<Rightarrow> error option \<Rightarrow> error option \<Rightarrow>
    error option \<Rightarrow> (sql_table \<Rightarrow> error option \<times> sql_table) option \<Rightarrow> inventory_db \<Rightarrow>
    error option \<times> inventory_db" where
  "within_endpoint_transaction bf cerr cerr2 cf fn db =
     (case fn of None \<Rightarrow> (Some StoreErrInvalid, db)
      | Some f \<Rightarrow> run_transaction bf cerr cerr2 cf
          (\<lambda>db. case f (iv_endpoints db) of (r, t) \<Rightarrow> (r, db\<lparr>iv_endpoints := t\<rparr>)) db)"

definition within_inventory_transaction :: "error option \<Rightarrow> error option \<Rightarrow> error option \<Rightarrow>
    error option \<Rightarrow> (inventory_db \<Rightarrow> error option \<times> inventory_db) option \<Rightarrow> inventory_db \<Rightarrow>
    error option \<times> inventory_db" where
  "within_inventory_transaction bf cerr cerr2 cf fn db =
     (case fn of None \<Rightarrow> (Some StoreErrInvalid, db)
      | Some f \<Rightarrow> run_transaction bf cerr cerr2 cf f db)"

section \<open>A client of either repository\<close>

datatype 'd request = RGet go_id | RPut 'd int | RDelete go_id int | RList page

datatype 'd answer = AGet "error + 'd stored" | APut "error + 'd stored" | ADelete "error option"
  | AList "error + 'd stored list"

fun mem_serve :: "('d \<Rightarrow> go_id) \<Rightarrow> ('d \<Rightarrow> error option) \<Rightarrow> 'd request \<Rightarrow> 'd memory \<Rightarrow>
    'd answer \<times> 'd memory" where
  "mem_serve id_of validate (RGet i) m = (AGet (mem_get None i m), m)"
| "mem_serve id_of validate (RPut d e) m =
     (case mem_put id_of validate None d e m of (r, m1) \<Rightarrow> (APut r, m1))"
| "mem_serve id_of validate (RDelete i e) m =
     (case mem_delete None i e m of (r, m1) \<Rightarrow> (ADelete r, m1))"
| "mem_serve id_of validate (RList p) m = (AList (mem_list None p m), m)"

definition no_sql_faults :: sql_faults where "no_sql_faults = (\<lambda>n. None)"

fun sql_serve :: "'d codec \<Rightarrow> ('d \<Rightarrow> go_id) \<Rightarrow> ('d \<Rightarrow> error option) \<Rightarrow> 'd request \<Rightarrow> sql_table \<Rightarrow>
    'd answer \<times> sql_table" where
  "sql_serve cd id_of validate (RGet i) t = (AGet (sql_get cd id_of validate None None i t), t)"
| "sql_serve cd id_of validate (RPut d e) t =
     (case sql_put cd id_of validate None no_sql_faults d e t of (r, t1) \<Rightarrow> (APut r, t1))"
| "sql_serve cd id_of validate (RDelete i e) t =
     (case sql_delete cd id_of validate None no_sql_faults i e t of (r, t1) \<Rightarrow> (ADelete r, t1))"
| "sql_serve cd id_of validate (RList p) t = (AList (sql_list cd id_of validate None no_sql_faults p t), t)"

fun serve_all :: "('d request \<Rightarrow> 's \<Rightarrow> 'd answer \<times> 's) \<Rightarrow> 'd request list \<Rightarrow> 's \<Rightarrow> 'd answer list" where
  "serve_all serve [] s = []"
| "serve_all serve (r # rs) s = (case serve r s of (a, s1) \<Rightarrow> a # serve_all serve rs s1)"

section \<open>The durable repository refines the memory one\<close>

text \<open>The codec returns what was encoded, within the size limit, for the documents concerned.\<close>

definition codec_on :: "'d codec \<Rightarrow> 'd set \<Rightarrow> bool" where
  "codec_on cd D = (\<forall>d\<in>D. \<exists>doc. marshal cd d = Some doc \<and> length doc \<le> max_document \<and>
     unmarshal cd doc = Some d)"

definition row_matches :: "'d codec \<Rightarrow> (string \<times> int) option \<Rightarrow> 'd stored option \<Rightarrow> bool" where
  "row_matches cd x y = (case (x, y) of (None, None) \<Rightarrow> True
     | (Some (doc, rn), Some r) \<Rightarrow> unmarshal cd doc = Some (st_doc r) \<and> rn = st_revision r
     | _ \<Rightarrow> False)"

definition represents :: "'d codec \<Rightarrow> sql_table \<Rightarrow> 'd memory \<Rightarrow> bool" where
  "represents cd t m = (keys_of t = keys_of (mem_rows m) \<and>
     (\<forall>i. row_matches cd (map_of t i) (map_of (mem_rows m) i)))"

lemma representsD:
  assumes "represents cd t m"
  shows "keys_of t = keys_of (mem_rows m)"
    "map_of t i = None \<longleftrightarrow> map_of (mem_rows m) i = None"
    "map_of t i = Some (doc, rn) \<Longrightarrow> \<exists>r. map_of (mem_rows m) i = Some r \<and>
       unmarshal cd doc = Some (st_doc r) \<and> rn = st_revision r"
proof -
  have r: "row_matches cd (map_of t i) (map_of (mem_rows m) i)"
    using assms by (simp add: represents_def)
  show "keys_of t = keys_of (mem_rows m)" using assms by (simp add: represents_def)
  show "map_of t i = None \<longleftrightarrow> map_of (mem_rows m) i = None"
    "map_of t i = Some (doc, rn) \<Longrightarrow> \<exists>r. map_of (mem_rows m) i = Some r \<and>
       unmarshal cd doc = Some (st_doc r) \<and> rn = st_revision r"
    using r by (auto simp: row_matches_def split: option.splits)
qed

lemma memory_ok_row:
  assumes "memory_ok id_of validate m" "map_of (mem_rows m) i = Some r"
  shows "id_of (st_doc r) = i" "validate (st_doc r) = None" "1 \<le> st_revision r"
  using assms(1) map_of_SomeD [OF assms(2)] by (auto simp: memory_ok_def)

lemma decode_stored:
  "memory_ok id_of validate m \<Longrightarrow> map_of (mem_rows m) i = Some r \<Longrightarrow>
     unmarshal cd doc = Some (st_doc r) \<Longrightarrow>
     decode_row cd id_of validate i doc (st_revision r) = Inr r"
  by (simp add: decode_row_def memory_ok_row)

lemma sql_get_refines:
  assumes "represents cd t m" "memory_ok id_of validate m"
  shows "sql_get cd id_of validate None None i t = mem_get None i m"
proof (cases "map_of t i")
  case None
  then show ?thesis using representsD(2) [OF assms(1), of i] by (simp add: sql_get_def mem_get_def)
next
  case (Some x)
  obtain doc rn where x: "x = (doc, rn)" by (cases x)
  obtain r where "map_of (mem_rows m) i = Some r" "unmarshal cd doc = Some (st_doc r)" "rn = st_revision r"
    using representsD(3) [OF assms(1) Some [unfolded x]] by blast
  then show ?thesis using Some x decode_stored [OF assms(2)] by (simp add: sql_get_def mem_get_def)
qed

lemma keys_of_update:
  "keys_of (AList.update k v t) = (if k \<in> set (keys_of t) then keys_of t else keys_of t @ [k])"
  by (simp add: keys_update_old keys_update_new)

lemma keys_of_delete: "keys_of (AList.delete k t) = filter (\<lambda>i. i \<noteq> k) (keys_of t)"
  by (induction t) auto

lemma represents_update:
  assumes "represents cd t m" "unmarshal cd doc = Some d"
  shows "represents cd (AList.update i (doc, n) t)
    (m\<lparr>mem_rows := AList.update i \<lparr>st_doc = d, st_revision = n\<rparr> (mem_rows m)\<rparr>)"
  using assms by (simp add: represents_def keys_of_update map_simps row_matches_def)

lemma insert_is_update: "map_of t i = None \<Longrightarrow> sql_insert i doc t = (1, AList.update i (doc, 1) t)"
  using keys_update_new [of i t "(doc, 1)"] map_of_None_iff [of t i] by (simp add: sql_insert_def)

text \<open>A put that touches no row and one that writes it.\<close>

definition hits :: "sql_table \<Rightarrow> go_id \<Rightarrow> int \<Rightarrow> bool" where
  "hits t i e = (case map_of t i of None \<Rightarrow> e = 0 | Some (old, r) \<Rightarrow> 0 < e \<and> r = e)"

lemma sql_put_written:
  assumes "validate d = None" "0 \<le> e" "e \<noteq> max_int64_value" "codec_on cd {d}"
    "hits t (id_of d) e"
  shows "\<exists>doc. unmarshal cd doc = Some d \<and> sql_put cd id_of validate None no_sql_faults d e t =
    (Inr \<lparr>st_doc = d, st_revision = e + 1\<rparr>, AList.update (id_of d) (doc, e + 1) t)"
proof -
  obtain doc where doc: "marshal cd d = Some doc" "length doc \<le> max_document" "unmarshal cd doc = Some d"
    using assms(4) by (auto simp: codec_on_def)
  show ?thesis
  proof (cases "map_of t (id_of d)")
    case None
    then show ?thesis using assms doc insert_is_update [OF None]
      by (intro exI [of _ doc]) (simp add: sql_put_def hits_def no_sql_faults_def)
  next
    case (Some x)
    then show ?thesis using assms doc unfolding hits_def
      by (intro exI [of _ doc]) (auto simp: sql_put_def hits_def no_sql_faults_def sql_update_def Let_def)
  qed
qed

lemma sql_put_missed:
  assumes "validate d = None" "0 \<le> e" "e \<noteq> max_int64_value" "codec_on cd {d}" "id_valid (id_of d)"
    "\<not> hits t (id_of d) e"
  shows "sql_put cd id_of validate None no_sql_faults d e t =
    (Inl (if 0 < e then (case sql_get cd id_of validate None None (id_of d) t of Inl x \<Rightarrow> x
           | Inr r \<Rightarrow> StoreErrConflict) else StoreErrConflict), t)"
proof -
  obtain doc where doc: "marshal cd d = Some doc" "length doc \<le> max_document" "unmarshal cd doc = Some d"
    using assms(4) by (auto simp: codec_on_def)
  have "(if e = 0 then sql_insert (id_of d) doc t else sql_update (id_of d) doc e t) = (0, t)"
    using assms(2,6) by (auto simp: sql_insert_def sql_update_def hits_def split: option.splits prod.splits)
  then show ?thesis using assms(1-3) doc
    by (simp add: sql_put_def hits_def no_sql_faults_def split: sum.split)
qed

lemma sql_put_refines:
  assumes "represents cd t m" "memory_ok id_of validate m" "codec_on cd {d}"
    "int (length (mem_rows m)) < mem_max m" "e \<le> max_int64_value"
    "validate d = None \<Longrightarrow> id_valid (id_of d)"
  shows "\<exists>a t' m'. sql_put cd id_of validate None no_sql_faults d e t = (a, t') \<and>
    mem_put id_of validate None d e m = (a, m') \<and> represents cd t' m'"
proof (cases "validate d \<noteq> None \<or> e < 0 \<or> e = max_int64_value")
  case True
  then show ?thesis using assms(1) by (auto simp: sql_put_def mem_put_def)
next
  case False
  then have v: "validate d = None" "0 \<le> e" "e \<noteq> max_int64_value" "id_valid (id_of d)"
    using assms(6) by simp_all
  show ?thesis
  proof (cases "hits t (id_of d) e")
    case True
    obtain doc where doc: "unmarshal cd doc = Some d"
      "sql_put cd id_of validate None no_sql_faults d e t =
        (Inr \<lparr>st_doc = d, st_revision = e + 1\<rparr>, AList.update (id_of d) (doc, e + 1) t)"
      using sql_put_written [where validate = validate and d = d and id_of = id_of, OF v(1-3) assms(3) True] by blast
    have "case map_of (mem_rows m) (id_of d) of None \<Rightarrow> e = 0 | Some r \<Rightarrow> st_revision r = e"
    proof (cases "map_of t (id_of d)")
      case None
      then show ?thesis using True [unfolded hits_def] representsD(2) [OF assms(1), of "id_of d"] by simp
    next
      case (Some x)
      then show ?thesis using True [unfolded hits_def] representsD(3) [OF assms(1), of "id_of d" "fst x" "snd x"]
        by auto
    qed
    then have "mem_put id_of validate None d e m = (Inr \<lparr>st_doc = d, st_revision = e + 1\<rparr>,
        m\<lparr>mem_rows := AList.update (id_of d) \<lparr>st_doc = d, st_revision = e + 1\<rparr> (mem_rows m)\<rparr>)"
      using v assms(4) by (auto simp: mem_put_def Let_def split: option.splits)
    then show ?thesis using doc represents_update [OF assms(1) doc(1)] by blast
  next
    case False
    note p = sql_put_missed [where validate = validate and d = d and id_of = id_of, OF v(1-3) assms(3) v(4) False] sql_get_refines [OF assms(1,2)]
    have "mem_put id_of validate None d e m = (fst (sql_put cd id_of validate None no_sql_faults d e t), m)"
    proof (cases "map_of t (id_of d)")
      case None
      then show ?thesis using False [unfolded hits_def] v p representsD(2) [OF assms(1), of "id_of d"]
        by (auto simp: mem_put_def mem_get_def)
    next
      case (Some x)
      obtain r where "map_of (mem_rows m) (id_of d) = Some r" "snd x = st_revision r"
        using Some representsD(3) [OF assms(1), of "id_of d" "fst x" "snd x"] by auto
      moreover have "1 \<le> st_revision r" using memory_ok_row(3) [OF assms(2) calculation(1)] .
      ultimately show ?thesis using Some False [unfolded hits_def] v p by (auto simp: mem_put_def mem_get_def split: prod.splits)
    qed
    then show ?thesis using p(1) assms(1) by (metis fst_conv)
  qed
qed

lemma sql_delete_refines:
  assumes "represents cd t m" "memory_ok id_of validate m"
  shows "\<exists>a t' m'. sql_delete cd id_of validate None no_sql_faults i e t = (a, t') \<and>
    mem_delete None i e m = (a, m') \<and> represents cd t' m'"
proof (cases "\<not> id_valid i \<or> e < 1")
  case True
  then show ?thesis using assms(1) by (auto simp: sql_delete_def mem_delete_def)
next
  case False
  note g = sql_get_refines [OF assms, of i]
  show ?thesis
  proof (cases "map_of t i")
    case None
    then show ?thesis using False g assms(1) representsD(2) [OF assms(1), of i]
      by (auto simp: sql_delete_def sql_remove_def mem_delete_def mem_get_def no_sql_faults_def)
  next
    case (Some x)
    obtain r where r: "map_of (mem_rows m) i = Some r" "snd x = st_revision r"
      using Some representsD(3) [OF assms(1), of i "fst x" "snd x"] by auto
    have d: "represents cd (AList.delete i t) (m\<lparr>mem_rows := AList.delete i (mem_rows m)\<rparr>)"
      using assms(1) by (auto simp: represents_def keys_of_delete map_simps row_matches_def)
    show ?thesis using False g assms(1) Some r d
      by (cases x; cases "snd x = e")
         (auto simp: sql_delete_def sql_remove_def mem_delete_def mem_get_def no_sql_faults_def)
  qed
qed

lemma scan_stored:
  assumes "represents cd t m" "memory_ok id_of validate m" "set is \<subseteq> set (keys_of t)"
  shows "scan_rows cd id_of validate None no_sql_faults k (map (\<lambda>i. (i, the (map_of t i))) is) =
    Inr (map (\<lambda>i. the (map_of (mem_rows m) i)) is)"
  using assms(3)
proof (induction "is" arbitrary: k)
  case (Cons i js)
  then obtain doc n where x: "map_of t i = Some (doc, n)"
    by (metis (no_types, lifting) list.set_intros(1) map_of_None_iff list.set_map not_Some_eq
        subset_iff surj_pair)
  obtain r where "map_of (mem_rows m) i = Some r" "unmarshal cd doc = Some (st_doc r)" "n = st_revision r"
    using representsD(3) [OF assms(1) x] by blast
  then show ?case using Cons x decode_stored [OF assms(2)] by (simp add: no_sql_faults_def)
qed simp

lemma sql_list_refines:
  assumes "represents cd t m" "memory_ok id_of validate m"
  shows "sql_list cd id_of validate None no_sql_faults p t = mem_list None p m"
proof -
  have "select_page p t = map (\<lambda>i. (i, the (map_of t i))) (page_ids p m)"
    using representsD(1) [OF assms(1)] by (simp add: select_page_def page_ids_def take_map)
  moreover have "set (page_ids p m) \<subseteq> set (keys_of t)"
    using representsD(1) [OF assms(1)] by (auto simp: page_ids_def dest: in_set_takeD)
  ultimately show ?thesis using scan_stored [OF assms]
    by (simp add: sql_list_def mem_list_def no_sql_faults_def split: option.split)
qed

lemma mem_put_grows: "mem_put id_of validate ce d e m = (a, m') \<Longrightarrow>
    mem_max m' = mem_max m \<and> length (mem_rows m') \<le> Suc (length (mem_rows m))"
  using length_update_le [of "id_of d" _ "mem_rows m"]
  by (auto simp: mem_put_def Let_def split: option.splits if_splits)

lemma mem_delete_grows: "mem_delete ce i e m = (a, m') \<Longrightarrow>
    mem_max m' = mem_max m \<and> length (mem_rows m') \<le> Suc (length (mem_rows m))"
  using length_delete_le [of i "mem_rows m"]
  by (auto simp: mem_delete_def split: option.splits if_splits)

fun request_ok :: "'d codec \<Rightarrow> 'd request \<Rightarrow> bool" where
  "request_ok cd (RPut d e) = (e \<le> max_int64_value \<and> codec_on cd {d})"
| "request_ok cd r = True"

lemma serve_refines:
  assumes "represents cd t m" "memory_ok id_of validate m" "request_ok cd r"
    "int (length (mem_rows m)) < mem_max m" "\<And>d. validate d = None \<Longrightarrow> id_valid (id_of d)"
  shows "\<exists>a t' m'. sql_serve cd id_of validate r t = (a, t') \<and> mem_serve id_of validate r m = (a, m') \<and>
    represents cd t' m' \<and> memory_ok id_of validate m' \<and> mem_max m' = mem_max m \<and>
    length (mem_rows m') \<le> Suc (length (mem_rows m))"
proof (cases r)
  case (RPut d e)
  then have c: "codec_on cd {d}" "e \<le> max_int64_value" using assms(3) by simp_all
  obtain a t' m' where
      "sql_put cd id_of validate None no_sql_faults d e t = (a, t')"
      "mem_put id_of validate None d e m = (a, m')" "represents cd t' m'"
    using sql_put_refines [where validate = validate and d = d and id_of = id_of,
        OF assms(1,2) c(1) assms(4) c(2) assms(5)] by blast
  then show ?thesis using RPut mem_put_grows mem_put_ok [OF assms(2), of e None d] assms(3) by fastforce
next
  case (RDelete i e)
  then obtain a t' m' where
      "sql_delete cd id_of validate None no_sql_faults i e t = (a, t')"
      "mem_delete None i e m = (a, m')" "represents cd t' m'"
    using sql_delete_refines [OF assms(1,2)] by blast
  then show ?thesis using RDelete mem_delete_grows mem_delete_ok [OF assms(2), of None i e] by fastforce
qed (use assms in \<open>simp_all add: sql_get_refines [OF assms(1,2)] sql_list_refines [OF assms(1,2)]\<close>)

lemma serve_all_refines:
  assumes "\<And>d. validate d = None \<Longrightarrow> id_valid (id_of d)"
  shows "represents cd t m \<Longrightarrow> memory_ok id_of validate m \<Longrightarrow> \<forall>r\<in>set rs. request_ok cd r \<Longrightarrow>
     int (length (mem_rows m) + length rs) \<le> mem_max m \<Longrightarrow>
     serve_all (sql_serve cd id_of validate) rs t = serve_all (mem_serve id_of validate) rs m"
proof (induction rs arbitrary: t m)
  case (Cons r rs)
  obtain a t' m' where "sql_serve cd id_of validate r t = (a, t')" "mem_serve id_of validate r m = (a, m')"
      "represents cd t' m'" "memory_ok id_of validate m'" "mem_max m' = mem_max m"
      "length (mem_rows m') \<le> Suc (length (mem_rows m))"
    using serve_refines [where validate = validate and id_of = id_of, OF Cons.prems(1,2) _ _ assms]
      Cons.prems(3,4) by fastforce
  then show ?case using Cons.IH Cons.prems(3,4) by simp
qed simp

text \<open>C35: The durable repository answers every sequence of gets, puts, deletes and lists exactly as the
  bounded one in memory does, as long as the database works, the documents survive their encoding
  and the bound is not reached.\<close>

theorem sqlite_equals_memory:
  assumes "new_memory mx = Inr m0" "\<forall>r\<in>set rs. request_ok cd r" "int (length rs) \<le> mx"
    "\<And>d. validate d = None \<Longrightarrow> id_valid (id_of d)"
  shows "serve_all (sql_serve cd id_of validate) rs [] = serve_all (mem_serve id_of validate) rs m0"
proof (rule serve_all_refines [OF assms(4) _ new_memory_ok [OF assms(1)] assms(2)])
  show "represents cd [] m0" "int (length (mem_rows m0) + length rs) \<le> mem_max m0"
    using assms(1,3) by (auto simp: new_memory_def represents_def row_matches_def split: if_splits)
qed

section \<open>Witness\<close>

definition name_codec :: "pool codec" where
  "name_codec = \<lparr>marshal = (\<lambda>p. Some (pl_name p)), unmarshal = (\<lambda>s. Some (pool_named s))\<rparr>"

definition demo_requests :: "pool request list" where
  "demo_requests = [RPut (pool_named ''a'') 0, RPut (pool_named ''b'') 1, RPut (pool_named ''c'') 1,
     RGet ''main'', RList \<lparr>pg_after = [], pg_limit = 10\<rparr>, RDelete ''main'' 2]"

theorem sqlite_equals_memory_witness:
  "serve_all (sql_serve name_codec pl_id pool_validate) demo_requests [] =
   serve_all (mem_serve pl_id pool_validate) demo_requests no_pools \<and>
   hd (serve_all (mem_serve pl_id pool_validate) demo_requests no_pools) =
     APut (Inr \<lparr>st_doc = pool_named ''a'', st_revision = 1\<rparr>)"
proof -
  have "codec_on name_codec {pool_named s}" if "length s \<le> max_document" for s
    using that by (simp add: name_codec_def codec_on_def pool_named_def)
  then have r: "\<forall>r\<in>set demo_requests. request_ok name_codec r"
    by (simp add: demo_requests_def max_int64_value_def max_document_def)
  have l: "int (length demo_requests) \<le> 10" by (simp add: demo_requests_def)
  have "fst (mem_put pl_id pool_validate None (pool_named ''a'') 0 no_pools) =
      Inr \<lparr>st_doc = pool_named ''a'', st_revision = 1\<rparr>"
    by code_simp
  then obtain m1 where "mem_put pl_id pool_validate None (pool_named ''a'') 0 no_pools =
      (Inr \<lparr>st_doc = pool_named ''a'', st_revision = 1\<rparr>, m1)"
    by (metis prod.collapse)
  then have "hd (serve_all (mem_serve pl_id pool_validate) demo_requests no_pools) =
      APut (Inr \<lparr>st_doc = pool_named ''a'', st_revision = 1\<rparr>)"
    by (simp add: demo_requests_def)
  moreover have "serve_all (sql_serve name_codec pl_id pool_validate) demo_requests [] =
      serve_all (mem_serve pl_id pool_validate) demo_requests no_pools"
    by (rule sqlite_equals_memory [OF no_pools_new r l pool_id_valid])
  ultimately show ?thesis by blast
qed

end
