(* ===== verification/Net_Addr.thy ===== *)
theory Net_Addr
  imports Go_Strings
begin

text \<open>internal/security/destination.go over the classes of addresses of net/netip, and sameHost of
  internal/app/gateway.go.\<close>

section \<open>Address classes\<close>

definition is_4in6 :: "ip_addr \<Rightarrow> bool" where
  "is_4in6 a = (case a of IP4 w \<Rightarrow> False | IP6 w z \<Rightarrow> drop_bit 32 w = 0xffff)"

definition unmap_addr :: "ip_addr \<Rightarrow> ip_addr" where
  "unmap_addr a = (case a of IP4 w \<Rightarrow> IP4 w | IP6 w z \<Rightarrow> if is_4in6 a then IP4 (ucast w) else a)"

definition is_loopback :: "ip_addr \<Rightarrow> bool" where
  "is_loopback a = (case unmap_addr a of IP4 w \<Rightarrow> drop_bit 24 w = 127 | IP6 w z \<Rightarrow> w = 1)"

definition is_link_local :: "ip_addr \<Rightarrow> bool" where
  "is_link_local a = (case unmap_addr a of IP4 w \<Rightarrow> drop_bit 16 w = 0xa9fe
     | IP6 w z \<Rightarrow> drop_bit 118 w = 0x3fa)"

definition is_private :: "ip_addr \<Rightarrow> bool" where
  "is_private a = (case unmap_addr a of
       IP4 w \<Rightarrow> drop_bit 24 w = 10 \<or> drop_bit 20 w = 0xac1 \<or> drop_bit 16 w = 0xc0a8
     | IP6 w z \<Rightarrow> drop_bit 121 w = 0x7e)"

definition is_unspecified :: "ip_addr \<Rightarrow> bool" where
  "is_unspecified a = (case a of IP4 w \<Rightarrow> w = 0 | IP6 w z \<Rightarrow> w = 0 \<and> z = [])"

definition is_multicast :: "ip_addr \<Rightarrow> bool" where
  "is_multicast a = (case unmap_addr a of IP4 w \<Rightarrow> drop_bit 28 w = 0xe | IP6 w z \<Rightarrow> drop_bit 120 w = 0xff)"

section \<open>Destinations\<close>

record destination_policy =
  dp_deny_private :: bool
  dp_allow_trusted :: bool

definition unsafe_address :: "ip_addr \<Rightarrow> bool" where
  "unsafe_address a0 = (let a = unmap_addr a0 in
     is_loopback a \<or> is_link_local a \<or> is_private a \<or> is_unspecified a \<or> is_multicast a)"

definition destination_allow :: "destination_policy \<Rightarrow> ip_addr list \<Rightarrow> error option" where
  "destination_allow p addrs =
     (if addrs = [] then Some DestinationDenied
      else if dp_allow_trusted p \<or> \<not> dp_deny_private p then None
      else if list_ex unsafe_address addrs then Some DestinationDenied else None)"

definition same_host :: "go_lib \<Rightarrow> string \<Rightarrow> string \<Rightarrow> bool" where
  "same_host lib l r =
     (case (parse_addr lib l, parse_addr lib r) of
        (Some a, Some b) \<Rightarrow> unmap_addr a = unmap_addr b
      | _ \<Rightarrow> equal_fold (trim_suffix l ''.'') (trim_suffix r ''.''))"

text \<open>An IPv4 address and its IPv4-mapped form are classified alike.\<close>

definition map_addr :: "32 word \<Rightarrow> ip_addr" where
  "map_addr w = IP6 (push_bit 32 0xffff + ucast w) []"

end
