(* ===== verification/Retry_Policy.thy ===== *)
theory Retry_Policy
  imports Go_Base
begin

text \<open>pkg/retry/retry.go: which failed attempts may be repeated, and the backoff.\<close>

datatype retry_failure = ConnectFailure | TimeoutFailure | ResetFailure | ResponseFailure

record retry_policy =
  rp_max_attempts :: "8 word"
  rp_allow_idempotency_key :: bool

record retry_request =
  rr_method :: string
  rr_body_present :: bool
  rr_body_replayable :: bool
  rr_response_delivered :: bool
  rr_idempotency_key :: bool
  rr_attempt :: "8 word"
  rr_failure :: retry_failure

definition default_retry_policy :: retry_policy where
  "default_retry_policy = \<lparr>rp_max_attempts = 2, rp_allow_idempotency_key = False\<rparr>"

definition retry_policy_validate :: "retry_policy \<Rightarrow> error option" where
  "retry_policy_validate p = (if rp_max_attempts p > 5 then Some RetryErrInvalid else None)"

definition safe_method :: "string \<Rightarrow> bool" where
  "safe_method m = (m \<in> set [''GET'', ''HEAD'', ''OPTIONS'', ''PUT'', ''DELETE''])"

definition should_retry :: "retry_policy \<Rightarrow> retry_request \<Rightarrow> bool" where
  "should_retry p r =
     (if retry_policy_validate p \<noteq> None \<or> rp_max_attempts p = 0 \<or>
         rr_attempt r \<ge> rp_max_attempts p \<or> rr_response_delivered r then False
      else if rr_failure r \<notin> {ConnectFailure, TimeoutFailure, ResetFailure} then False
      else if \<not> safe_method (rr_method r) \<and>
         (\<not> rp_allow_idempotency_key p \<or> \<not> rr_idempotency_key r) then False
      else \<not> rr_body_present r \<or> rr_body_replayable r)"

text \<open>The delay of Wait before an attempt; the random byte is an argument.\<close>

definition retry_delay :: "8 word \<Rightarrow> 8 word \<Rightarrow> duration" where
  "retry_delay attempt rnd =
     (let a = (if attempt = 0 then 1 else attempt);
          delay = 25000000 * 2 ^ unat (min (a - 1) 4) in
      delay + uint rnd * delay div 512)"

lemma retry_delay_bounds:
  "25000000 \<le> retry_delay a r \<and> retry_delay a r < 600000000"
proof -
  define k where "k = unat (min ((if a = 0 then 1 else a) - 1) (4 :: 8 word))"
  have k: "k \<le> 4"
    unfolding k_def using word_le_nat_alt [of "min ((if a = 0 then 1 else a) - 1) (4 :: 8 word)" 4]
    by simp
  have p: "(1::int) \<le> 2 ^ k" "(2::int) ^ k \<le> 2 ^ 4"
    using power_increasing [OF k, of "2::int"] by simp_all
  have r: "0 \<le> uint r" "uint r \<le> 255" using uint_lt2p [of r] by simp_all
  have "uint r * (25000000 * 2 ^ k) div 512 \<le> 255 * (25000000 * 2 ^ 4) div 512"
    using r p by (intro zdiv_mono1 mult_mono) simp_all
  then have d: "uint r * (25000000 * 2 ^ k) div 512 \<le> 199218750" by simp
  have u: "uint r * (25000000 * 2 ^ k) div 512 + 25000000 * 2 ^ k < (600000000 :: int)"
  proof -
    have "(2::int) ^ k \<le> 16" using p(2) by simp
    then show ?thesis using d by linarith
  qed
  have l: "(25000000 :: int) \<le> 25000000 * 2 ^ k" using p(1) by linarith
  have "0 \<le> uint r * (25000000 * 2 ^ k) div 512" using r p by (simp add: pos_imp_zdiv_nonneg_iff)
  then have "25000000 \<le> 25000000 * 2 ^ k + uint r * (25000000 * 2 ^ k) div 512 \<and>
      25000000 * 2 ^ k + uint r * (25000000 * 2 ^ k) div 512 < (600000000 :: int)"
    using u l by linarith
  then show ?thesis unfolding retry_delay_def Let_def k_def [symmetric] by simp
qed

end
