(* ===== verification/Config_Model.thy ===== *)
theory Config_Model
  imports Net_Addr Retry_Policy Routing_Model Policy_Model Budget_Config Health_Manager
begin

text \<open>pkg/config/config.go: the configuration, its validation, the search for fallback cycles and the
  manager of revisions.\<close>

section \<open>Data\<close>

record server_config =
  sv_data_dir :: string
  sv_shutdown_timeout :: duration

record listener =
  ln_name :: string
  ln_type :: string
  ln_bind :: string
  ln_auth :: string
  ln_credential_ref :: string
  ln_policy :: string
  ln_max_connections :: int
  ln_idle_timeout :: duration

record admin_config =
  ad_enabled :: bool
  ad_bind :: string
  ad_tls :: bool
  ad_cert_file :: string
  ad_key_ref :: string
  ad_auth_required :: bool

record storage_config =
  stc_driver :: string
  stc_path :: string
  stc_busy_timeout :: duration

record traffic_config =
  tc_retention_days :: int
  tc_minute_retention_days :: int
  tc_hour_retention_days :: int
  tc_day_retention_days :: int
  tc_aggregation_interval :: duration
  tc_queue_capacity :: int
  tc_batch_size :: int
  tc_flush_interval :: duration

record health_settings =
  hx_runtime :: health_config
  hx_active_checks :: bool
  hx_check_host :: string
  hx_check_port :: "16 word"
  hx_check_interval :: duration
  hx_check_timeout :: duration
  hx_global_check_rate :: "32 word"
  hx_pool_check_rate :: "32 word"

record inspect_config =
  ic_enabled :: bool
  ic_include :: "string list"
  ic_exclude :: "string list"
  ic_on_failure :: string

record cache_limit =
  cl_enabled :: bool
  cl_max_entries :: int
  cl_max_bytes :: int
  cl_driver :: string
  cl_path :: string

record dns_cache_config =
  dc_enabled :: bool
  dc_max_entries :: int
  dc_max_bytes :: int
  dc_ttl :: duration

record security_config =
  sx_deny_private :: bool
  sx_allow_direct :: bool
  sx_direct_allowlist :: "string list"

record logging_config =
  lg_level :: string
  lg_format :: string
  lg_capture_headers :: bool
  lg_capture_bodies :: bool

record config =
  cf_version :: int
  cf_server :: server_config
  cf_listeners :: "listener list"
  cf_admin :: admin_config
  cf_storage :: storage_config
  cf_traffic :: traffic_config
  cf_health :: health_settings
  cf_retry :: retry_policy
  cf_inspect :: inspect_config
  cf_response_cache :: cache_limit
  cf_dns_cache :: dns_cache_config
  cf_security :: security_config
  cf_logging :: logging_config
  cf_proxies :: "endpoint list"
  cf_pools :: "pool list"
  cf_chains :: "chain list"
  cf_policies :: "policy list"
  cf_budgets :: "budget_config list"

text \<open>The surroundings: the parsers of go_lib, netip.ParseAddrPort and the zone database.\<close>

record config_env =
  ce_lib :: go_lib
  ce_addr_port :: "string \<Rightarrow> (ip_addr \<times> 16 word) option"
  ce_zones :: zones

section \<open>path/filepath\<close>

text \<open>filepath.Clean of a slash-separated path: rooted or not, and its elements.\<close>

fun clean_steps :: "bool \<Rightarrow> string list \<Rightarrow> string list \<Rightarrow> string list" where
  "clean_steps rooted out [] = rev out"
| "clean_steps rooted out (x # xs) =
     (if x = [] \<or> x = ''.'' then clean_steps rooted out xs
      else if x = ''..'' then
        (case out of [] \<Rightarrow> clean_steps rooted (if rooted then [] else [''..'']) xs
         | y # ys \<Rightarrow> if y = ''..'' then clean_steps rooted (''..'' # out) xs
             else clean_steps rooted ys xs)
      else clean_steps rooted (x # out) xs)"

definition clean_path :: "string \<Rightarrow> bool \<times> string list" where
  "clean_path p = (let rooted = has_prefix p ''/'' in
     (rooted, clean_steps rooted [] (split_on (CHR ''/'') p)))"

fun strip_common :: "string list \<Rightarrow> string list \<Rightarrow> string list \<times> string list" where
  "strip_common (a # as) (b # bs) = (if a = b then strip_common as bs else (a # as, b # bs))"
| "strip_common as bs = (as, bs)"

text \<open>filepath.Rel: the elements of the relative path, no elements for the dot, None for an error.\<close>

definition rel_path :: "string \<Rightarrow> string \<Rightarrow> string list option" where
  "rel_path base target =
     (case (clean_path base, clean_path target) of ((ra, a), (rb, b)) \<Rightarrow>
       if ra \<noteq> rb then None
       else case strip_common a b of (a', b') \<Rightarrow>
         if a' \<noteq> [] \<and> hd a' = ''..'' then None
         else Some (replicate (length a') ''..'' @ b'))"

definition path_within :: "string \<Rightarrow> string \<Rightarrow> bool" where
  "path_within base target = (case rel_path base target of None \<Rightarrow> False
     | Some r \<Rightarrow> r \<noteq> [] \<and> hd r \<noteq> ''..'')"

definition path_string :: "bool \<times> string list \<Rightarrow> string" where
  "path_string p = (let s = (if fst p then ''/'' else []) @ join_on (CHR ''/'') (snd p) in
     if s = [] then ''.'' else s)"

text \<open>filepath.Join of two elements; empty elements are left out.\<close>

definition join_path :: "string \<Rightarrow> string \<Rightarrow> string" where
  "join_path a b = (if a = [] \<and> b = [] then []
     else path_string (clean_path (if a = [] then b else if b = [] then a else a @ ''/'' @ b)))"

section \<open>Checks of the parts\<close>

fun valid_inspect_patterns :: "go_lib \<Rightarrow> string list \<Rightarrow> string list \<Rightarrow> bool" where
  "valid_inspect_patterns lib seen [] = True"
| "valid_inspect_patterns lib seen (x # xs) =
     (let p = to_lower (trim_suffix x ''.''); base = (if has_prefix p ''*.'' then drop 2 p else p) in
      if length p > 253 \<or> \<not> valid_host lib base \<or> p \<in> set seen then False
      else valid_inspect_patterns lib (p # seen) xs)"

definition listener_ok :: "ip_addr \<Rightarrow> 16 word \<Rightarrow> listener \<Rightarrow> bool" where
  "listener_ok a port l =
     (\<not> (port = 0 \<or> addr_zone a \<noteq> [] \<or> \<not> id_valid (ln_name l)) \<and>
      \<not> (ln_type l \<notin> {''http'', ''socks5''} \<or> ln_auth l \<notin> {''local'', ''password'', ''api_key''} \<or>
         \<not> id_valid (ln_policy l)) \<and>
      \<not> ((\<not> is_loopback a \<and> ln_auth l = ''local'') \<or>
         (ln_auth l = ''password'' \<and> \<not> secret_ref_valid (ln_credential_ref l))) \<and>
      \<not> (ln_credential_ref l \<noteq> [] \<and> \<not> secret_ref_valid (ln_credential_ref l)) \<and>
      \<not> (ln_max_connections l < 1 \<or> ln_max_connections l > 100000 \<or> ln_idle_timeout l \<le> 0 \<or>
         ln_idle_timeout l > 24 * hour))"

text \<open>The loop over the listeners: None is an error, otherwise the bindings in use.\<close>

fun check_listeners :: "config_env \<Rightarrow> string list \<Rightarrow> (ip_addr \<times> 16 word) list \<Rightarrow> listener list \<Rightarrow>
    (ip_addr \<times> 16 word) list option" where
  "check_listeners env names binds [] = Some binds"
| "check_listeners env names binds (l # ls) =
     (case ce_addr_port env (ln_bind l) of None \<Rightarrow> None
      | Some (a, port) \<Rightarrow>
          if (a, port) \<in> set binds \<or> ln_name l \<in> set names \<or> \<not> listener_ok a port l then None
          else check_listeners env (ln_name l # names) ((a, port) # binds) ls)"

definition admin_ok :: "config_env \<Rightarrow> (ip_addr \<times> 16 word) list \<Rightarrow> admin_config \<Rightarrow> bool" where
  "admin_ok env binds a =
     (if ad_key_ref a \<noteq> [] \<and> \<not> secret_ref_valid (ad_key_ref a) then False
      else if ad_enabled a then
        (case ce_addr_port env (ad_bind a) of None \<Rightarrow> False
         | Some (ip, port) \<Rightarrow>
            if port = 0 \<or> addr_zone ip \<noteq> [] \<or> (ip, port) \<in> set binds \<or> \<not> ad_auth_required a
            then False
            else if \<not> is_loopback ip \<and> \<not> ad_tls a then False
            else \<not> (ad_tls a \<and> (ad_cert_file a = [] \<or> \<not> secret_ref_valid (ad_key_ref a))))
      else True)"

definition nul :: char where "nul = char_of (0::nat)"

definition storage_ok :: "storage_config \<Rightarrow> bool" where
  "storage_ok s =
     (if stc_driver s \<notin> {''sqlite'', ''memory''} \<or> stc_busy_timeout s \<le> 0 \<or> stc_busy_timeout s > minute
      then False
      else \<not> (stc_driver s = ''sqlite'' \<and>
        (stc_path s = [] \<or> has_prefix (stc_path s) ''file:'' \<or> nul \<in> set (stc_path s))))"

definition days_ok :: "int \<Rightarrow> bool" where "days_ok d = (1 \<le> d \<and> d \<le> 3650)"

definition millisecond :: duration where "millisecond = 1000000"

definition traffic_ok :: "traffic_config \<Rightarrow> bool" where
  "traffic_ok t = (days_ok (tc_retention_days t) \<and> days_ok (tc_minute_retention_days t) \<and>
     days_ok (tc_hour_retention_days t) \<and> days_ok (tc_day_retention_days t) \<and>
     0 < tc_aggregation_interval t \<and> tc_aggregation_interval t \<le> hour \<and>
     1 \<le> tc_queue_capacity t \<and> tc_queue_capacity t \<le> 1000000 \<and>
     1 \<le> tc_batch_size t \<and> tc_batch_size t \<le> tc_queue_capacity t \<and>
     10 * millisecond \<le> tc_flush_interval t \<and> tc_flush_interval t \<le> minute)"

definition health_settings_ok :: "go_lib \<Rightarrow> health_settings \<Rightarrow> bool" where
  "health_settings_ok lib h = (health_config_validate (hx_runtime h) = None \<and> hx_check_port h \<noteq> 0 \<and>
     valid_host lib (hx_check_host h) \<and> minute \<le> hx_check_interval h \<and>
     hx_check_interval h \<le> 24 * hour \<and> 0 < hx_check_timeout h \<and> hx_check_timeout h \<le> minute \<and>
     1 \<le> hx_global_check_rate h \<and> hx_global_check_rate h \<le> 60000 \<and>
     1 \<le> hx_pool_check_rate h \<and> hx_pool_check_rate h \<le> 60000)"

definition cache_limit_ok :: "int \<Rightarrow> int \<Rightarrow> bool" where
  "cache_limit_ok entries bytes_max = (1 \<le> entries \<and> entries \<le> 1000000 \<and> 1 \<le> bytes_max \<and> bytes_max \<le> 2 ^ 40)"

definition response_cache_ok :: "string \<Rightarrow> cache_limit \<Rightarrow> bool" where
  "response_cache_ok dir c = (\<not> (cl_driver c \<notin> {''memory'', ''disk''} \<or> cl_path c = [] \<or>
     nul \<in> set (cl_path c) \<or> (cl_driver c = ''disk'' \<and> \<not> path_within dir (cl_path c))))"

section \<open>The pool graph\<close>

type_synonym pool_map = "go_id \<Rightarrow> pool option"

definition pool_map_of :: "pool list \<Rightarrow> pool_map" where
  "pool_map_of ps i = List.find (\<lambda>p. pl_id p = i) ps"

definition fallbacks_of :: "pool_map \<Rightarrow> go_id \<Rightarrow> go_id list" where
  "fallbacks_of pm i = (case pm i of None \<Rightarrow> [] | Some p \<Rightarrow> pl_fallback_pool_ids p)"

text \<open>hasPoolCycle: the nodes being visited, those done (the newest first), and whether a cycle was
  met; None is running out of fuel.\<close>

fun visit_pool :: "pool_map \<Rightarrow> nat \<Rightarrow> go_id list \<Rightarrow> go_id list \<Rightarrow> go_id \<Rightarrow> (bool \<times> go_id list) option"
and visit_pools :: "pool_map \<Rightarrow> nat \<Rightarrow> go_id list \<Rightarrow> go_id list \<Rightarrow> go_id list \<Rightarrow> (bool \<times> go_id list) option" where
  "visit_pool pm 0 visiting fin i = None"
| "visit_pool pm (Suc n) visiting fin i =
     (if i \<in> set visiting then Some (True, fin)
      else if i \<in> set fin then Some (False, fin)
      else case visit_pools pm n (i # visiting) fin (fallbacks_of pm i) of
          None \<Rightarrow> None
        | Some (True, fin1) \<Rightarrow> Some (True, fin1)
        | Some (False, fin1) \<Rightarrow> Some (False, i # fin1))"
| "visit_pools pm n visiting fin [] = Some (False, fin)"
| "visit_pools pm n visiting fin (i # is) =
     (case visit_pool pm n visiting fin i of
          None \<Rightarrow> None
        | Some (True, fin1) \<Rightarrow> Some (True, fin1)
        | Some (False, fin1) \<Rightarrow> visit_pools pm n visiting fin1 is)"

text \<open>A path of distinct pools is no longer than their number; one step more meets a repetition or a
  pool that does not exist.\<close>

definition has_pool_cycle :: "pool list \<Rightarrow> bool option" where
  "has_pool_cycle ps = map_option fst
     (visit_pools (pool_map_of ps) (length ps + 2) [] [] (map pl_id ps))"

text \<open>poolEndpointIDs: the endpoints of a pool and its fallbacks; the order of the list is that of
  the walk.\<close>

fun pool_endpoints :: "pool_map \<Rightarrow> nat \<Rightarrow> go_id list \<Rightarrow> go_id \<Rightarrow> go_id list \<times> go_id list"
and pools_endpoints :: "pool_map \<Rightarrow> nat \<Rightarrow> go_id list \<Rightarrow> go_id list \<Rightarrow> go_id list \<times> go_id list" where
  "pool_endpoints pm 0 seen i = ([], seen)"
| "pool_endpoints pm (Suc n) seen i =
     (if i \<in> set seen then ([], seen)
      else case pm i of None \<Rightarrow> ([], i # seen)
        | Some p \<Rightarrow> (case pools_endpoints pm n (i # seen) (pl_fallback_pool_ids p) of
            (es, seen1) \<Rightarrow> (pl_endpoint_ids p @ es, seen1)))"
| "pools_endpoints pm n seen [] = ([], seen)"
| "pools_endpoints pm n seen (i # is) =
     (case pool_endpoints pm n seen i of (es, seen1) \<Rightarrow>
       (case pools_endpoints pm n seen1 is of (es2, seen2) \<Rightarrow> (es @ es2, seen2)))"

section \<open>The inventory\<close>

fun proxies_ok :: "go_lib \<Rightarrow> go_id list \<Rightarrow> endpoint list \<Rightarrow> bool" where
  "proxies_ok lib seen [] = True"
| "proxies_ok lib seen (e # es) =
     (if endpoint_validate lib e \<noteq> None \<or> ep_id e \<in> set seen then False
      else proxies_ok lib (ep_id e # seen) es)"

fun pools_ok :: "go_id list \<Rightarrow> go_id list \<Rightarrow> pool list \<Rightarrow> bool" where
  "pools_ok proxy_ids seen [] = True"
| "pools_ok proxy_ids seen (p # ps) =
     (if pool_validate p \<noteq> None then False
      else if pl_id p \<in> set seen then False
      else if \<not> list_all (\<lambda>i. i \<in> set proxy_ids) (pl_endpoint_ids p) then False
      else pools_ok proxy_ids (pl_id p # seen) ps)"

definition fallbacks_ok :: "pool list \<Rightarrow> bool" where
  "fallbacks_ok ps =
     list_all (\<lambda>p. list_all (\<lambda>f. pool_map_of ps f \<noteq> None) (pl_fallback_pool_ids p)) ps"

fun hops_ok :: "pool list \<Rightarrow> go_id list \<Rightarrow> hop list \<Rightarrow> bool" where
  "hops_ok ps used_ids [] = True"
| "hops_ok ps used_ids (h # hs) =
     (case pool_map_of ps (hop_pool_id h) of None \<Rightarrow> False
      | Some p \<Rightarrow>
          if sp_strategy (normalized (pl_session_policy p)) \<noteq> ''none'' then False
          else let es = fst (pool_endpoints (pool_map_of ps) (length ps + 2) [] (hop_pool_id h)) in
            if list_ex (\<lambda>e. e \<in> set used_ids) es then False else hops_ok ps (es @ used_ids) hs)"

fun chains_ok :: "pool list \<Rightarrow> go_id list \<Rightarrow> chain list \<Rightarrow> bool" where
  "chains_ok ps seen [] = True"
| "chains_ok ps seen (c # cs) =
     (if chain_validate c \<noteq> None \<or> cn_id c \<in> set seen then False
      else if \<not> hops_ok ps [] (cn_hops c) then False
      else chains_ok ps (cn_id c # seen) cs)"

definition action_ok :: "pool list \<Rightarrow> go_id list \<Rightarrow> action \<Rightarrow> bool" where
  "action_ok ps chain_ids a =
     (if a_type a = ''proxy'' then pool_map_of ps (a_pool_id a) \<noteq> None
      else if a_type a = ''chain'' then
        a_chain_id a \<in> set chain_ids \<and> list_all (\<lambda>f. f \<in> set chain_ids) (a_fallback_chain_ids a)
      else True)"

fun policies_ok :: "go_lib \<Rightarrow> pool list \<Rightarrow> go_id list \<Rightarrow> go_id list \<Rightarrow> policy list \<Rightarrow> bool" where
  "policies_ok lib ps chain_ids seen [] = True"
| "policies_ok lib ps chain_ids seen (d # ds) =
     (if policy_validate lib d \<noteq> None \<or> p_id d \<in> set seen then False
      else if \<not> list_all (\<lambda>r. list_all (action_ok ps chain_ids) (r_actions r)) (p_rules d) then False
      else policies_ok lib ps chain_ids (p_id d # seen) ds)"

fun budgets_ok :: "zones \<Rightarrow> pool list \<Rightarrow> go_id list \<Rightarrow> go_id list \<Rightarrow> budget_config list \<Rightarrow> bool" where
  "budgets_ok tz ps proxy_ids seen [] = True"
| "budgets_ok tz ps proxy_ids seen (b # bs) =
     (if budget_validate tz b \<noteq> None \<or> b_id b \<in> set seen then False
      else if b_scope b = ''pool'' \<and> pool_map_of ps (b_scope_id b) = None then False
      else if b_scope b = ''proxy'' \<and> b_scope_id b \<notin> set proxy_ids then False
      else budgets_ok tz ps proxy_ids (b_id b # seen) bs)"

definition inventory_ok :: "config_env \<Rightarrow> config \<Rightarrow> bool" where
  "inventory_ok env c =
     (let lib = ce_lib env; ps = cf_pools c; proxy_ids = map ep_id (cf_proxies c);
          chain_ids = map cn_id (cf_chains c) in
      proxies_ok lib [] (cf_proxies c) \<and> pools_ok proxy_ids [] ps \<and> fallbacks_ok ps \<and>
      has_pool_cycle ps = Some False \<and> chains_ok ps [] (cf_chains c) \<and>
      policies_ok lib ps chain_ids [] (cf_policies c) \<and>
      budgets_ok (ce_zones env) ps proxy_ids [] (cf_budgets c) \<and>
      list_all (\<lambda>l. ln_policy l \<in> set (map p_id (cf_policies c))) (cf_listeners c))"

section \<open>Validate\<close>

definition config_validate :: "config_env \<Rightarrow> config \<Rightarrow> error option" where
  "config_validate env c =
     (let lib = ce_lib env; dir = sv_data_dir (cf_server c); ins = cf_inspect c in
      if cf_version c \<noteq> 1 \<or> dir = [] \<or> nul \<in> set dir \<or> sv_shutdown_timeout (cf_server c) \<le> 0 \<or>
         sv_shutdown_timeout (cf_server c) > 5 * minute then Some ConfigErrInvalid
      else if cf_listeners c = [] \<or> length (cf_listeners c) > 32 then Some ConfigErrInvalid
      else case check_listeners env [] [] (cf_listeners c) of None \<Rightarrow> Some ConfigErrInvalid
      | Some binds \<Rightarrow>
        if \<not> admin_ok env binds (cf_admin c) then Some ConfigErrInvalid
        else if \<not> storage_ok (cf_storage c) then Some ConfigErrInvalid
        else if \<not> traffic_ok (cf_traffic c) then Some ConfigErrInvalid
        else if \<not> health_settings_ok lib (cf_health c) then Some ConfigErrInvalid
        else if retry_policy_validate (cf_retry c) \<noteq> None \<or> rp_max_attempts (cf_retry c) = 0
        then Some ConfigErrInvalid
        else if \<not> cache_limit_ok (dc_max_entries (cf_dns_cache c)) (dc_max_bytes (cf_dns_cache c)) \<or>
           \<not> cache_limit_ok (cl_max_entries (cf_response_cache c)) (cl_max_bytes (cf_response_cache c))
        then Some ConfigErrInvalid
        else if \<not> response_cache_ok dir (cf_response_cache c) then Some ConfigErrInvalid
        else if dc_ttl (cf_dns_cache c) < second \<or> dc_ttl (cf_dns_cache c) > 24 * hour
        then Some ConfigErrInvalid
        else if ic_enabled ins \<and> ic_include ins = [] then Some ConfigErrInvalid
        else if ic_on_failure ins \<notin> {''reject'', ''tunnel''} \<or>
           \<not> valid_inspect_patterns lib [] (ic_include ins) \<or>
           \<not> valid_inspect_patterns lib [] (ic_exclude ins) then Some ConfigErrInvalid
        else if sx_allow_direct (cf_security c) \<and> sx_direct_allowlist (cf_security c) = []
        then Some ConfigErrInvalid
        else if length (sx_direct_allowlist (cf_security c)) > 4096 \<or> length (ic_include ins) > 4096 \<or>
           length (ic_exclude ins) > 4096 then Some ConfigErrInvalid
        else if lg_level (cf_logging c) \<notin> set [''trace'', ''debug'', ''info'', ''warn'', ''error'']
        then Some ConfigErrInvalid
        else if lg_format (cf_logging c) \<notin> {''json'', ''console''} then Some ConfigErrInvalid
        else if inventory_ok env c then None else Some ConfigErrInvalid)"

section \<open>Defaults\<close>

definition default_listener :: "string \<Rightarrow> string \<Rightarrow> string \<Rightarrow> listener" where
  "default_listener name type bind = \<lparr>ln_name = name, ln_type = type, ln_bind = bind, ln_auth = ''local'',
     ln_credential_ref = [], ln_policy = ''default'', ln_max_connections = 256, ln_idle_timeout = 2 * minute\<rparr>"

definition default_policy :: policy where
  "default_policy = \<lparr>p_version = 1, p_id = ''default'', p_name = ''Fail closed'',
     p_rules = [\<lparr>r_id = ''deny'', r_name = ''Deny requests until configured'', r_priority = 100,
       r_enabled = True, r_stop_processing = True, r_conditions = Condition [] [] [] [] [] None,
       r_actions = [\<lparr>a_type = ''reject'', a_pool_id = [], a_chain_id = [], a_fallback_chain_ids = [],
         a_value = []\<rparr>]\<rparr>]\<rparr>"

definition default_config :: "string \<Rightarrow> config" where
  "default_config home = (let dir = join_path home ''.proxysieve'' in
     \<lparr>cf_version = 1,
      cf_server = \<lparr>sv_data_dir = dir, sv_shutdown_timeout = 20 * second\<rparr>,
      cf_listeners = [default_listener ''http'' ''http'' ''127.0.0.1:8080'',
        default_listener ''socks'' ''socks5'' ''127.0.0.1:1080''],
      cf_admin = \<lparr>ad_enabled = True, ad_bind = ''127.0.0.1:9090'', ad_tls = False, ad_cert_file = [],
        ad_key_ref = [], ad_auth_required = True\<rparr>,
      cf_storage = \<lparr>stc_driver = ''sqlite'', stc_path = join_path dir ''proxysieve.db'',
        stc_busy_timeout = 5 * second\<rparr>,
      cf_traffic = \<lparr>tc_retention_days = 30, tc_minute_retention_days = 90, tc_hour_retention_days = 365,
        tc_day_retention_days = 3650, tc_aggregation_interval = minute, tc_queue_capacity = 4096,
        tc_batch_size = 128, tc_flush_interval = 250 * millisecond\<rparr>,
      cf_health = \<lparr>hx_runtime = health_defaults, hx_active_checks = False,
        hx_check_host = ''example.com'', hx_check_port = 443, hx_check_interval = 5 * minute,
        hx_check_timeout = 15 * second, hx_global_check_rate = 60, hx_pool_check_rate = 30\<rparr>,
      cf_retry = default_retry_policy,
      cf_inspect = \<lparr>ic_enabled = False, ic_include = [], ic_exclude = [], ic_on_failure = ''reject''\<rparr>,
      cf_response_cache = \<lparr>cl_enabled = False, cl_max_entries = 1024, cl_max_bytes = 64 * 2 ^ 20,
        cl_driver = ''memory'', cl_path = join_path dir ''response-cache''\<rparr>,
      cf_dns_cache = \<lparr>dc_enabled = True, dc_max_entries = 4096, dc_max_bytes = 4 * 2 ^ 20, dc_ttl = minute\<rparr>,
      cf_security = \<lparr>sx_deny_private = True, sx_allow_direct = False, sx_direct_allowlist = []\<rparr>,
      cf_logging = \<lparr>lg_level = ''info'', lg_format = ''json'', lg_capture_headers = False,
        lg_capture_bodies = False\<rparr>,
      cf_proxies = [], cf_pools = [], cf_chains = [], cf_policies = [default_policy], cf_budgets = []\<rparr>)"

section \<open>The manager of revisions\<close>

record config_snapshot =
  cs_revision :: "64 word"
  cs_config :: config

definition new_config_manager :: "config_env \<Rightarrow> config \<Rightarrow> error + config_snapshot" where
  "new_config_manager env c = (case config_validate env c of Some e \<Rightarrow> Inl e
     | None \<Rightarrow> Inr \<lparr>cs_revision = 1, cs_config = c\<rparr>)"

definition apply_config :: "config_env \<Rightarrow> 64 word \<Rightarrow> config \<Rightarrow> config_snapshot \<Rightarrow>
    (error + config_snapshot) \<times> config_snapshot" where
  "apply_config env expected c m =
     (case config_validate env c of Some e \<Rightarrow> (Inl e, m)
      | None \<Rightarrow>
        if expected \<noteq> cs_revision m \<or> expected = - 1 then (Inl ConfigErrConflict, m)
        else let s = \<lparr>cs_revision = expected + 1, cs_config = c\<rparr> in (Inr s, s))"

end
