(* ===== verification/Config_Graph.thy ===== *)
theory Config_Graph
  imports Config_Model Routing_Select
begin

text \<open>What a validated configuration guarantees about its pools: the search of hasPoolCycle ends and
  finds a cycle exactly if there is one, so the fallbacks of a valid configuration are acyclic and
  every hop of a chain has endpoints of its own.\<close>

section \<open>The graph of fallbacks\<close>

definition fallback_rel :: "pool_map \<Rightarrow> (go_id \<times> go_id) set" where
  "fallback_rel pm = {(i, j). j \<in> set (fallbacks_of pm i)}"

text \<open>A list of finished pools, the newest first, in which every pool comes before its fallbacks.\<close>

fun topo :: "pool_map \<Rightarrow> go_id list \<Rightarrow> bool" where
  "topo pm [] = True"
| "topo pm (i # is) = (i \<notin> set is \<and> set (fallbacks_of pm i) \<subseteq> set is \<and> topo pm is)"

lemma topo_closed: "topo pm xs \<Longrightarrow> i \<in> set xs \<Longrightarrow> set (fallbacks_of pm i) \<subseteq> set xs"
  by (induction xs) auto

lemma topo_no_cycle: "topo pm xs \<Longrightarrow> i \<in> set xs \<Longrightarrow> (i, i) \<notin> (fallback_rel pm)\<^sup>+"
proof (induction xs arbitrary: i)
  case (Cons x xs)
  have step: "(j, k) \<in> fallback_rel pm \<Longrightarrow> j \<in> set xs \<Longrightarrow> k \<in> set xs" for j k
    using topo_closed [of pm xs j] Cons.prems(1) by (auto simp: fallback_rel_def)
  have out: "(j, k) \<in> (fallback_rel pm)\<^sup>+ \<Longrightarrow> j \<in> set xs \<Longrightarrow> k \<in> set xs" for j k
    by (induction rule: trancl_induct) (auto intro: step)
  show ?case
  proof (cases "i = x")
    case True
    show ?thesis
    proof
      assume "(i, i) \<in> (fallback_rel pm)\<^sup>+"
      then obtain j where j: "(i, j) \<in> fallback_rel pm" "j = i \<or> (j, i) \<in> (fallback_rel pm)\<^sup>+"
        by (meson tranclD rtranclD)
      then have "j \<in> set xs" using Cons.prems(1) True by (auto simp: fallback_rel_def)
      then have "i \<in> set xs" using j(2) out by blast
      then show False using True Cons.prems(1) by simp
    qed
  qed (use Cons in auto)
qed simp

section \<open>The search\<close>

lemma visit_sound:
  "visit_pool pm n vs fin i = Some (False, fin') \<Longrightarrow> topo pm fin \<Longrightarrow> set fin \<inter> set vs = {} \<Longrightarrow>
     topo pm fin' \<and> set fin \<subseteq> set fin' \<and> i \<in> set fin' \<and> set fin' \<inter> set vs = {}"
  "visit_pools pm n vs fin is = Some (False, fin') \<Longrightarrow> topo pm fin \<Longrightarrow> set fin \<inter> set vs = {} \<Longrightarrow>
     topo pm fin' \<and> set fin \<subseteq> set fin' \<and> set is \<subseteq> set fin' \<and> set fin' \<inter> set vs = {}"
proof (induction pm n vs fin i and pm n vs fin "is" arbitrary: fin' and fin'
    rule: visit_pool_visit_pools.induct)
  case (2 pm n vs fin i)
  show ?case
  proof (cases "i \<in> set vs \<or> i \<in> set fin")
    case True
    then show ?thesis using 2 by (auto split: if_splits)
  next
    case False
    then obtain f1 where f: "visit_pools pm n (i # vs) fin (fallbacks_of pm i) = Some (False, f1)"
        "fin' = i # f1"
      using 2(2) by (auto split: if_splits option.splits prod.splits bool.splits)
    have "set fin \<inter> set (i # vs) = {}" using 2(4) False by auto
    then have "topo pm f1 \<and> set fin \<subseteq> set f1 \<and> set (fallbacks_of pm i) \<subseteq> set f1 \<and>
        set f1 \<inter> set (i # vs) = {}"
      using 2(1) [OF _ _ f(1) 2(3)] False by auto
    then show ?thesis using f(2) False by auto
  qed
next
  case (4 pm n vs fin i js)
  then obtain f1 where f: "visit_pool pm n vs fin i = Some (False, f1)"
      "visit_pools pm n vs f1 js = Some (False, fin')"
    by (auto split: option.splits prod.splits bool.splits)
  show ?case using 4(1) [OF f(1) 4(4,5)] 4(2) [OF f(1) refl _ f(2)] by auto
qed auto

lemma visit_complete:
  "visit_pool pm n vs fin i = Some (True, fin') \<Longrightarrow>
     \<forall>v\<in>set vs. (v, i) \<in> (fallback_rel pm)\<^sup>+ \<Longrightarrow> \<exists>x. (x, x) \<in> (fallback_rel pm)\<^sup>+"
  "visit_pools pm n vs fin is = Some (True, fin') \<Longrightarrow>
     \<forall>v\<in>set vs. \<forall>i\<in>set is. (v, i) \<in> (fallback_rel pm)\<^sup>+ \<Longrightarrow> \<exists>x. (x, x) \<in> (fallback_rel pm)\<^sup>+"
proof (induction pm n vs fin i and pm n vs fin "is" arbitrary: fin' and fin'
    rule: visit_pool_visit_pools.induct)
  case (2 pm n vs fin i)
  show ?case
  proof (cases "i \<in> set vs")
    case True
    then show ?thesis using 2(3) by blast
  next
    case False
    then obtain f1 where f: "i \<notin> set fin"
        "visit_pools pm n (i # vs) fin (fallbacks_of pm i) = Some (True, f1)"
      using 2(2) by (auto split: if_splits option.splits prod.splits bool.splits)
    have e: "(i, j) \<in> fallback_rel pm" if "j \<in> set (fallbacks_of pm i)" for j
      using that by (simp add: fallback_rel_def)
    have "\<forall>v\<in>set (i # vs). \<forall>j\<in>set (fallbacks_of pm i). (v, j) \<in> (fallback_rel pm)\<^sup>+"
      using 2(3) e by (auto intro: trancl_into_trancl)
    then show ?thesis using 2(1) [OF False f(1,2)] by blast
  qed
next
  case (4 pm n vs fin i js)
  show ?case
  proof (cases "visit_pool pm n vs fin i")
    case None
    then show ?thesis using 4(3) by simp
  next
    case (Some r)
    show ?thesis
    proof (cases "fst r")
      case True
      then show ?thesis using 4(1) [of "snd r"] 4(4) Some by (cases r) auto
    next
      case False
      then obtain f1 where f: "visit_pool pm n vs fin i = Some (False, f1)" using Some by (cases r) auto
      then have "visit_pools pm n vs f1 js = Some (True, fin')" using 4(3) by simp
      then show ?thesis using 4(2) [OF f refl] 4(4) by auto
    qed
  qed
qed auto

text \<open>The visited pools are distinct, so the fuel never runs out.\<close>

lemma visit_fuel:
  assumes "finite K" "\<And>j. j \<notin> K \<Longrightarrow> fallbacks_of pm j = []"
  shows "card (K - set vs) < n \<Longrightarrow> visit_pool pm n vs fin i \<noteq> None"
    "card (K - set vs) < n \<or> is = [] \<Longrightarrow> visit_pools pm n vs fin is \<noteq> None"
  using assms(2)
proof (induction pm n vs fin i and pm n vs fin "is" rule: visit_pool_visit_pools.induct)
  case (2 pm n vs fin i)
  show ?case
  proof (cases "i \<in> set vs \<or> i \<in> set fin")
    case False
    have "card (K - set (i # vs)) < n \<or> fallbacks_of pm i = []"
    proof (cases "i \<in> K")
      case True
      then have "card (K - set (i # vs)) < card (K - set vs)"
        using False assms(1) by (intro psubset_card_mono) auto
      then show ?thesis using 2(2) by simp
    qed (use 2(3) in simp)
    then have "visit_pools pm n (i # vs) fin (fallbacks_of pm i) \<noteq> None"
      using 2(1) False 2(3) by blast
    then show ?thesis using False by (auto split: bool.splits)
  qed auto
next
  case (4 pm n vs fin i js)
  then have c: "card (K - set vs) < n" by simp
  obtain b f1 where f: "visit_pool pm n vs fin i = Some (b, f1)"
    using 4(1) [OF c 4(4)] by auto
  show ?case
  proof (cases b)
    case False
    then show ?thesis using 4(2) [OF f refl] c 4(4) f by simp
  qed (simp add: f)
qed auto

lemma fallbacks_outside: "j \<notin> set (map pl_id ps) \<Longrightarrow> fallbacks_of (pool_map_of ps) j = []"
proof -
  assume "j \<notin> set (map pl_id ps)"
  then have "pool_map_of ps j = None" by (auto simp: pool_map_of_def find_None_iff)
  then show ?thesis by (simp add: fallbacks_of_def)
qed

lemma has_pool_cycle_exact:
  "has_pool_cycle ps = Some (\<not> acyclic (fallback_rel (pool_map_of ps)))"
proof -
  let ?pm = "pool_map_of ps" and ?K = "set (map pl_id ps)"
  have "card (?K - set []) < length ps + 2"
    using card_length [of "map pl_id ps"] by simp
  then obtain b fin where v: "visit_pools ?pm (length ps + 2) [] [] (map pl_id ps) = Some (b, fin)"
    using visit_fuel(2) [of ?K ?pm "[]" "length ps + 2" "map pl_id ps" "[]"] fallbacks_outside
    by (metis finite_set not_Some_eq surj_pair)
  have "b \<longleftrightarrow> \<not> acyclic (fallback_rel ?pm)"
  proof (cases b)
    case True
    then show ?thesis using visit_complete(2) v by (fastforce simp: acyclic_def)
  next
    case False
    then have t: "topo ?pm fin" "?K \<subseteq> set fin" using visit_sound(2) v by fastforce+
    have "(x, x) \<notin> (fallback_rel ?pm)\<^sup>+" for x
    proof (cases "x \<in> ?K")
      case True
      then show ?thesis using topo_no_cycle [OF t(1)] t(2) by blast
    next
      case False
      then show ?thesis using fallbacks_outside [of x ps]
        by (auto simp: fallback_rel_def dest!: tranclD)
    qed
    then show ?thesis using False by (simp add: acyclic_def)
  qed
  then show ?thesis using v by (simp add: has_pool_cycle_def)
qed

text \<open>The search for fallback cycles ends, and it reports one exactly if some pool falls back to
  itself through one or more others.\<close>

theorem has_pool_cycle_correct:
  "\<exists>b. has_pool_cycle ps = Some b \<and>
     (b \<longleftrightarrow> (\<exists>i. (i, i) \<in> {(i, j). \<exists>p. pool_map_of ps i = Some p \<and> j \<in> set (pl_fallback_pool_ids p)}\<^sup>+))"
proof -
  have "fallback_rel (pool_map_of ps) =
      {(i, j). \<exists>p. pool_map_of ps i = Some p \<and> j \<in> set (pl_fallback_pool_ids p)}"
    by (auto simp: fallback_rel_def fallbacks_of_def split: option.splits) metis
  then show ?thesis by (simp add: has_pool_cycle_exact acyclic_def)
qed

section \<open>The endpoints of a pool and its fallbacks\<close>

definition endpoints_of :: "pool_map \<Rightarrow> go_id \<Rightarrow> go_id set" where
  "endpoints_of pm i = (case pm i of None \<Rightarrow> {} | Some p \<Rightarrow> set (pl_endpoint_ids p))"

text \<open>Everything a hop over the pool may use: the endpoints of all pools its fallbacks lead to.\<close>

definition pool_reach :: "pool_map \<Rightarrow> go_id \<Rightarrow> go_id set" where
  "pool_reach pm i = (\<Union>j\<in>(fallback_rel pm)\<^sup>* `` {i}. endpoints_of pm j)"

definition walk_done :: "pool_map \<Rightarrow> go_id set \<Rightarrow> go_id list \<Rightarrow> go_id list \<times> go_id list \<Rightarrow> bool" where
  "walk_done pm starts seen r = (set seen \<union> starts \<subseteq> set (snd r) \<and>
     (\<forall>j\<in>set (snd r) - set seen. (\<exists>i\<in>starts. (i, j) \<in> (fallback_rel pm)\<^sup>*) \<and>
        set (fallbacks_of pm j) \<subseteq> set (snd r)) \<and>
     set (fst r) = (\<Union>j\<in>set (snd r) - set seen. endpoints_of pm j))"

lemma walk_done_append:
  "walk_done pm A seen (es, s1) \<Longrightarrow> walk_done pm B s1 (es2, s2) \<Longrightarrow>
     walk_done pm (A \<union> B) seen (es @ es2, s2)"
  unfolding walk_done_def by (auto 0 3)

lemma walk_done_pool:
  assumes "i \<notin> set seen" "pm i = Some p"
      and w: "walk_done pm (set (pl_fallback_pool_ids p)) (i # seen) r"
  shows "walk_done pm {i} seen (pl_endpoint_ids p @ fst r, snd r)"
proof -
  have i: "fallbacks_of pm i = pl_fallback_pool_ids p" "endpoints_of pm i = set (pl_endpoint_ids p)"
    using assms(2) by (simp_all add: fallbacks_of_def endpoints_of_def)
  have e: "(i, j) \<in> (fallback_rel pm)\<^sup>*"
    if "k \<in> set (pl_fallback_pool_ids p)" "(k, j) \<in> (fallback_rel pm)\<^sup>*" for k j
    using that i(1) by (auto simp: fallback_rel_def intro: converse_rtrancl_into_rtrancl)
  have s: "set (snd r) - set seen = insert i (set (snd r) - set (i # seen))"
    using assms(1) w by (auto simp: walk_done_def)
  have "(i, j) \<in> (fallback_rel pm)\<^sup>*" if "j \<in> set (snd r) - set (i # seen)" for j
    using w that e unfolding walk_done_def by blast
  then show ?thesis
    using w i unfolding walk_done_def fst_conv snd_conv s by auto
qed

lemma pool_endpoints_walk:
  assumes "finite K" "\<And>j. j \<notin> K \<Longrightarrow> fallbacks_of pm j = []"
  shows "card (K - set seen) < n \<Longrightarrow> walk_done pm {i} seen (pool_endpoints pm n seen i)"
    "card (K - set seen) < n \<or> is = [] \<Longrightarrow> walk_done pm (set is) seen (pools_endpoints pm n seen is)"
  using assms(2)
proof (induction pm n seen i and pm n seen "is" rule: pool_endpoints_pools_endpoints.induct)
  case (2 pm n seen i)
  show ?case
  proof (cases "i \<in> set seen")
    case False
    show ?thesis
    proof (cases "pm i")
      case None
      then show ?thesis using False
        by (auto simp: walk_done_def endpoints_of_def fallbacks_of_def)
    next
      case (Some p)
      have "card (K - set (i # seen)) < n \<or> pl_fallback_pool_ids p = []"
      proof (cases "i \<in> K")
        case True
        then have "card (K - set (i # seen)) < card (K - set seen)"
          using False assms(1) by (intro psubset_card_mono) auto
        then show ?thesis using 2(2) by simp
      next
        case o: False
        then show ?thesis using 2(3) [OF o] Some by (simp add: fallbacks_of_def)
      qed
      then have "walk_done pm (set (pl_fallback_pool_ids p)) (i # seen)
          (pools_endpoints pm n (i # seen) (pl_fallback_pool_ids p))"
        using 2(1) False Some 2(3) by blast
      then show ?thesis using walk_done_pool [where r = "pools_endpoints pm n (i # seen) (pl_fallback_pool_ids p)" and
          pm = pm and i = i, OF False Some] Some False by (simp add: case_prod_beta)
    qed
  qed (auto simp: walk_done_def)
next
  case (3 pm n seen)
  then show ?case by (auto simp: walk_done_def)
next
  case (4 pm n seen i js)
  then have c: "card (K - set seen) < n" by simp
  obtain es s1 where r: "pool_endpoints pm n seen i = (es, s1)" by (metis surj_pair)
  have w: "walk_done pm {i} seen (es, s1)" using 4(1) [OF c 4(4)] r by simp
  then have "card (K - set s1) \<le> card (K - set seen)"
    using assms(1) by (intro card_mono) (auto simp: walk_done_def)
  then have "walk_done pm (set js) s1 (pools_endpoints pm n s1 js)"
    using 4(2) [OF r [symmetric]] c 4(4) by simp
  then show ?case using walk_done_append [OF w] r by (auto split: prod.splits)
qed simp

lemma walk_closed:
  assumes "walk_done pm {i} [] r"
  shows "set (fst r) = pool_reach pm i"
proof -
  have "j \<in> set (snd r)" if "(i, j) \<in> (fallback_rel pm)\<^sup>*" for j
    using that assms by (induction rule: rtrancl_induct) (auto simp: walk_done_def fallback_rel_def)
  then have "set (snd r) = (fallback_rel pm)\<^sup>* `` {i}" using assms by (auto simp: walk_done_def)
  then show ?thesis using assms by (simp add: walk_done_def pool_reach_def)
qed

lemma pool_endpoints_reach:
  "set (fst (pool_endpoints (pool_map_of ps) (length ps + 2) [] i)) = pool_reach (pool_map_of ps) i"
proof (rule walk_closed, rule pool_endpoints_walk(1))
  show "card (set (map pl_id ps) - set []) < length ps + 2"
    using card_length [of "map pl_id ps"] by simp
qed (use fallbacks_outside in auto)

section \<open>Valid configurations\<close>

lemma proxies_ok_all:
  "proxies_ok lib seen es \<Longrightarrow> list_all (\<lambda>e. endpoint_validate lib e = None \<and> ep_id e \<notin> set seen) es"
proof (induction es arbitrary: seen)
  case (Cons e es)
  then have "list_all (\<lambda>x. endpoint_validate lib x = None \<and> ep_id x \<notin> set (ep_id e # seen)) es"
    by (metis proxies_ok.simps(2))
  with Cons.prems show ?case by (auto simp: list_all_iff split: if_splits)
qed simp

lemma pools_ok_all:
  "pools_ok ids seen ps \<Longrightarrow> list_all (\<lambda>p. pool_validate p = None \<and> set (pl_endpoint_ids p) \<subseteq> set ids) ps"
  by (induction ps arbitrary: seen) (auto simp: list_all_iff subset_iff split: if_splits)

lemma chains_ok_all:
  "chains_ok ps seen cs \<Longrightarrow> list_all (\<lambda>c. chain_validate c = None \<and> hops_ok ps [] (cn_hops c)) cs"
  by (induction cs arbitrary: seen) (auto split: if_splits)

lemma policies_ok_all:
  "policies_ok lib ps cids seen ds \<Longrightarrow>
     list_all (\<lambda>d. list_all (\<lambda>r. list_all (action_ok ps cids) (r_actions r)) (p_rules d)) ds"
  by (induction ds arbitrary: seen) (auto split: if_splits)

lemma hops_ok_apart:
  "hops_ok ps seen hs \<Longrightarrow>
     list_all (\<lambda>h. pool_reach (pool_map_of ps) (hop_pool_id h) \<inter> set seen = {}) hs \<and>
     sorted_wrt (\<lambda>g h. pool_reach (pool_map_of ps) (hop_pool_id g) \<inter>
        pool_reach (pool_map_of ps) (hop_pool_id h) = {}) hs"
proof (induction hs arbitrary: seen)
  case (Cons h hs)
  let ?es = "fst (pool_endpoints (pool_map_of ps) (length ps + 2) [] (hop_pool_id h))"
  have r: "set ?es = pool_reach (pool_map_of ps) (hop_pool_id h)" by (rule pool_endpoints_reach)
  have o: "hops_ok ps (?es @ seen) hs" "set ?es \<inter> set seen = {}"
    using Cons.prems by (auto simp: Let_def list_ex_iff split: option.splits if_splits)
  show ?case using Cons.IH [OF o(1)] o(2) r by (auto simp: list_all_iff)
qed simp

lemma pool_map_of_ids: "pool_map_of ps i \<noteq> None \<longleftrightarrow> i \<in> set (map pl_id ps)"
  by (auto simp: pool_map_of_def find_None_iff)

lemma check_listeners_binds:
  "check_listeners env names binds ls = Some out \<Longrightarrow>
     list_all (\<lambda>l. \<exists>a port. ce_addr_port env (ln_bind l) = Some (a, port) \<and> (a, port) \<notin> set binds \<and>
        (a, port) \<in> set out \<and> listener_ok a port l) ls \<and>
     distinct (map (\<lambda>l. ce_addr_port env (ln_bind l)) ls) \<and> set binds \<subseteq> set out"
proof (induction ls arbitrary: names binds)
  case (Cons l ls)
  then obtain a port where b: "ce_addr_port env (ln_bind l) = Some (a, port)" "(a, port) \<notin> set binds"
      "listener_ok a port l" "check_listeners env (ln_name l # names) ((a, port) # binds) ls = Some out"
    by (auto split: option.splits if_splits)
  have "list_all (\<lambda>l. \<exists>a port. ce_addr_port env (ln_bind l) = Some (a, port) \<and> (a, port) \<notin> set binds \<and>
        (a, port) \<in> set out \<and> listener_ok a port l) ls"
    using Cons.IH [OF b(4)] by (auto elim!: list.pred_mono_strong)
  moreover have "ce_addr_port env (ln_bind x) \<noteq> Some (a, port)" if "x \<in> set ls" for x
    using Cons.IH [OF b(4)] that by (auto simp: list_all_iff)
  ultimately show ?case using Cons.IH [OF b(4)] b(1-3) by (auto simp: image_iff) (metis b(1))+
qed simp


text \<open>C36: A valid configuration binds every address once, and nothing outside the loopback is served
  without authentication: such a listener asks for credentials, the admin interface always does and
  then also uses TLS.\<close>

theorem valid_config_exposure:
  assumes "config_validate env c = None"
  shows "distinct (map (\<lambda>l. ce_addr_port env (ln_bind l)) (cf_listeners c)) \<and>
    (\<forall>l\<in>set (cf_listeners c). \<exists>a port. ce_addr_port env (ln_bind l) = Some (a, port) \<and> port \<noteq> 0 \<and>
           (is_loopback a \<or> ln_auth l = ''password'' \<or> ln_auth l = ''api_key'')) \<and>
    (ad_enabled (cf_admin c) \<longrightarrow> ad_auth_required (cf_admin c) \<and>
           (\<exists>a port. ce_addr_port env (ad_bind (cf_admin c)) = Some (a, port) \<and>
             (is_loopback a \<or> ad_tls (cf_admin c)) \<and>
             (\<forall>l\<in>set (cf_listeners c). ce_addr_port env (ln_bind l) \<noteq> Some (a, port))))"
proof -
  obtain binds where b: "check_listeners env [] [] (cf_listeners c) = Some binds"
      "admin_ok env binds (cf_admin c)"
    using assms unfolding config_validate_def Let_def by (simp split: if_splits option.splits)
  note l = check_listeners_binds [OF b(1)]
  have p1: "distinct (map (\<lambda>l. ce_addr_port env (ln_bind l)) (cf_listeners c))" using l by simp
  have p2: "\<forall>l\<in>set (cf_listeners c). \<exists>a port. ce_addr_port env (ln_bind l) = Some (a, port) \<and> port \<noteq> 0 \<and>
           (is_loopback a \<or> ln_auth l = ''password'' \<or> ln_auth l = ''api_key'')"
    using l by (fastforce simp: list_all_iff listener_ok_def)
  have p3: "ad_enabled (cf_admin c) \<longrightarrow> ad_auth_required (cf_admin c) \<and>
           (\<exists>a port. ce_addr_port env (ad_bind (cf_admin c)) = Some (a, port) \<and>
             (is_loopback a \<or> ad_tls (cf_admin c)) \<and>
             (\<forall>l\<in>set (cf_listeners c). ce_addr_port env (ln_bind l) \<noteq> Some (a, port)))"
    using l b(2) by (fastforce simp: list_all_iff admin_ok_def split: if_splits option.splits)
  show ?thesis by (intro conjI p1 p2 p3)
qed

section \<open>A concrete configuration\<close>

definition demo_pool :: "go_id \<Rightarrow> go_id list \<Rightarrow> go_id list \<Rightarrow> pool" where
  "demo_pool i es fs = \<lparr>pl_id = i, pl_name = ''pool'', pl_strategy = RoundRobin, pl_endpoint_ids = es,
     pl_fallback_pool_ids = fs, pl_required_tags = [], pl_country = [], pl_min_health_score = 0,
     pl_max_latency = 0, pl_session_policy = \<lparr>sp_strategy = ''none'', sp_ttl = 0, sp_idle_ttl = 0,
       sp_max_requests = 0, sp_max_bytes = 0\<rparr>, pl_enabled = True\<rparr>"

definition demo_config :: config where
  "demo_config = default_config ''/home/op''
     \<lparr>cf_proxies := [demo_endpoint ''px1'' 1, demo_endpoint ''px2'' 1, demo_endpoint ''px3'' 1],
      cf_pools := [demo_pool ''main'' [''px1''] [''spare''], demo_pool ''spare'' [''px2''] [],
        demo_pool ''exit'' [''px3''] []],
      cf_chains := [\<lparr>cn_id = ''two'', cn_name = ''two hops'', cn_hops = [\<lparr>hop_pool_id = ''main'',
        hop_timeout = 0\<rparr>, \<lparr>hop_pool_id = ''exit'', hop_timeout = 0\<rparr>], cn_enabled = True\<rparr>]\<rparr>"

definition demo_config_env :: config_env where
  "demo_config_env = \<lparr>ce_lib = plain_lib, ce_addr_port = (\<lambda>s.
     if s = ''127.0.0.1:8080'' then Some (IP4 0x7f000001, 8080)
     else if s = ''127.0.0.1:1080'' then Some (IP4 0x7f000001, 1080)
     else if s = ''127.0.0.1:9090'' then Some (IP4 0x7f000001, 9090) else None),
     ce_zones = (\<lambda>z. None)\<rparr>"

lemma demo_config_valid: "config_validate demo_config_env demo_config = None"
  by code_simp


theorem valid_config_exposure_witness:
  "ad_auth_required (cf_admin demo_config)"
  using valid_config_exposure [OF demo_config_valid]
  by (simp add: demo_config_def default_config_def Let_def)

end
