(* ===== verification/Gateway_Select.thy ===== *)
theory Gateway_Select
  imports Config_Graph Health_Manager Budget_Manager
begin

text \<open>The choice of an endpoint in internal/app/gateway.go: the snapshot a request is routed with
  (runtime_routing.go), the candidates of a pool, the walk over its fallbacks and the pool a chosen
  endpoint is charged to.\<close>

section \<open>Snapshots\<close>

record runtime_bundle =
  rb_proxies :: "endpoint list"
  rb_pools :: "pool list"
  rb_chains :: "chain list"
  rb_policies :: "policy list"

text \<open>The maps of routingSnapshot are lookups in the lists of the bundle; the selectors, which the
  requests share and change, are kept with the rest of the state.\<close>

record routing_snapshot =
  sn_revision :: int
  sn_bundle :: runtime_bundle

definition sn_pool :: "routing_snapshot \<Rightarrow> pool_map" where
  "sn_pool sn = pool_map_of (rb_pools (sn_bundle sn))"

definition sn_chain :: "routing_snapshot \<Rightarrow> go_id \<Rightarrow> chain option" where
  "sn_chain sn i = List.find (\<lambda>c. cn_id c = i) (rb_chains (sn_bundle sn))"

definition sn_document :: "routing_snapshot \<Rightarrow> go_id \<Rightarrow> policy option" where
  "sn_document sn i = List.find (\<lambda>p. p_id p = i) (rb_policies (sn_bundle sn))"

definition sn_lookup :: "routing_snapshot \<Rightarrow> go_id \<Rightarrow> endpoint option" where
  "sn_lookup sn i = List.find (\<lambda>e. ep_id e = i) (rb_proxies (sn_bundle sn))"

definition zero_endpoint :: endpoint where
  "zero_endpoint = \<lparr>ep_id = [], ep_name = [], ep_protocol = [], ep_host = [], ep_port = 0,
     ep_credential_ref = [], ep_provider_id = [], ep_source_id = [], ep_tags = [], ep_country = [],
     ep_weight = 0, ep_priority = 0, ep_enabled = False, ep_trusted_remote_dns = False, ep_rate = None,
     ep_created_at = 0, ep_updated_at = 0, ep_metadata = []\<rparr>"

text \<open>Indexing the map of endpoints yields the zero value for a missing key.\<close>

definition sn_endpoint :: "routing_snapshot \<Rightarrow> go_id \<Rightarrow> endpoint" where
  "sn_endpoint sn i = (case sn_lookup sn i of None \<Rightarrow> zero_endpoint | Some e \<Rightarrow> e)"

section \<open>Candidates\<close>

definition matches_pool :: "endpoint \<Rightarrow> pool \<Rightarrow> bool" where
  "matches_pool e p =
     (if pl_country p \<noteq> [] \<and> \<not> equal_fold (ep_country e) (pl_country p) then False
      else list_all (\<lambda>t. t \<in> set (ep_tags e)) (pl_required_tags p))"

definition endpoint_eligible_for_pool :: "endpoint \<Rightarrow> pool \<Rightarrow> health_snapshot \<Rightarrow> bool" where
  "endpoint_eligible_for_pool e p h = (matches_pool e p \<and>
     (hs_state h = HUnknown \<or> pl_min_health_score p = 0 \<or> hs_score h \<ge> pl_min_health_score p) \<and>
     (hs_latency h = 0 \<or> pl_max_latency p = 0 \<or> hs_latency h \<le> pl_max_latency p))"

text \<open>What a selection reads from outside: the clock and crypto/rand once for each pool it visits,
  the clock of the budgets once for each endpoint, and the error of the context.\<close>

record readings =
  rd_now :: "go_id \<Rightarrow> go_time"
  rd_random :: "go_id \<Rightarrow> 64 word option"
  rd_reserve :: "go_id \<Rightarrow> go_id \<Rightarrow> go_time"
  rd_err :: "error option"

record 'b select_env =
  se_lib :: go_lib
  se_budget :: "'b budget_env"

text \<open>Health, budgets (none configured: None) and the selector of every strategy.\<close>

record 'b select_state =
  st_health :: health_manager
  st_budgets :: "'b budget_manager option"
  st_selectors :: "strategy \<Rightarrow> selector"

definition budget_admits :: "'b select_env \<Rightarrow> readings \<Rightarrow> 'b budget_manager option \<Rightarrow> go_id \<Rightarrow> go_id \<Rightarrow> bool" where
  "budget_admits env rd bm pool_id i = (case bm of None \<Rightarrow> True
     | Some m \<Rightarrow> let ids = route_ids pool_id i m in
         ids = [] \<or> can_reserve (se_budget env) (rd_err rd) (rd_reserve rd pool_id i) ids 1 m = None)"

fun gather :: "'b select_env \<Rightarrow> readings \<Rightarrow> routing_snapshot \<Rightarrow> go_id list \<Rightarrow> pool \<Rightarrow> go_id \<Rightarrow> go_id list \<Rightarrow>
    'b select_state \<Rightarrow> candidate list \<times> 'b select_state" where
  "gather env rd sn excluded p pid [] s = ([], s)"
| "gather env rd sn excluded p pid (i # is) s =
     (let e = sn_endpoint sn i;
          ((h, eligible), hm) = eligible_snapshot (ep_id e) (rd_now rd pid) (st_health s);
          (cs, s1) = gather env rd sn excluded p pid is (s\<lparr>st_health := hm\<rparr>) in
      if \<not> ep_enabled e \<or> ep_id e \<in> set excluded \<or> \<not> eligible \<or> \<not> endpoint_eligible_for_pool e p h
      then (cs, s1)
      else if \<not> budget_admits env rd (st_budgets s) pid (ep_id e) then (cs, s1)
      else (\<lparr>cd_endpoint = e, cd_active_connections = hs_active_connections h, cd_health_score = hs_score h,
              cd_latency = hs_latency h, cd_traffic = 0\<rparr> # cs, s1))"

section \<open>The walk over a pool and its fallbacks\<close>

definition pool_context :: "request_context \<Rightarrow> go_id \<Rightarrow> selection_context" where
  "pool_context q pid = \<lparr>sc_client_id = q_client_id q, sc_pool_id = pid, sc_session_key = q_session_key q,
     sc_host = q_host q\<rparr>"

text \<open>The attempt in one pool: None is no choice.\<close>

definition try_pool :: "'b select_env \<Rightarrow> readings \<Rightarrow> routing_snapshot \<Rightarrow> request_context \<Rightarrow> go_id list \<Rightarrow>
    go_id \<Rightarrow> pool \<Rightarrow> 'b select_state \<Rightarrow> go_id option \<times> 'b select_state" where
  "try_pool env rd sn q excluded pid p s =
     (case gather env rd sn excluded p pid (pl_endpoint_ids p) s of (cs, s1) \<Rightarrow>
        if cs = [] then (None, s1)
        else case select (se_lib env) (rd_err rd) (rd_random rd pid) (st_selectors s1 (pl_strategy p))
            (pool_context q pid) cs of
          (r, sel) \<Rightarrow> ((case r of Inl _ \<Rightarrow> None | Inr c \<Rightarrow> Some c),
            s1\<lparr>st_selectors := (st_selectors s1)(pl_strategy p := sel)\<rparr>))"

fun select_pool :: "'b select_env \<Rightarrow> readings \<Rightarrow> routing_snapshot \<Rightarrow> request_context \<Rightarrow> go_id list \<Rightarrow>
    nat \<Rightarrow> go_id list \<Rightarrow> go_id \<Rightarrow> 'b select_state \<Rightarrow> endpoint option \<times> go_id list \<times> 'b select_state"
and select_pools :: "'b select_env \<Rightarrow> readings \<Rightarrow> routing_snapshot \<Rightarrow> request_context \<Rightarrow> go_id list \<Rightarrow>
    nat \<Rightarrow> go_id list \<Rightarrow> go_id list \<Rightarrow> 'b select_state \<Rightarrow> endpoint option \<times> go_id list \<times> 'b select_state" where
  "select_pool env rd sn q excluded 0 seen pid s = (None, seen, s)"
| "select_pool env rd sn q excluded (Suc n) seen pid s =
     (if pid \<in> set seen then (None, seen, s)
      else case sn_pool sn pid of None \<Rightarrow> (None, pid # seen, s)
      | Some p \<Rightarrow>
         if \<not> pl_enabled p then (None, pid # seen, s)
         else (case try_pool env rd sn q excluded pid p s of
             (Some c, s1) \<Rightarrow> (Some (sn_endpoint sn c), pid # seen, s1)
           | (None, s1) \<Rightarrow> select_pools env rd sn q excluded n (pid # seen) (pl_fallback_pool_ids p) s1))"
| "select_pools env rd sn q excluded n seen [] s = (None, seen, s)"
| "select_pools env rd sn q excluded n seen (pid # ids) s =
     (case select_pool env rd sn q excluded n seen pid s of
        (Some e, seen1, s1) \<Rightarrow> (Some e, seen1, s1)
      | (None, seen1, s1) \<Rightarrow> select_pools env rd sn q excluded n seen1 ids s1)"

definition walk_fuel :: "routing_snapshot \<Rightarrow> nat" where
  "walk_fuel sn = length (rb_pools (sn_bundle sn)) + 2"

definition select_endpoint_excluding :: "'b select_env \<Rightarrow> readings \<Rightarrow> go_id \<Rightarrow> request_context \<Rightarrow>
    routing_snapshot \<Rightarrow> go_id list \<Rightarrow> 'b select_state \<Rightarrow> (error + endpoint) \<times> 'b select_state" where
  "select_endpoint_excluding env rd pool_id q sn excluded s =
     (case select_pool env rd sn q excluded (walk_fuel sn) [] pool_id s of
        (r, _, s1) \<Rightarrow> ((case r of None \<Rightarrow> Inl PoolUnavailable | Some e \<Rightarrow> Inr e), s1))"

section \<open>The pool an endpoint is charged to\<close>

fun find_pool :: "routing_snapshot \<Rightarrow> go_id \<Rightarrow> nat \<Rightarrow> go_id list \<Rightarrow> go_id \<Rightarrow> go_id option \<times> go_id list"
and find_pools :: "routing_snapshot \<Rightarrow> go_id \<Rightarrow> nat \<Rightarrow> go_id list \<Rightarrow> go_id list \<Rightarrow> go_id option \<times> go_id list" where
  "find_pool sn e 0 seen pid = (None, seen)"
| "find_pool sn e (Suc n) seen pid =
     (if pid \<in> set seen then (None, seen)
      else case sn_pool sn pid of None \<Rightarrow> (None, pid # seen)
      | Some p \<Rightarrow>
         if \<not> pl_enabled p then (None, pid # seen)
         else if list_ex (\<lambda>c. c = e \<and> matches_pool (sn_endpoint sn e) p) (pl_endpoint_ids p)
         then (Some pid, pid # seen)
         else find_pools sn e n (pid # seen) (pl_fallback_pool_ids p))"
| "find_pools sn e n seen [] = (None, seen)"
| "find_pools sn e n seen (pid # ids) =
     (case find_pool sn e n seen pid of
        (Some i, seen1) \<Rightarrow> (Some i, seen1)
      | (None, seen1) \<Rightarrow> find_pools sn e n seen1 ids)"

definition endpoint_pool :: "go_id \<Rightarrow> go_id \<Rightarrow> routing_snapshot \<Rightarrow> go_id option" where
  "endpoint_pool root_id e sn = fst (find_pool sn e (walk_fuel sn) [] root_id)"

end
