(* ===== verification/Pool_Walk.thy ===== *)
theory Pool_Walk
  imports Config_Graph
begin

text \<open>The contract of the searches over a pool and its fallbacks in internal/app/gateway.go
  (selectEndpointExcluding and endpointPool): a pool is asked at most once, a disabled or missing pool
  never, its fallbacks in their order, and the first answer ends the search.  Both searches are
  interpretations of the locale in Gateway_Walks.\<close>

definition enabled_rel :: "pool_map \<Rightarrow> (go_id \<times> go_id) set" where
  "enabled_rel pm = {(i, j). \<exists>p. pm i = Some p \<and> pl_enabled p \<and> j \<in> set (pl_fallback_pool_ids p)}"

locale pool_walk =
  fixes pm :: pool_map
    and attempt :: "go_id \<Rightarrow> pool \<Rightarrow> 's \<Rightarrow> 'r option \<times> 's"
    and walk :: "nat \<Rightarrow> go_id list \<Rightarrow> go_id \<Rightarrow> 's \<Rightarrow> 'r option \<times> go_id list \<times> 's"
    and walks :: "nat \<Rightarrow> go_id list \<Rightarrow> go_id list \<Rightarrow> 's \<Rightarrow> 'r option \<times> go_id list \<times> 's"
  assumes walk_seen: "i \<in> set seen \<Longrightarrow> walk (Suc n) seen i s = (None, seen, s)"
    and walk_closed: "i \<notin> set seen \<Longrightarrow> (\<And>p. pm i = Some p \<Longrightarrow> \<not> pl_enabled p) \<Longrightarrow>
        walk (Suc n) seen i s = (None, i # seen, s)"
    and walk_open: "i \<notin> set seen \<Longrightarrow> pm i = Some p \<Longrightarrow> pl_enabled p \<Longrightarrow>
        walk (Suc n) seen i s = (case attempt i p s of
            (Some x, s1) \<Rightarrow> (Some x, i # seen, s1)
          | (None, s1) \<Rightarrow> walks n (i # seen) (pl_fallback_pool_ids p) s1)"
    and walks_Nil: "walks n seen [] s = (None, seen, s)"
    and walks_Cons: "walks n seen (i # is) s = (case walk n seen i s of
            (Some x, seen1, s1) \<Rightarrow> (Some x, seen1, s1)
          | (None, seen1, s1) \<Rightarrow> walks n seen1 is s1)"
begin

text \<open>What a search from the given pools may leave behind; keep holds of the state throughout, no
  says that a pool has no answer and yes that an answer is right.\<close>

definition walked :: "('s \<Rightarrow> bool) \<Rightarrow> (go_id \<Rightarrow> pool \<Rightarrow> bool) \<Rightarrow> (go_id \<Rightarrow> pool \<Rightarrow> 'r \<Rightarrow> bool) \<Rightarrow>
    go_id set \<Rightarrow> go_id list \<Rightarrow> 'r option \<times> go_id list \<times> 's \<Rightarrow> bool" where
  "walked keep no yes starts seen r = (keep (snd (snd r)) \<and> set seen \<subseteq> set (fst (snd r)) \<and>
     (case fst r of
        Some x \<Rightarrow> \<exists>i\<in>starts. \<exists>j p. (i, j) \<in> (enabled_rel pm)\<^sup>* \<and> pm j = Some p \<and> pl_enabled p \<and> yes j p x
      | None \<Rightarrow> starts \<subseteq> set (fst (snd r)) \<and> (\<forall>j\<in>set (fst (snd r)) - set seen. \<forall>p.
          pm j = Some p \<longrightarrow> pl_enabled p \<longrightarrow>
            no j p \<and> set (pl_fallback_pool_ids p) \<subseteq> set (fst (snd r)))))"

lemma walked_then:
  assumes "walked keep no yes A seen (None, s1, t1)" "walked keep no yes B s1 r"
  shows "walked keep no yes (A \<union> B) seen r"
  using assms unfolding walked_def by (auto split: option.splits) (blast+)

lemma walked_more:
  assumes "walked keep no yes A seen (Some x, s1, t1)"
  shows "walked keep no yes (A \<union> B) seen (Some x, s1, t1)"
  using assms unfolding walked_def by auto

lemma walked_open:
  assumes p: "pm i = Some p" "pl_enabled p" "i \<notin> set seen" "no i p"
      and w: "walked keep no yes (set (pl_fallback_pool_ids p)) (i # seen) r"
  shows "walked keep no yes {i} seen r"
proof (cases "fst r")
  case None
  have "no j q \<and> set (pl_fallback_pool_ids q) \<subseteq> set (fst (snd r))"
    if "j \<in> set (fst (snd r)) - set seen" "pm j = Some q" "pl_enabled q" for j q
  proof (cases "j = i")
    case False
    have b: "\<forall>j\<in>set (fst (snd r)) - set (i # seen). \<forall>p. pm j = Some p \<longrightarrow> pl_enabled p \<longrightarrow>
        no j p \<and> set (pl_fallback_pool_ids p) \<subseteq> set (fst (snd r))"
      using w None by (simp add: walked_def)
    show ?thesis using b [rule_format, of j q] that False by simp
  qed (use w p that None in \<open>simp add: walked_def\<close>)
  then show ?thesis using w None by (simp add: walked_def)
next
  case (Some x)
  then obtain k j q where j: "k \<in> set (pl_fallback_pool_ids p)" "(k, j) \<in> (enabled_rel pm)\<^sup>*"
      "pm j = Some q" "pl_enabled q" "yes j q x"
    using w by (auto simp: walked_def)
  then have "(i, j) \<in> (enabled_rel pm)\<^sup>*"
    using p by (auto simp: enabled_rel_def intro: converse_rtrancl_into_rtrancl)
  then show ?thesis using w j Some by (auto simp: walked_def)
qed

lemma walk_walked:
  assumes K: "finite K" "\<And>j. pm j \<noteq> None \<Longrightarrow> j \<in> K"
      and a: "\<And>i p s r s1. keep s \<Longrightarrow> pm i = Some p \<Longrightarrow> pl_enabled p \<Longrightarrow> attempt i p s = (r, s1) \<Longrightarrow>
        keep s1 \<and> (case r of None \<Rightarrow> no i p | Some x \<Rightarrow> yes i p x)"
  shows "keep s \<Longrightarrow> card (K - set seen) < n \<Longrightarrow> walked keep no yes {i} seen (walk n seen i s)"
    and "keep s \<Longrightarrow> card (K - set seen) < n \<Longrightarrow> walked keep no yes (set is) seen (walks n seen is s)"
proof -
  have step: "walked keep no yes {i} seen (walk (Suc n) seen i s)"
    if IH: "\<And>seen is s. keep s \<Longrightarrow> card (K - set seen) < n \<or> is = [] \<Longrightarrow>
          walked keep no yes (set is) seen (walks n seen is s)"
      and s: "keep s" and c: "card (K - set seen) < Suc n" for n seen i s
  proof (cases "i \<in> set seen \<or> (\<forall>p. pm i = Some p \<longrightarrow> \<not> pl_enabled p)")
    case True
    then show ?thesis using s
      by (cases "i \<in> set seen") (auto simp: walked_def walk_seen walk_closed)
  next
    case False
    then obtain p where p: "pm i = Some p" "pl_enabled p" "i \<notin> set seen" by auto
    obtain r s1 where r: "attempt i p s = (r, s1)" by (metis surj_pair)
    note a = a [OF s p(1,2) r]
    show ?thesis
    proof (cases r)
      case None
      have "i \<in> K" using K(2) p(1) by auto
      then have "card (K - set (i # seen)) < card (K - set seen)"
        using p(3) K(1) by (intro psubset_card_mono) auto
      then have "walked keep no yes (set (pl_fallback_pool_ids p)) (i # seen)
          (walks n (i # seen) (pl_fallback_pool_ids p) s1)"
        using IH [of s1 "i # seen"] a c None by simp
      then show ?thesis using walked_open p a None r by (simp add: walk_open)
    next
      case (Some x)
      then show ?thesis using a p r by (auto simp: walk_open walked_def)
    qed
  qed
  have all: "walked keep no yes (set is) seen (walks n seen is s)"
    if "keep s" "card (K - set seen) < n \<or> is = []" for n seen "is" s
    using that
  proof (induction n arbitrary: seen "is" s)
    case 0
    then show ?case by (simp add: walks_Nil walked_def)
  next
    case (Suc n)
    from Suc.prems show ?case
    proof (induction "is" arbitrary: seen s)
      case Nil
      then show ?case by (simp add: walks_Nil walked_def)
    next
      case (Cons i js)
      then have c: "card (K - set seen) < Suc n" by simp
      have w: "walked keep no yes {i} seen (walk (Suc n) seen i s)"
        using step [OF Suc.IH Cons.prems(1) c] by blast
      obtain r s1 t1 where r: "walk (Suc n) seen i s = (r, s1, t1)" by (metis surj_pair)
      show ?case
      proof (cases r)
        case None
        have "card (K - set s1) \<le> card (K - set seen)"
          using w r K(1) by (intro card_mono) (auto simp: walked_def)
        then have "walked keep no yes (set js) s1 (walks (Suc n) s1 js t1)"
          using Cons.IH [of t1 s1] w r c by (simp add: walked_def)
        then show ?thesis using walked_then [of keep no yes "{i}" seen s1 t1 "set js"] w r None
          by (simp add: walks_Cons)
      next
        case (Some x)
        then show ?thesis using walked_more [of keep no yes "{i}" seen x s1 t1 "set js"] w r
          by (simp add: walks_Cons)
      qed
    qed
  qed
  show "keep s \<Longrightarrow> card (K - set seen) < n \<Longrightarrow> walked keep no yes (set is) seen (walks n seen is s)"
    using all by blast
  show "keep s \<Longrightarrow> card (K - set seen) < n \<Longrightarrow> walked keep no yes {i} seen (walk n seen i s)"
    using step [OF all] by (cases n) auto
qed

text \<open>A search from one pool with nothing seen: an answer comes from an enabled pool that enabled
  pools lead to, and without an answer no such pool has one.\<close>

lemma walk_answers:
  assumes K: "finite K" "\<And>j. pm j \<noteq> None \<Longrightarrow> j \<in> K" "card K < n"
      and a: "\<And>i p s r s1. keep s \<Longrightarrow> pm i = Some p \<Longrightarrow> pl_enabled p \<Longrightarrow> attempt i p s = (r, s1) \<Longrightarrow>
        keep s1 \<and> (case r of None \<Rightarrow> no i p | Some x \<Rightarrow> yes i p x)"
      and s: "keep s" and w: "walk n [] root_id s = (r, seen, s1)"
  shows "keep s1"
    and "r = Some x \<Longrightarrow> \<exists>j p. (root_id, j) \<in> (enabled_rel pm)\<^sup>* \<and> pm j = Some p \<and> pl_enabled p \<and> yes j p x"
    and "r = None \<Longrightarrow> (root_id, j) \<in> (enabled_rel pm)\<^sup>* \<Longrightarrow> pm j = Some p \<Longrightarrow> pl_enabled p \<Longrightarrow> no j p"
proof -
  have d: "walked keep no yes {root_id} [] (r, seen, s1)"
    using walk_walked(1) [where keep = keep and no = no and yes = yes and s = s and seen = "[]" and n = n
        and i = root_id, OF K(1,2) a s] K(3) w by simp
  show "keep s1" using d by (simp add: walked_def)
  show "r = Some x \<Longrightarrow> \<exists>j p. (root_id, j) \<in> (enabled_rel pm)\<^sup>* \<and> pm j = Some p \<and> pl_enabled p \<and> yes j p x"
    using d by (simp add: walked_def)
  assume n: "r = None" "(root_id, j) \<in> (enabled_rel pm)\<^sup>*" "pm j = Some p" "pl_enabled p"
  have "j \<in> set seen" using n(2)
  proof (induction rule: rtrancl_induct)
    case base
    then show ?case using d n(1) by (simp add: walked_def)
  next
    case (step k l)
    then show ?case using d n(1) by (auto simp: walked_def enabled_rel_def)
  qed
  then show "no j p" using d n by (simp add: walked_def)
qed

end

end
