(* ===== verification/Gateway_Walks.thy ===== *)
theory Gateway_Walks
  imports Gateway_Select Pool_Walk
begin

text \<open>Both searches of the gateway meet the contract of Pool_Walk.  With every clock showing one
  instant the selection is exact, and it always agrees with endpointPool that the endpoint has a pool;
  they need not agree on which.\<close>

section \<open>The interpretations\<close>

interpretation selecting: pool_walk "sn_pool sn"
  "\<lambda>i p s. case try_pool env rd sn q excluded i p s of (r, s1) \<Rightarrow> (map_option (sn_endpoint sn) r, s1)"
  "select_pool env rd sn q excluded" "select_pools env rd sn q excluded"
  for sn env rd q excluded
  by unfold_locales (auto split: option.splits prod.splits)

interpretation finding: pool_walk "sn_pool sn"
  "\<lambda>i p u. (if list_ex (\<lambda>c. c = e \<and> matches_pool (sn_endpoint sn e) p) (pl_endpoint_ids p) then Some i else None, u)"
  "\<lambda>n seen i (u :: unit). (fst (find_pool sn e n seen i), snd (find_pool sn e n seen i), u)"
  "\<lambda>n seen is u. (fst (find_pools sn e n seen is), snd (find_pools sn e n seen is), u)"
  for sn e
  by unfold_locales (auto split: option.splits prod.splits)

lemma sn_pools_finite: "finite (set (map pl_id (rb_pools (sn_bundle sn))))"
    "sn_pool sn j \<noteq> None \<Longrightarrow> j \<in> set (map pl_id (rb_pools (sn_bundle sn)))"
    "card (set (map pl_id (rb_pools (sn_bundle sn)))) < walk_fuel sn"
proof -
  show "sn_pool sn j \<noteq> None \<Longrightarrow> j \<in> set (map pl_id (rb_pools (sn_bundle sn)))"
    by (simp only: sn_pool_def pool_map_of_ids)
  show "card (set (map pl_id (rb_pools (sn_bundle sn)))) < walk_fuel sn"
    using card_length [of "map pl_id (rb_pools (sn_bundle sn))"] by (simp add: walk_fuel_def)
qed simp

section \<open>endpointPool\<close>

definition holds :: "routing_snapshot \<Rightarrow> go_id \<Rightarrow> pool \<Rightarrow> bool" where
  "holds sn e p = (pl_enabled p \<and> e \<in> set (pl_endpoint_ids p) \<and> matches_pool (sn_endpoint sn e) p)"

definition leads_to :: "routing_snapshot \<Rightarrow> go_id \<Rightarrow> go_id \<Rightarrow> pool \<Rightarrow> bool" where
  "leads_to sn i j p = ((i, j) \<in> (enabled_rel (sn_pool sn))\<^sup>* \<and> sn_pool sn j = Some p)"

lemma endpoint_pool_walk:
  "(endpoint_pool i e sn = Some j \<longrightarrow> (\<exists>p. leads_to sn i j p \<and> holds sn e p)) \<and>
   (endpoint_pool i e sn = None \<longrightarrow> (\<forall>j p. leads_to sn i j p \<longrightarrow> \<not> holds sn e p))"
proof -
  let ?yes = "\<lambda>k p x. x = k \<and> e \<in> set (pl_endpoint_ids p) \<and> matches_pool (sn_endpoint sn e) p"
  let ?no = "\<lambda>(k :: go_id) p. \<not> (e \<in> set (pl_endpoint_ids p) \<and> matches_pool (sn_endpoint sn e) p)"
  have a: "True \<and> (case r of None \<Rightarrow> ?no k p | Some x \<Rightarrow> ?yes k p x)"
    if "(if list_ex (\<lambda>c. c = e \<and> matches_pool (sn_endpoint sn e) p) (pl_endpoint_ids p) then Some k else None, u)
        = (r, u1)" for k p r and u u1 :: unit
    using that by (auto simp: list_ex_iff split: if_splits)
  have f: "(fst (find_pool sn e (walk_fuel sn) [] i), snd (find_pool sn e (walk_fuel sn) [] i), ()) =
      (endpoint_pool i e sn, snd (find_pool sn e (walk_fuel sn) [] i), ())"
    by (simp add: endpoint_pool_def)
  show ?thesis
    using finding.walk_answers(2,3) [where keep = "\<lambda>_. True" and yes = ?yes and no = ?no, OF sn_pools_finite a _ f]
    unfolding holds_def leads_to_def by auto
qed

section \<open>The selection at one instant\<close>

text \<open>Health managers that differ from one by cool-downs at the instant.\<close>

definition cooled :: "go_time \<Rightarrow> health_manager \<Rightarrow> health_manager \<Rightarrow> bool" where
  "cooled now hm hm' = (hm_config hm' = hm_config hm \<and> hm_probes hm' = hm_probes hm \<and>
     (\<forall>i. hm_states hm' i = hm_states hm i \<or>
        hm_states hm' i = map_option (\<lambda>s. after_cooldown s now) (hm_states hm i)))"

lemma cooldown_idem [simp]: "after_cooldown (after_cooldown s now) now = after_cooldown s now"
  by (simp add: after_cooldown_def)

lemma cooled_refl [simp]: "cooled now hm hm" by (simp add: cooled_def)

lemma cooled_eligible:
  assumes "cooled now hm hm'"
  shows "fst (eligible_snapshot i now hm') = fst (eligible_snapshot i now hm)"
    and "cooled now hm (snd (eligible_snapshot i now hm'))"
proof -
  have s: "hm_states hm' i = hm_states hm i \<or>
      hm_states hm' i = map_option (\<lambda>s. after_cooldown s now) (hm_states hm i)"
    and o: "hm_config hm' = hm_config hm" "hm_probes hm' = hm_probes hm"
    using assms by (auto simp: cooled_def)
  have "after_cooldown (state_of hm' i) now = after_cooldown (state_of hm i) now"
    using s o(1) by (auto simp: state_of_def split: option.splits)
  then show "fst (eligible_snapshot i now hm') = fst (eligible_snapshot i now hm)"
    using o by (simp add: eligible_snapshot_def Let_def)
  have c: "Some (after_cooldown (state_of hm' i) now) = map_option (\<lambda>s. after_cooldown s now) (hm_states hm i)"
    if "hm_states hm' i \<noteq> None"
    using s that by (auto simp: state_of_def)
  show "cooled now hm (snd (eligible_snapshot i now hm'))"
    using assms c by (auto simp: cooled_def eligible_snapshot_def Let_def put_state_def)
qed

text \<open>An endpoint a pool may use now.\<close>

definition admissible :: "'b select_env \<Rightarrow> readings \<Rightarrow> routing_snapshot \<Rightarrow> go_id list \<Rightarrow> go_time \<Rightarrow>
    'b select_state \<Rightarrow> go_id \<Rightarrow> pool \<Rightarrow> go_id \<Rightarrow> bool" where
  "admissible env rd sn excluded now s pid p i =
     (let e = sn_endpoint sn i; (h, eligible) = fst (eligible_snapshot (ep_id e) now (st_health s)) in
      i \<in> set (pl_endpoint_ids p) \<and> ep_enabled e \<and> ep_id e \<notin> set excluded \<and> eligible \<and>
      endpoint_eligible_for_pool e p h \<and> budget_admits env rd (st_budgets s) pid (ep_id e))"

text \<open>What a selection at the instant now needs: valid endpoints and strategies, no more endpoints in
  a pool than an array holds, and no cancellation.\<close>

definition selectable :: "'b select_env \<Rightarrow> readings \<Rightarrow> routing_snapshot \<Rightarrow> go_time \<Rightarrow> 'b select_state \<Rightarrow> bool" where
  "selectable env rd sn now s = (rd_now rd = (\<lambda>i. now) \<and> rd_err rd = None \<and>
     list_all (\<lambda>e. endpoint_validate (se_lib env) e = None) (rb_proxies (sn_bundle sn)) \<and>
     list_all (\<lambda>p. strategy_valid (pl_strategy p) \<and> length (pl_endpoint_ids p) < 2 ^ 64) (rb_pools (sn_bundle sn)) \<and>
     (\<forall>st. sl_strategy (st_selectors s st) = st))"

text \<open>What the walk keeps of the state.\<close>

definition same_start :: "go_time \<Rightarrow> 'b select_state \<Rightarrow> 'b select_state \<Rightarrow> bool" where
  "same_start now s s' = (cooled now (st_health s) (st_health s') \<and> st_budgets s' = st_budgets s \<and>
     (\<forall>st. sl_strategy (st_selectors s' st) = st))"

lemma gather_admissible:
  assumes "gather env rd sn excluded p pid is s' = (cs, s1)" "same_start now s s'"
      "rd_now rd = (\<lambda>i. now)" "set is \<subseteq> set (pl_endpoint_ids p)"
  shows "same_start now s s1 \<and>
     map cd_endpoint cs = map (sn_endpoint sn) (filter (admissible env rd sn excluded now s pid p) is)"
  using assms
proof (induction "is" arbitrary: s' cs s1)
  case Nil
  then show ?case by simp
next
  case (Cons i js)
  let ?e = "sn_endpoint sn i"
  obtain h el hm where q: "eligible_snapshot (ep_id ?e) now (st_health s') = ((h, el), hm)"
    by (metis surj_pair)
  obtain ds t where g: "gather env rd sn excluded p pid js (s'\<lparr>st_health := hm\<rparr>) = (ds, t)"
    by (metis surj_pair)
  have c: "fst (eligible_snapshot (ep_id ?e) now (st_health s)) = (h, el)" "cooled now (st_health s) hm"
    using cooled_eligible [of now "st_health s" "st_health s'" "ep_id ?e"] Cons.prems(2) q
    by (auto simp: same_start_def)
  have n: "same_start now s (s'\<lparr>st_health := hm\<rparr>)" using Cons.prems(2) c(2) by (simp add: same_start_def)
  have b: "st_budgets s' = st_budgets s" using Cons.prems(2) by (simp add: same_start_def)
  have IH: "same_start now s t"
      "map cd_endpoint ds = map (sn_endpoint sn) (filter (admissible env rd sn excluded now s pid p) js)"
    using Cons.IH [OF g n] Cons.prems(3,4) by simp_all
  have i: "i \<in> set (pl_endpoint_ids p)" using Cons.prems(4) by simp
  have "s1 = t" and m: "map cd_endpoint cs =
      (if admissible env rd sn excluded now s pid p i then [?e] else []) @ map cd_endpoint ds"
    using Cons.prems(1,3) q g c(1) i b by (auto simp: admissible_def Let_def split: if_splits)
  then show ?case using IH by simp
qed

lemma lookup_id: "ep_enabled (sn_endpoint sn i) \<Longrightarrow>
    ep_id (sn_endpoint sn i) = i \<and> sn_endpoint sn i \<in> set (rb_proxies (sn_bundle sn))"
  by (cases "sn_lookup sn i")
     (auto simp: sn_endpoint_def sn_lookup_def zero_endpoint_def dest: find_Some_iff [THEN iffD1])

lemma try_pool_exact:
  assumes t: "try_pool env rd sn q excluded pid p s' = (r, s1)" and s: "same_start now s s'"
      and v: "selectable env rd sn now s0" and p: "p \<in> set (rb_pools (sn_bundle sn))"
  shows "same_start now s s1 \<and> (case r of
      None \<Rightarrow> \<forall>i. \<not> admissible env rd sn excluded now s pid p i
    | Some i \<Rightarrow> admissible env rd sn excluded now s pid p i)"
proof -
  let ?adm = "admissible env rd sn excluded now s pid p"
  obtain cs t1 where g: "gather env rd sn excluded p pid (pl_endpoint_ids p) s' = (cs, t1)" by (metis surj_pair)
  have a: "same_start now s t1"
      "map cd_endpoint cs = map (sn_endpoint sn) (filter ?adm (pl_endpoint_ids p))"
    using gather_admissible [OF g s] v by (simp_all add: selectable_def)
  have none: "\<not> ?adm i" if "cs = []" for i
  proof
    assume i: "?adm i"
    then have "i \<in> set (filter ?adm (pl_endpoint_ids p))" by (simp add: admissible_def Let_def split: prod.splits)
    then have "sn_endpoint sn i \<in> set (map cd_endpoint cs)" using a(2) by auto
    then show False using that by simp
  qed
  show ?thesis
  proof (cases "cs = []")
    case True
    then show ?thesis using t g a(1) none by (simp add: try_pool_def)
  next
    case False
    have l: "length cs < 2 ^ 64"
    proof -
      have "length cs = length (filter ?adm (pl_endpoint_ids p))" using arg_cong [OF a(2), of length] by simp
      also have "\<dots> \<le> length (pl_endpoint_ids p)" by simp
      finally show ?thesis using v p by (auto simp: selectable_def list_all_iff)
    qed
    have c: "\<exists>i. ?adm i \<and> cd_endpoint c = sn_endpoint sn i \<and> ep_id (cd_endpoint c) = i \<and> ep_enabled (cd_endpoint c) \<and>
        endpoint_validate (se_lib env) (cd_endpoint c) = None" if c: "c \<in> set cs" for c
    proof -
      have "cd_endpoint c \<in> set (map (sn_endpoint sn) (filter ?adm (pl_endpoint_ids p)))"
        using c a(2) by (metis image_eqI set_map)
      then obtain i where i: "?adm i" "cd_endpoint c = sn_endpoint sn i" by auto
      then have "ep_enabled (sn_endpoint sn i)" by (simp add: admissible_def Let_def split: prod.splits)
      then show ?thesis using lookup_id i v by (auto simp: selectable_def list_all_iff)
    qed
    let ?sel = "st_selectors t1 (pl_strategy p)"
    have st: "strategy_valid (sl_strategy ?sel)"
      using v p a(1) by (auto simp: selectable_def same_start_def list_all_iff)
    have e: "\<exists>c\<in>set cs. ep_enabled (cd_endpoint c) \<and> endpoint_validate (se_lib env) (cd_endpoint c) = None"
      using c False by (meson hd_in_set)
    obtain x sel where x: "select (se_lib env) None (rd_random rd pid) ?sel (pool_context q pid) cs = (Inr (ep_id (cd_endpoint x)), sel)"
        "x \<in> set cs" "sl_strategy sel = sl_strategy ?sel"
      using select_total [OF l st e] by metis
    have "r = Some (ep_id (cd_endpoint x))" "s1 = t1\<lparr>st_selectors := (st_selectors t1)(pl_strategy p := sel)\<rparr>"
      using t g False x(1) v by (auto simp: try_pool_def selectable_def)
    then show ?thesis using c [OF x(2)] a(1) x(3) by (auto simp: same_start_def)
  qed
qed

section \<open>Properties\<close>

lemma select_endpoint_walk:
  assumes v: "selectable env rd sn now s" and r: "select_endpoint_excluding env rd pid q sn excluded s = (r, s')"
  shows "same_start now s s'"
    and "r = Inr e \<Longrightarrow> \<exists>j p. leads_to sn pid j p \<and> pl_enabled p \<and>
           admissible env rd sn excluded now s j p (ep_id e) \<and> e = sn_endpoint sn (ep_id e)"
    and "r = Inl err \<Longrightarrow> leads_to sn pid j p \<Longrightarrow> pl_enabled p \<Longrightarrow>
           err = PoolUnavailable \<and> \<not> admissible env rd sn excluded now s j p i"
proof -
  let ?yes = "\<lambda>j p e. admissible env rd sn excluded now s j p (ep_id e) \<and> e = sn_endpoint sn (ep_id e)"
  let ?no = "\<lambda>j p. \<forall>i. \<not> admissible env rd sn excluded now s j p i"
  have a: "same_start now s t1 \<and> (case x of None \<Rightarrow> ?no i p | Some e \<Rightarrow> ?yes i p e)"
    if t: "same_start now s t" and p: "sn_pool sn i = Some p"
      and x: "(case try_pool env rd sn q excluded i p t of (r, s1) \<Rightarrow> (map_option (sn_endpoint sn) r, s1)) = (x, t1)"
    for i p t x t1
  proof -
    obtain y where y: "try_pool env rd sn q excluded i p t = (y, t1)" "x = map_option (sn_endpoint sn) y"
      using x by (auto split: prod.splits)
    have m: "p \<in> set (rb_pools (sn_bundle sn))"
      using p by (auto simp: sn_pool_def pool_map_of_def dest: find_Some_iff [THEN iffD1])
    have "ep_id (sn_endpoint sn k) = k" if "admissible env rd sn excluded now s i p k" for k
      using that lookup_id [of sn k] by (simp add: admissible_def Let_def split: prod.splits)
    then show ?thesis using try_pool_exact [OF y(1) t v m] y(2) by (auto split: option.splits)
  qed
  have s: "same_start now s s" using v by (simp add: same_start_def selectable_def)
  obtain x seen where w: "select_pool env rd sn q excluded (walk_fuel sn) [] pid s = (x, seen, s')"
      "r = (case x of None \<Rightarrow> Inl PoolUnavailable | Some e \<Rightarrow> Inr e)"
    using r by (auto simp: select_endpoint_excluding_def split: prod.splits)
  note answers = selecting.walk_answers [where keep = "same_start now s" and yes = ?yes and no = ?no,
      OF sn_pools_finite a s w(1)]
  show "same_start now s s'" by (rule answers(1))
  show "r = Inr e \<Longrightarrow> \<exists>j p. leads_to sn pid j p \<and> pl_enabled p \<and>
           admissible env rd sn excluded now s j p (ep_id e) \<and> e = sn_endpoint sn (ep_id e)"
    using answers(2) [where x = e] w(2) by (auto simp: leads_to_def split: option.splits)
  show "r = Inl err \<Longrightarrow> leads_to sn pid j p \<Longrightarrow> pl_enabled p \<Longrightarrow>
           err = PoolUnavailable \<and> \<not> admissible env rd sn excluded now s j p i"
    using answers(3) [where j = j and p = p] w(2) by (auto simp: leads_to_def split: option.splits)
qed

text \<open>C27: At one instant the selection of an endpoint is exact: it answers with an enabled endpoint that
  was not excluded, is healthy, matches and has budget left in an enabled pool the fallbacks lead to,
  and it fails only if no such pool has one.\<close>

theorem select_endpoint_exact:
  assumes "selectable env rd sn now s"
  shows "case fst (select_endpoint_excluding env rd pid q sn excluded s) of
      Inr e \<Rightarrow> e = sn_endpoint sn (ep_id e) \<and> (\<exists>j p. leads_to sn pid j p \<and> pl_enabled p \<and>
          admissible env rd sn excluded now s j p (ep_id e))
    | Inl err \<Rightarrow> \<forall>j p i. leads_to sn pid j p \<and> pl_enabled p \<longrightarrow>
          \<not> admissible env rd sn excluded now s j p i"
proof -
  obtain r s' where r: "select_endpoint_excluding env rd pid q sn excluded s = (r, s')" by (metis surj_pair)
  show ?thesis using select_endpoint_walk(2,3) [OF assms r] r by (cases r) (simp_all, blast+)
qed

lemma selected_has_pool:
  assumes "selectable env rd sn now s" "select_endpoint_excluding env rd pid q sn excluded s = (Inr e, s')"
  shows "endpoint_pool pid (ep_id e) sn \<noteq> None"
proof -
  obtain j p where p: "leads_to sn pid j p" "pl_enabled p" "e = sn_endpoint sn (ep_id e)"
      "admissible env rd sn excluded now s j p (ep_id e)"
    using select_endpoint_walk(2) [OF assms refl] by blast
  have "holds sn (ep_id e) p" using p(2-4)
    by (auto simp: admissible_def Let_def holds_def endpoint_eligible_for_pool_def split: prod.splits)
  then show ?thesis using endpoint_pool_walk [of pid "ep_id e" sn] p(1) by blast
qed

end
