(* ===== verification/Gateway_Route.thy ===== *)
theory Gateway_Route
  imports Gateway_Select Session_Manager Policy_Eval
begin

text \<open>The router of internal/app/gateway.go: routes of the policy's terminal action, sessions, chains,
  retries, and what a route does with health and sessions while it is used.  The closures of a
  gateway.Route are values: the dialer by what it connects to, Retry by what it captured, Reserve by
  the budgets it reserves from.\<close>

section \<open>Routes\<close>

record chain_hop =
  ch_pool_id :: go_id
  ch_endpoint :: endpoint
  ch_timeout :: duration

datatype dialer =
    NoDial
  | DirectDial "ip_addr list"
  | EndpointDial endpoint
  | ChainDial "chain_hop list"

datatype retry_plan =
    NoRetry
  | RetryProxy go_id "go_id list"
  | RetryChain "go_id list" "go_id list"

record route =
  ro_action :: string
  ro_action_value :: string
  ro_cache :: bool
  ro_pool_id :: go_id
  ro_proxy_id :: go_id
  ro_chain_id :: go_id
  ro_chain_pools :: "go_id list"
  ro_chain_proxies :: "go_id list"
  ro_session_id :: go_id
  ro_session_hash :: string
  ro_dial :: dialer
  ro_retry :: retry_plan
  ro_retry_policy :: "retry_policy option"
  ro_rate :: "rate option"
  ro_reserve :: "go_id list option"
  ro_throttle_bps :: int
  ro_rewrite_path :: string
  ro_records_usage :: bool

definition empty_route :: route where
  "empty_route = \<lparr>ro_action = [], ro_action_value = [], ro_cache = False, ro_pool_id = [], ro_proxy_id = [],
     ro_chain_id = [], ro_chain_pools = [], ro_chain_proxies = [], ro_session_id = [], ro_session_hash = [],
     ro_dial = NoDial, ro_retry = NoRetry, ro_retry_policy = None, ro_rate = None, ro_reserve = None,
     ro_throttle_bps = 0, ro_rewrite_path = [], ro_records_usage = False\<rparr>"

text \<open>The router: the resolver and the credentials are arguments; a runtime is always there.\<close>

record ('b, 'p) router =
  rt_select :: "'b select_env"
  rt_session :: "'p session_env"
  rt_lookup :: "string \<Rightarrow> error + ip_addr list"
  rt_destination :: destination_policy
  rt_security :: security_config
  rt_credentials :: "string \<Rightarrow> error option"
  rt_retry_policy :: retry_policy

record ('b, 'p) router_state =
  rs_select :: "'b select_state"
  rs_sessions :: "'p session_manager option"

text \<open>What the handling of one request reads: for a resolution of a session the selection, the clock
  and the new identifier; two resolutions at most, and the clock and the context in between.\<close>

record attempt_readings =
  at_select :: readings
  at_now :: go_time
  at_id :: go_id

record route_readings =
  rr_err :: "error option"
  rr_first :: attempt_readings
  rr_second :: attempt_readings
  rr_health_now :: go_time
  rr_budget_now :: go_time

section \<open>Actions\<close>

fun route_actions :: "action list \<Rightarrow> action list \<Rightarrow> action option \<times> action list" where
  "route_actions modifiers [] = (None, modifiers)"
| "route_actions modifiers (a # as) =
     (if a_type a \<in> set [''block'', ''reject'', ''proxy'', ''chain'', ''direct'', ''mock'', ''redirect'']
      then (Some a, modifiers)
      else if a_type a \<in> set [''cache'', ''throttle'', ''rewrite''] then route_actions (modifiers @ [a]) as
      else route_actions modifiers as)"

definition decorate_step :: "route \<Rightarrow> action \<Rightarrow> route" where
  "decorate_step r a =
     (if a_type a = ''cache'' then r\<lparr>ro_cache := True\<rparr>
      else if a_type a = ''throttle'' then
        r\<lparr>ro_throttle_bps := (case parse_int64 (a_value a) of Some n \<Rightarrow> n | None \<Rightarrow> 0)\<rparr>
      else if a_type a = ''rewrite'' then r\<lparr>ro_rewrite_path := a_value a\<rparr> else r)"

definition decorate :: "action list \<Rightarrow> route \<Rightarrow> route" where
  "decorate modifiers r = foldl decorate_step r modifiers"

section \<open>Direct routes\<close>

definition direct_allowed :: "security_config \<Rightarrow> string \<Rightarrow> bool" where
  "direct_allowed sx host = (sx_allow_direct sx \<and>
     list_ex (\<lambda>pat. path_match (to_lower pat) (to_lower host) = Some True) (sx_direct_allowlist sx))"

text \<open>pinnedDial and direct: the addresses are resolved and checked once, before the route exists.\<close>

definition direct_route :: "('b, 'p) router \<Rightarrow> request_context \<Rightarrow> error + route" where
  "direct_route rt q = (case rt_lookup rt (q_host q) of Inl e \<Rightarrow> Inl GatewayErrDenied
     | Inr addrs \<Rightarrow> if destination_allow (rt_destination rt) addrs \<noteq> None then Inl GatewayErrDenied
         else Inr (empty_route\<lparr>ro_action := ''direct'', ro_dial := DirectDial addrs\<rparr>))"

text \<open>What a pinned dial tries for a target that SplitHostPort has taken apart; connects says which
  addresses accept.\<close>

definition pinned_dial :: "go_lib \<Rightarrow> request_context \<Rightarrow> ip_addr list \<Rightarrow> (string \<times> string) option \<Rightarrow>
    (ip_addr \<Rightarrow> error option) \<Rightarrow> error + ip_addr" where
  "pinned_dial lib q addrs target connects =
     (case target of None \<Rightarrow> Inl GatewayErrDenied
      | Some (host, port) \<Rightarrow>
         if port \<noteq> itoa (unat (q_port q)) \<or> \<not> same_host lib host (q_host q) then Inl GatewayErrDenied
         else case List.find (\<lambda>a. connects a = None) addrs of
             Some a \<Rightarrow> Inr a
           | None \<Rightarrow> Inl (if addrs = [] then GatewayErrDenied else the (connects (last addrs))))"

section \<open>Sessions\<close>

definition routing_session_key :: "string \<Rightarrow> go_id \<Rightarrow> request_context \<Rightarrow> error + string" where
  "routing_session_key strategy client q =
     (if strategy = ''none'' then Inr []
      else if strategy = ''explicit'' then
        (if q_session_key q = [] then Inl SessionErrInvalid else Inr (q_session_key q))
      else if strategy = ''client'' then Inr client
      else if strategy = ''destination'' then Inr (to_lower (trim_suffix (q_host q) ''.''))
      else if strategy = ''client_destination'' then
        Inr (client @ ''|'' @ to_lower (trim_suffix (q_host q) ''.''))
      else Inl SessionErrInvalid)"

definition session_rotation_reason :: "go_time \<Rightarrow> go_id \<Rightarrow> go_id \<Rightarrow> routing_snapshot \<Rightarrow>
    'b select_state \<Rightarrow> string \<times> 'b select_state" where
  "session_rotation_reason now i pool_id sn s =
     (case sn_lookup sn i of None \<Rightarrow> (''policy_change'', s)
      | Some e \<Rightarrow>
        if \<not> ep_enabled e then (''policy_change'', s)
        else if endpoint_pool pool_id i sn = None then (''policy_change'', s)
        else case health_eligible i now (st_health s) of (ok, hm) \<Rightarrow>
          (if ok then [] else ''health_quarantine'', s\<lparr>st_health := hm\<rparr>))"

text \<open>Resolve with the selection of the router between its two sections.\<close>

definition resolve_selecting :: "('b, 'p) router \<Rightarrow> error option \<Rightarrow> attempt_readings \<Rightarrow> session_request \<Rightarrow>
    request_context \<Rightarrow> routing_snapshot \<Rightarrow> go_id list \<Rightarrow> 'b select_state \<Rightarrow> 'p session_manager \<Rightarrow>
    (error + session_result) \<times> 'b select_state \<times> 'p session_manager" where
  "resolve_selecting rt err at_r req q sn excluded s m =
     (case resolve_begin (rt_session rt) err (at_now at_r) req m of
        (Resolved r, m1) \<Rightarrow> (r, s, m1)
      | (CallSelect idx, m1) \<Rightarrow>
         (case select_endpoint_excluding (rt_select rt) (at_select at_r) (rq_pool_id req) q sn excluded s of
            (Inl e, s1) \<Rightarrow> (Inl e, s1, m1)
          | (Inr e, s1) \<Rightarrow>
             (case idx of
                None \<Rightarrow> (Inr \<lparr>sr_session = new_session (at_id at_r)
                     (req\<lparr>rq_policy := normalized (rq_policy req)\<rparr>) (ep_id e) (at_now at_r) ''none'',
                   sr_reused = False\<rparr>, s1, m1)
              | Some k \<Rightarrow> (case resolve_finish (rt_session rt) err (at_now at_r) req k (ep_id e) (at_id at_r) m1 of
                   (r, m2) \<Rightarrow> (r, s1, m2)))))"

definition session_reason :: "('b, 'p) router \<Rightarrow> route_readings \<Rightarrow> go_id \<Rightarrow> go_id \<Rightarrow> routing_snapshot \<Rightarrow>
    'b select_state \<Rightarrow> string \<times> 'b select_state" where
  "session_reason rt rr i pool_id sn s =
     (case session_rotation_reason (rr_health_now rr) i pool_id sn s of (reason, s1) \<Rightarrow>
        if reason \<noteq> [] then (reason, s1)
        else case (st_budgets s1, endpoint_pool pool_id i sn) of
            (Some bm, Some selected) \<Rightarrow>
              (let ids = route_ids selected i bm in
               if ids \<noteq> [] \<and> can_reserve (se_budget (rt_select rt)) (rr_err rr) (rr_budget_now rr) ids 1 bm \<noteq> None
               then (''byte_limit'', s1) else ([], s1))
          | _ \<Rightarrow> ([], s1))"

text \<open>The endpoint, the session and its key hash for a request.\<close>

definition session_endpoint :: "('b, 'p) router \<Rightarrow> route_readings \<Rightarrow> go_id \<Rightarrow> session_policy \<Rightarrow> go_id \<Rightarrow>
    request_context \<Rightarrow> routing_snapshot \<Rightarrow> go_id list \<Rightarrow> 'b select_state \<Rightarrow> 'p session_manager \<Rightarrow>
    (error + session) \<times> 'b select_state \<times> 'p session_manager" where
  "session_endpoint rt rr client pol pool_id q sn excluded s m =
     (case routing_session_key (sp_strategy pol) client q of Inl e \<Rightarrow> (Inl GatewayErrDenied, s, m)
      | Inr key \<Rightarrow>
        let req = \<lparr>rq_client_id = client, rq_pool_id = pool_id, rq_key = key, rq_policy = pol,
              rq_revision = sn_revision sn\<rparr> in
        case resolve_selecting rt (rr_err rr) (rr_first rr) req q sn excluded s m of
          (Inl e, s1, m1) \<Rightarrow> (Inl PoolUnavailable, s1, m1)
        | (Inr res, s1, m1) \<Rightarrow>
           if \<not> sr_reused res then (Inr (sr_session res), s1, m1)
           else (case session_reason rt rr (ss_endpoint_id (sr_session res)) pool_id sn s1 of
               (reason, s2) \<Rightarrow>
                 if reason = [] then (Inr (sr_session res), s2, m1)
                 else case rotate_session (rt_session rt) (rr_err rr) (ss_id (sr_session res)) reason m1 of
                     (Some e, m2) \<Rightarrow> (Inl PoolUnavailable, s2, m2)
                   | (None, m2) \<Rightarrow>
                      (case resolve_selecting rt (rr_err rr) (rr_second rr) req q sn excluded s2 m2 of
                         (Inl e, s3, m3) \<Rightarrow> (Inl PoolUnavailable, s3, m3)
                       | (Inr res2, s3, m3) \<Rightarrow> (Inr (sr_session res2), s3, m3))))"

section \<open>Proxy routes\<close>

definition client_or_local :: "request_context \<Rightarrow> go_id" where
  "client_or_local q = (if id_valid (q_client_id q) then q_client_id q else ''local'')"

definition reserve_ids :: "request_context \<Rightarrow> go_id \<Rightarrow> go_id \<Rightarrow> 'b budget_manager option \<Rightarrow> go_id list option" where
  "reserve_ids q pool_id i bm = (case bm of None \<Rightarrow> None
     | Some m \<Rightarrow> let ids = applicable_ids (q_client_id q) pool_id i m in if ids = [] then None else Some ids)"

text \<open>upstream.NewHTTPTransport refuses invalid endpoints and unknown protocols.\<close>

definition transport_ok :: "go_lib \<Rightarrow> endpoint \<Rightarrow> bool" where
  "transport_ok lib e = (endpoint_validate lib e = None \<and>
     ep_protocol e \<in> set [''http'', ''https'', ''socks5'', ''socks5h''])"

definition proxy_checks :: "('b, 'p) router \<Rightarrow> routing_snapshot \<Rightarrow> go_id \<Rightarrow> endpoint \<Rightarrow> error + go_id" where
  "proxy_checks rt sn pool_id e =
     (if dp_deny_private (rt_destination rt) \<and> \<not> ep_trusted_remote_dns e then Inl GatewayErrDenied
      else case endpoint_pool pool_id (ep_id e) sn of None \<Rightarrow> Inl PoolUnavailable
      | Some selected \<Rightarrow>
         if ep_credential_ref e \<noteq> [] \<and> rt_credentials rt (ep_credential_ref e) \<noteq> None
         then Inl GatewayErrDenied
         else if \<not> transport_ok (se_lib (rt_select rt)) e then Inl PoolUnavailable else Inr selected)"

definition proxy_route :: "('b, 'p) router \<Rightarrow> request_context \<Rightarrow> go_id \<Rightarrow> go_id list \<Rightarrow> endpoint \<Rightarrow> go_id \<Rightarrow>
    (go_id \<times> string) option \<Rightarrow> 'b budget_manager option \<Rightarrow> route" where
  "proxy_route rt q pool_id excluded e selected sess bm =
     empty_route\<lparr>ro_action := ''proxy'', ro_pool_id := selected, ro_proxy_id := ep_id e,
       ro_session_id := (case sess of None \<Rightarrow> [] | Some (i, h) \<Rightarrow> i),
       ro_session_hash := (case sess of None \<Rightarrow> [] | Some (i, h) \<Rightarrow> h),
       ro_rate := (case ep_rate e of None \<Rightarrow> None
          | Some r \<Rightarrow> if effective_at r > q_timestamp q then None else Some r),
       ro_reserve := reserve_ids q selected (ep_id e) bm,
       ro_retry_policy := Some (rt_retry_policy rt), ro_dial := EndpointDial e,
       ro_retry := RetryProxy pool_id (ep_id e # excluded), ro_records_usage := (sess \<noteq> None)\<rparr>"

definition proxy_excluding :: "('b, 'p) router \<Rightarrow> route_readings \<Rightarrow> request_context \<Rightarrow> go_id \<Rightarrow>
    routing_snapshot \<Rightarrow> go_id list \<Rightarrow> ('b, 'p) router_state \<Rightarrow> (error + route) \<times> ('b, 'p) router_state" where
  "proxy_excluding rt rr q pool_id sn excluded s =
     (case sn_pool sn pool_id of None \<Rightarrow> (Inl PoolUnavailable, s)
      | Some p \<Rightarrow>
        if \<not> pl_enabled p then (Inl PoolUnavailable, s)
        else let pol = normalized (pl_session_policy p);
            finish = (\<lambda>e sess s1. case proxy_checks rt sn pool_id e of Inl err \<Rightarrow> (Inl err, s1)
              | Inr selected \<Rightarrow> (Inr (proxy_route rt q pool_id excluded e selected sess
                  (st_budgets (rs_select s1))), s1)) in
        case rs_sessions s of
          None \<Rightarrow>
            (case select_endpoint_excluding (rt_select rt) (at_select (rr_first rr)) pool_id q sn excluded (rs_select s) of
               (Inl e, s1) \<Rightarrow> (Inl PoolUnavailable, s\<lparr>rs_select := s1\<rparr>)
             | (Inr e, s1) \<Rightarrow> finish e None (s\<lparr>rs_select := s1\<rparr>))
        | Some m \<Rightarrow>
            (case session_endpoint rt rr (client_or_local q) pol pool_id q sn excluded (rs_select s) m of
               (Inl e, s1, m1) \<Rightarrow> (Inl e, \<lparr>rs_select = s1, rs_sessions = Some m1\<rparr>)
             | (Inr sess, s1, m1) \<Rightarrow>
                (case sn_lookup sn (ss_endpoint_id sess) of
                   None \<Rightarrow> (Inl PoolUnavailable, \<lparr>rs_select = s1, rs_sessions = Some m1\<rparr>)
                 | Some e \<Rightarrow> finish e (if sp_strategy pol \<noteq> ''none''
                     then Some (ss_id sess, ss_key_hash sess) else None)
                     \<lparr>rs_select = s1, rs_sessions = Some m1\<rparr>)))"

section \<open>Chains\<close>

text \<open>The hops of a chain in order; the endpoints chosen so far join the excluded ones.\<close>

fun chain_hops :: "('b, 'p) router \<Rightarrow> (nat \<Rightarrow> readings) \<Rightarrow> request_context \<Rightarrow> routing_snapshot \<Rightarrow> nat \<Rightarrow>
    hop list \<Rightarrow> go_id list \<Rightarrow> 'b select_state \<Rightarrow> (error + chain_hop list) \<times> go_id list \<times> 'b select_state" where
  "chain_hops rt rd q sn k [] excluded s = (Inr [], excluded, s)"
| "chain_hops rt rd q sn k (h # hs) excluded s =
     (case select_endpoint_excluding (rt_select rt) (rd k) (hop_pool_id h) q sn excluded s of
        (Inl e, s1) \<Rightarrow> (Inl PoolUnavailable, excluded, s1)
      | (Inr e, s1) \<Rightarrow>
         if dp_deny_private (rt_destination rt) \<and> \<not> ep_trusted_remote_dns e
         then (Inl PoolUnavailable, excluded, s1)
         else case endpoint_pool (hop_pool_id h) (ep_id e) sn of
             None \<Rightarrow> (Inl PoolUnavailable, excluded, s1)
           | Some selected \<Rightarrow>
              (case chain_hops rt rd q sn (Suc k) hs (ep_id e # excluded) s1 of
                 (Inl err, ex, s2) \<Rightarrow> (Inl err, ex, s2)
               | (Inr hops, ex, s2) \<Rightarrow>
                  (Inr (\<lparr>ch_pool_id = selected, ch_endpoint = e, ch_timeout = effective_timeout h\<rparr> # hops), ex, s2)))"

fun add_new :: "go_id list \<Rightarrow> go_id list \<Rightarrow> go_id list" where
  "add_new ids [] = ids"
| "add_new ids (i # is) = add_new (if i \<in> set ids then ids else ids @ [i]) is"

definition chain_reserve_ids :: "request_context \<Rightarrow> chain_hop list \<Rightarrow> 'b budget_manager option \<Rightarrow> go_id list option" where
  "chain_reserve_ids q hops bm = (case bm of None \<Rightarrow> None
     | Some m \<Rightarrow> let ids = foldl (\<lambda>ids h. add_new ids
           (applicable_ids (q_client_id q) (ch_pool_id h) (ep_id (ch_endpoint h)) m)) [] hops in
         if ids = [] then None else Some ids)"

definition chain_route :: "('b, 'p) router \<Rightarrow> request_context \<Rightarrow> go_id \<Rightarrow> chain_hop list \<Rightarrow>
    'b budget_manager option \<Rightarrow> route" where
  "chain_route rt q chain_id hops bm = (let proxies = map (\<lambda>h. ep_id (ch_endpoint h)) hops in
     empty_route\<lparr>ro_action := ''chain'', ro_chain_id := chain_id, ro_chain_pools := map ch_pool_id hops,
       ro_chain_proxies := proxies, ro_pool_id := ch_pool_id (hd hops), ro_proxy_id := last proxies,
       ro_dial := ChainDial hops, ro_reserve := chain_reserve_ids q hops bm,
       ro_retry_policy := Some (rt_retry_policy rt)\<rparr>)"

definition build_chain :: "('b, 'p) router \<Rightarrow> (nat \<Rightarrow> readings) \<Rightarrow> request_context \<Rightarrow> go_id \<Rightarrow>
    routing_snapshot \<Rightarrow> go_id list \<Rightarrow> 'b select_state \<Rightarrow> (error + route) \<times> go_id list \<times> 'b select_state" where
  "build_chain rt rd q chain_id sn excluded s =
     (case sn_chain sn chain_id of None \<Rightarrow> (Inl PoolUnavailable, excluded, s)
      | Some c \<Rightarrow>
        if \<not> cn_enabled c then (Inl PoolUnavailable, excluded, s)
        else (case chain_hops rt rd q sn 0 (cn_hops c) excluded s of
            (Inl e, ex, s1) \<Rightarrow> (Inl e, ex, s1)
          | (Inr hops, ex, s1) \<Rightarrow> (Inr (chain_route rt q chain_id hops (st_budgets s1)), ex, s1)))"

text \<open>selectChain: all is the whole list, which a retry walks again with the endpoints of the route
  excluded.\<close>

fun select_chain :: "('b, 'p) router \<Rightarrow> (go_id \<Rightarrow> nat \<Rightarrow> readings) \<Rightarrow> request_context \<Rightarrow> go_id list \<Rightarrow> go_id list \<Rightarrow>
    routing_snapshot \<Rightarrow> go_id list \<Rightarrow> 'b select_state \<Rightarrow> (error + route) \<times> 'b select_state" where
  "select_chain rt rd q every [] sn excluded s = (Inl PoolUnavailable, s)"
| "select_chain rt rd q every (c # cs) sn excluded s =
     (case build_chain rt (rd c) q c sn excluded s of
        (Inl e, ex, s1) \<Rightarrow> select_chain rt rd q every cs sn excluded s1
      | (Inr r, ex, s1) \<Rightarrow> (Inr (r\<lparr>ro_retry := RetryChain every ex\<rparr>), s1))"

section \<open>Route\<close>

definition route_request :: "('b, 'p) router \<Rightarrow> route_readings \<Rightarrow> (go_id \<Rightarrow> nat \<Rightarrow> readings) \<Rightarrow>
    (int \<Rightarrow> routing_snapshot option) \<Rightarrow> request_context \<Rightarrow> result \<Rightarrow> ('b, 'p) router_state \<Rightarrow>
    (route \<times> error option) \<times> ('b, 'p) router_state" where
  "route_request rt rr rd history q res s =
     (case route_actions [] (res_actions res) of (found, modifiers) \<Rightarrow>
      let a = (case found of None \<Rightarrow> \<lparr>a_type = [], a_pool_id = [], a_chain_id = [],
            a_fallback_chain_ids = [], a_value = []\<rparr> | Some a \<Rightarrow> a);
          finish = (\<lambda>x s1. case x of Inl e \<Rightarrow> ((decorate modifiers empty_route, Some e), s1)
            | Inr r \<Rightarrow> ((decorate modifiers r, None), s1));
          refuse = (\<lambda>b. ((empty_route\<lparr>ro_action := a_type b, ro_action_value := a_value b\<rparr>,
            Some GatewayErrUnsupported), s)) in
      case (if q_protocol q \<noteq> ''http'' then List.find (\<lambda>b. a_type b \<noteq> ''throttle'') modifiers else None) of
        Some b \<Rightarrow> refuse b
      | None \<Rightarrow>
        if q_protocol q \<noteq> ''http'' \<and> (a_type a = ''mock'' \<or> a_type a = ''redirect'') then refuse a
        else if a_type a = ''direct'' then
          (if \<not> direct_allowed (rt_security rt) (q_host q)
           then ((empty_route, Some GatewayErrDenied), s) else finish (direct_route rt q) s)
        else if a_type a = ''proxy'' then
          (case history (res_runtime_revision res) of None \<Rightarrow> ((empty_route, Some GatewayErrDenied), s)
           | Some sn \<Rightarrow> (case proxy_excluding rt rr q (a_pool_id a) sn [] s of (x, s1) \<Rightarrow> finish x s1))
        else if a_type a = ''chain'' then
          (case history (res_runtime_revision res) of None \<Rightarrow> ((empty_route, Some GatewayErrDenied), s)
           | Some sn \<Rightarrow>
             (let ids = a_chain_id a # a_fallback_chain_ids a in
              case select_chain rt rd q ids ids sn [] (rs_select s) of
                (x, s1) \<Rightarrow> finish x (s\<lparr>rs_select := s1\<rparr>)))
        else if a_type a = ''block'' \<or> a_type a = ''reject'' then
          ((empty_route\<lparr>ro_action := a_type a\<rparr>, None), s)
        else if a_type a = ''mock'' \<or> a_type a = ''redirect'' then
          ((empty_route\<lparr>ro_action := a_type a, ro_action_value := a_value a\<rparr>, None), s)
        else ((empty_route, Some GatewayErrDenied), s))"

text \<open>Route.Retry: a proxy route first rotates its session away from the endpoint.\<close>

definition retry_route :: "('b, 'p) router \<Rightarrow> route_readings \<Rightarrow> (go_id \<Rightarrow> nat \<Rightarrow> readings) \<Rightarrow>
    routing_snapshot \<Rightarrow> request_context \<Rightarrow> route \<Rightarrow> ('b, 'p) router_state \<Rightarrow>
    (error + route) \<times> ('b, 'p) router_state" where
  "retry_route rt rr rd sn q r s =
     (case ro_retry r of
        NoRetry \<Rightarrow> (Inl GoPanic, s)
      | RetryChain ids excluded \<Rightarrow>
          (case select_chain rt rd q ids ids sn excluded (rs_select s) of
             (x, s1) \<Rightarrow> (x, s\<lparr>rs_select := s1\<rparr>))
      | RetryProxy pool_id excluded \<Rightarrow>
          (case (if ro_session_id r \<noteq> [] then rs_sessions s else None) of
             None \<Rightarrow> proxy_excluding rt rr q pool_id sn excluded s
           | Some m \<Rightarrow>
              (case rotate_session (rt_session rt) (rr_err rr) (ro_session_id r) ''proxy_failed'' m of
                 (Some e, m1) \<Rightarrow> (Inl PoolUnavailable, s\<lparr>rs_sessions := Some m1\<rparr>)
               | (None, m1) \<Rightarrow> proxy_excluding rt rr q pool_id sn excluded (s\<lparr>rs_sessions := Some m1\<rparr>))))"

end
