(* ===== verification/Gateway_Use.thy ===== *)
theory Gateway_Use
  imports Gateway_Route Retry_Policy
begin

text \<open>What a route does while it is used (Acquire, Observe and Complete of internal/app/gateway.go) and
  the loops of the adapters that dial, observe and retry it
  (internal/transport/httpforward/proxy.go and internal/transport/socks5/server.go).\<close>

section \<open>Health observations\<close>

text \<open>What errors.Is and errors.As find in the cause of a failure.\<close>

record failure_cause =
  fc_deadline :: bool
  fc_credentials :: bool
  fc_net_timeout :: bool
  fc_dns :: bool
  fc_tls :: bool

definition no_cause :: failure_cause where
  "no_cause = \<lparr>fc_deadline = False, fc_credentials = False, fc_net_timeout = False, fc_dns = False,
     fc_tls = False\<rparr>"

definition health_observation :: "failure_cause \<Rightarrow> observation \<Rightarrow> observation" where
  "health_observation c ob = ob\<lparr>
     ob_auth_failure := (ob_auth_failure ob \<or> ob_http_status ob = 407 \<or> fc_credentials c),
     ob_timeout := (ob_timeout ob \<or> fc_deadline c \<or> fc_net_timeout c),
     ob_dns_failure := (ob_dns_failure ob \<or> fc_dns c),
     ob_tls_failure := (ob_tls_failure ob \<or> fc_tls c)\<rparr>"

section \<open>Acquire\<close>

fun acquire_all :: "(go_id \<Rightarrow> go_time) \<Rightarrow> go_id list \<Rightarrow> go_id list \<Rightarrow> health_manager \<Rightarrow> bool \<times> health_manager" where
  "acquire_all now acquired [] m = (True, m)"
| "acquire_all now acquired (i # is) m =
     (case acquire i (now i) m of
        (False, m1) \<Rightarrow> (False, foldl (\<lambda>m j. release j m) m1 acquired)
      | (True, m1) \<Rightarrow> acquire_all now (acquired @ [i]) is m1)"

definition with_health :: "health_manager \<Rightarrow> ('b, 'p) router_state \<Rightarrow> ('b, 'p) router_state" where
  "with_health hm s = s\<lparr>rs_select := (rs_select s)\<lparr>st_health := hm\<rparr>\<rparr>"

definition health_of :: "('b, 'p) router_state \<Rightarrow> health_manager" where
  "health_of s = st_health (rs_select s)"

definition route_acquire :: "(go_id \<Rightarrow> go_time) \<Rightarrow> route \<Rightarrow> ('b, 'p) router_state \<Rightarrow> bool \<times> ('b, 'p) router_state" where
  "route_acquire now r s = (case ro_dial r of
       EndpointDial e \<Rightarrow> (case acquire (ro_proxy_id r) (now (ro_proxy_id r)) (health_of s) of
           (ok, hm) \<Rightarrow> (ok, with_health hm s))
     | ChainDial hops \<Rightarrow> (case acquire_all now [] (ro_chain_proxies r) (health_of s) of
           (ok, hm) \<Rightarrow> (ok, with_health hm s))
     | _ \<Rightarrow> (True, s))"

section \<open>Observe and Complete\<close>

definition observe_endpoint :: "go_time \<Rightarrow> observation \<Rightarrow> go_id \<Rightarrow> ('b, 'p) router_state \<Rightarrow> ('b, 'p) router_state" where
  "observe_endpoint now ob i s = with_health (snd (observe now i ob (health_of s))) s"

text \<open>The failed endpoint of a chain is the one the last dial named, empty if none.\<close>

definition chain_observe :: "go_time \<Rightarrow> observation \<Rightarrow> go_id \<Rightarrow> go_id list \<Rightarrow> ('b, 'p) router_state \<Rightarrow>
    ('b, 'p) router_state" where
  "chain_observe now ob failed proxies s =
     (if ob_success ob then foldl (\<lambda>s i. observe_endpoint now ob i s) s proxies
      else foldl (\<lambda>s i. if i = failed then observe_endpoint now ob i s
             else with_health (release i (health_of s)) s) s proxies)"

definition proxy_observe :: "('b, 'p) router \<Rightarrow> go_time \<Rightarrow> observation \<Rightarrow> route \<Rightarrow> ('b, 'p) router_state \<Rightarrow>
    ('b, 'p) router_state" where
  "proxy_observe rt now ob r s =
     (let s1 = observe_endpoint now ob (ro_proxy_id r) s in
      if ob_success ob \<or> ro_session_id r = [] then s1
      else case rs_sessions s1 of None \<Rightarrow> s1
        | Some m \<Rightarrow>
           (case health_eligible (ro_proxy_id r) now (health_of s1) of (ok, hm) \<Rightarrow>
              let s2 = with_health hm s1 in
              if ok then s2
              else s2\<lparr>rs_sessions := Some (snd (rotate_session (rt_session rt) None (ro_session_id r)
                     ''proxy_failed'' m))\<rparr>))"

definition route_observe :: "('b, 'p) router \<Rightarrow> go_time \<Rightarrow> failure_cause \<Rightarrow> observation \<Rightarrow> go_id \<Rightarrow> route \<Rightarrow>
    ('b, 'p) router_state \<Rightarrow> ('b, 'p) router_state" where
  "route_observe rt now c ob failed r s = (case ro_dial r of
       EndpointDial e \<Rightarrow> proxy_observe rt now (health_observation c ob) r s
     | ChainDial hops \<Rightarrow> chain_observe now (health_observation c ob) failed (ro_chain_proxies r) s
     | _ \<Rightarrow> s)"

fun throughput_all :: "64 word \<Rightarrow> go_id list \<Rightarrow> bytes \<Rightarrow> duration \<Rightarrow> ('b, 'p) router_state \<Rightarrow> ('b, 'p) router_state" where
  "throughput_all big [] amount elapsed s = s"
| "throughput_all big (i # is) amount elapsed s =
     throughput_all big is amount elapsed
       (with_health (snd (record_throughput big i amount elapsed (health_of s))) s)"

definition route_throughput :: "64 word \<Rightarrow> go_id list \<Rightarrow> duration \<Rightarrow> bytes \<Rightarrow> bytes \<Rightarrow>
    ('b, 'p) router_state \<Rightarrow> ('b, 'p) router_state" where
  "route_throughput big is elapsed up down s = (case bytes_add up down of Inl e \<Rightarrow> s
     | Inr amount \<Rightarrow> if amount = 0 then s else throughput_all big is amount elapsed s)"

definition route_complete :: "('b, 'p) router \<Rightarrow> 64 word \<Rightarrow> error option \<Rightarrow> go_time \<Rightarrow> duration \<Rightarrow> bytes \<Rightarrow> bytes \<Rightarrow>
    route \<Rightarrow> ('b, 'p) router_state \<Rightarrow> ('b, 'p) router_state" where
  "route_complete rt big err now elapsed up down r s = (case ro_dial r of
       EndpointDial e \<Rightarrow>
         (let s1 = route_throughput big [ro_proxy_id r] elapsed up down s in
          case (if ro_records_usage r then rs_sessions s1 else None) of None \<Rightarrow> s1
          | Some m \<Rightarrow> s1\<lparr>rs_sessions := Some (snd (record_usage (rt_session rt) err now (ro_session_id r) up down m))\<rparr>)
     | ChainDial hops \<Rightarrow> route_throughput big (ro_chain_proxies r) elapsed up down s
     | _ \<Rightarrow> s)"

record complete_readings =
  cp_big :: "64 word"
  cp_err :: "error option"
  cp_now :: go_time
  cp_elapsed :: duration

definition complete_with :: "('b, 'p) router \<Rightarrow> complete_readings \<Rightarrow> bytes \<Rightarrow> bytes \<Rightarrow> route \<Rightarrow> ('b, 'p) router_state \<Rightarrow>
    ('b, 'p) router_state" where
  "complete_with rt c up down r s = route_complete rt (cp_big c) (cp_err c) (cp_now c) (cp_elapsed c) up down r s"

section \<open>The loops of the adapters\<close>

text \<open>Available of internal/budget/io.go: one byte is reserved and returned.\<close>

definition route_available :: "('b, 'p) router \<Rightarrow> error option \<Rightarrow> go_time \<Rightarrow> route \<Rightarrow> ('b, 'p) router_state \<Rightarrow>
    error option \<times> ('b, 'p) router_state" where
  "route_available rt err now r s =
     (case (ro_reserve r, st_budgets (rs_select s)) of
        (Some ids, Some bm) \<Rightarrow>
          (case reserve (se_budget (rt_select rt)) err now ids 1 bm of
             (Inl e, bm1) \<Rightarrow> (Some e, s\<lparr>rs_select := (rs_select s)\<lparr>st_budgets := Some bm1\<rparr>\<rparr>)
           | (Inr l, bm1) \<Rightarrow> (case close (se_budget (rt_select rt)) l bm1 of (e, l1, bm2) \<Rightarrow>
               (e, s\<lparr>rs_select := (rs_select s)\<lparr>st_budgets := Some bm2\<rparr>\<rparr>)))
      | _ \<Rightarrow> (None, s))"

text \<open>A tunnel retries any failed dial; the HTTP adapter asks the policy about the request.\<close>

datatype adapter =
    Tunnel
  | HttpForward string bool bool

definition may_retry :: "adapter \<Rightarrow> retry_policy \<Rightarrow> 8 word \<Rightarrow> bool" where
  "may_retry ad pol attempt = (case ad of
       Tunnel \<Rightarrow> \<not> attempt \<ge> rp_max_attempts pol
     | HttpForward meth body_present key \<Rightarrow> should_retry pol \<lparr>rr_method = meth, rr_body_present = body_present,
          rr_body_replayable = False, rr_response_delivered = False, rr_idempotency_key = key,
          rr_attempt = attempt, rr_failure = ConnectFailure\<rparr>)"

text \<open>What one attempt meets: None is an established connection or a response, otherwise the cause and
  the endpoint a chain blames; the observation it makes; and the readings of the retry.\<close>

record attempt_io =
  ai_failure :: "(failure_cause \<times> go_id) option"
  ai_observation :: observation
  ai_now :: go_time
  ai_wait :: "error option"
  ai_route :: route_readings
  ai_chain :: "go_id \<Rightarrow> nat \<Rightarrow> readings"
  ai_reserve_now :: go_time
  ai_acquire_now :: "go_id \<Rightarrow> go_time"
  ai_upload :: bytes
  ai_complete :: complete_readings

text \<open>What the decoration of the first route passes on.\<close>

definition retain :: "adapter \<Rightarrow> route \<Rightarrow> route \<Rightarrow> route" where
  "retain ad r n = (let n1 = n\<lparr>ro_throttle_bps := ro_throttle_bps r\<rparr> in
     case ad of Tunnel \<Rightarrow> n1
     | HttpForward meth body key \<Rightarrow> n1\<lparr>ro_cache := ro_cache r, ro_rewrite_path := ro_rewrite_path r\<rparr>)"

text \<open>The next route of a retry: what Retry, Available and Acquire let through.\<close>

definition next_route :: "('b, 'p) router \<Rightarrow> adapter \<Rightarrow> attempt_io \<Rightarrow> routing_snapshot \<Rightarrow> request_context \<Rightarrow> route \<Rightarrow>
    ('b, 'p) router_state \<Rightarrow> route option \<times> ('b, 'p) router_state" where
  "next_route rt ad io sn q r s =
     (case retry_route rt (ai_route io) (ai_chain io) sn q r s of
        (Inl e, s1) \<Rightarrow> (None, s1)
      | (Inr n, s1) \<Rightarrow>
         if ro_dial n = NoDial then (None, s1)
         else (case route_available rt (rr_err (ai_route io)) (ai_reserve_now io) n s1 of
            (Some e, s2) \<Rightarrow> (None, s2)
          | (None, s2) \<Rightarrow> (case route_acquire (ai_acquire_now io) n s2 of
              (ok, s3) \<Rightarrow> (if ok then Some (retain ad r n) else None, s3))))"

text \<open>A failed attempt is observed and recorded, which completes its route with the bytes read from the client.\<close>

definition failed_attempt :: "('b, 'p) router \<Rightarrow> adapter \<Rightarrow> attempt_io \<Rightarrow> failure_cause \<Rightarrow> go_id \<Rightarrow> route \<Rightarrow>
    ('b, 'p) router_state \<Rightarrow> ('b, 'p) router_state" where
  "failed_attempt rt ad io c failed r s =
     complete_with rt (ai_complete io) (case ad of Tunnel \<Rightarrow> 0 | HttpForward meth body key \<Rightarrow> ai_upload io) 0 r
       (route_observe rt (ai_now io) c ((ai_observation io)\<lparr>ob_success := False\<rparr>) failed r s)"

text \<open>The loop: the routes attempted, in order, and whether the last one succeeded.\<close>

function attempts :: "('b, 'p) router \<Rightarrow> adapter \<Rightarrow> retry_policy \<Rightarrow> (8 word \<Rightarrow> attempt_io) \<Rightarrow> routing_snapshot \<Rightarrow>
    request_context \<Rightarrow> 8 word \<Rightarrow> route \<Rightarrow> ('b, 'p) router_state \<Rightarrow>
    (bool \<times> route list) \<times> ('b, 'p) router_state" where
  "attempts rt ad pol io sn q k r s =
     (case ai_failure (io k) of
        None \<Rightarrow> ((True, [r]), route_observe rt (ai_now (io k)) no_cause
            ((ai_observation (io k))\<lparr>ob_success := True\<rparr>) [] r s)
      | Some (c, failed) \<Rightarrow>
         (let s1 = failed_attempt rt ad (io k) c failed r s in
          if ro_retry r = NoRetry \<or> \<not> may_retry ad pol k \<or> ai_wait (io k) \<noteq> None then ((False, [r]), s1)
          else case next_route rt ad (io k) sn q r s1 of
              (None, s2) \<Rightarrow> ((False, [r]), s2)
            | (Some n, s2) \<Rightarrow> (case attempts rt ad pol io sn q (k + 1) n s2 of
                ((ok, tried), s3) \<Rightarrow> ((ok, r # tried), s3))))"
  by pat_completeness auto

lemma may_retry_less: "may_retry ad pol k \<Longrightarrow> k < rp_max_attempts pol"
  by (auto simp: may_retry_def should_retry_def not_le split: adapter.splits if_splits)

lemma next_attempt: "k < m \<Longrightarrow> unat (k + 1 :: 8 word) = unat k + 1"
proof -
  assume "k < m"
  then have "k \<noteq> - 1" using word_order.extremum_strict by blast
  then show ?thesis by (metis Suc_eq_plus1 add.commute add_eq_0_iff unatSuc)
qed

lemma retry_measure: "may_retry ad pol k \<Longrightarrow> 256 - unat (k + 1) < 256 - unat k"
proof -
  assume "may_retry ad pol k"
  then have "unat (k + 1) = unat k + 1" by (rule next_attempt [OF may_retry_less])
  moreover have "unat (k + 1) < 2 ^ LENGTH(8)" by (rule unsigned_less)
  ultimately show ?thesis by simp
qed

termination attempts
  by (relation "measure (\<lambda>(rt, ad, pol, io, sn, q, k, r, s). 256 - unat k)")
     (auto intro: retry_measure)

declare attempts.simps [simp del]

definition serve_attempts :: "('b, 'p) router \<Rightarrow> adapter \<Rightarrow> (8 word \<Rightarrow> attempt_io) \<Rightarrow> routing_snapshot \<Rightarrow>
    request_context \<Rightarrow> route \<Rightarrow> ('b, 'p) router_state \<Rightarrow> (bool \<times> route list) \<times> ('b, 'p) router_state" where
  "serve_attempts rt ad io sn q r s =
     attempts rt ad (case ro_retry_policy r of None \<Rightarrow> default_retry_policy | Some p \<Rightarrow> p) io sn q 1 r s"

end
