(* ===== verification/Gateway_Safety.thy ===== *)
theory Gateway_Safety
  imports Gateway_Walks Gateway_Use
begin

text \<open>What holds of every route: where it may connect to, which endpoints a chain and the attempts of
  a request use, and what a failed Acquire leaves behind.\<close>

section \<open>Selections at any readings\<close>

definition pools_bounded :: "routing_snapshot \<Rightarrow> bool" where
  "pools_bounded sn = list_all (\<lambda>p. length (pl_endpoint_ids p) < 2 ^ 64) (rb_pools (sn_bundle sn))"

lemma gather_members:
  "c \<in> set (fst (gather env rd sn excluded p pid is s)) \<Longrightarrow>
     \<exists>i\<in>set is. cd_endpoint c = sn_endpoint sn i \<and> ep_enabled (sn_endpoint sn i) \<and>
       ep_id (sn_endpoint sn i) \<notin> set excluded \<and> matches_pool (sn_endpoint sn i) p"
proof (induction "is" arbitrary: s)
  case (Cons i js)
  let ?r = "eligible_snapshot (ep_id (sn_endpoint sn i)) (rd_now rd pid) (st_health s)"
  show ?case using Cons.prems Cons.IH [of "s\<lparr>st_health := snd ?r\<rparr>"]
    by (auto simp: Let_def endpoint_eligible_for_pool_def split: prod.splits if_splits)
qed simp

lemma gather_length: "length (fst (gather env rd sn excluded p pid is s)) \<le> length is"
proof (induction "is" arbitrary: s)
  case (Cons i js)
  let ?r = "eligible_snapshot (ep_id (sn_endpoint sn i)) (rd_now rd pid) (st_health s)"
  show ?case using Cons.IH [of "s\<lparr>st_health := snd ?r\<rparr>"]
    by (auto simp: Let_def split: prod.splits)
qed simp

lemma select_member:
  assumes "select lib err rnd sel inp cs = (Inr i, sel1)" "length cs < 2 ^ 64"
  shows "\<exists>c\<in>set cs. ep_id (cd_endpoint c) = i \<and> endpoint_validate lib (cd_endpoint c) = None"
proof -
  let ?el = "eligible_candidates lib cs"
  obtain c where c: "select_candidate rnd sel inp ?el = (Inr c, sel1)" "?el \<noteq> []" "ep_id (cd_endpoint c) = i"
    using assms(1) by (auto simp: select_def Let_def split: option.splits if_splits prod.splits sum.splits)
  have "length ?el < 2 ^ 64"
    using assms(2) length_filter_le le_less_trans unfolding eligible_candidates_def by blast
  then have "c \<in> set ?el" using select_candidate_in c by blast
  then show ?thesis using c(3) by (auto simp: eligible_candidates_def)
qed

definition chosen :: "go_lib \<Rightarrow> routing_snapshot \<Rightarrow> go_id list \<Rightarrow> endpoint \<Rightarrow> bool" where
  "chosen lib sn excluded e = (sn_lookup sn (ep_id e) = Some e \<and> ep_enabled e \<and> ep_id e \<notin> set excluded \<and>
     endpoint_validate lib e = None)"

lemma try_pool_chosen:
  assumes "try_pool env rd sn q excluded pid p s = (Some i, s1)" "length (pl_endpoint_ids p) < 2 ^ 64"
  shows "chosen (se_lib env) sn excluded (sn_endpoint sn i) \<and> i \<in> set (pl_endpoint_ids p) \<and>
    matches_pool (sn_endpoint sn i) p \<and> ep_id (sn_endpoint sn i) = i"
proof -
  obtain cs t where g: "gather env rd sn excluded p pid (pl_endpoint_ids p) s = (cs, t)" by (metis surj_pair)
  have "length cs \<le> length (pl_endpoint_ids p)"
    using gather_length [of env rd sn excluded p pid "pl_endpoint_ids p" s] g by simp
  then have l: "length cs < 2 ^ 64" using assms(2) by simp
  obtain sel1 where "select (se_lib env) (rd_err rd) (rd_random rd pid) (st_selectors t (pl_strategy p))
      (pool_context q pid) cs = (Inr i, sel1)"
    using assms(1) g by (auto simp: try_pool_def split: if_splits prod.splits sum.splits)
  then obtain c where c: "c \<in> set cs" "ep_id (cd_endpoint c) = i" "endpoint_validate (se_lib env) (cd_endpoint c) = None"
    using select_member l by blast
  then obtain j where j: "j \<in> set (pl_endpoint_ids p)" "cd_endpoint c = sn_endpoint sn j"
      "ep_enabled (sn_endpoint sn j)" "ep_id (sn_endpoint sn j) \<notin> set excluded" "matches_pool (sn_endpoint sn j) p"
    using gather_members [of c env rd sn excluded p pid "pl_endpoint_ids p" s] g by auto
  have i: "i = j" using lookup_id [OF j(3)] c(2) j(2) by simp
  have "sn_lookup sn j = Some (sn_endpoint sn j)"
    using j(3) by (auto simp: sn_endpoint_def zero_endpoint_def split: option.splits)
  then show ?thesis using i j c(3) lookup_id [OF j(3)] by (simp add: chosen_def)
qed

lemma select_chosen:
  assumes "select_endpoint_excluding env rd pid q sn excluded s = (Inr e, s1)" "pools_bounded sn"
  shows "chosen (se_lib env) sn excluded e \<and> (\<exists>j p. leads_to sn pid j p \<and> holds sn (ep_id e) p)"
proof -
  let ?yes = "\<lambda>j p e. chosen (se_lib env) sn excluded e \<and> holds sn (ep_id e) p"
  have a: "True \<and> (case x of None \<Rightarrow> True | Some e \<Rightarrow> ?yes i p e)"
    if p: "sn_pool sn i = Some p" "pl_enabled p"
      and x: "(case try_pool env rd sn q excluded i p t of (r, s1) \<Rightarrow> (map_option (sn_endpoint sn) r, s1)) = (x, t1)"
    for i p t x t1
  proof (cases x)
    case (Some e)
    then obtain k where k: "try_pool env rd sn q excluded i p t = (Some k, t1)" "e = sn_endpoint sn k"
      using x by (auto split: prod.splits)
    have "p \<in> set (rb_pools (sn_bundle sn))"
      using p by (auto simp: sn_pool_def pool_map_of_def dest: find_Some_iff [THEN iffD1])
    then have "length (pl_endpoint_ids p) < 2 ^ 64" using assms(2) by (simp add: pools_bounded_def list_all_iff)
    then show ?thesis using try_pool_chosen [OF k(1)] k(2) p(2) Some by (simp add: holds_def)
  qed simp
  obtain x seen where w: "select_pool env rd sn q excluded (walk_fuel sn) [] pid s = (Some e, seen, s1)"
    using assms(1) by (auto simp: select_endpoint_excluding_def split: prod.splits option.splits)
  have "\<exists>j p. (pid, j) \<in> (enabled_rel (sn_pool sn))\<^sup>* \<and> sn_pool sn j = Some p \<and> pl_enabled p \<and> ?yes j p e"
    by (rule selecting.walk_answers(2) [where keep = "\<lambda>_. True" and yes = ?yes and no = "\<lambda>_ _. True",
        OF sn_pools_finite _ TrueI w refl]) (assumption, rule a)
  then show ?thesis by (auto simp: leads_to_def)
qed

section \<open>Chains\<close>

text \<open>The route of a chain: one endpoint for each hop, in order, none of them excluded before or prior
  twice, each from the pool of its hop or a fallback of it and charged to a pool that holds it.\<close>

definition hop_serves :: "routing_snapshot \<Rightarrow> hop \<Rightarrow> chain_hop \<Rightarrow> bool" where
  "hop_serves sn h c = (ch_timeout c = effective_timeout h \<and>
     (\<exists>p. leads_to sn (hop_pool_id h) (ch_pool_id c) p \<and> holds sn (ep_id (ch_endpoint c)) p))"

lemma chain_hops_sound:
  assumes "chain_hops rt rd q sn k hs excluded s = (Inr hops, ex, s1)" "pools_bounded sn"
  shows "list_all2 (hop_serves sn) hs hops \<and> distinct (map (\<lambda>h. ep_id (ch_endpoint h)) hops) \<and>
     (\<forall>h\<in>set hops. chosen (se_lib (rt_select rt)) sn excluded (ch_endpoint h) \<and>
        (dp_deny_private (rt_destination rt) \<longrightarrow> ep_trusted_remote_dns (ch_endpoint h))) \<and>
     set ex = set excluded \<union> ep_id ` ch_endpoint ` set hops"
  using assms(1)
proof (induction hs arbitrary: k excluded s hops)
  case (Cons h hs)
  obtain e t where e: "select_endpoint_excluding (rt_select rt) (rd k) (hop_pool_id h) q sn excluded s = (Inr e, t)"
    using Cons.prems by (auto split: prod.splits sum.splits)
  then obtain selected rest where r: "endpoint_pool (hop_pool_id h) (ep_id e) sn = Some selected"
      "dp_deny_private (rt_destination rt) \<longrightarrow> ep_trusted_remote_dns e"
      "chain_hops rt rd q sn (Suc k) hs (ep_id e # excluded) t = (Inr rest, ex, s1)"
      "hops = \<lparr>ch_pool_id = selected, ch_endpoint = e, ch_timeout = effective_timeout h\<rparr> # rest"
    using Cons.prems by (auto split: prod.splits sum.splits option.splits if_splits)
  note IH = Cons.IH [OF r(3)]
  have c: "chosen (se_lib (rt_select rt)) sn excluded e" using select_chosen [OF e assms(2)] by blast
  have s: "hop_serves sn h (hd hops)"
    using endpoint_pool_walk [of "hop_pool_id h" "ep_id e" sn] r(1,4) by (auto simp: hop_serves_def)
  show ?case using IH c s r(2,4) by (auto simp: chosen_def)
qed simp

section \<open>Proxy routes\<close>

text \<open>A route through one endpoint of the snapshot, charged to an enabled pool the fallbacks of the
  named pool lead to, which holds the endpoint.\<close>

definition proxy_route_ok :: "('b, 'p) router \<Rightarrow> routing_snapshot \<Rightarrow> go_id \<Rightarrow> endpoint \<Rightarrow> route \<Rightarrow> bool" where
  "proxy_route_ok rt sn pid e r = (ro_dial r = EndpointDial e \<and> ro_proxy_id r = ep_id e \<and>
     sn_lookup sn (ep_id e) = Some e \<and> endpoint_validate (se_lib (rt_select rt)) e = None \<and>
     (dp_deny_private (rt_destination rt) \<longrightarrow> ep_trusted_remote_dns e) \<and>
     (\<exists>p. leads_to sn pid (ro_pool_id r) p \<and> holds sn (ep_id e) p))"

lemma proxy_finish:
  assumes "(case proxy_checks rt sn pid e of Inl err \<Rightarrow> (Inl err, s1)
      | Inr selected \<Rightarrow> (Inr (proxy_route rt q pid excluded e selected sess bm), s1)) = (Inr r, s2)"
    "sn_lookup sn (ep_id e) = Some e"
  shows "proxy_route_ok rt sn pid e r \<and> ro_retry r = RetryProxy pid (ep_id e # excluded) \<and> ro_action r = ''proxy'' \<and>
    s2 = s1 \<and> ro_reserve r = reserve_ids q (ro_pool_id r) (ep_id e) bm \<and>
    ro_session_id r = (case sess of None \<Rightarrow> [] | Some (i, h) \<Rightarrow> i) \<and>
    endpoint_pool pid (ep_id e) sn = Some (ro_pool_id r)"
proof -
  obtain selected where c: "proxy_checks rt sn pid e = Inr selected"
      "r = proxy_route rt q pid excluded e selected sess bm" "s2 = s1"
    using assms(1) by (auto split: sum.splits)
  then show ?thesis using assms(2) endpoint_pool_walk [of pid "ep_id e" sn]
    by (auto simp: proxy_checks_def transport_ok_def proxy_route_ok_def proxy_route_def
        split: if_splits option.splits)
qed

lemma lookup_key: "sn_lookup sn i = Some e \<Longrightarrow> ep_id e = i"
  by (auto simp: sn_lookup_def dest: find_Some_iff [THEN iffD1])

lemma proxy_excluding_sound:
  assumes "proxy_excluding rt rr q pid sn excluded s = (Inr r, s1)" "pools_bounded sn"
  shows "\<exists>e. proxy_route_ok rt sn pid e r \<and> ro_retry r = RetryProxy pid (ep_id e # excluded) \<and>
    ro_action r = ''proxy'' \<and>
    (rs_sessions s = None \<longrightarrow> ep_id e \<notin> set excluded \<and> rs_sessions s1 = None \<and> ro_session_id r = [])"
proof -
  obtain p where p: "sn_pool sn pid = Some p" "pl_enabled p"
    using assms(1) by (auto simp: proxy_excluding_def split: option.splits if_splits)
  show ?thesis
  proof (cases "rs_sessions s")
    case None
    obtain e t where e: "select_endpoint_excluding (rt_select rt) (at_select (rr_first rr)) pid q sn excluded
        (rs_select s) = (Inr e, t)"
      using assms(1) p None by (auto simp: proxy_excluding_def Let_def split: prod.splits sum.splits)
    have c: "chosen (se_lib (rt_select rt)) sn excluded e" using select_chosen [OF e assms(2)] by blast
    have "(case proxy_checks rt sn pid e of Inl err \<Rightarrow> (Inl err, s\<lparr>rs_select := t\<rparr>)
        | Inr selected \<Rightarrow> (Inr (proxy_route rt q pid excluded e selected None (st_budgets t)),
            s\<lparr>rs_select := t\<rparr>)) = (Inr r, s1)"
      using assms(1) p None e by (simp add: proxy_excluding_def Let_def cong: sum.case_cong)
    from proxy_finish [OF this] show ?thesis using c None by (auto simp: chosen_def)
  next
    case (Some m)
    obtain ss t n where ss: "session_endpoint rt rr (client_or_local q) (normalized (pl_session_policy p)) pid q sn
        excluded (rs_select s) m = (Inr ss, t, n)"
      using assms(1) p Some by (auto simp: proxy_excluding_def Let_def split: prod.splits sum.splits)
    obtain e where e: "sn_lookup sn (ss_endpoint_id ss) = Some e"
      using assms(1) p Some ss by (auto simp: proxy_excluding_def Let_def split: option.splits)
    then have "sn_lookup sn (ep_id e) = Some e" using lookup_key by metis
    moreover have "\<exists>sess. (case proxy_checks rt sn pid e of Inl err \<Rightarrow> (Inl err, \<lparr>rs_select = t, rs_sessions = Some n\<rparr>)
        | Inr selected \<Rightarrow> (Inr (proxy_route rt q pid excluded e selected sess (st_budgets t)),
            \<lparr>rs_select = t, rs_sessions = Some n\<rparr>)) = (Inr r, s1)"
      using assms(1) p Some ss e
      by (intro exI [of _ "if sp_strategy (normalized (pl_session_policy p)) \<noteq> ''none''
            then Some (ss_id ss, ss_key_hash ss) else None"])
         (simp add: proxy_excluding_def Let_def cong: sum.case_cong)
    ultimately show ?thesis using proxy_finish Some by fastforce
  qed
qed

section \<open>Chain routes\<close>

definition chain_route_ok :: "('b, 'p) router \<Rightarrow> routing_snapshot \<Rightarrow> go_id list \<Rightarrow> go_id list \<Rightarrow> chain_hop list \<Rightarrow>
    route \<Rightarrow> bool" where
  "chain_route_ok rt sn ids excluded hops r = (ro_dial r = ChainDial hops \<and>
     ro_chain_proxies r = map (\<lambda>h. ep_id (ch_endpoint h)) hops \<and> distinct (ro_chain_proxies r) \<and>
     set (ro_chain_proxies r) \<inter> set excluded = {} \<and>
     (\<forall>h\<in>set hops. sn_lookup sn (ep_id (ch_endpoint h)) = Some (ch_endpoint h) \<and>
        (dp_deny_private (rt_destination rt) \<longrightarrow> ep_trusted_remote_dns (ch_endpoint h))) \<and>
     (\<exists>c. sn_chain sn (ro_chain_id r) = Some c \<and> cn_enabled c \<and> ro_chain_id r \<in> set ids \<and>
        list_all2 (hop_serves sn) (cn_hops c) hops))"

lemma select_chain_sound:
  assumes "select_chain rt rd q every ids sn excluded s = (Inr r, s1)" "pools_bounded sn"
  shows "\<exists>hops ex. chain_route_ok rt sn ids excluded hops r \<and> ro_retry r = RetryChain every ex \<and>
    ro_action r = ''chain'' \<and> set ex = set excluded \<union> set (ro_chain_proxies r)"
  using assms(1)
proof (induction ids arbitrary: s)
  case (Cons c cs)
  obtain x ex t where b: "build_chain rt (rd c) q c sn excluded s = (x, ex, t)" by (metis surj_pair)
  show ?case
  proof (cases x)
    case (Inl e)
    then have "\<exists>hops ex. chain_route_ok rt sn cs excluded hops r \<and> ro_retry r = RetryChain every ex \<and>
        ro_action r = ''chain'' \<and> set ex = set excluded \<union> set (ro_chain_proxies r)"
      using Cons b by simp
    then show ?thesis by (auto simp: chain_route_ok_def)
  next
    case (Inr r0)
    then obtain d hops where d: "sn_chain sn c = Some d" "cn_enabled d"
        "chain_hops rt (rd c) q sn 0 (cn_hops d) excluded s = (Inr hops, ex, t)"
        "r0 = chain_route rt q c hops (st_budgets t)"
      using b by (auto simp: build_chain_def split: option.splits if_splits prod.splits sum.splits)
    note h = chain_hops_sound [OF d(3) assms(2)]
    have r: "r = r0\<lparr>ro_retry := RetryChain every ex\<rparr>" using Cons.prems b Inr by simp
    have "chain_route_ok rt sn (c # cs) excluded hops r"
      using h d r by (auto simp: chain_route_ok_def chain_route_def Let_def chosen_def)
    moreover have "ro_retry r = RetryChain every ex" "ro_action r = ''chain''"
        "set ex = set excluded \<union> set (ro_chain_proxies r)"
      using h d r by (auto simp: chain_route_def Let_def)
    ultimately show ?thesis by blast
  qed
qed simp

section \<open>Fail closed\<close>

lemma route_actions_found:
  "fst (route_actions ms as) = List.find (\<lambda>a. a_type a \<in> set terminal_types) as"
  by (induction ms as rule: route_actions.induct) (auto simp: terminal_types_def)

lemma decorate_keeps [simp]:
  "ro_dial (decorate ms r) = ro_dial r" "ro_action (decorate ms r) = ro_action r"
  "ro_pool_id (decorate ms r) = ro_pool_id r" "ro_proxy_id (decorate ms r) = ro_proxy_id r"
  "ro_chain_id (decorate ms r) = ro_chain_id r" "ro_chain_proxies (decorate ms r) = ro_chain_proxies r"
proof -
  have "ro_dial (decorate ms r) = ro_dial r \<and> ro_action (decorate ms r) = ro_action r \<and>
    ro_pool_id (decorate ms r) = ro_pool_id r \<and> ro_proxy_id (decorate ms r) = ro_proxy_id r \<and>
    ro_chain_id (decorate ms r) = ro_chain_id r \<and> ro_chain_proxies (decorate ms r) = ro_chain_proxies r"
    unfolding decorate_def by (induction ms arbitrary: r) (simp_all add: decorate_step_def)
  then show "ro_dial (decorate ms r) = ro_dial r" "ro_action (decorate ms r) = ro_action r"
    "ro_pool_id (decorate ms r) = ro_pool_id r" "ro_proxy_id (decorate ms r) = ro_proxy_id r"
    "ro_chain_id (decorate ms r) = ro_chain_id r" "ro_chain_proxies (decorate ms r) = ro_chain_proxies r"
    by simp_all
qed

lemma decorate_ok [simp]:
  "proxy_route_ok rt sn pid e (decorate ms r) = proxy_route_ok rt sn pid e r"
  "chain_route_ok rt sn ids ex hops (decorate ms r) = chain_route_ok rt sn ids ex hops r"
  by (simp_all add: proxy_route_ok_def chain_route_ok_def)


section \<open>The attempts of a request\<close>

definition route_endpoints :: "route \<Rightarrow> go_id list" where
  "route_endpoints r = (case ro_dial r of EndpointDial e \<Rightarrow> [ro_proxy_id r]
     | ChainDial hops \<Rightarrow> ro_chain_proxies r | _ \<Rightarrow> [])"

definition excluded_of :: "route \<Rightarrow> go_id set" where
  "excluded_of r = (case ro_retry r of NoRetry \<Rightarrow> {} | RetryProxy pid ex \<Rightarrow> set ex | RetryChain ids ex \<Rightarrow> set ex)"

definition fresh_route :: "go_id set \<Rightarrow> route \<Rightarrow> bool" where
  "fresh_route prior r = (distinct (route_endpoints r) \<and> set (route_endpoints r) \<inter> prior = {} \<and>
     (ro_retry r \<noteq> NoRetry \<longrightarrow> excluded_of r = prior \<union> set (route_endpoints r)))"

lemma proxy_fresh:
  assumes "proxy_excluding rt rr q pid sn excluded s = (Inr r, s1)" "pools_bounded sn" "rs_sessions s = None"
  shows "fresh_route (set excluded) r \<and> rs_sessions s1 = None"
  using proxy_excluding_sound [OF assms(1,2)] assms(3)
  by (auto simp: fresh_route_def route_endpoints_def excluded_of_def proxy_route_ok_def)

lemma chain_fresh:
  assumes "select_chain rt rd q every ids sn excluded s = (Inr r, s1)" "pools_bounded sn"
  shows "fresh_route (set excluded) r"
  using select_chain_sound [OF assms] by (auto simp: fresh_route_def route_endpoints_def excluded_of_def chain_route_ok_def)

lemma sessions_kept [simp]:
  "rs_sessions (with_health hm s) = rs_sessions s"
  "rs_sessions (snd (route_acquire now r s)) = rs_sessions s"
  "rs_sessions (snd (route_available rt err t r s)) = rs_sessions s"
  "rs_sessions (observe_endpoint t ob i s) = rs_sessions s"
  "rs_sessions (chain_observe t ob i is s) = rs_sessions s"
proof -
  show w: "rs_sessions (with_health hm s) = rs_sessions s" for hm and s :: "('x, 'y) router_state"
    by (simp add: with_health_def)
  show "rs_sessions (snd (route_acquire now r s)) = rs_sessions s"
    by (simp add: route_acquire_def w split: dialer.splits prod.splits)
  show "rs_sessions (snd (route_available rt err t r s)) = rs_sessions s"
    by (simp add: route_available_def split: option.splits prod.splits sum.splits)
  show o: "rs_sessions (observe_endpoint t ob i s) = rs_sessions s" for i and s :: "('x, 'y) router_state"
    by (simp add: observe_endpoint_def w)
  show "rs_sessions (chain_observe t ob i is s) = rs_sessions s"
  proof (cases "ob_success ob")
    case True
    have "rs_sessions (foldl (\<lambda>s i. observe_endpoint t ob i s) s is) = rs_sessions s"
      by (induction "is" arbitrary: s) (simp_all add: o)
    then show ?thesis using True by (simp add: chain_observe_def)
  next
    case False
    have "rs_sessions (foldl (\<lambda>s j. if j = i then observe_endpoint t ob j s
        else with_health (release j (health_of s)) s) s is) = rs_sessions s"
      by (induction "is" arbitrary: s) (simp_all add: o w)
    then show ?thesis using False by (simp add: chain_observe_def)
  qed
qed

lemma observe_sessions: "rs_sessions s = None \<Longrightarrow> rs_sessions (route_observe rt t c ob f r s) = None"
  by (simp add: route_observe_def proxy_observe_def Let_def split: dialer.splits)

lemma failed_sessions: "rs_sessions s = None \<Longrightarrow> rs_sessions (failed_attempt rt ad io c f r s) = None"
proof -
  assume s: "rs_sessions s = None"
  have t: "rs_sessions (throughput_all big is amount elapsed x) = rs_sessions x" for big "is" amount elapsed x
    by (induction big "is" amount elapsed x rule: throughput_all.induct) simp_all
  have "rs_sessions x = None \<Longrightarrow> rs_sessions (complete_with rt c up down r x) = None" for c up down x
    by (simp add: complete_with_def route_complete_def route_throughput_def t Let_def split: dialer.split sum.split)
  then show ?thesis using observe_sessions [OF s] by (simp add: failed_attempt_def)
qed

lemma retain_keeps [simp]:
  "ro_retry (retain ad r n) = ro_retry n" "route_endpoints (retain ad r n) = route_endpoints n"
  "excluded_of (retain ad r n) = excluded_of n" "fresh_route prior (retain ad r n) = fresh_route prior n"
proof -
  show a: "ro_retry (retain ad r n) = ro_retry n"
    by (cases ad) (simp_all add: retain_def Let_def)
  have "ro_dial (retain ad r n) = ro_dial n" "ro_proxy_id (retain ad r n) = ro_proxy_id n"
      "ro_chain_proxies (retain ad r n) = ro_chain_proxies n"
    by (cases ad; simp add: retain_def Let_def)+
  then show b: "route_endpoints (retain ad r n) = route_endpoints n"
    by (simp add: route_endpoints_def cong: dialer.case_cong)
  show c: "excluded_of (retain ad r n) = excluded_of n" using a by (simp add: excluded_of_def)
  show "fresh_route prior (retain ad r n) = fresh_route prior n" by (simp add: fresh_route_def a b c)
qed

lemma next_route_fresh:
  assumes "next_route rt ad io sn q r s = (Some n, s1)" "pools_bounded sn" "rs_sessions s = None"
    "ro_retry r \<noteq> NoRetry"
  shows "fresh_route (excluded_of r) n \<and> rs_sessions s1 = None"
proof -
  obtain n0 t where t: "retry_route rt (ai_route io) (ai_chain io) sn q r s = (Inr n0, t)"
    using assms(1) by (auto simp: next_route_def split: prod.splits sum.splits)
  have "(if ro_session_id r \<noteq> [] then rs_sessions s else None) = None" using assms(3) by simp
  then have f: "fresh_route (excluded_of r) n0 \<and> rs_sessions t = None"
    using t assms(2-4)
    by (auto simp: retry_route_def excluded_of_def split: retry_plan.splits prod.splits
        dest: proxy_fresh chain_fresh)
  obtain s2 where s2: "route_available rt (rr_err (ai_route io)) (ai_reserve_now io) n0 t = (None, s2)"
      "route_acquire (ai_acquire_now io) n0 s2 = (True, s1)" "n = retain ad r n0"
    using assms(1) t by (auto simp: next_route_def split: prod.splits if_splits option.splits)
  have "rs_sessions s2 = rs_sessions t"
    using sessions_kept(3) [of rt "rr_err (ai_route io)" "ai_reserve_now io" n0 t] s2(1) by simp
  moreover have "rs_sessions s1 = rs_sessions s2"
    using sessions_kept(2) [of "ai_acquire_now io" n0 s2] s2(2) by simp
  ultimately show ?thesis using f s2(3) by simp
qed

lemma attempts_fresh:
  assumes "pools_bounded sn"
  shows "fst (attempts rt ad pol io sn q k r s) = (ok, tried) \<Longrightarrow> rs_sessions s = None \<Longrightarrow> fresh_route prior r \<Longrightarrow>
     distinct (concat (map route_endpoints tried)) \<and> set (concat (map route_endpoints tried)) \<inter> prior = {} \<and>
     length tried \<le> 1 + (unat (rp_max_attempts pol) - unat k)"
  using assms
proof (induction rt ad pol io sn q k r s arbitrary: tried prior rule: attempts.induct)
  case (1 rt ad pol io sn q k r s)
  show ?case
  proof (cases "\<exists>c f n s2. ai_failure (io k) = Some (c, f) \<and> ro_retry r \<noteq> NoRetry \<and> may_retry ad pol k \<and>
      ai_wait (io k) = None \<and> next_route rt ad (io k) sn q r (failed_attempt rt ad (io k) c f r s) = (Some n, s2)")
    case False
    then have "tried = [r]" using 1(2)
      by (subst (asm) attempts.simps) (auto simp: Let_def split: option.splits prod.splits if_splits)
    then show ?thesis using 1(4) by (simp add: fresh_route_def)
  next
    case True
    then obtain c f n s2 where a: "ai_failure (io k) = Some (c, f)" "ro_retry r \<noteq> NoRetry"
        "may_retry ad pol k" "ai_wait (io k) = None"
      and x: "next_route rt ad (io k) sn q r (failed_attempt rt ad (io k) c f r s) = (Some n, s2)"
      by blast
    note n = next_route_fresh [OF x 1(5) failed_sessions [OF 1(3)] a(2)]
    obtain rest where rest: "fst (attempts rt ad pol io sn q (k + 1) n s2) = (ok, rest)" "tried = r # rest"
      using 1(2) a x by (subst (asm) attempts.simps) (auto simp: Let_def split: prod.splits)
    have IH: "distinct (concat (map route_endpoints rest)) \<and>
        set (concat (map route_endpoints rest)) \<inter> excluded_of r = {} \<and>
        length rest \<le> 1 + (unat (rp_max_attempts pol) - unat (k + 1))"
      using 1(1) [OF a(1) refl refl _ x [symmetric] refl rest(1)] n a 1(5) by blast
    have k: "unat (k + 1) = unat k + 1" "unat k < unat (rp_max_attempts pol)"
      using next_attempt [OF may_retry_less [OF a(3)]] may_retry_less [OF a(3)] by (simp_all add: word_less_nat_alt)
    show ?thesis using IH rest(2) 1(4) a(2) k by (auto simp: fresh_route_def)
  qed
qed


end
