(* ===== verification/Gateway_Retry.thy ===== *)
theory Gateway_Retry
  imports Gateway_Safety Health_Circuit
begin

text \<open>What a failed Acquire of a chain undoes, where retries and the charging of fallback pools go
  wrong, and concrete requests.\<close>

section \<open>Acquiring a chain\<close>

lemma acquire_result:
  assumes "health_ok m" "acquire i now m = (ok, m1)"
  shows "health_ok m1" and "j \<noteq> i \<Longrightarrow> hm_probes m1 j = hm_probes m j \<and> hm_states m1 j = hm_states m j"
    and "\<not> ok \<Longrightarrow> hm_probes m1 = hm_probes m" and "ok \<Longrightarrow> \<not> hm_probes m i"
    and "ok \<Longrightarrow> hm_states m1 i = Some s \<Longrightarrow> hs_circuit s = CircuitHalfOpen \<Longrightarrow> hm_probes m1 i"
proof -
  show "health_ok m1" using acquire_ok [OF assms(1), of i now] assms(2) by simp
  show "j \<noteq> i \<Longrightarrow> hm_probes m1 j = hm_probes m j \<and> hm_states m1 j = hm_states m j"
    and "\<not> ok \<Longrightarrow> hm_probes m1 = hm_probes m"
    and "ok \<Longrightarrow> hm_states m1 i = Some s \<Longrightarrow> hs_circuit s = CircuitHalfOpen \<Longrightarrow> hm_probes m1 i"
    using assms(2) by (auto simp: acquire_def Let_def split: if_splits option.splits)
  show "ok \<Longrightarrow> \<not> hm_probes m i"
    using assms(2) health_okD(5) [OF assms(1), of i]
    by (auto simp: acquire_def Let_def split: if_splits option.splits)
qed

lemma release_all: "hm_probes (foldl (\<lambda>m j. release j m) m xs) = (\<lambda>j. hm_probes m j \<and> j \<notin> set xs)"
  by (induction xs arbitrary: m) (auto simp: release_def clear_probe_def)

lemma acquire_all_result:
  assumes "health_ok m" "distinct (acquired @ ids)" "acquire_all now acquired ids m = (ok, m')"
    "\<forall>j\<in>set acquired. \<not> base j" "\<forall>j. j \<notin> set acquired \<longrightarrow> hm_probes m j = base j"
  shows "(\<not> ok \<longrightarrow> hm_probes m' = base) \<and> (ok \<longrightarrow> (\<forall>j\<in>set ids. \<not> base j \<and>
     (\<forall>s. hm_states m' j = Some s \<longrightarrow> hs_circuit s = CircuitHalfOpen \<longrightarrow> hm_probes m' j))) \<and>
     (ok \<longrightarrow> (\<forall>j. j \<notin> set ids \<longrightarrow> hm_probes m' j = hm_probes m j \<and> hm_states m' j = hm_states m j))"
  using assms
proof (induction ids arbitrary: m acquired)
  case (Cons i js)
  obtain b m1 where a: "acquire i (now i) m = (b, m1)" by (metis surj_pair)
  note r = acquire_result [OF Cons.prems(1) a]
  show ?case
  proof (cases b)
    case False
    then have o: "ok = False" "m' = foldl (\<lambda>m j. release j m) m1 acquired" using Cons.prems(3) a by auto
    have "hm_probes m' = base"
      using r(3) False Cons.prems(4,5) unfolding o(2) release_all by auto
    then show ?thesis using o(1) by simp
  next
    case True
    have n: "\<not> base i" using r(4) True Cons.prems(2,5) by simp
    have "acquire_all now (acquired @ [i]) js m1 = (ok, m')" using Cons.prems(3) a True by simp
    moreover have "distinct ((acquired @ [i]) @ js)" using Cons.prems(2) by simp
    moreover have "\<forall>j\<in>set (acquired @ [i]). \<not> base j" using Cons.prems(4) n by simp
    moreover have "\<forall>j. j \<notin> set (acquired @ [i]) \<longrightarrow> hm_probes m1 j = base j" using Cons.prems(5) r(2) by simp
    ultimately have IH: "(\<not> ok \<longrightarrow> hm_probes m' = base) \<and> (ok \<longrightarrow> (\<forall>j\<in>set js. \<not> base j \<and>
        (\<forall>s. hm_states m' j = Some s \<longrightarrow> hs_circuit s = CircuitHalfOpen \<longrightarrow> hm_probes m' j))) \<and>
        (ok \<longrightarrow> (\<forall>j. j \<notin> set js \<longrightarrow> hm_probes m' j = hm_probes m1 j \<and> hm_states m' j = hm_states m1 j))"
      using Cons.IH [OF r(1)] by blast
    have "i \<notin> set js" using Cons.prems(2) by simp
    then show ?thesis using IH n r(2,5) True by auto
  qed
qed simp

text \<open>C29: A chain acquires all its endpoints or none: if any refuses, the half-open probes are as they
  were before, and otherwise no endpoint had a probe in flight and every half-open one is claimed.\<close>

theorem chain_acquire_atomic:
  assumes "health_ok (health_of s)" "ro_dial r = ChainDial hops" "distinct (ro_chain_proxies r)"
    "route_acquire now r s = (ok, s')"
  shows "if ok then \<forall>i\<in>set (ro_chain_proxies r). \<not> hm_probes (health_of s) i \<and>
      (\<forall>h. hm_states (health_of s') i = Some h \<and> hs_circuit h = CircuitHalfOpen \<longrightarrow> hm_probes (health_of s') i)
    else hm_probes (health_of s') = hm_probes (health_of s)"
proof -
  obtain hm where h: "acquire_all now [] (ro_chain_proxies r) (health_of s) = (ok, hm)" "health_of s' = hm"
    using assms(2,4) by (auto simp: route_acquire_def with_health_def health_of_def split: prod.splits)
  show ?thesis
    using acquire_all_result [OF assms(1) _ h(1), of "hm_probes (health_of s)"] assms(3) h(2) by auto
qed

section \<open>Sticky retries\<close>

lemma rotate_twice:
  assumes "sm_persistence m = None \<or> (\<forall>err d p. fst (se_apply env err d p) = None)"
    "(e, m1) = rotate_session env None i reason m" "valid_rotation_reason reason"
  shows "fst (rotate_session env err i reason2 m1) \<noteq> None"
proof -
  have a: "fst (apply_locked env x d m) = None" for x d
    using assms(1) by (auto simp: apply_locked_def split: option.splits prod.splits) (metis fst_conv)+
  have f: "sm_sessions (snd (apply_locked env x d m)) = sm_sessions m" for x d
    by (auto simp: apply_locked_def split: option.splits prod.splits)
  show ?thesis
  proof (cases "\<exists>s. map_of (sm_sessions m) i = Some s \<and> ss_status s = ''active''")
    case False
    then have "m1 = m" using assms(2,3) by (auto simp: rotate_session_def split: option.splits)
    then show ?thesis using False by (auto simp: rotate_session_def split: option.splits)
  next
    case True
    then obtain s where s: "map_of (sm_sessions m) i = Some s" "ss_status s = ''active''" by blast
    obtain m2 where m2: "apply_locked env None (upsert (s\<lparr>ss_status := ''rotated'', ss_rotation_reason := reason\<rparr>)) m
        = (None, m2)"
      using a by (metis prod.collapse)
    have "map_of (sm_sessions m1) i = Some (s\<lparr>ss_status := ''rotated'', ss_rotation_reason := reason\<rparr>)"
      using assms(2,3) s m2
      by (auto simp: rotate_session_def put_session_def update_conv' Let_def)
    then show ?thesis by (auto simp: rotate_session_def split: option.splits)
  qed
qed

text \<open>C40: A failure that quarantines its endpoint makes the retry of a session impossible.  Observe
  rotates the session because the endpoint is no longer eligible; Retry then rotates it again, which
  fails since it is no longer active, and gives up without looking at any other endpoint.\<close>

theorem quarantine_blocks_sticky_retry:
  assumes "ro_dial r = EndpointDial e" "ro_retry r = RetryProxy pid excluded" "ro_session_id r \<noteq> []"
    and "rs_sessions s = Some m"
    and "sm_persistence m = None \<or> (\<forall>err d p. fst (se_apply (rt_session rt) err d p) = None)"
    and "\<not> ob_success ob"
    and "\<not> fst (health_eligible (ro_proxy_id r) now (snd (observe now (ro_proxy_id r) (health_observation c ob) (health_of s))))"
  shows "fst (retry_route rt rr rd sn q r (route_observe rt now c ob failed r s)) = Inl PoolUnavailable"
proof -
  let ?ob = "health_observation c ob"
  obtain ok hm where h: "health_eligible (ro_proxy_id r) now (snd (observe now (ro_proxy_id r) ?ob (health_of s))) = (ok, hm)"
    by (metis surj_pair)
  obtain x m1 where x: "(x, m1) = rotate_session (rt_session rt) None (ro_session_id r) ''proxy_failed'' m"
    by (metis surj_pair)
  have o: "health_of (observe_endpoint now ?ob (ro_proxy_id r) s) = snd (observe now (ro_proxy_id r) ?ob (health_of s))"
    by (simp add: observe_endpoint_def with_health_def health_of_def)
  have "rs_sessions (route_observe rt now c ob failed r s) = Some m1"
    using assms h x [symmetric] o
    by (simp add: route_observe_def proxy_observe_def Let_def health_observation_def)
  moreover have "fst (rotate_session (rt_session rt) (rr_err rr) (ro_session_id r) ''proxy_failed'' m1) \<noteq> None"
    by (rule rotate_twice [OF assms(5) x]) (simp add: valid_rotation_reason_def)
  ultimately show ?thesis using assms(2,3)
    by (auto simp: retry_route_def split: prod.splits option.splits)
qed

section \<open>Concrete requests\<close>

definition demo_bundle :: runtime_bundle where
  "demo_bundle = \<lparr>rb_proxies = cf_proxies demo_config, rb_pools = cf_pools demo_config,
     rb_chains = cf_chains demo_config, rb_policies = cf_policies demo_config\<rparr>"

definition demo_snapshot :: routing_snapshot where
  "demo_snapshot = \<lparr>sn_revision = 1, sn_bundle = demo_bundle\<rparr>"

definition demo_health :: health_manager where
  "demo_health = \<lparr>hm_config = health_defaults\<lparr>hc_failure_threshold := 1\<rparr>, hm_states = (\<lambda>i. None),
     hm_probes = (\<lambda>i. False), hm_recent = (\<lambda>i. [])\<rparr>"

definition demo_select :: "unit budget_manager option \<Rightarrow> unit select_state" where
  "demo_select bm = \<lparr>st_health = demo_health, st_budgets = bm,
     st_selectors = (\<lambda>st. \<lparr>sl_strategy = st, sl_counter = 0\<rparr>)\<rparr>"

definition demo_store :: "unit budget_store" where
  "demo_store = \<lparr>bs_initialize = (\<lambda>cs u. (Inr [], u)), bs_put = (\<lambda>c r u. (Inr (c, r), u)),
     bs_delete = (\<lambda>i r u. (None, u)), bs_reserve = (\<lambda>cs t b u. (None, u)),
     bs_consume = (\<lambda>cs t b u. (None, u)), bs_release = (\<lambda>cs t b u. (None, u)),
     bs_usage = (\<lambda>c t u. Inr empty_usage), bs_recover = (\<lambda>u. (None, u))\<rparr>"

definition demo_budget :: budget_config where
  "demo_budget = \<lparr>b_id = ''cap'', b_name = ''cap of main'', b_scope = ''pool'', b_scope_id = ''main'',
     b_limit = 100, b_soft_limit = 0, b_hard = True, b_action = ''reject'', b_window = ''lifetime'',
     b_timezone = [], b_rolling_seconds = 0\<rparr>"

text \<open>A manager whose only budget, on the pool main, is used up.\<close>

definition demo_exhausted :: "unit budget_manager" where
  "demo_exhausted = \<lparr>bm_configs = [(''cap'', demo_budget)], bm_revisions = [(''cap'', 1)],
     bm_usage = [((''cap'', 0), \<lparr>used = 100, reserved = 0\<rparr>)], bm_max_reservation = 50, bm_store = None\<rparr>"

definition demo_session_env :: "unit session_env" where
  "demo_session_env = \<lparr>se_mac = (\<lambda>k msg. msg), se_apply = (\<lambda>e ch p. (None, p)), se_load = (\<lambda>p. Inr [])\<rparr>"

definition demo_router :: "(unit, unit) router" where
  "demo_router = \<lparr>rt_select = \<lparr>se_lib = plain_lib, se_budget = \<lparr>be_zones = (\<lambda>z. None), be_store = demo_store\<rparr>\<rparr>,
     rt_session = demo_session_env, rt_lookup = (\<lambda>h. Inl (OtherErr 0)),
     rt_destination = \<lparr>dp_deny_private = True, dp_allow_trusted = False\<rparr>,
     rt_security = cf_security demo_config, rt_credentials = (\<lambda>r. None), rt_retry_policy = default_retry_policy\<rparr>"

definition demo_readings :: readings where
  "demo_readings = \<lparr>rd_now = (\<lambda>i. 1000), rd_random = (\<lambda>i. None), rd_reserve = (\<lambda>i j. 1000), rd_err = None\<rparr>"

definition demo_attempt :: attempt_readings where
  "demo_attempt = \<lparr>at_select = demo_readings, at_now = 1000, at_id = ''s1''\<rparr>"

definition demo_route_readings :: route_readings where
  "demo_route_readings = \<lparr>rr_err = None, rr_first = demo_attempt, rr_second = demo_attempt,
     rr_health_now = 1000, rr_budget_now = 1000\<rparr>"

definition demo_request :: request_context where
  "demo_request = \<lparr>q_request_id = ''r1'', q_connection_id = ''c1'', q_client_id = ''alice'', q_listener = ''http'',
     q_protocol = ''http'', q_scheme = ''http'', q_host = ''site.test'', q_session_key = [], q_port = 80,
     q_source_ip = None, q_destination_ip = None, q_method = \<lparr>known = False, value_of = []\<rparr>,
     q_path = \<lparr>known = False, value_of = []\<rparr>, q_resource_type = \<lparr>known = False, value_of = []\<rparr>,
     q_mime_hint = \<lparr>known = False, value_of = []\<rparr>, q_content_length = \<lparr>known = False, value_of = 0\<rparr>,
     q_headers = \<lparr>known = False, value_of = []\<rparr>, q_timestamp = 1000, q_inspect_mode = False\<rparr>"

definition demo_result :: "string \<Rightarrow> go_id \<Rightarrow> result" where
  "demo_result type i = empty_result\<lparr>res_runtime_revision := 1, res_actions := [\<lparr>a_type = type,
     a_pool_id = (if type = ''proxy'' then i else []), a_chain_id = (if type = ''chain'' then i else []),
     a_fallback_chain_ids = [], a_value = []\<rparr>]\<rparr>"

definition demo_history :: "int \<Rightarrow> routing_snapshot option" where
  "demo_history n = (if n = 1 then Some demo_snapshot else None)"

definition demo_state :: "(unit, unit) router_state" where
  "demo_state = \<lparr>rs_select = demo_select None, rs_sessions = None\<rparr>"

definition demo_io :: "8 word \<Rightarrow> attempt_io" where
  "demo_io k = \<lparr>ai_failure = (if k = 1 then Some (no_cause, []) else None),
     ai_observation = \<lparr>ob_at = 1000, ob_success = False, ob_http_status = 0, ob_auth_failure = False,
       ob_timeout = False, ob_dns_failure = False, ob_tls_failure = False, ob_latency = 5,
       ob_connect_latency = 5, ob_ttfb = 0, ob_health_check = False\<rparr>,
     ai_now = 1000, ai_wait = None, ai_route = demo_route_readings, ai_chain = (\<lambda>c k. demo_readings),
     ai_reserve_now = 1000, ai_acquire_now = (\<lambda>i. 1000),
     ai_upload = 0, ai_complete = \<lparr>cp_big = 0, cp_err = None, cp_now = 1000, cp_elapsed = 5\<rparr>\<rparr>"

lemma demo_bounded: "demo_history n = Some sn \<Longrightarrow> pools_bounded sn"
proof -
  assume "demo_history n = Some sn"
  then have "sn = demo_snapshot" by (simp add: demo_history_def split: if_splits)
  then show ?thesis by (simp add: pools_bounded_def demo_snapshot_def demo_bundle_def demo_config_def demo_pool_def)
qed

lemma demo_pool_routed: "fst (route_request demo_router demo_route_readings (\<lambda>c k. demo_readings) demo_history demo_request
    (demo_result ''proxy'' ''main'') demo_state) =
  (proxy_route demo_router demo_request ''main'' [] (demo_endpoint ''px1'' 1) ''main'' None None, None)"
  by code_simp

lemma demo_chain_routed: "map_prod ro_chain_proxies (\<lambda>e. e = None) (fst (route_request demo_router demo_route_readings
    (\<lambda>c k. demo_readings) demo_history demo_request (demo_result ''chain'' ''two'') demo_state)) =
  ([''px1'', ''px3''], True)"
  by code_simp



lemma demo_selectable: "selectable (rt_select demo_router) demo_readings demo_snapshot 1000 (demo_select None)"
proof -
  have "list_all (\<lambda>e. endpoint_validate plain_lib e = None) (cf_proxies demo_config)"
    "list_all (\<lambda>p. strategy_valid (pl_strategy p)) (cf_pools demo_config)"
    by code_simp+
  then show ?thesis
    using demo_bounded [of 1 demo_snapshot]
    by (auto simp: selectable_def demo_readings_def demo_snapshot_def demo_bundle_def demo_select_def
        demo_router_def demo_history_def pools_bounded_def list_all_iff)
qed

text \<open>With the endpoint of main excluded its fallback spare answers.\<close>

theorem select_endpoint_exact_witness:
  "\<exists>i. fst (select_endpoint_excluding (rt_select demo_router) demo_readings ''main'' demo_request demo_snapshot
      [''px1''] (demo_select None)) = Inr (demo_endpoint i 1) \<and>
    (\<exists>j p. admissible (rt_select demo_router) demo_readings demo_snapshot [''px1''] 1000 (demo_select None) j p i)"
proof -
  have r: "fst (select_endpoint_excluding (rt_select demo_router) demo_readings ''main'' demo_request demo_snapshot
      [''px1''] (demo_select None)) = Inr (demo_endpoint ''px2'' 1)"
    by code_simp
  have "\<exists>j p. admissible (rt_select demo_router) demo_readings demo_snapshot [''px1''] 1000 (demo_select None) j p ''px2''"
    using select_endpoint_exact [where pid = "''main''" and q = demo_request and excluded = "[''px1'']",
        OF demo_selectable] r
    by (auto simp: demo_endpoint_def)
  then show ?thesis using r by blast
qed

definition demo_chain_state :: "(unit, unit) router_state" where
  "demo_chain_state = with_health (demo_health\<lparr>hm_states := [''px3'' \<mapsto> (fresh_snapshot ''px3'' 50)
     \<lparr>hs_circuit := CircuitOpen, hs_state := Quarantined, hs_open_until := 2000\<rparr>]\<rparr>) demo_state"

definition demo_chain_route :: route where
  "demo_chain_route = empty_route\<lparr>ro_dial := ChainDial [], ro_chain_proxies := [''px1'', ''px3'']\<rparr>"

theorem chain_acquire_atomic_witness:
  "\<not> fst (route_acquire (\<lambda>i. 1000) demo_chain_route demo_chain_state) \<and>
   hm_probes (health_of (snd (route_acquire (\<lambda>i. 1000) demo_chain_route demo_chain_state))) = (\<lambda>i. False)"
proof -
  have h: "health_ok (health_of demo_chain_state)"
    by (auto simp: health_ok_def demo_chain_state_def with_health_def health_of_def demo_health_def
        health_config_validate_def health_defaults_def snapshot_ok_def coherent_def fresh_snapshot_def
        metric_window_size_def minute_def second_def hour_def tally_def)
  obtain ok s where r: "route_acquire (\<lambda>i. 1000) demo_chain_route demo_chain_state = (ok, s)" by (metis surj_pair)
  have "fst (route_acquire (\<lambda>i. 1000) demo_chain_route demo_chain_state) = False" by code_simp
  then show ?thesis
    using chain_acquire_atomic [OF h _ _ r] r
    by (simp add: demo_chain_route_def demo_chain_state_def with_health_def health_of_def demo_health_def)
qed

definition demo_sticky :: "unit session_manager" where
  "demo_sticky = \<lparr>sm_sessions = [(''s1'', (new_session ''s1'' \<lparr>rq_client_id = ''alice'', rq_pool_id = ''main'',
       rq_key = ''alice'', rq_policy = \<lparr>sp_strategy = ''client'', sp_ttl = 0, sp_idle_ttl = 0, sp_max_requests = 0,
         sp_max_bytes = 0\<rparr>, rq_revision = 1\<rparr> ''px1'' 900 ''created'')\<lparr>ss_key_hash := ''k''\<rparr>)],
     sm_index = [(''k'', ''s1'')], sm_key = ''0123456789abcdef'', sm_max = 8, sm_persistence = None\<rparr>"

definition demo_sticky_state :: "(unit, unit) router_state" where
  "demo_sticky_state = demo_state\<lparr>rs_sessions := Some demo_sticky\<rparr>"

definition demo_sticky_route :: route where
  "demo_sticky_route = proxy_route demo_router demo_request ''main'' [] (demo_endpoint ''px1'' 1) ''main''
     (Some (''s1'', ''k'')) None"

theorem quarantine_blocks_sticky_retry_witness:
  "fst (retry_route demo_router demo_route_readings (\<lambda>c k. demo_readings) demo_snapshot demo_request demo_sticky_route
     (route_observe demo_router 1000 no_cause (ai_observation (demo_io 1)) [] demo_sticky_route demo_sticky_state))
   = Inl PoolUnavailable"
proof -
  have q: "fst (health_eligible ''px1'' 1000 (snd (observe 1000 ''px1''
      (health_observation no_cause (ai_observation (demo_io 1))) (health_of demo_sticky_state)))) = False"
    by code_simp
  show ?thesis
    by (rule quarantine_blocks_sticky_retry [where e = "demo_endpoint ''px1'' 1" and m = demo_sticky
          and pid = "''main''" and excluded = "[''px1'']"])
       (use q in \<open>simp_all add: demo_sticky_route_def proxy_route_def demo_endpoint_def demo_sticky_state_def
          demo_sticky_def demo_io_def\<close>)
qed

section \<open>The pool a fallback is charged to\<close>

definition shared_config :: config where
  "shared_config = demo_config\<lparr>cf_pools := [demo_pool ''main'' [''px1''] [''spare''], demo_pool ''spare'' [''px1''] [],
     demo_pool ''exit'' [''px3''] []]\<rparr>"

definition shared_snapshot :: routing_snapshot where
  "shared_snapshot = \<lparr>sn_revision = 1, sn_bundle = demo_bundle\<lparr>rb_pools := cf_pools shared_config\<rparr>\<rparr>"

definition shared_state :: "(unit, unit) router_state" where
  "shared_state = \<lparr>rs_select = demo_select (Some demo_exhausted), rs_sessions = None\<rparr>"

text \<open>An exhausted pool does not hand over to a fallback pool that shares its endpoint.  In a valid
  configuration the budget of main is used up, so the selection takes px1 from the fallback spare,
  which no budget limits; but the route is charged to main, the first pool that holds px1, and its
  reservation is refused.\<close>

theorem fallback_charged_to_primary:
  "config_validate demo_config_env shared_config = None \<and>
   \<not> budget_admits (rt_select demo_router) demo_readings (Some demo_exhausted) ''main'' ''px1'' \<and>
   applicable_ids ''alice'' ''spare'' ''px1'' demo_exhausted = [] \<and>
   fst (select_endpoint_excluding (rt_select demo_router) demo_readings ''main'' demo_request shared_snapshot []
     (rs_select shared_state)) = Inr (demo_endpoint ''px1'' 1) \<and>
   (\<exists>r s. proxy_excluding demo_router demo_route_readings demo_request ''main'' shared_snapshot [] shared_state = (Inr r, s) \<and>
     ro_pool_id r = ''main'' \<and> fst (route_available demo_router None 1000 r s) = Some BudgetErrExceeded)"
proof (intro conjI)
  show "config_validate demo_config_env shared_config = None" by code_simp
  show "\<not> budget_admits (rt_select demo_router) demo_readings (Some demo_exhausted) ''main'' ''px1''" by code_simp
  show "applicable_ids ''alice'' ''spare'' ''px1'' demo_exhausted = []" by code_simp
  show "fst (select_endpoint_excluding (rt_select demo_router) demo_readings ''main'' demo_request shared_snapshot []
     (rs_select shared_state)) = Inr (demo_endpoint ''px1'' 1)" by code_simp
  obtain x s where x: "proxy_excluding demo_router demo_route_readings demo_request ''main'' shared_snapshot [] shared_state = (x, s)"
    by (metis surj_pair)
  have "(case proxy_excluding demo_router demo_route_readings demo_request ''main'' shared_snapshot [] shared_state of
      (Inl e, s) \<Rightarrow> False
    | (Inr r, s) \<Rightarrow> ro_pool_id r = ''main'' \<and> fst (route_available demo_router None 1000 r s) = Some BudgetErrExceeded) = True"
    by code_simp
  then show "\<exists>r s. proxy_excluding demo_router demo_route_readings demo_request ''main'' shared_snapshot [] shared_state = (Inr r, s) \<and>
     ro_pool_id r = ''main'' \<and> fst (route_available demo_router None 1000 r s) = Some BudgetErrExceeded"
    using x by (auto split: sum.splits)
qed

end
