(* ===== verification/Runtime_Store.thy ===== *)
theory Runtime_Store
  imports Gateway_Select Sqlite_Inventory
begin

text \<open>Runtime snapshots: internal/storage/sqlite/runtime.go over a table of rows, and the control of
  internal/app/runtime_routing.go that compiles, stores and publishes them.\<close>

section \<open>Records\<close>

record runtime_record =
  ru_revision :: int
  ru_bundle :: runtime_bundle
  ru_activated_at :: go_time
  ru_activated_by :: go_id
  ru_source :: int

text \<open>A row of runtime_snapshots; revision is the primary key.\<close>

record runtime_row =
  rw_revision :: int
  rw_activated_at :: string
  rw_activated_by :: go_id
  rw_source :: int
  rw_document :: string
  rw_current :: bool

text \<open>encoding/json of a bundle and the RFC 3339 form of a time.\<close>

record runtime_codec =
  rc_bundle :: "runtime_bundle codec"
  rc_format :: "go_time \<Rightarrow> string"
  rc_parse :: "string \<Rightarrow> go_time option"

definition max_runtime_document :: nat where "max_runtime_document = 16 * 2 ^ 20"
definition max_runtime_history :: int where "max_runtime_history = 100"

section \<open>The SQLite store\<close>

definition scan_runtime :: "runtime_codec \<Rightarrow> runtime_row \<Rightarrow> error + runtime_record" where
  "scan_runtime rc r =
     (case (rc_parse rc (rw_activated_at r), unmarshal (rc_bundle rc) (rw_document r)) of
        (Some t, Some b) \<Rightarrow>
          if rw_revision r < 1 \<or> \<not> id_valid (rw_activated_by r) \<or> rw_source r < 0 \<or> rw_document r = [] \<or>
             length (rw_document r) > max_runtime_document
          then Inl StoreErrSchema
          else Inr \<lparr>ru_revision = rw_revision r, ru_bundle = b, ru_activated_at = t,
             ru_activated_by = rw_activated_by r, ru_source = rw_source r\<rparr>
      | _ \<Rightarrow> Inl StoreErrSchema)"

definition query_runtime :: "runtime_codec \<Rightarrow> error option \<Rightarrow> error option \<Rightarrow> runtime_row option \<Rightarrow>
    error + runtime_record" where
  "query_runtime rc cerr fault row = (case fault of Some e \<Rightarrow> Inl (safe_error cerr e)
     | None \<Rightarrow> (case row of None \<Rightarrow> Inl StoreErrNotFound | Some r \<Rightarrow> scan_runtime rc r))"

definition current_runtime :: "runtime_codec \<Rightarrow> error option \<Rightarrow> error option \<Rightarrow> runtime_row list \<Rightarrow>
    error + runtime_record" where
  "current_runtime rc cerr fault t = query_runtime rc cerr fault (List.find rw_current t)"

definition get_runtime :: "runtime_codec \<Rightarrow> error option \<Rightarrow> error option \<Rightarrow> int \<Rightarrow> runtime_row list \<Rightarrow>
    error + runtime_record" where
  "get_runtime rc cerr fault revision t = (if revision < 1 then Inl StoreErrInvalid
     else query_runtime rc cerr fault (List.find (\<lambda>r. rw_revision r = revision) t))"

fun scan_runtimes :: "runtime_codec \<Rightarrow> error option \<Rightarrow> sql_faults \<Rightarrow> nat \<Rightarrow> runtime_row list \<Rightarrow>
    error + runtime_record list" where
  "scan_runtimes rc cerr ft k [] = Inr []"
| "scan_runtimes rc cerr ft k (r # rs) =
     (case query_runtime rc cerr (ft k) (Some r) of Inl e \<Rightarrow> Inl e
      | Inr x \<Rightarrow> (case scan_runtimes rc cerr ft (Suc k) rs of Inl e \<Rightarrow> Inl e | Inr xs \<Rightarrow> Inr (x # xs)))"

definition list_runtime :: "runtime_codec \<Rightarrow> error option \<Rightarrow> sql_faults \<Rightarrow> int \<Rightarrow> int \<Rightarrow> runtime_row list \<Rightarrow>
    error + runtime_record list" where
  "list_runtime rc cerr ft before limit t =
     (if before < 0 \<or> limit < 1 \<or> limit > 100 then Inl StoreErrInvalid
      else let bound = (if before = 0 then max_int64_value else before) in
        case ft 0 of Some e \<Rightarrow> Inl (safe_error cerr e)
        | None \<Rightarrow> (case scan_runtimes rc cerr ft 2 (take (nat limit) (sort_key (\<lambda>r. - rw_revision r)
              (filter (\<lambda>r. rw_revision r < bound) t))) of Inl e \<Rightarrow> Inl e
            | Inr xs \<Rightarrow> (case ft 1 of Some e \<Rightarrow> Inl (safe_error cerr e) | None \<Rightarrow> Inr xs)))"

definition current_revision :: "runtime_row list \<Rightarrow> int" where
  "current_revision t = (case List.find rw_current t of None \<Rightarrow> 0 | Some r \<Rightarrow> rw_revision r)"

text \<open>The three statements of an activation.\<close>

definition retire_row :: "int \<Rightarrow> runtime_row list \<Rightarrow> runtime_row list" where
  "retire_row current t = map (\<lambda>r. if rw_revision r = current then r\<lparr>rw_current := False\<rparr> else r) t"

definition prune_rows :: "int \<Rightarrow> runtime_row list \<Rightarrow> runtime_row list" where
  "prune_rows bound t = filter (\<lambda>r. \<not> (\<not> rw_current r \<and> rw_revision r \<le> bound)) t"

text \<open>ActivateRuntime: the faults are those of Begin, the query, the update, the insert, the delete and
  the commit; whatever fails rolls the transaction back.\<close>

definition activate_runtime :: "runtime_codec \<Rightarrow> error option \<Rightarrow> sql_faults \<Rightarrow> runtime_bundle \<Rightarrow> int \<Rightarrow> go_id \<Rightarrow>
    int \<Rightarrow> go_time \<Rightarrow> runtime_row list \<Rightarrow> (error + runtime_record) \<times> runtime_row list" where
  "activate_runtime rc cerr ft b expected actor source at_time t =
     (if expected < 0 \<or> expected = max_int64_value \<or> \<not> id_valid actor \<or> source < 0 \<or> at_time = 0
      then (Inl StoreErrInvalid, t)
      else case marshal (rc_bundle rc) b of None \<Rightarrow> (Inl StoreErrInvalid, t)
      | Some doc \<Rightarrow>
        if doc = [] \<or> length doc > max_runtime_document then (Inl StoreErrInvalid, t)
        else case ft 0 of Some e \<Rightarrow> (Inl (safe_error cerr e), t)
        | None \<Rightarrow> case ft 1 of Some e \<Rightarrow> (Inl (safe_error cerr e), t)
        | None \<Rightarrow>
          let current = current_revision t; new = current + 1 in
          if current \<noteq> expected then (Inl StoreErrConflict, t)
          else case (if current > 0 then ft 2 else None) of Some e \<Rightarrow> (Inl (safe_error cerr e), t)
          | None \<Rightarrow>
            let t1 = (if current > 0 then retire_row current t else t);
                row = \<lparr>rw_revision = new, rw_activated_at = rc_format rc at_time, rw_activated_by = actor,
                  rw_source = source, rw_document = doc, rw_current = True\<rparr> in
            case (if new \<in> rw_revision ` set t1 then Some StoreErrUnavailable else ft 3) of
              Some e \<Rightarrow> (Inl (safe_error cerr e), t)
            | None \<Rightarrow> case ft 4 of Some e \<Rightarrow> (Inl (safe_error cerr e), t)
            | None \<Rightarrow> case ft 5 of Some e \<Rightarrow> (Inl (safe_error cerr e), t)
            | None \<Rightarrow> (Inr \<lparr>ru_revision = new, ru_bundle = b, ru_activated_at = at_time,
                 ru_activated_by = actor, ru_source = source\<rparr>,
                prune_rows (new - max_runtime_history) (t1 @ [row])))"

section \<open>Reading the inventory\<close>

text \<open>One loop of readRuntimeInventory: pages of 1000 until a short one; fuel for the pages.\<close>

fun read_pages :: "nat \<Rightarrow> ('d \<Rightarrow> go_id) \<Rightarrow> (page \<Rightarrow> error + 'd stored list) \<Rightarrow> nat \<Rightarrow> go_id \<Rightarrow> 'd list \<Rightarrow>
    (error + 'd list) option" where
  "read_pages 0 id_of list_page bound after acc = None"
| "read_pages (Suc n) id_of list_page bound after acc =
     (case list_page \<lparr>pg_after = after, pg_limit = 1000\<rparr> of Inl e \<Rightarrow> Some (Inl e)
      | Inr rows \<Rightarrow>
         let acc1 = acc @ map st_doc rows in
         if length acc1 > bound then Some (Inl StoreErrInvalid)
         else if length rows < 1000 then Some (Inr acc1)
         else read_pages n id_of list_page bound (id_of (st_doc (last rows))) acc1)"

definition read_inventory :: "nat \<Rightarrow> (page \<Rightarrow> error + endpoint stored list) \<Rightarrow> (page \<Rightarrow> error + chain stored list) \<Rightarrow>
    (page \<Rightarrow> error + pool stored list) \<Rightarrow> (page \<Rightarrow> error + policy stored list) \<Rightarrow>
    (error + runtime_bundle) option" where
  "read_inventory n e_pages c_pages p_pages d_pages =
     (case read_pages n ep_id e_pages 100000 [] [] of None \<Rightarrow> None | Some (Inl e) \<Rightarrow> Some (Inl e)
      | Some (Inr es) \<Rightarrow>
     (case read_pages n cn_id c_pages 10000 [] [] of None \<Rightarrow> None | Some (Inl e) \<Rightarrow> Some (Inl e)
      | Some (Inr cs) \<Rightarrow>
     (case read_pages n pl_id p_pages 10000 [] [] of None \<Rightarrow> None | Some (Inl e) \<Rightarrow> Some (Inl e)
      | Some (Inr ps) \<Rightarrow>
     (case read_pages n p_id d_pages 1000 [] [] of None \<Rightarrow> None | Some (Inl e) \<Rightarrow> Some (Inl e)
      | Some (Inr ds) \<Rightarrow> Some (Inr \<lparr>rb_proxies = es, rb_pools = ps, rb_chains = cs, rb_policies = ds\<rparr>)))))"

text \<open>Every page but the last brings a thousand documents, so the bound on the documents ends the loop.\<close>

lemma read_pages_returns:
  assumes "0 < n" "bound < length acc + 1000 * n"
  shows "read_pages n id_of list_page bound after acc \<noteq> None"
  using assms
proof (induction n arbitrary: after acc)
  case (Suc n)
  show ?case
  proof (cases "list_page \<lparr>pg_after = after, pg_limit = 1000\<rparr>")
    case (Inr rows)
    have "read_pages n id_of list_page bound (id_of (st_doc (last rows))) (acc @ map st_doc rows) \<noteq> None"
      if "\<not> length (acc @ map st_doc rows) > bound" "\<not> length rows < 1000"
      using that Suc.prems by (intro Suc.IH) auto
    then show ?thesis using Inr by (auto simp: Let_def)
  qed simp
qed simp

lemma read_inventory_returns: "101 \<le> n \<Longrightarrow> read_inventory n e_pages c_pages p_pages d_pages \<noteq> None"
  using read_pages_returns [of n 100000 "[]" ep_id e_pages "[]"] read_pages_returns [of n 10000 "[]" cn_id c_pages "[]"]
    read_pages_returns [of n 10000 "[]" pl_id p_pages "[]"] read_pages_returns [of n 1000 "[]" p_id d_pages "[]"]
  by (auto simp: read_inventory_def split: sum.splits)

section \<open>The routing runtime\<close>

record routing_runtime =
  rn_base :: config
  rn_current :: routing_snapshot
  rn_history :: "(int \<times> routing_snapshot) list"
  rn_record :: runtime_record

definition candidate_config :: "config \<Rightarrow> runtime_bundle \<Rightarrow> config" where
  "candidate_config base b = base\<lparr>cf_proxies := rb_proxies b, cf_pools := rb_pools b,
     cf_chains := rb_chains b, cf_policies := rb_policies b\<rparr>"

definition compile :: "config_env \<Rightarrow> config \<Rightarrow> runtime_bundle \<Rightarrow> int \<Rightarrow> error + routing_snapshot" where
  "compile env base b revision =
     (if config_validate env (candidate_config base b) \<noteq> None then Inl ConfigErrInvalid
      else case List.find (\<lambda>p. isl (new_built_in (pl_strategy p))) (rb_pools b) of
          Some p \<Rightarrow> Inl RoutingErrNoCandidate
        | None \<Rightarrow> Inr \<lparr>sn_revision = revision, sn_bundle = b\<rparr>)"

definition new_routing_runtime :: "config_env \<Rightarrow> config \<Rightarrow> runtime_bundle \<Rightarrow> runtime_record \<Rightarrow>
    error + routing_runtime" where
  "new_routing_runtime env base b r =
     (case compile env base b (ru_revision r) of Inl e \<Rightarrow> Inl e
      | Inr sn \<Rightarrow> Inr \<lparr>rn_base = base, rn_current = sn, rn_history = [(sn_revision sn, sn)],
          rn_record = r\<lparr>ru_bundle := sn_bundle sn\<rparr>\<rparr>)"

definition snapshot_at :: "int \<Rightarrow> routing_runtime \<Rightarrow> routing_snapshot option" where
  "snapshot_at revision rt = map_of (rn_history rt) revision"

definition retained_routing_snapshots :: int where "retained_routing_snapshots = 100"

definition publish :: "routing_snapshot \<Rightarrow> runtime_record \<Rightarrow> routing_runtime \<Rightarrow> routing_runtime" where
  "publish sn r rt = rt\<lparr>rn_current := sn,
     rn_history := filter (\<lambda>(i, s). \<not> i \<le> sn_revision sn - retained_routing_snapshots)
       (AList.update (sn_revision sn) sn (rn_history rt)),
     rn_record := r\<rparr>"

section \<open>The control\<close>

text \<open>store.RuntimeSnapshots as the control uses it.\<close>

record 'db runtime_ops =
  ro_load :: "'db \<Rightarrow> error + runtime_bundle"
  ro_get :: "int \<Rightarrow> 'db \<Rightarrow> error + runtime_record"
  ro_activate :: "runtime_bundle \<Rightarrow> int \<Rightarrow> go_id \<Rightarrow> int \<Rightarrow> go_time \<Rightarrow> 'db \<Rightarrow> (error + runtime_record) \<times> 'db"

definition activate :: "config_env \<Rightarrow> 'db runtime_ops \<Rightarrow> go_time \<Rightarrow> runtime_bundle \<Rightarrow> int \<Rightarrow> go_id \<Rightarrow> int \<Rightarrow>
    routing_runtime \<times> 'db \<Rightarrow> (error + runtime_record) \<times> routing_runtime \<times> 'db" where
  "activate env ops now b expected actor source s = (case s of (rt, db) \<Rightarrow>
     (case compile env (rn_base rt) b (expected + 1) of Inl e \<Rightarrow> (Inl e, s)
      | Inr prepared \<Rightarrow>
         (case ro_activate ops b expected actor source now db of
            (Inl e, db1) \<Rightarrow> (Inl e, rt, db1)
          | (Inr r, db1) \<Rightarrow>
             if ru_revision r \<noteq> sn_revision prepared then (Inl StoreErrUnavailable, rt, db1)
             else (Inr r, publish prepared r rt, db1))))"

definition activate_control :: "config_env \<Rightarrow> 'db runtime_ops \<Rightarrow> go_time \<Rightarrow> int \<Rightarrow> go_id \<Rightarrow>
    routing_runtime \<times> 'db \<Rightarrow> (error + runtime_record) \<times> routing_runtime \<times> 'db" where
  "activate_control env ops now expected actor s =
     (case ro_load ops (snd s) of Inl e \<Rightarrow> (Inl e, s) | Inr b \<Rightarrow> activate env ops now b expected actor 0 s)"

definition rollback_control :: "config_env \<Rightarrow> 'db runtime_ops \<Rightarrow> go_time \<Rightarrow> int \<Rightarrow> int \<Rightarrow> go_id \<Rightarrow>
    routing_runtime \<times> 'db \<Rightarrow> (error + runtime_record) \<times> routing_runtime \<times> 'db" where
  "rollback_control env ops now expected target actor s =
     (if target < 1 \<or> target = expected then (Inl StoreErrInvalid, s)
      else case ro_get ops target (snd s) of Inl e \<Rightarrow> (Inl e, s)
        | Inr r \<Rightarrow> activate env ops now (ru_bundle r) expected actor target s)"

text \<open>The record a process starts from.\<close>

definition record_or_config :: "error + runtime_record \<Rightarrow> runtime_bundle \<Rightarrow> error + runtime_record" where
  "record_or_config current configured = (case current of
       Inl e \<Rightarrow> if e = StoreErrNotFound then Inr \<lparr>ru_revision = 0, ru_bundle = configured,
           ru_activated_at = 0, ru_activated_by = [], ru_source = 0\<rparr> else Inl e
     | Inr r \<Rightarrow> Inr r)"

text \<open>The operations of the SQLite store for one call; inventory is what the four tables hold.\<close>

definition sqlite_runtime :: "runtime_codec \<Rightarrow> error option \<Rightarrow> sql_faults \<Rightarrow> (error + runtime_bundle) \<Rightarrow>
    runtime_row list runtime_ops" where
  "sqlite_runtime rc cerr ft inventory = \<lparr>ro_load = (\<lambda>t. inventory),
     ro_get = get_runtime rc cerr (ft 6), ro_activate = activate_runtime rc cerr ft\<rparr>"

end
