(* ===== verification/Runtime_Control.thy ===== *)
theory Runtime_Control
  imports Runtime_Store
begin

text \<open>The contract of store.RuntimeSnapshots as a locale, its SQLite provider, and what the control
  guarantees with it: memory and disk agree after every step, published snapshots are valid, and a
  request finds the snapshot it was evaluated on for a hundred activations.\<close>

section \<open>The interface\<close>

locale runtime_snapshots =
  fixes act :: "'f \<Rightarrow> runtime_bundle \<Rightarrow> int \<Rightarrow> go_id \<Rightarrow> int \<Rightarrow> go_time \<Rightarrow> 'db \<Rightarrow> (error + runtime_record) \<times> 'db"
    and fetch :: "'f \<Rightarrow> int \<Rightarrow> 'db \<Rightarrow> error + runtime_record"
    and good :: "'db \<Rightarrow> bool"
    and newest :: "'db \<Rightarrow> int"
    and contents :: "'db \<Rightarrow> int \<Rightarrow> runtime_bundle option"
  assumes act_done: "good db \<Longrightarrow> act f b expected actor source now db = (Inr r, db') \<Longrightarrow>
      good db' \<and> newest db = expected \<and> newest db' = expected + 1 \<and> ru_revision r = expected + 1 \<and>
      ru_bundle r = b \<and> 0 \<le> expected \<and>
      contents db' = (\<lambda>i. if i = expected + 1 then Some b else if i \<le> expected - 99 then None else contents db i)"
    and act_refused: "act f b expected actor source now db = (Inl e, db') \<Longrightarrow> db' = db"
    and fetch_done: "good db \<Longrightarrow> fetch f i db = Inr r \<Longrightarrow> contents db i = Some (ru_bundle r)"
begin

text \<open>Memory and disk agree.\<close>

definition in_step :: "config_env \<Rightarrow> routing_runtime \<times> 'db \<Rightarrow> bool" where
  "in_step env s = (case s of (rt, db) \<Rightarrow> good db \<and> 0 \<le> newest db \<and>
     ru_revision (rn_record rt) = newest db \<and> sn_revision (rn_current rt) = newest db \<and>
     ru_bundle (rn_record rt) = sn_bundle (rn_current rt) \<and>
     snapshot_at (newest db) rt = Some (rn_current rt) \<and>
     (\<forall>i sn. snapshot_at i rt = Some sn \<longrightarrow> sn_revision sn = i \<and> i \<le> newest db \<and> newest db - 100 < i \<and>
        (1 \<le> i \<longrightarrow> contents db i = Some (sn_bundle sn)) \<and>
        config_validate env (candidate_config (rn_base rt) (sn_bundle sn)) = None))"

lemma map_of_filter_key: "map_of (filter (\<lambda>(i, s). P i) xs) k = (if P k then map_of xs k else None)"
  by (induction xs) auto

lemma publish_snapshots:
  "snapshot_at i (publish sn r rt) = (if i \<le> sn_revision sn - 100 then None
     else if i = sn_revision sn then Some sn else snapshot_at i rt)"
  using map_of_filter_key [of "\<lambda>i. \<not> i \<le> sn_revision sn - 100" "AList.update (sn_revision sn) sn (rn_history rt)" i]
  by (auto simp: snapshot_at_def publish_def retained_routing_snapshots_def update_conv')

lemma activate_in_step:
  assumes s: "in_step env (rt, db)" and o: "ro_activate ops = act f"
    and a: "activate env ops now b expected actor source (rt, db) = (x, rt', db')"
  shows "in_step env (rt', db') \<and> (case x of
      Inl e \<Rightarrow> rt' = rt \<and> db' = db
    | Inr r \<Rightarrow> newest db = expected \<and> newest db' = expected + 1 \<and> sn_bundle (rn_current rt') = b \<and>
        contents db' (expected + 1) = Some b)"
proof (cases "compile env (rn_base rt) b (expected + 1)")
  case (Inl e)
  then show ?thesis using a s by (auto simp: activate_def)
next
  case (Inr prepared)
  have c: "prepared = \<lparr>sn_revision = expected + 1, sn_bundle = b\<rparr>"
      "config_validate env (candidate_config (rn_base rt) b) = None"
    using Inr by (auto simp: compile_def split: if_splits option.splits)
  obtain y d where y: "act f b expected actor source now db = (y, d)" by (metis surj_pair)
  show ?thesis
  proof (cases y)
    case (Inl e)
    then show ?thesis using a s Inr y o act_refused [OF y [unfolded Inl]] by (auto simp: activate_def)
  next
    case r: (Inr r)
    have g: "good db" using s by (simp add: in_step_def)
    note d = act_done [OF g y [unfolded r]]
    have x: "x = Inr r" "rt' = publish prepared r rt" "db' = d"
      using a Inr y r o d c(1) by (auto simp: activate_def)
    have n: "newest db = expected" "0 \<le> expected" using d by simp_all
    have "sn_revision sn = i \<and> i \<le> newest db' \<and> newest db' - 100 < i \<and>
        (1 \<le> i \<longrightarrow> contents db' i = Some (sn_bundle sn)) \<and>
        config_validate env (candidate_config (rn_base rt') (sn_bundle sn)) = None"
      if i: "snapshot_at i rt' = Some sn" for i sn
    proof (cases "i = expected + 1")
      case True
      have b: "rn_base rt' = rn_base rt" using x(2) by (simp add: publish_def)
      have "sn = prepared" using i x(2) c(1) True by (simp add: publish_snapshots)
      then show ?thesis using c d n True x(3) b by simp
    next
      case False
      then have i': "snapshot_at i rt = Some sn" "\<not> i \<le> expected - 99"
        using i x(2) c(1) by (auto simp: publish_snapshots split: if_splits)
      have "sn_revision sn = i \<and> i \<le> newest db \<and> newest db - 100 < i \<and>
          (1 \<le> i \<longrightarrow> contents db i = Some (sn_bundle sn)) \<and>
          config_validate env (candidate_config (rn_base rt) (sn_bundle sn)) = None"
        using s i'(1) by (simp add: in_step_def)
      moreover have "rn_base rt' = rn_base rt" using x(2) by (simp add: publish_def)
      ultimately show ?thesis using x(3) d n i'(2) False by simp
    qed
    moreover have "snapshot_at (expected + 1) rt' = Some prepared"
      using x(2) c(1) by (simp add: publish_snapshots)
    moreover have "rn_current rt' = prepared" "rn_record rt' = r" using x(2) by (simp_all add: publish_def)
    ultimately have "in_step env (rt', db')" using d n c(1) x(3) by (simp add: in_step_def)
    then show ?thesis using x d c n \<open>rn_current rt' = prepared\<close> by simp
  qed
qed

end

section \<open>The SQLite provider\<close>

definition row_contents :: "runtime_codec \<Rightarrow> runtime_row list \<Rightarrow> int \<Rightarrow> runtime_bundle option" where
  "row_contents rc t i = Option.bind (List.find (\<lambda>r. rw_revision r = i) t) (\<lambda>r. unmarshal (rc_bundle rc) (rw_document r))"

definition runtime_table_ok :: "runtime_row list \<Rightarrow> bool" where
  "runtime_table_ok t = (distinct (map rw_revision t) \<and>
     (\<forall>r\<in>set t. 1 \<le> rw_revision r \<and> rw_revision r \<le> current_revision t \<and>
        (rw_current r \<longleftrightarrow> rw_revision r = current_revision t)))"

definition codec_exact :: "runtime_codec \<Rightarrow> bool" where
  "codec_exact rc = (\<forall>b doc. marshal (rc_bundle rc) b = Some doc \<longrightarrow> unmarshal (rc_bundle rc) doc = Some b)"

lemma find_none: "(\<And>x. x \<in> set xs \<Longrightarrow> \<not> P x) \<Longrightarrow> List.find P xs = None"
  by (induction xs) auto

lemma find_append: "List.find P (xs @ ys) = (case List.find P xs of None \<Rightarrow> List.find P ys | Some x \<Rightarrow> Some x)"
  by (induction xs) auto

lemma find_prune_rows:
  "\<forall>x\<in>set xs. \<not> rw_current x \<Longrightarrow> List.find (\<lambda>x. rw_revision x = i) (prune_rows (expected + 1 - 100) xs) =
     (if i \<le> expected - 99 then None else List.find (\<lambda>x. rw_revision x = i) xs)"
  unfolding prune_rows_def by (induction xs) auto

lemma activate_runtime_done:
  assumes c: "codec_exact rc" and t: "runtime_table_ok t"
    and a: "activate_runtime rc cerr ft b expected actor source now t = (Inr r, t')"
  shows "runtime_table_ok t' \<and> current_revision t = expected \<and> current_revision t' = expected + 1 \<and>
    ru_revision r = expected + 1 \<and> ru_bundle r = b \<and> 0 \<le> expected \<and>
    row_contents rc t' = (\<lambda>i. if i = expected + 1 then Some b else if i \<le> expected - 99 then None
      else row_contents rc t i)"
proof -
  define t1 where "t1 = (if current_revision t > 0 then retire_row (current_revision t) t else t)"
  have g: "\<not> (expected < 0 \<or> expected = max_int64_value \<or> \<not> id_valid actor \<or> source < 0 \<or> now = 0)"
    by (rule ccontr) (use a in \<open>simp add: activate_runtime_def\<close>)
  then obtain doc where m: "marshal (rc_bundle rc) b = Some doc"
    using a by (cases "marshal (rc_bundle rc) b") (simp_all add: activate_runtime_def)
  have l: "\<not> (doc = [] \<or> length doc > max_runtime_document)"
    by (rule ccontr) (use a g m in \<open>simp add: activate_runtime_def\<close>)
  have f: "ft 0 = None" using a g m l by (cases "ft 0") (simp_all add: activate_runtime_def)
  have f1: "ft 1 = None" using a g m l f by (cases "ft 1") (simp_all add: activate_runtime_def)
  note a = a [unfolded activate_runtime_def Let_def, folded t1_def]
  have e: "current_revision t = expected" by (rule ccontr) (use a g m l f f1 in simp)
  have f2: "(if current_revision t > 0 then ft 2 else None) = None"
    by (rule ccontr) (use a g m l f f1 e in \<open>auto simp del: if_split_asm split: option.splits\<close>)
  have f3: "(if current_revision t + 1 \<in> rw_revision ` set t1 then Some StoreErrUnavailable else ft 3) = None"
    by (rule ccontr) (use a g m l f f1 f2 e in \<open>auto split: option.splits\<close>)
  have f4: "ft 4 = None" by (rule ccontr) (use a g m l f f1 f2 f3 e in \<open>auto\<close>)
  have f5: "ft 5 = None" by (rule ccontr) (use a g m l f f1 f2 f3 f4 e in \<open>auto\<close>)
  have doc: "marshal (rc_bundle rc) b = Some doc" "0 \<le> expected" "current_revision t = expected"
      "r = \<lparr>ru_revision = expected + 1, ru_bundle = b, ru_activated_at = now, ru_activated_by = actor, ru_source = source\<rparr>"
      and t': "t' = prune_rows (expected + 1 - 100) (t1 @ [\<lparr>rw_revision = expected + 1,
        rw_activated_at = rc_format rc now, rw_activated_by = actor, rw_source = source,
        rw_document = doc, rw_current = True\<rparr>])"
    using a g m l f f1 f2 f3 f4 f5 e by (auto simp: max_runtime_history_def)
  let ?row = "\<lparr>rw_revision = expected + 1, rw_activated_at = rc_format rc now, rw_activated_by = actor,
      rw_source = source, rw_document = doc, rw_current = True\<rparr>"
  have u: "unmarshal (rc_bundle rc) doc = Some b" using c doc(1) by (simp add: codec_exact_def)
  have m: "map rw_revision t1 = map rw_revision t" "map rw_document t1 = map rw_document t"
    by (simp_all add: t1_def retire_row_def)
  have n: "\<not> rw_current x \<and> 1 \<le> rw_revision x \<and> rw_revision x \<le> expected" if "x \<in> set t1" for x
    using that t doc(3) by (auto simp: t1_def retire_row_def runtime_table_ok_def split: if_splits)
  have f1: "List.find rw_current (prune_rows k t1) = None" for k
    using n by (intro find_none) (auto simp: prune_rows_def)
  have cur: "current_revision t' = expected + 1"
    using f1 by (simp add: t' current_revision_def prune_rows_def find_append)
  have rev_t1: "List.find (\<lambda>x. rw_revision x = i) t1 =
      map_option (\<lambda>x. if current_revision t > 0 \<and> rw_revision x = current_revision t then x\<lparr>rw_current := False\<rparr> else x)
        (List.find (\<lambda>x. rw_revision x = i) t)" for i
  proof -
    have "List.find (\<lambda>x. rw_revision x = i) (retire_row k xs) =
        map_option (\<lambda>x. if rw_revision x = k then x\<lparr>rw_current := False\<rparr> else x)
          (List.find (\<lambda>x. rw_revision x = i) xs)" for k xs
      unfolding retire_row_def by (induction xs) auto
    then show ?thesis by (cases "List.find (\<lambda>x. rw_revision x = i) t") (auto simp: t1_def)
  qed
  have con: "row_contents rc t1 i = row_contents rc t i" for i
    unfolding row_contents_def rev_t1 by (cases "List.find (\<lambda>x. rw_revision x = i) t") auto
  have gone: "List.find (\<lambda>x. rw_revision x = i) (prune_rows (expected + 1 - 100) t1) =
      (if i \<le> expected - 99 then None else List.find (\<lambda>x. rw_revision x = i) t1)" for i
    using n by (intro find_prune_rows) blast
  have "List.find (\<lambda>x. rw_revision x = expected + 1) t1 = None" using n by (intro find_none) force
  then have "row_contents rc t' i = (if i = expected + 1 then Some b else if i \<le> expected - 99 then None
      else row_contents rc t i)" for i
    using gone [of i] con [of i] u
    by (auto simp: t' row_contents_def prune_rows_def find_append split: option.splits)
  moreover have "runtime_table_ok t'"
  proof -
    have "distinct (map rw_revision t1)" using t m(1) by (simp add: runtime_table_ok_def)
    then have "distinct (map rw_revision (prune_rows k t1))" for k
      unfolding prune_rows_def by (rule distinct_map_filter)
    moreover have "prune_rows k (t1 @ [?row]) = prune_rows k t1 @ [?row]" for k by (simp add: prune_rows_def)
    ultimately show ?thesis using n cur doc(2) unfolding runtime_table_ok_def t'
      by (auto simp: prune_rows_def) fastforce+
  qed
  ultimately show ?thesis using cur doc by auto
qed

lemma activate_runtime_refused:
  "activate_runtime rc cerr ft b expected actor source now t = (Inl e, t') \<Longrightarrow> t' = t"
  unfolding activate_runtime_def Let_def by (auto split: if_splits option.splits)

lemma get_runtime_contents:
  "get_runtime rc cerr fault i t = Inr r \<Longrightarrow> row_contents rc t i = Some (ru_bundle r)"
  by (auto simp: get_runtime_def query_runtime_def scan_runtime_def row_contents_def
      split: if_splits option.splits)

text \<open>The contract holds for a codec that decodes what it encodes.\<close>

interpretation sqlite_snapshots: runtime_snapshots
  "\<lambda>(cerr, ft). activate_runtime rc cerr ft" "\<lambda>(cerr, ft). get_runtime rc cerr (ft 6)"
  "\<lambda>t. codec_exact rc \<and> runtime_table_ok t" current_revision "row_contents rc" for rc
  by unfold_locales
     (auto split: prod.splits dest: activate_runtime_done activate_runtime_refused get_runtime_contents)

lemmas sqlite_in_step = sqlite_snapshots.in_step_def

section \<open>The control\<close>

text \<open>A process starts from the durable record or the configuration and is then activated, rolled back
  or restarted, with any faults and any inventory.\<close>

definition start_runtime :: "config_env \<Rightarrow> runtime_codec \<Rightarrow> config \<Rightarrow> runtime_row list \<Rightarrow> error + routing_runtime" where
  "start_runtime env rc base t =
     (case record_or_config (current_runtime rc None None t) \<lparr>rb_proxies = cf_proxies base, rb_pools = cf_pools base,
         rb_chains = cf_chains base, rb_policies = cf_policies base\<rparr> of
        Inl e \<Rightarrow> Inl e | Inr r \<Rightarrow> new_routing_runtime env base (ru_bundle r) r)"

inductive runtime_reachable :: "config_env \<Rightarrow> runtime_codec \<Rightarrow> routing_runtime \<times> runtime_row list \<Rightarrow> bool"
  for env rc where
  boot: "start_runtime env rc base [] = Inr rt \<Longrightarrow> runtime_reachable env rc (rt, [])"
| restart: "runtime_reachable env rc (rt, t) \<Longrightarrow> start_runtime env rc base t = Inr rt2 \<Longrightarrow>
    runtime_reachable env rc (rt2, t)"
| activated: "runtime_reachable env rc s \<Longrightarrow>
    activate_control env (sqlite_runtime rc cerr ft inventory) now expected actor s = (x, s') \<Longrightarrow>
    runtime_reachable env rc s'"
| rolled_back: "runtime_reachable env rc s \<Longrightarrow>
    rollback_control env (sqlite_runtime rc cerr ft inventory) now expected target actor s = (x, s') \<Longrightarrow>
    runtime_reachable env rc s'"

lemma start_in_step:
  assumes "codec_exact rc" "runtime_table_ok t" "start_runtime env rc base t = Inr rt"
  shows "sqlite_snapshots.in_step rc env (rt, t)"
proof -
  obtain r where r: "record_or_config (current_runtime rc None None t) \<lparr>rb_proxies = cf_proxies base,
      rb_pools = cf_pools base, rb_chains = cf_chains base, rb_policies = cf_policies base\<rparr> = Inr r"
      "new_routing_runtime env base (ru_bundle r) r = Inr rt"
    using assms(3) by (auto simp: start_runtime_def split: sum.splits)
  then have rt: "rt = \<lparr>rn_base = base, rn_current = \<lparr>sn_revision = ru_revision r, sn_bundle = ru_bundle r\<rparr>,
      rn_history = [(ru_revision r, \<lparr>sn_revision = ru_revision r, sn_bundle = ru_bundle r\<rparr>)], rn_record = r\<rparr>"
      "config_validate env (candidate_config base (ru_bundle r)) = None"
    by (auto simp: new_routing_runtime_def compile_def split: if_splits option.splits)
  have "ru_revision r = current_revision t \<and> (1 \<le> ru_revision r \<longrightarrow> row_contents rc t (ru_revision r) = Some (ru_bundle r))"
  proof (cases "List.find rw_current t")
    case None
    then show ?thesis using r(1)
      by (auto simp: record_or_config_def current_runtime_def query_runtime_def current_revision_def)
  next
    case (Some row)
    then have m: "row \<in> set t" "rw_current row" by (auto dest: find_Some_iff [THEN iffD1])
    have c: "rw_revision row = current_revision t" using Some by (simp add: current_revision_def)
    have "List.find (\<lambda>x. rw_revision x = rw_revision row) t = Some row"
    proof -
      have "\<forall>x\<in>set t. rw_current x = (rw_revision x = rw_revision row)"
        using assms(2) c by (simp add: runtime_table_ok_def)
      then have "List.find (\<lambda>x. rw_revision x = rw_revision row) t = List.find rw_current t"
        by (induction t) auto
      then show ?thesis using Some by simp
    qed
    moreover have "scan_runtime rc row = Inr r"
      using r(1) Some
      by (auto simp: record_or_config_def current_runtime_def query_runtime_def scan_runtime_def
          split: sum.splits if_splits option.splits)
    ultimately show ?thesis using c
      by (auto simp: scan_runtime_def row_contents_def split: option.splits if_splits)
  qed
  moreover have "0 \<le> current_revision t"
  proof (cases "List.find rw_current t")
    case None
    then show ?thesis by (simp add: current_revision_def)
  next
    case (Some row)
    then have "row \<in> set t" by (auto dest: find_Some_iff [THEN iffD1])
    then show ?thesis using assms(2) by (fastforce simp: runtime_table_ok_def)
  qed
  ultimately show ?thesis using assms(1,2) rt
    unfolding sqlite_in_step by (auto simp: snapshot_at_def split: if_splits)
qed

lemma activate_control_in_step:
  assumes "sqlite_snapshots.in_step rc env (rt, t)"
    "activate env (sqlite_runtime rc cerr ft staged) now b expected actor source (rt, t) = (x, rt', t')"
  shows "sqlite_snapshots.in_step rc env (rt', t') \<and> (case x of
      Inl e \<Rightarrow> rt' = rt \<and> t' = t
    | Inr r \<Rightarrow> current_revision t = expected \<and> current_revision t' = expected + 1 \<and> sn_bundle (rn_current rt') = b \<and>
        row_contents rc t' (expected + 1) = Some b)"
  using sqlite_snapshots.activate_in_step [where f = "(cerr, ft)", OF assms(1) _ assms(2)]
  by (simp add: sqlite_runtime_def)

lemma runtime_in_step:
  assumes "codec_exact rc" "runtime_reachable env rc s"
  shows "sqlite_snapshots.in_step rc env s"
  using assms(2)
proof (induction rule: runtime_reachable.induct)
  case (boot base rt)
  then show ?case using start_in_step [OF assms(1) _ boot] by (simp add: runtime_table_ok_def)
next
  case (restart rt t base rt2)
  then show ?case using start_in_step [OF assms(1) _ restart(2)]
    by (simp add: sqlite_snapshots.in_step_def)
next
  case (activated s cerr ft inventory now expected actor x s')
  obtain rt t rt' t' where s: "s = (rt, t)" "s' = (rt', t')" by (metis surj_pair)
  show ?case
  proof (cases inventory)
    case (Inl e)
    then show ?thesis using activated(2,3) by (auto simp: activate_control_def sqlite_runtime_def)
  next
    case (Inr b)
    then have "activate env (sqlite_runtime rc cerr ft inventory) now b expected actor 0 (rt, t) = (x, rt', t')"
      using activated(2) s by (simp add: activate_control_def sqlite_runtime_def)
    then show ?thesis using activate_control_in_step activated(3) s by blast
  qed
next
  case (rolled_back s cerr ft inventory now expected target actor x s')
  obtain rt t rt' t' where s: "s = (rt, t)" "s' = (rt', t')" by (metis surj_pair)
  show ?case
  proof (cases "s' = s")
    case False
    then obtain r where "ro_get (sqlite_runtime rc cerr ft inventory) target t = Inr r"
      using rolled_back(2) s by (auto simp: rollback_control_def split: if_splits sum.splits)
    then have "activate env (sqlite_runtime rc cerr ft inventory) now (ru_bundle r) expected actor target
        (rt, t) = (x, rt', t')"
      using rolled_back(2) s False by (auto simp: rollback_control_def split: if_splits)
    then show ?thesis using activate_control_in_step rolled_back(3) s by blast
  qed (use rolled_back(3) in simp)
qed

text \<open>C6: In every reachable state the published snapshot is the durable current one, and every snapshot a
  request can still be routed with is the bundle that was stored under its revision, a valid
  configuration, and one of the last hundred; so a restart serves what was served before.\<close>

theorem runtime_coherent:
  assumes "codec_exact rc" "runtime_reachable env rc (rt, t)"
  shows "sn_revision (rn_current rt) = current_revision t \<and> ru_bundle (rn_record rt) = sn_bundle (rn_current rt) \<and>
    (1 \<le> current_revision t \<longrightarrow> row_contents rc t (current_revision t) = Some (sn_bundle (rn_current rt))) \<and>
    (\<forall>i sn. snapshot_at i rt = Some sn \<longrightarrow> sn_revision sn = i \<and> current_revision t - 100 < i \<and>
       i \<le> current_revision t \<and> (1 \<le> i \<longrightarrow> row_contents rc t i = Some (sn_bundle sn)) \<and>
       config_validate env (candidate_config (rn_base rt) (sn_bundle sn)) = None)"
  using runtime_in_step [OF assms] by (auto simp: sqlite_snapshots.in_step_def)

text \<open>A rollback publishes the bundle of its target as a new revision and rewrites nothing that is
  retained; it succeeds only from the revision the operator saw, and if it fails nothing changes.\<close>

theorem rollback_restores:
  assumes "codec_exact rc" "runtime_reachable env rc (rt, t)"
    "rollback_control env (sqlite_runtime rc cerr ft staged) now expected target actor (rt, t) = (x, rt', t')"
  shows "case x of
      Inl e \<Rightarrow> rt' = rt \<and> t' = t
    | Inr r \<Rightarrow> expected = current_revision t \<and> sn_revision (rn_current rt') = current_revision t + 1 \<and>
        row_contents rc t target = Some (sn_bundle (rn_current rt')) \<and>
        (\<forall>i. i \<le> current_revision t \<longrightarrow> snapshot_at i rt' \<noteq> None \<longrightarrow> snapshot_at i rt' = snapshot_at i rt)"
proof (cases "target < 1 \<or> target = expected")
  case True
  then show ?thesis using assms(3) by (auto simp: rollback_control_def)
next
  case False
  have s: "sqlite_snapshots.in_step rc env (rt, t)" by (rule runtime_in_step [OF assms(1,2)])
  show ?thesis
  proof (cases "get_runtime rc cerr (ft 6) target t")
    case (Inl e)
    then have "x = Inl e" "rt' = rt" "t' = t"
      using assms(3) False by (auto simp: rollback_control_def sqlite_runtime_def)
    then show ?thesis by simp
  next
    case (Inr r)
    then have a: "activate env (sqlite_runtime rc cerr ft staged) now (ru_bundle r) expected actor target (rt, t) = (x, rt', t')"
      using assms(3) False by (simp add: rollback_control_def sqlite_runtime_def)
    note d = activate_control_in_step [OF s a]
    show ?thesis
    proof (cases x)
      case (Inl e)
      then show ?thesis using d by simp
    next
      case x: (Inr y)
      then obtain prepared where p: "rt' = publish prepared y rt" "sn_revision prepared = expected + 1"
        using a by (auto simp: activate_def compile_def split: sum.splits prod.splits if_splits option.splits)
      have "snapshot_at i rt' = snapshot_at i rt"
        if "i \<le> current_revision t" "snapshot_at i rt' \<noteq> None" for i
        using that p d x by (auto simp: sqlite_snapshots.publish_snapshots split: if_splits)
      moreover have "sn_revision (rn_current rt') = current_revision t + 1"
        using p d x by (simp add: publish_def)
      ultimately show ?thesis using d x get_runtime_contents [OF Inr] by simp
    qed
  qed
qed

section \<open>Witnesses\<close>

definition demo_base :: config where "demo_base = default_config ''/home/op''"

definition demo_bundle :: "bool \<Rightarrow> runtime_bundle" where
  "demo_bundle full = \<lparr>rb_proxies = (if full then [demo_endpoint ''px1'' 1] else []), rb_pools = cf_pools demo_base,
     rb_chains = cf_chains demo_base, rb_policies = cf_policies demo_base\<rparr>"

definition demo_codec :: runtime_codec where
  "demo_codec = \<lparr>rc_bundle = \<lparr>marshal = (\<lambda>b. if b = demo_bundle True then Some ''A''
        else if b = demo_bundle False then Some ''B'' else None),
      unmarshal = (\<lambda>s. if s = ''A'' then Some (demo_bundle True)
        else if s = ''B'' then Some (demo_bundle False) else None)\<rparr>,
     rc_format = (\<lambda>t. ''t''), rc_parse = (\<lambda>s. Some 5)\<rparr>"

definition demo_ops :: "bool \<Rightarrow> runtime_row list runtime_ops" where
  "demo_ops full = sqlite_runtime demo_codec None (\<lambda>k. None) (Inr (demo_bundle full))"

definition demo_record :: "int \<Rightarrow> bool \<Rightarrow> runtime_record" where
  "demo_record i full = \<lparr>ru_revision = i, ru_bundle = demo_bundle full, ru_activated_at = i,
     ru_activated_by = ''op'', ru_source = 0\<rparr>"

definition demo_row :: "int \<Rightarrow> bool \<Rightarrow> runtime_row" where
  "demo_row i current = \<lparr>rw_revision = i, rw_activated_at = ''t'', rw_activated_by = ''op'', rw_source = 0,
     rw_document = (if i = 1 then ''A'' else ''B''), rw_current = current\<rparr>"

definition demo_snapshot :: "int \<Rightarrow> bool \<Rightarrow> routing_snapshot" where
  "demo_snapshot i full = \<lparr>sn_revision = i, sn_bundle = demo_bundle full\<rparr>"

definition demo_boot :: routing_runtime where
  "demo_boot = \<lparr>rn_base = demo_base, rn_current = demo_snapshot 0 False,
     rn_history = [(0, demo_snapshot 0 False)], rn_record = \<lparr>ru_revision = 0, ru_bundle = demo_bundle False,
     ru_activated_at = 0, ru_activated_by = [], ru_source = 0\<rparr>\<rparr>"

definition demo_first :: "routing_runtime \<times> runtime_row list" where
  "demo_first = (\<lparr>rn_base = demo_base, rn_current = demo_snapshot 1 True,
     rn_history = [(0, demo_snapshot 0 False), (1, demo_snapshot 1 True)], rn_record = demo_record 1 True\<rparr>,
     [demo_row 1 True])"

definition demo_second :: "routing_runtime \<times> runtime_row list" where
  "demo_second = (\<lparr>rn_base = demo_base, rn_current = demo_snapshot 2 False,
     rn_history = [(0, demo_snapshot 0 False), (1, demo_snapshot 1 True), (2, demo_snapshot 2 False)],
     rn_record = demo_record 2 False\<rparr>, [demo_row 1 False, demo_row 2 True])"

lemma demo_compile: "compile demo_config_env demo_base (demo_bundle full) i = Inr (demo_snapshot i full)"
proof -
  have "config_validate demo_config_env (candidate_config demo_base (demo_bundle True)) = None"
      "config_validate demo_config_env (candidate_config demo_base (demo_bundle False)) = None"
    by code_simp+
  moreover have "rb_pools (demo_bundle full) = []"
    by (simp add: demo_bundle_def demo_base_def default_config_def Let_def)
  ultimately show ?thesis by (cases full) (simp_all add: compile_def demo_snapshot_def)
qed

lemma demo_bundle_distinct: "demo_bundle True \<noteq> demo_bundle False"
  by (simp add: demo_bundle_def)

lemma demo_marshal: "marshal (rc_bundle demo_codec) (demo_bundle True) = Some ''A''"
    "marshal (rc_bundle demo_codec) (demo_bundle False) = Some ''B''"
    "unmarshal (rc_bundle demo_codec) ''A'' = Some (demo_bundle True)"
    "unmarshal (rc_bundle demo_codec) ''B'' = Some (demo_bundle False)"
    "rc_format demo_codec t = ''t''" "rc_parse demo_codec s = Some 5"
  using demo_bundle_distinct by (simp_all add: demo_codec_def)

lemmas demo_steps = demo_compile demo_marshal demo_ops_def sqlite_runtime_def activate_control_def activate_def
  rollback_control_def activate_runtime_def current_revision_def retire_row_def prune_rows_def publish_def
  demo_row_def demo_snapshot_def demo_record_def max_runtime_document_def max_runtime_history_def
  max_int64_value_def retained_routing_snapshots_def Let_def

lemma demo_codec_exact: "codec_exact demo_codec"
  by (auto simp: codec_exact_def demo_codec_def split: if_splits)

lemma demo_id: "id_valid ''op''" by code_simp

lemma demo_start: "start_runtime demo_config_env demo_codec demo_base [] = Inr demo_boot"
proof -
  have "\<lparr>rb_proxies = cf_proxies demo_base, rb_pools = cf_pools demo_base, rb_chains = cf_chains demo_base,
      rb_policies = cf_policies demo_base\<rparr> = demo_bundle False"
    by (simp add: demo_bundle_def demo_base_def default_config_def Let_def)
  then show ?thesis
    by (simp add: start_runtime_def current_runtime_def query_runtime_def record_or_config_def
        new_routing_runtime_def demo_compile demo_boot_def demo_snapshot_def)
qed

lemma demo_activate:
  "activate_control demo_config_env (demo_ops True) 1 0 ''op'' (demo_boot, []) = (Inr (demo_record 1 True), demo_first)"
  "activate_control demo_config_env (demo_ops False) 2 1 ''op'' demo_first = (Inr (demo_record 2 False), demo_second)"
  by (simp_all add: demo_steps demo_id demo_boot_def demo_first_def demo_second_def)

lemma runtime_demo_reachable: "runtime_reachable demo_config_env demo_codec demo_second"
proof -
  have "runtime_reachable demo_config_env demo_codec (demo_boot, [])" by (rule boot) (rule demo_start)
  then have "runtime_reachable demo_config_env demo_codec demo_first"
    using demo_activate(1) unfolding demo_ops_def by (rule activated)
  then show ?thesis using demo_activate(2) unfolding demo_ops_def by (rule activated)
qed

theorem runtime_coherent_witness:
  "row_contents demo_codec [demo_row 1 False, demo_row 2 True] 2 = Some (demo_bundle False)"
  using runtime_coherent [OF demo_codec_exact runtime_demo_reachable [unfolded demo_second_def]]
  by (simp add: current_revision_def demo_row_def demo_snapshot_def)

theorem rollback_restores_witness:
  "sn_bundle (rn_current (fst (snd (rollback_control demo_config_env (demo_ops False) 7 2 1 ''op'' demo_second)))) =
     demo_bundle True"
proof -
  obtain x rt' t' where r: "rollback_control demo_config_env (demo_ops False) 7 2 1 ''op'' demo_second = (x, rt', t')"
    by (metis surj_pair)
  have "\<not> isl (fst (rollback_control demo_config_env (demo_ops False) 7 2 1 ''op'' demo_second))"
    by (simp add: demo_steps demo_id demo_second_def get_runtime_def query_runtime_def scan_runtime_def)
  moreover have "row_contents demo_codec [demo_row 1 False, demo_row 2 True] 1 = Some (demo_bundle True)"
    by (simp add: row_contents_def demo_row_def demo_marshal)
  ultimately show ?thesis
    using rollback_restores [OF demo_codec_exact runtime_demo_reachable [unfolded demo_second_def]
        r [unfolded demo_ops_def demo_second_def]] r
    by (cases x) simp_all
qed

end
