(* ===== verification/Sqlite_Budgets.thy ===== *)
theory Sqlite_Budgets
  imports Budget_Ledger Sqlite_Inventory
begin

text \<open>internal/storage/sqlite/budgets.go: the durable configurations and usage of budgets.  A row of
  budget_usage is ((budget_id, window_start), used_bytes, reserved_bytes); a fault of the n-th call to
  the driver is an argument and changes nothing.\<close>

section \<open>The tables\<close>

type_synonym usage_row = "usage_key \<times> int \<times> int"

record budget_db =
  bd_initialized :: bool
  bd_configs :: sql_table
  bd_usage :: "usage_row list"

definition max_budget_document :: nat where "max_budget_document = 65536"

section \<open>Configurations\<close>

definition marshal_budget :: "zones \<Rightarrow> budget_config codec \<Rightarrow> budget_config \<Rightarrow> error + string" where
  "marshal_budget tz cd c =
     (if budget_validate tz c \<noteq> None then Inl StoreErrInvalid
      else case marshal cd c of None \<Rightarrow> Inl StoreErrInvalid
        | Some doc \<Rightarrow> if length doc > max_budget_document then Inl StoreErrInvalid else Inr doc)"

definition sqlite_get_budget :: "zones \<Rightarrow> budget_config codec \<Rightarrow> error option \<Rightarrow> error option \<Rightarrow> go_id \<Rightarrow>
    budget_db \<Rightarrow> error + budget_record" where
  "sqlite_get_budget tz cd cerr fault i db =
     (case sql_get cd b_id (budget_validate tz) cerr fault i (bd_configs db) of Inl e \<Rightarrow> Inl e
      | Inr r \<Rightarrow> Inr (st_doc r, st_revision r))"

definition sqlite_list_budgets :: "zones \<Rightarrow> budget_config codec \<Rightarrow> error option \<Rightarrow> sql_faults \<Rightarrow> budget_db \<Rightarrow>
    error + budget_record list" where
  "sqlite_list_budgets tz cd cerr ft db =
     (case ft 0 of Some e \<Rightarrow> Inl (safe_error cerr e)
      | None \<Rightarrow> (case scan_rows cd b_id (budget_validate tz) cerr ft 2
            (map (\<lambda>i. (i, the (map_of (bd_configs db) i))) (sort (keys_of (bd_configs db)))) of
          Inl e \<Rightarrow> Inl e
        | Inr rs \<Rightarrow> (case ft 1 of Some e \<Rightarrow> Inl (safe_error cerr e)
            | None \<Rightarrow> Inr (map (\<lambda>r. (st_doc r, st_revision r)) rs))))"

definition sqlite_put_budget :: "zones \<Rightarrow> budget_config codec \<Rightarrow> error option \<Rightarrow> sql_faults \<Rightarrow> budget_config \<Rightarrow> int \<Rightarrow>
    budget_db \<Rightarrow> (error + budget_record) \<times> budget_db" where
  "sqlite_put_budget tz cd cerr ft c expected db =
     (case marshal_budget tz cd c of Inl e \<Rightarrow> (Inl StoreErrInvalid, db)
      | Inr doc \<Rightarrow>
        if expected < 0 \<or> expected = max_int64_value then (Inl StoreErrInvalid, db)
        else case ft 0 of Some e \<Rightarrow> (Inl (safe_error cerr e), db)
        | None \<Rightarrow>
          let (n, t) = (if expected = 0 then sql_insert (b_id c) doc (bd_configs db)
                        else sql_update (b_id c) doc expected (bd_configs db));
              db1 = db\<lparr>bd_configs := t\<rparr> in
          case ft 1 of Some e \<Rightarrow> (Inl (safe_error cerr e), db1)
          | None \<Rightarrow>
            if n = 0 then
              (if expected > 0 then
                 (case sqlite_get_budget tz cd cerr (ft 2) (b_id c) db1 of
                    Inl e \<Rightarrow> (Inl e, db1) | Inr r \<Rightarrow> (Inl StoreErrConflict, db1))
               else (Inl StoreErrConflict, db1))
            else (Inr (c, expected + 1), db1))"

definition sqlite_delete_budget :: "zones \<Rightarrow> budget_config codec \<Rightarrow> error option \<Rightarrow> sql_faults \<Rightarrow> go_id \<Rightarrow> int \<Rightarrow>
    budget_db \<Rightarrow> error option \<times> budget_db" where
  "sqlite_delete_budget tz cd cerr ft i expected db =
     (case sql_delete cd b_id (budget_validate tz) cerr ft i expected (bd_configs db) of
        (e, t) \<Rightarrow> (e, db\<lparr>bd_configs := t\<rparr>))"

text \<open>InitializeBudgets: the first process to claim the inventory stores the configured budgets.\<close>

fun marshal_budgets :: "zones \<Rightarrow> budget_config codec \<Rightarrow> (go_id \<times> string) list \<Rightarrow> budget_config list \<Rightarrow>
    (go_id \<times> string) list option" where
  "marshal_budgets tz cd acc [] = Some acc"
| "marshal_budgets tz cd acc (c # cs) = (case marshal_budget tz cd c of Inl e \<Rightarrow> None
     | Inr doc \<Rightarrow> if map_of acc (b_id c) \<noteq> None then None else marshal_budgets tz cd ((b_id c, doc) # acc) cs)"

fun insert_budgets :: "error option \<Rightarrow> sql_faults \<Rightarrow> nat \<Rightarrow> (go_id \<times> string) list \<Rightarrow> sql_table \<Rightarrow>
    error + nat \<times> sql_table" where
  "insert_budgets cerr ft n [] t = Inr (n, t)"
| "insert_budgets cerr ft n ((i, doc) # rows) t =
     (case (if map_of t i \<noteq> None then Some StoreErrUnavailable else ft n) of
        Some e \<Rightarrow> Inl (safe_error cerr e)
      | None \<Rightarrow> insert_budgets cerr ft (n + 1) rows (t @ [(i, doc, 1)]))"

definition initialize_budgets :: "zones \<Rightarrow> budget_config codec \<Rightarrow> error option \<Rightarrow> sql_faults \<Rightarrow> budget_config list \<Rightarrow>
    budget_db \<Rightarrow> (error + budget_record list) \<times> budget_db" where
  "initialize_budgets tz cd cerr ft cs db =
     (case marshal_budgets tz cd [] cs of None \<Rightarrow> (Inl StoreErrInvalid, db)
      | Some docs \<Rightarrow>
      (case ft 0 of Some e \<Rightarrow> (Inl (safe_error cerr e), db) | None \<Rightarrow>
      (case ft 1 of Some e \<Rightarrow> (Inl (safe_error cerr e), db) | None \<Rightarrow>
      (case ft 2 of Some e \<Rightarrow> (Inl (safe_error cerr e), db) | None \<Rightarrow>
      (case (if \<not> bd_initialized db then insert_budgets cerr ft 3 (sort_key fst docs) (bd_configs db)
             else case ft 3 of Some e \<Rightarrow> Inl (safe_error cerr e) | None \<Rightarrow> Inr (4, bd_configs db)) of
         Inl e \<Rightarrow> (Inl e, db)
       | Inr (n, t) \<Rightarrow>
         let db1 = db\<lparr>bd_initialized := True, bd_configs := t\<rparr> in
         (case sqlite_list_budgets tz cd cerr (\<lambda>k. ft (n + 1 + k)) db1 of Inl e \<Rightarrow> (Inl e, db)
          | Inr rs \<Rightarrow> (case ft n of Some e \<Rightarrow> (Inl (safe_error cerr e), db) | None \<Rightarrow> (Inr rs, db1))))))))"

section \<open>Usage\<close>

definition budget_window_start :: "zones \<Rightarrow> budget_config \<Rightarrow> go_time \<Rightarrow> error + int" where
  "budget_window_start tz c at = (case window_bounds tz c at of Inl e \<Rightarrow> Inl e
     | Inr (start, _) \<Rightarrow> if start = 0 then Inr 0
         else if b_window c = ''rolling'' then Inr (unix_nano (truncate_time at minute))
         else Inr (unix_nano start))"

text \<open>SUM over INTEGER columns fails when it leaves 64 bits.\<close>

definition sum_rows :: "(usage_key \<Rightarrow> bool) \<Rightarrow> usage_row list \<Rightarrow> (int \<times> int) option" where
  "sum_rows P rows =
     (let u = (\<Sum>(k, u, r)\<leftarrow>filter (P \<circ> fst) rows. u); r = (\<Sum>(k, u, r)\<leftarrow>filter (P \<circ> fst) rows. r) in
      if u > max_int64_value \<or> r > max_int64_value then None else Some (u, r))"

definition read_budget_usage :: "zones \<Rightarrow> error option \<Rightarrow> error option \<Rightarrow> budget_config \<Rightarrow> go_time \<Rightarrow>
    usage_row list \<Rightarrow> error + usage" where
  "read_budget_usage tz cerr fault c at rows =
     (case budget_window_start tz c at of Inl e \<Rightarrow> Inl e
      | Inr w \<Rightarrow>
        (case (if b_window c = ''rolling'' then
                 (case window_bounds tz c at of Inl e \<Rightarrow> Inl e
                  | Inr (start, _) \<Rightarrow> (case fault of Some e \<Rightarrow> Inl (safe_error cerr e)
                    | None \<Rightarrow> (case sum_rows (in_window (b_id c) (unix_nano (truncate_time start minute))) rows of
                        None \<Rightarrow> Inl (safe_error cerr StoreErrUnavailable) | Some s \<Rightarrow> Inr (Some s))))
               else case fault of Some e \<Rightarrow> Inl (safe_error cerr e)
                  | None \<Rightarrow> Inr (map_of rows (b_id c, w))) of
           Inl e \<Rightarrow> Inl e
         | Inr None \<Rightarrow> Inr empty_usage
         | Inr (Some (u, r)) \<Rightarrow> if u < 0 \<or> r < 0 then Inl StoreErrSchema
             else Inr \<lparr>used = of_int u, reserved = of_int r\<rparr>))"

section \<open>Reservations\<close>

definition insert_ignore :: "usage_key \<Rightarrow> usage_row list \<Rightarrow> usage_row list" where
  "insert_ignore k rows = (if map_of rows k = None then rows @ [(k, 0, 0)] else rows)"

text \<open>The first loop of ReserveBudgets inserts and checks, the second adds.\<close>

fun check_rows :: "zones \<Rightarrow> error option \<Rightarrow> sql_faults \<Rightarrow> nat \<Rightarrow> go_time \<Rightarrow> bytes \<Rightarrow> budget_config list \<Rightarrow>
    usage_row list \<Rightarrow> error + nat \<times> usage_row list" where
  "check_rows tz cerr ft n at amount [] rows = Inr (n, rows)"
| "check_rows tz cerr ft n at amount (c # cs) rows =
     (if budget_validate tz c \<noteq> None \<or> uint (b_limit c) > max_int64_value then Inl BudgetErrInvalid
      else case budget_window_start tz c at of Inl e \<Rightarrow> Inl e
      | Inr w \<Rightarrow> (case ft n of Some e \<Rightarrow> Inl (safe_error cerr e)
      | None \<Rightarrow>
        let rows1 = insert_ignore (b_id c, w) rows in
        (case read_budget_usage tz cerr (ft (n + 1)) c at rows1 of Inl e \<Rightarrow> Inl e
         | Inr u \<Rightarrow>
           let us = uint (used u); rs = uint (reserved u); requested = uint amount; limit = uint (b_limit c) in
           if us > max_int64_value - rs \<or> rs > max_int64_value - requested \<or>
              b_hard c \<and> (us + rs > limit \<or> requested > limit - us - rs) then Inl BudgetErrExceeded
           else check_rows tz cerr ft (n + 2) at amount cs rows1)))"

definition window_or_zero :: "zones \<Rightarrow> budget_config \<Rightarrow> go_time \<Rightarrow> int" where
  "window_or_zero tz c at = (case budget_window_start tz c at of Inl e \<Rightarrow> 0 | Inr w \<Rightarrow> w)"

definition add_row :: "usage_key \<Rightarrow> int \<Rightarrow> usage_row list \<Rightarrow> usage_row list" where
  "add_row k amount rows = map (\<lambda>(k', u, r). if k' = k then (k', u, r + amount) else (k', u, r)) rows"

fun add_rows :: "zones \<Rightarrow> error option \<Rightarrow> sql_faults \<Rightarrow> nat \<Rightarrow> go_time \<Rightarrow> bytes \<Rightarrow> budget_config list \<Rightarrow>
    usage_row list \<Rightarrow> error + nat \<times> usage_row list" where
  "add_rows tz cerr ft n at amount [] rows = Inr (n, rows)"
| "add_rows tz cerr ft n at amount (c # cs) rows = (case ft n of Some e \<Rightarrow> Inl (safe_error cerr e)
     | None \<Rightarrow> add_rows tz cerr ft (n + 1) at amount cs
         (add_row (b_id c, window_or_zero tz c at) (uint amount) rows))"

definition reserve_budgets :: "zones \<Rightarrow> error option \<Rightarrow> sql_faults \<Rightarrow> budget_config list \<Rightarrow> go_time \<Rightarrow> bytes \<Rightarrow>
    usage_row list \<Rightarrow> error option \<times> usage_row list" where
  "reserve_budgets tz cerr ft cs at amount rows =
     (if cs = [] \<or> amount = 0 \<or> uint amount > max_int64_value then (Some BudgetErrInvalid, rows)
      else case ft 0 of Some e \<Rightarrow> (Some (safe_error cerr e), rows)
      | None \<Rightarrow> (case check_rows tz cerr ft 1 at amount cs rows of Inl e \<Rightarrow> (Some e, rows)
      | Inr (n, rows1) \<Rightarrow> (case add_rows tz cerr ft n at amount cs rows1 of Inl e \<Rightarrow> (Some e, rows)
      | Inr (k, rows2) \<Rightarrow> (case ft k of Some e \<Rightarrow> (Some (safe_error cerr e), rows) | None \<Rightarrow> (None, rows2)))))"

text \<open>The UPDATE of moveBudgetReservation: the rows it changed and the table.\<close>

definition move_row :: "bool \<Rightarrow> usage_key \<Rightarrow> int \<Rightarrow> usage_row list \<Rightarrow> nat \<times> usage_row list" where
  "move_row consuming k amount rows =
     (let hit = (\<lambda>(k', u, r). k' = k \<and> r \<ge> amount \<and> (consuming \<longrightarrow> u \<le> max_int64_value - amount)) in
      (length (filter hit rows),
       map (\<lambda>(k', u, r). if hit (k', u, r) then (k', if consuming then u + amount else u, r - amount)
          else (k', u, r)) rows))"

fun move_rows :: "zones \<Rightarrow> error option \<Rightarrow> sql_faults \<Rightarrow> nat \<Rightarrow> bool \<Rightarrow> go_time \<Rightarrow> bytes \<Rightarrow> budget_config list \<Rightarrow>
    usage_row list \<Rightarrow> error + nat \<times> usage_row list" where
  "move_rows tz cerr ft n consuming at amount [] rows = Inr (n, rows)"
| "move_rows tz cerr ft n consuming at amount (c # cs) rows =
     (case budget_window_start tz c at of Inl e \<Rightarrow> Inl e
      | Inr w \<Rightarrow> (case ft n of Some e \<Rightarrow> Inl (safe_error cerr e)
      | None \<Rightarrow> (case move_row consuming (b_id c, w) (uint amount) rows of
          (changed, rows1) \<Rightarrow> (case ft (n + 1) of Some e \<Rightarrow> Inl (safe_error cerr e)
          | None \<Rightarrow> if changed \<noteq> 1 then Inl StoreErrSchema
              else move_rows tz cerr ft (n + 2) consuming at amount cs rows1))))"

definition move_budget_reservation :: "zones \<Rightarrow> error option \<Rightarrow> sql_faults \<Rightarrow> bool \<Rightarrow> budget_config list \<Rightarrow> go_time \<Rightarrow>
    bytes \<Rightarrow> usage_row list \<Rightarrow> error option \<times> usage_row list" where
  "move_budget_reservation tz cerr ft consuming cs at amount rows =
     (if cs = [] \<or> uint amount > max_int64_value then (Some BudgetErrInvalid, rows)
      else if amount = 0 then (None, rows)
      else case ft 0 of Some e \<Rightarrow> (Some (safe_error cerr e), rows)
      | None \<Rightarrow> (case move_rows tz cerr ft 1 consuming at amount cs rows of Inl e \<Rightarrow> (Some e, rows)
      | Inr (n, rows1) \<Rightarrow> (case ft n of Some e \<Rightarrow> (Some (safe_error cerr e), rows) | None \<Rightarrow> (None, rows1))))"

definition consume_budgets :: "zones \<Rightarrow> error option \<Rightarrow> sql_faults \<Rightarrow> budget_config list \<Rightarrow> go_time \<Rightarrow> bytes \<Rightarrow>
    usage_row list \<Rightarrow> error option \<times> usage_row list" where
  "consume_budgets tz cerr ft = move_budget_reservation tz cerr ft True"

definition release_budgets :: "zones \<Rightarrow> error option \<Rightarrow> sql_faults \<Rightarrow> budget_config list \<Rightarrow> go_time \<Rightarrow> bytes \<Rightarrow>
    usage_row list \<Rightarrow> error option \<times> usage_row list" where
  "release_budgets tz cerr ft = move_budget_reservation tz cerr ft False"

text \<open>RecoverBudgetReservations charges what a crashed process had reserved.\<close>

definition recover_budgets :: "error option \<Rightarrow> sql_faults \<Rightarrow> usage_row list \<Rightarrow> error option \<times> usage_row list" where
  "recover_budgets cerr ft rows =
     (case ft 0 of Some e \<Rightarrow> (Some (safe_error cerr e), rows)
      | None \<Rightarrow>
        let rows1 = map (\<lambda>(k, u, r). if r > 0 \<and> u \<le> max_int64_value - r then (k, u + r, 0) else (k, u, r)) rows in
        (case ft 1 of Some e \<Rightarrow> (Some (safe_error cerr e), rows1)
         | None \<Rightarrow> if filter (\<lambda>(k, u, r). r > 0) rows1 \<noteq> [] then (Some StoreErrSchema, rows1) else (None, rows1)))"

section \<open>The store of a manager\<close>

text \<open>A database with the faults of the calls to come; a call beyond the schedule has none.\<close>

record budget_disk =
  dk_db :: budget_db
  dk_schedule :: "(error option \<times> sql_faults) list"

definition next_call :: "budget_disk \<Rightarrow> error option \<times> sql_faults" where
  "next_call d = (case dk_schedule d of [] \<Rightarrow> (None, \<lambda>k. None) | f # fs \<Rightarrow> f)"

definition after_call :: "budget_disk \<Rightarrow> budget_db \<Rightarrow> budget_disk" where
  "after_call d db = \<lparr>dk_db = db, dk_schedule = tl (dk_schedule d)\<rparr>"

definition on_usage :: "(error option \<Rightarrow> sql_faults \<Rightarrow> usage_row list \<Rightarrow> error option \<times> usage_row list) \<Rightarrow>
    budget_disk \<Rightarrow> error option \<times> budget_disk" where
  "on_usage f d = (case next_call d of (cerr, ft) \<Rightarrow> (case f cerr ft (bd_usage (dk_db d)) of
     (e, rows) \<Rightarrow> (e, after_call d ((dk_db d)\<lparr>bd_usage := rows\<rparr>))))"

definition sqlite_budget_store :: "zones \<Rightarrow> budget_config codec \<Rightarrow> budget_disk budget_store" where
  "sqlite_budget_store tz cd = \<lparr>
     bs_initialize = (\<lambda>cs d. case next_call d of (cerr, ft) \<Rightarrow>
        (case initialize_budgets tz cd cerr ft cs (dk_db d) of (x, db) \<Rightarrow> (x, after_call d db))),
     bs_put = (\<lambda>c expected d. case next_call d of (cerr, ft) \<Rightarrow>
        (case sqlite_put_budget tz cd cerr ft c expected (dk_db d) of (x, db) \<Rightarrow> (x, after_call d db))),
     bs_delete = (\<lambda>i expected d. case next_call d of (cerr, ft) \<Rightarrow>
        (case sqlite_delete_budget tz cd cerr ft i expected (dk_db d) of (x, db) \<Rightarrow> (x, after_call d db))),
     bs_reserve = (\<lambda>cs at n. on_usage (\<lambda>cerr ft. reserve_budgets tz cerr ft cs at n)),
     bs_consume = (\<lambda>cs at n. on_usage (\<lambda>cerr ft. consume_budgets tz cerr ft cs at n)),
     bs_release = (\<lambda>cs at n. on_usage (\<lambda>cerr ft. release_budgets tz cerr ft cs at n)),
     bs_usage = (\<lambda>c at d. case next_call d of (cerr, ft) \<Rightarrow>
        read_budget_usage tz cerr (ft 0) c at (bd_usage (dk_db d))),
     bs_recover = on_usage recover_budgets\<rparr>"

end
