(* ===== verification/Budget_Durable.thy ===== *)
theory Budget_Durable
  imports Sqlite_Budgets
begin

text \<open>What the budget tables keep: a limit is never oversubscribed, whatever the processes, faults and
  restarts, and a manager on the tables answers as the one in memory.\<close>

declare split_paired_All [simp del] split_paired_Ex [simp del]

section \<open>Rows\<close>

definition row_at :: "usage_row list \<Rightarrow> usage_key \<Rightarrow> int \<times> int" where
  "row_at rows k = (case map_of rows k of None \<Rightarrow> (0, 0) | Some p \<Rightarrow> p)"

definition row_load :: "usage_row list \<Rightarrow> usage_key \<Rightarrow> int" where
  "row_load rows k = fst (row_at rows k) + snd (row_at rows k)"

definition rows_ok :: "usage_row list \<Rightarrow> bool" where
  "rows_ok rows = (distinct (map fst rows) \<and>
     (\<forall>k. 0 \<le> fst (row_at rows k) \<and> fst (row_at rows k) \<le> max_int64_value \<and>
        0 \<le> snd (row_at rows k) \<and> snd (row_at rows k) \<le> max_int64_value))"

lemma rows_okD:
  assumes "rows_ok rows"
  shows "distinct (map fst rows)" "0 \<le> fst (row_at rows k)" "fst (row_at rows k) \<le> max_int64_value"
    "0 \<le> snd (row_at rows k)" "snd (row_at rows k) \<le> max_int64_value"
  using assms unfolding rows_ok_def by blast+

lemma row_at_in: "distinct (map fst rows) \<Longrightarrow> (k, u, r) \<in> set rows \<Longrightarrow> row_at rows k = (u, r)"
  by (simp add: row_at_def)

lemma map_of_append_new: "map_of (xs @ [(k, v)]) k' = (case map_of xs k' of None \<Rightarrow> if k' = k then Some v else None | Some y \<Rightarrow> Some y)"
  by (induction xs) auto

lemma row_at_insert [simp]: "row_at (insert_ignore k rows) k' = row_at rows k'"
  by (auto simp: row_at_def insert_ignore_def map_of_append_new simp del: map_of_append split: option.splits if_splits)

lemma insert_ignore_row: "\<exists>p. map_of (insert_ignore k rows) k = Some p"
  by (cases "map_of rows k") (auto simp: insert_ignore_def map_of_append_new simp del: map_of_append)

lemma insert_ignore_keeps: "map_of rows k' = Some p \<Longrightarrow> map_of (insert_ignore k rows) k' = Some p"
  by (simp add: insert_ignore_def map_of_append_new del: map_of_append)

lemma insert_ignore_ok [intro]: "rows_ok rows \<Longrightarrow> rows_ok (insert_ignore k rows)"
  by (auto simp: rows_ok_def) (auto simp: insert_ignore_def map_of_eq_None_iff)

lemma map_of_map_value:
  "map_of (map (\<lambda>(k, u, r). (k, g k u r)) rows) k = map_option (\<lambda>(u, r). g k u r) (map_of rows k)"
  by (induction rows) auto

lemma add_row_eq: "add_row k a rows = map (\<lambda>(k', u, r). (k', (u, if k' = k then r + a else r))) rows"
  unfolding add_row_def by (rule map_cong) auto

lemma map_of_add_row:
  "map_of (add_row k a rows) k' = map_option (\<lambda>(u, r). (u, if k' = k then r + a else r)) (map_of rows k')"
  unfolding add_row_eq by (rule map_of_map_value)

lemma add_row_keys [simp]: "map fst (add_row k a rows) = map fst rows"
  by (simp add: add_row_eq split_beta comp_def)

lemma row_at_add_row:
  "map_of rows k = Some p \<Longrightarrow> row_at (add_row k a rows) k' =
     (if k' = k then (fst (row_at rows k'), snd (row_at rows k') + a) else row_at rows k')"
  by (auto simp: row_at_def map_of_add_row split: option.splits)

definition movable :: "bool \<Rightarrow> int \<Rightarrow> int \<times> int \<Rightarrow> bool" where
  "movable consuming a p = (a \<le> snd p \<and> (consuming \<longrightarrow> fst p \<le> max_int64_value - a))"

definition moved :: "bool \<Rightarrow> int \<Rightarrow> int \<times> int \<Rightarrow> int \<times> int" where
  "moved consuming a p = (if consuming then fst p + a else fst p, snd p - a)"

lemma length_filter_key:
  "distinct (map fst rows) \<Longrightarrow> length (filter (\<lambda>(k', u, r). k' = k \<and> Q u r) rows) =
     (case map_of rows k of None \<Rightarrow> 0 | Some (u, r) \<Rightarrow> if Q u r then 1 else 0)"
proof (induction rows)
  case (Cons x rows)
  obtain k' u r where x: "x = (k', u, r)" by (cases x) auto
  show ?case
  proof (cases "k' = k")
    case True
    then have "map_of rows k = None" using Cons.prems x by (auto simp: map_of_eq_None_iff)
    then show ?thesis using Cons x True by auto
  qed (use Cons x in auto)
qed simp

lemma move_row_eq:
  assumes "distinct (map fst rows)"
  shows "move_row consuming k a rows =
    (case map_of rows k of None \<Rightarrow> 0 | Some p \<Rightarrow> if movable consuming a p then 1 else 0,
     map (\<lambda>(k', u, r). (k', if k' = k \<and> movable consuming a (u, r) then moved consuming a (u, r) else (u, r))) rows)"
proof -
  have "map (\<lambda>(k', u, r). if case (k', u, r) of (k', u, r) \<Rightarrow> k' = k \<and> r \<ge> a \<and> (consuming \<longrightarrow> u \<le> max_int64_value - a)
        then (k', if consuming then u + a else u, r - a) else (k', u, r)) rows =
      map (\<lambda>(k', u, r). (k', if k' = k \<and> movable consuming a (u, r) then moved consuming a (u, r) else (u, r))) rows"
    by (rule map_cong) (auto simp: movable_def moved_def)
  moreover have "length (filter (\<lambda>(k', u, r). k' = k \<and> (r \<ge> a \<and> (consuming \<longrightarrow> u \<le> max_int64_value - a))) rows) =
      (case map_of rows k of None \<Rightarrow> 0 | Some p \<Rightarrow> if movable consuming a p then 1 else 0)"
    unfolding length_filter_key [OF assms, where Q = "\<lambda>u r. r \<ge> a \<and> (consuming \<longrightarrow> u \<le> max_int64_value - a)"]
    by (auto simp: movable_def split: option.splits)
  ultimately show ?thesis by (simp add: move_row_def Let_def)
qed

lemma move_row_one:
  assumes "distinct (map fst rows)" "move_row consuming k a rows = (1, rows')"
  shows "map fst rows' = map fst rows" "movable consuming a (row_at rows k)" "\<exists>p. map_of rows k = Some p"
    "row_at rows' k' = (if k' = k then moved consuming a (row_at rows k) else row_at rows k')"
proof -
  obtain p where p: "map_of rows k = Some p" "movable consuming a p"
    using assms by (auto simp: move_row_eq split: option.splits if_splits)
  then show "movable consuming a (row_at rows k)" "\<exists>p. map_of rows k = Some p" by (simp_all add: row_at_def)
  have r: "rows' = map (\<lambda>(k', u, r). (k', if k' = k \<and> movable consuming a (u, r) then moved consuming a (u, r) else (u, r))) rows"
    using assms by (simp add: move_row_eq)
  then show "map fst rows' = map fst rows" by (simp add: split_beta comp_def)
  show "row_at rows' k' = (if k' = k then moved consuming a (row_at rows k) else row_at rows k')"
    using p unfolding row_at_def r map_of_map_value by (auto split: option.splits)
qed

section \<open>Windows\<close>

definition row_key :: "zones \<Rightarrow> go_time \<Rightarrow> budget_config \<Rightarrow> usage_key" where
  "row_key tz at c = (b_id c, window_or_zero tz c at)"

text \<open>The bytes, used and reserved, that the query of a configuration returns.\<close>

definition row_view :: "zones \<Rightarrow> usage_row list \<Rightarrow> budget_config \<Rightarrow> go_time \<Rightarrow> int \<times> int" where
  "row_view tz rows c at = (if b_window c = ''rolling''
     then (\<Sum>(k, u, r)\<leftarrow>filter (in_window (b_id c) (rolling_cutoff c at) \<circ> fst) rows. u,
           \<Sum>(k, u, r)\<leftarrow>filter (in_window (b_id c) (rolling_cutoff c at) \<circ> fst) rows. r)
     else row_at rows (row_key tz at c))"

lemma window_start_eq:
  "budget_validate tz c = None \<Longrightarrow> at \<noteq> 0 \<Longrightarrow> budget_window_start tz c at = Inr (window_or_zero tz c at)"
  using window_bounds_total [of tz c at] by (auto simp: window_or_zero_def budget_window_start_def)

lemma window_start_valid:
  "budget_window_start tz c at = Inr w \<Longrightarrow> budget_validate tz c = None \<and> at \<noteq> 0 \<and> w = window_or_zero tz c at"
  by (auto simp: window_or_zero_def budget_window_start_def dest: window_bounds_valid split: sum.splits)

lemma row_key_in_window:
  assumes "budget_validate tz c = None" "b_window c = ''rolling''" "at \<noteq> 0"
  shows "in_window (b_id c) (rolling_cutoff c at) (row_key tz at c)"
proof -
  have "truncate_time (at - b_rolling_seconds c * second) minute \<le> truncate_time at minute"
    using validated_rolling [OF assms(1,2)] by (intro truncate_time_mono) (simp add: second_def)
  moreover have "truncate_time 0 minute \<le> unix_epoch"
    by (simp add: truncate_time_def unix_epoch_def minute_def second_def)
  ultimately show ?thesis
    using assms by (auto simp: in_window_def rolling_cutoff_def row_key_def window_or_zero_def
        budget_window_start_def window_bounds_def unix_nano_def)
qed

lemma row_view_insert [simp]: "row_view tz (insert_ignore k rows) c at = row_view tz rows c at"
  by (simp add: row_view_def) (simp add: insert_ignore_def)

definition view_load :: "zones \<Rightarrow> usage_row list \<Rightarrow> budget_config \<Rightarrow> go_time \<Rightarrow> int" where
  "view_load tz rows c at = fst (row_view tz rows c at) + snd (row_view tz rows c at)"

lemma rows_values:
  assumes "rows_ok rows" "(k, u, r) \<in> set rows"
  shows "0 \<le> u" "0 \<le> r"
  using rows_okD(2-5) [OF assms(1), of k] row_at_in [OF rows_okD(1) [OF assms(1)] assms(2)] by simp_all

lemma sum_member_le:
  fixes f :: "'a \<Rightarrow> int"
  shows "\<forall>x\<in>set xs. 0 \<le> f x \<Longrightarrow> y \<in> set xs \<Longrightarrow> f y \<le> sum_list (map f xs)"
proof (induction xs)
  case (Cons x xs)
  then have "0 \<le> sum_list (map f xs)" by (auto intro!: sum_list_nonneg)
  then show ?case using Cons by auto
qed simp

lemma view_nonneg:
  assumes "rows_ok rows"
  shows "0 \<le> fst (row_view tz rows c at)" "0 \<le> snd (row_view tz rows c at)"
  using rows_okD [OF assms] rows_values [OF assms]
  by (auto simp: row_view_def intro!: sum_list_nonneg)

lemma row_le_view:
  assumes "rows_ok rows" "budget_validate tz c = None" "at \<noteq> 0"
  shows "row_load rows (row_key tz at c) \<le> view_load tz rows c at"
proof (cases "b_window c = ''rolling'' \<and> (\<exists>p. map_of rows (row_key tz at c) = Some p)")
  case True
  then obtain u r where m: "(row_key tz at c, u, r) \<in> set rows" by (auto dest: map_of_SomeD)
  let ?W = "filter (in_window (b_id c) (rolling_cutoff c at) \<circ> fst) rows"
  have w: "(row_key tz at c, u, r) \<in> set ?W"
    using m row_key_in_window [OF assms(2) _ assms(3)] True by simp
  have "u \<le> (\<Sum>(k, u, r)\<leftarrow>?W. u)" "r \<le> (\<Sum>(k, u, r)\<leftarrow>?W. r)"
    using sum_member_le [OF _ w, of "\<lambda>(k, u, r). u"] sum_member_le [OF _ w, of "\<lambda>(k, u, r). r"]
      rows_values [OF assms(1)] by fastforce+
  then show ?thesis
    using True row_at_in [OF rows_okD(1) [OF assms(1)] m] by (simp add: row_load_def view_load_def row_view_def)
next
  case False
  then show ?thesis
    using view_nonneg [OF assms(1), of tz c at]
    by (cases "b_window c = ''rolling''")
      (auto simp: row_load_def view_load_def row_view_def row_at_def split: option.splits)
qed

lemma max_int64_nonneg [simp]: "0 \<le> max_int64_value"
  by (simp add: max_int64_value_def)

lemma uint_exact: "0 \<le> i \<Longrightarrow> i \<le> max_int64_value \<Longrightarrow> uint (of_int i :: 64 word) = i"
  by (simp add: max_int64_value_def uint_word_of_int_eq take_bit_int_eq_self)

lemma limit_int: "budget_validate tz c = None \<Longrightarrow> uint (b_limit c) \<le> max_int64_value"
proof -
  assume "budget_validate tz c = None"
  then have "unat (b_limit c) < 2 ^ 63" using validated_limit by blast
  then have "int (unat (b_limit c)) < int (2 ^ 63)" by (simp only: of_nat_less_iff)
  then show ?thesis by (simp add: max_int64_value_def)
qed

lemma read_usage_view:
  assumes "rows_ok rows" "read_budget_usage tz cerr fault c at rows = Inr u"
  shows "budget_validate tz c = None" "at \<noteq> 0" "uint (used u) = fst (row_view tz rows c at)"
    "uint (reserved u) = snd (row_view tz rows c at)"
proof -
  have w: "budget_window_start tz c at = Inr (window_or_zero tz c at)"
    using assms(2) window_start_valid by (fastforce simp: read_budget_usage_def split: sum.splits)
  then show v: "budget_validate tz c = None" "at \<noteq> 0" using window_start_valid by blast+
  have "uint (used u) = fst (row_view tz rows c at) \<and> uint (reserved u) = snd (row_view tz rows c at)"
  proof (cases "b_window c = ''rolling''")
    case True
    then have b: "window_bounds tz c at = Inr (at - b_rolling_seconds c * second, at)"
      using v by (simp add: window_bounds_def)
    show ?thesis
      using assms(2) w b True uint_exact view_nonneg [OF assms(1), of tz c at]
      by (auto simp: read_budget_usage_def sum_rows_def Let_def row_view_def rolling_cutoff_def
          split: option.splits if_splits)
  next
    case False
    then show ?thesis
      using assms(2) w uint_exact rows_okD(2-5) [OF assms(1), of "row_key tz at c"]
      by (auto simp: read_budget_usage_def row_view_def row_key_def row_at_def empty_usage_def
          split: option.splits if_splits)
  qed
  then show "uint (used u) = fst (row_view tz rows c at)" "uint (reserved u) = snd (row_view tz rows c at)"
    by simp_all
qed

lemma read_usage_total:
  assumes "rows_ok rows" "budget_validate tz c = None" "at \<noteq> 0"
    "fst (row_view tz rows c at) \<le> max_int64_value" "snd (row_view tz rows c at) \<le> max_int64_value"
  shows "\<exists>u. read_budget_usage tz cerr None c at rows = Inr u"
proof (cases "b_window c = ''rolling''")
  case True
  then have b: "window_bounds tz c at = Inr (at - b_rolling_seconds c * second, at)"
    using assms(2,3) by (simp add: window_bounds_def)
  then show ?thesis
    using assms(4,5) True window_start_eq [OF assms(2,3)] view_nonneg [OF assms(1), of tz c at]
    by (auto simp: read_budget_usage_def sum_rows_def Let_def row_view_def rolling_cutoff_def)
next
  case False
  then show ?thesis
    using window_start_eq [OF assms(2,3)] rows_okD(2-5) [OF assms(1), of "row_key tz at c"]
    by (auto simp: read_budget_usage_def row_key_def row_at_def split: option.splits)
qed

section \<open>The loops\<close>

lemma check_rows_ok:
  assumes "rows_ok rows"
  shows "check_rows tz cerr ft n at amount cs rows = Inr (n', rows') \<Longrightarrow>
    rows_ok rows' \<and> (\<forall>k. row_at rows' k = row_at rows k) \<and>
    (\<forall>k p. map_of rows k = Some p \<longrightarrow> map_of rows' k = Some p) \<and>
    (\<forall>c\<in>set cs. budget_validate tz c = None \<and> at \<noteq> 0 \<and> (\<exists>p. map_of rows' (row_key tz at c) = Some p) \<and>
       view_load tz rows c at + uint amount \<le> uint (b_limit c))"
  using assms
proof (induction cs arbitrary: n rows)
  case (Cons c cs)
  obtain w where w: "budget_window_start tz c at = Inr w"
    using Cons.prems(1) by (auto split: if_splits sum.splits)
  note wv = window_start_valid [OF w]
  let ?rows1 = "insert_ignore (b_id c, w) rows"
  have ok1: "rows_ok ?rows1" using Cons.prems(2) ..
  obtain u where u: "read_budget_usage tz cerr (ft (n + 1)) c at ?rows1 = Inr u"
      "\<not> (uint (used u) > max_int64_value - uint (reserved u) \<or>
        uint (reserved u) > max_int64_value - uint amount \<or>
        b_hard c \<and> (uint (used u) + uint (reserved u) > uint (b_limit c) \<or>
          uint amount > uint (b_limit c) - uint (used u) - uint (reserved u)))"
      "check_rows tz cerr ft (n + 2) at amount cs ?rows1 = Inr (n', rows')"
    using Cons.prems(1) w by (auto simp: Let_def split: if_splits option.splits sum.splits)
  have "view_load tz rows c at + uint amount \<le> uint (b_limit c)"
    using u(2) validated_hard [of tz c] wv read_usage_view [OF ok1 u(1)] by (simp add: view_load_def)
  moreover have "\<exists>p. map_of rows' (row_key tz at c) = Some p"
    using Cons.IH [OF u(3) ok1] insert_ignore_row [of "(b_id c, w)" rows] wv by (auto simp: row_key_def)
  ultimately show ?case
    using Cons.IH [OF u(3) ok1] wv insert_ignore_keeps by (auto simp: view_load_def)
qed simp

lemma add_rows_ok:
  assumes "distinct (map (row_key tz at) cs)" "\<forall>c\<in>set cs. \<exists>p. map_of rows (row_key tz at c) = Some p"
  shows "add_rows tz cerr ft n at amount cs rows = Inr (n', rows') \<Longrightarrow> map fst rows' = map fst rows \<and>
    (\<forall>k. row_at rows' k = (if k \<in> row_key tz at ` set cs
       then (fst (row_at rows k), snd (row_at rows k) + uint amount) else row_at rows k))"
  using assms
proof (induction cs arbitrary: n rows)
  case (Cons c cs)
  let ?rows1 = "add_row (row_key tz at c) (uint amount) rows"
  have a: "add_rows tz cerr ft (n + 1) at amount cs ?rows1 = Inr (n', rows')"
    using Cons.prems(1) by (auto simp: row_key_def split: option.splits)
  obtain p where p: "map_of rows (row_key tz at c) = Some p" using Cons.prems(3) by auto
  have "\<forall>d\<in>set cs. \<exists>q. map_of ?rows1 (row_key tz at d) = Some q"
    using Cons.prems(3) by (auto simp: map_of_add_row)
  note IH = Cons.IH [OF a _ this]
  show ?case
    using IH Cons.prems(2) row_at_add_row [OF p, of "uint amount"] by auto
qed simp

lemma reserve_budgets_ok:
  assumes "rows_ok rows" "distinct (map b_id cs)" "reserve_budgets tz cerr ft cs at amount rows = (None, rows')"
  shows "cs \<noteq> []" "amount \<noteq> 0" "at \<noteq> 0" "rows_ok rows'"
    "\<And>c. c \<in> set cs \<Longrightarrow> budget_validate tz c = None"
    "\<And>c. c \<in> set cs \<Longrightarrow> view_load tz rows c at + uint amount \<le> uint (b_limit c)"
    "row_at rows' k = (if k \<in> row_key tz at ` set cs
       then (fst (row_at rows k), snd (row_at rows k) + uint amount) else row_at rows k)"
proof -
  obtain n rows1 m where c: "check_rows tz cerr ft 1 at amount cs rows = Inr (n, rows1)"
      "add_rows tz cerr ft n at amount cs rows1 = Inr (m, rows')" "cs \<noteq> []" "amount \<noteq> 0"
    using assms(3) by (auto simp: reserve_budgets_def split: if_splits option.splits sum.splits)
  note k = check_rows_ok [OF assms(1) c(1)]
  have d: "distinct (map (row_key tz at) cs)"
    using assms(2) by (auto simp: distinct_map inj_on_def row_key_def)
  have "\<forall>c\<in>set cs. \<exists>p. map_of rows1 (row_key tz at c) = Some p" using k by blast
  note a = add_rows_ok [OF d this c(2)]
  show "cs \<noteq> []" "amount \<noteq> 0" by fact+
  show at: "at \<noteq> 0" using k c(3) by (cases cs) auto
  show v: "budget_validate tz c = None" "view_load tz rows c at + uint amount \<le> uint (b_limit c)"
    if "c \<in> set cs" for c using k that by auto
  have r: "row_at rows' k = (if k \<in> row_key tz at ` set cs
       then (fst (row_at rows k), snd (row_at rows k) + uint amount) else row_at rows k)" for k
    using a [THEN conjunct2, rule_format, of k] k by simp
  then show "row_at rows' k = (if k \<in> row_key tz at ` set cs
       then (fst (row_at rows k), snd (row_at rows k) + uint amount) else row_at rows k)" .
  have "snd (row_at rows (row_key tz at c)) + uint amount \<le> max_int64_value" if "c \<in> set cs" for c
  proof -
    have "row_load rows (row_key tz at c) + uint amount \<le> uint (b_limit c)"
      using row_le_view [OF assms(1) v(1) [OF that] at] v(2) [OF that] by simp
    moreover have "uint (b_limit c) \<le> max_int64_value"
      by (rule limit_int) (rule v(1) [OF that])
    ultimately show ?thesis using rows_okD(2) [OF assms(1), of "row_key tz at c"] by (simp add: row_load_def)
  qed
  then have "snd (row_at rows k) + uint amount \<le> max_int64_value" if "k \<in> row_key tz at ` set cs" for k
    using that by blast
  then have "0 \<le> fst (row_at rows' k) \<and> fst (row_at rows' k) \<le> max_int64_value \<and>
      0 \<le> snd (row_at rows' k) \<and> snd (row_at rows' k) \<le> max_int64_value" for k
    unfolding r [of k] using rows_okD(2-5) [OF assms(1), of k] by simp
  moreover have "map fst rows' = map fst rows1" using a by blast
  moreover have "distinct (map fst rows1)" using k by (simp add: rows_ok_def)
  ultimately show "rows_ok rows'" by (simp add: rows_ok_def)
qed

lemma move_rows_exact:
  assumes "rows_ok rows" "distinct (map b_id cs)"
  shows "move_rows tz cerr ft n consuming at amount cs rows = Inr (n', rows') \<Longrightarrow> rows_ok rows' \<and>
    (\<forall>k. row_at rows' k = (if k \<in> row_key tz at ` set cs then moved consuming (uint amount) (row_at rows k)
       else row_at rows k)) \<and>
    (\<forall>c\<in>set cs. movable consuming (uint amount) (row_at rows (row_key tz at c)))"
  using assms
proof (induction cs arbitrary: n rows)
  case (Cons c cs)
  let ?k = "row_key tz at c"
  obtain rows1 where m: "move_row consuming ?k (uint amount) rows = (1, rows1)"
      "move_rows tz cerr ft (n + 2) consuming at amount cs rows1 = Inr (n', rows')"
    using Cons.prems(1) by (fastforce simp: row_key_def dest: window_start_valid split: sum.splits option.splits
        prod.splits if_splits)
  note o = move_row_one [OF rows_okD(1) [OF Cons.prems(2)] m(1)]
  have r: "row_at rows1 k' = (if k' = ?k then moved consuming (uint amount) (row_at rows ?k) else row_at rows k')" for k'
    by (rule o(4))
  have "0 \<le> fst (row_at rows1 k) \<and> fst (row_at rows1 k) \<le> max_int64_value \<and>
      0 \<le> snd (row_at rows1 k) \<and> snd (row_at rows1 k) \<le> max_int64_value" for k
    using r [of k] o(2) rows_okD(2-5) [OF Cons.prems(2), of k] rows_okD(2-5) [OF Cons.prems(2), of ?k]
    by (cases "k = ?k"; cases consuming)
      (simp_all add: moved_def movable_def, (use uint_ge_0 [of amount] in linarith)+)
  then have "rows_ok rows1"
    using o(1) rows_okD(1) [OF Cons.prems(2)] by (simp add: rows_ok_def)
  moreover have nk: "\<forall>d\<in>set cs. row_key tz at d \<noteq> ?k" using Cons.prems(3)
    by (simp add: row_key_def) (metis image_eqI)
  ultimately have IH: "rows_ok rows' \<and>
      (\<forall>k. row_at rows' k = (if k \<in> row_key tz at ` set cs then moved consuming (uint amount) (row_at rows1 k)
         else row_at rows1 k)) \<and>
      (\<forall>d\<in>set cs. movable consuming (uint amount) (row_at rows1 (row_key tz at d)))"
    using Cons.IH [OF m(2)] Cons.prems(3) by simp
  then have "\<forall>d\<in>set cs. movable consuming (uint amount) (row_at rows (row_key tz at d))"
    using nk unfolding r by simp
  moreover have "row_at rows' k = (if k \<in> row_key tz at ` set (c # cs)
      then moved consuming (uint amount) (row_at rows k) else row_at rows k)" for k
    using IH nk r [of k] by (cases "k = ?k") (auto simp: image_iff)
  ultimately show ?case using IH o(2) by simp
qed simp

lemma move_budget_ok:
  assumes "rows_ok rows" "distinct (map b_id cs)"
    "move_budget_reservation tz cerr ft consuming cs at amount rows = (None, rows')"
  shows "rows_ok rows'" "amount \<noteq> 0 \<Longrightarrow> \<forall>c\<in>set cs. movable consuming (uint amount) (row_at rows (row_key tz at c))"
    "row_at rows' k = (if k \<in> row_key tz at ` set cs then moved consuming (uint amount) (row_at rows k) else row_at rows k)"
proof -
  have m: "(amount = 0 \<and> rows' = rows) \<or> (\<exists>n k. move_rows tz cerr ft 1 consuming at amount cs rows = Inr (n, rows'))"
    using assms(3) by (auto simp: move_budget_reservation_def split: if_splits option.splits sum.splits)
  then show "rows_ok rows'" using assms(1) move_rows_exact [OF assms(1,2)] by auto
  show "row_at rows' k = (if k \<in> row_key tz at ` set cs then moved consuming (uint amount) (row_at rows k) else row_at rows k)"
    using m move_rows_exact [OF assms(1,2)] by (auto simp: moved_def)
  show "amount \<noteq> 0 \<Longrightarrow> \<forall>c\<in>set cs. movable consuming (uint amount) (row_at rows (row_key tz at c))"
    using m move_rows_exact [OF assms(1,2)] by auto
qed

lemma move_budget_failed:
  "move_budget_reservation tz cerr ft consuming cs at amount rows = (Some e, rows') \<Longrightarrow> rows' = rows"
  by (auto simp: move_budget_reservation_def split: if_splits option.splits sum.splits)

lemma reserve_budgets_failed:
  "reserve_budgets tz cerr ft cs at amount rows = (Some e, rows') \<Longrightarrow> rows' = rows"
  by (auto simp: reserve_budgets_def split: if_splits option.splits sum.splits)

definition recovered :: "int \<times> int \<Rightarrow> int \<times> int" where
  "recovered p = (if snd p > 0 \<and> fst p \<le> max_int64_value - snd p then (fst p + snd p, 0) else p)"

lemma recover_rows:
  assumes "recover_budgets cerr ft rows = (e, rows')" "ft 0 = None"
  shows "map fst rows' = map fst rows" "row_at rows' k = recovered (row_at rows k)"
    "ft 1 = None \<Longrightarrow> e = (if filter (\<lambda>(k, u, r). r > 0) rows' \<noteq> [] then Some StoreErrSchema else None)"
proof -
  have "(\<lambda>(k, u, r). if r > 0 \<and> u \<le> max_int64_value - r then (k, u + r, 0) else (k, u, r)) =
      (\<lambda>(k :: usage_key, u, r). (k, recovered (u, r)))"
    by (auto simp: recovered_def)
  then have r: "rows' = map (\<lambda>(k, u, r). (k, recovered (u, r))) rows"
    using assms by (auto simp: recover_budgets_def Let_def split: option.splits if_splits)
  then show "map fst rows' = map fst rows" by (simp add: split_beta comp_def)
  show "row_at rows' k = recovered (row_at rows k)"
    unfolding r row_at_def map_of_map_value by (auto simp: recovered_def split: option.splits)
  show "ft 1 = None \<Longrightarrow> e = (if filter (\<lambda>(k, u, r). r > 0) rows' \<noteq> [] then Some StoreErrSchema else None)"
    using assms by (auto simp: recover_budgets_def Let_def split: if_splits)
qed

lemma recover_ok:
  assumes "rows_ok rows" "recover_budgets cerr ft rows = (e, rows')"
  shows "rows_ok rows'" "row_load rows' k = row_load rows k"
proof -
  have "rows_ok rows' \<and> row_load rows' k = row_load rows k"
  proof (cases "ft 0")
    case None
    note r = recover_rows [OF assms(2) None]
    have "0 \<le> fst (recovered (row_at rows k)) \<and> fst (recovered (row_at rows k)) \<le> max_int64_value \<and>
        0 \<le> snd (recovered (row_at rows k)) \<and> snd (recovered (row_at rows k)) \<le> max_int64_value" for k
      using rows_okD(2-5) [OF assms(1), of k] by (auto simp: recovered_def)
    then show ?thesis
      using rows_okD(1) [OF assms(1)] r by (auto simp: rows_ok_def row_load_def recovered_def)
  next
    case (Some x)
    then have "rows' = rows" using assms(2) by (simp add: recover_budgets_def)
    then show ?thesis using assms(1) by simp
  qed
  then show "rows_ok rows'" "row_load rows' k = row_load rows k" by simp_all
qed

section \<open>Limits across processes, faults and restarts\<close>

text \<open>The transactions of any number of managers whose configurations do not change, with any clock,
  any faults, and recoveries after crashes.\<close>

inductive durable_run :: "zones \<Rightarrow> (go_id \<Rightarrow> budget_config) \<Rightarrow> usage_row list \<Rightarrow> bool" for tz conf where
  fresh: "durable_run tz conf []"
| reserved: "durable_run tz conf rows \<Longrightarrow> distinct is \<Longrightarrow> \<forall>i\<in>set is. b_id (conf i) = i \<Longrightarrow>
    reserve_budgets tz cerr ft (map conf is) at n rows = (e, rows') \<Longrightarrow> durable_run tz conf rows'"
| consumed: "durable_run tz conf rows \<Longrightarrow> distinct is \<Longrightarrow> \<forall>i\<in>set is. b_id (conf i) = i \<Longrightarrow>
    consume_budgets tz cerr ft (map conf is) at n rows = (e, rows') \<Longrightarrow> durable_run tz conf rows'"
| released: "durable_run tz conf rows \<Longrightarrow> distinct is \<Longrightarrow> \<forall>i\<in>set is. b_id (conf i) = i \<Longrightarrow>
    release_budgets tz cerr ft (map conf is) at n rows = (e, rows') \<Longrightarrow> durable_run tz conf rows'"
| restarted: "durable_run tz conf rows \<Longrightarrow> recover_budgets cerr ft rows = (e, rows') \<Longrightarrow> durable_run tz conf rows'"

definition rows_within :: "(go_id \<Rightarrow> budget_config) \<Rightarrow> usage_row list \<Rightarrow> bool" where
  "rows_within conf rows = (rows_ok rows \<and> (\<forall>k. row_load rows k \<le> uint (b_limit (conf (fst k)))) \<and>
     (\<forall>k. row_load rows k \<le> max_int64_value))"

lemma config_ids: "\<forall>i\<in>set is. b_id (conf i) = i \<Longrightarrow> map b_id (map conf is) = is"
  by (induction "is") auto

lemma moved_within:
  assumes w: "rows_within conf rows" and d: "distinct is" "\<forall>i\<in>set is. b_id (conf i) = i"
    and m: "move_budget_reservation tz cerr ft consuming (map conf is) at n rows = (e, rows')"
  shows "rows_within conf rows'"
proof (cases e)
  case None
  have d: "distinct (map b_id (map conf is))" using d config_ids by metis
  note o = move_budget_ok [OF _ d m [unfolded None]]
  have "row_load rows' k \<le> row_load rows k" for k
    using o(3) w by (auto simp: row_load_def moved_def rows_within_def)
  then show ?thesis using w o(1) unfolding rows_within_def by (meson order_trans)
next
  case (Some x)
  then show ?thesis using w move_budget_failed m by blast
qed

lemma durable_run_within: "durable_run tz conf rows \<Longrightarrow> rows_within conf rows"
proof (induction rule: durable_run.induct)
  case fresh
  show ?case by (simp add: rows_within_def rows_ok_def row_load_def row_at_def max_int64_value_def)
next
  case (reserved rows "is" cerr ft at n e rows')
  show ?case
  proof (cases e)
    case None
    have ok: "rows_ok rows" using reserved.IH by (simp add: rows_within_def)
    have d: "distinct (map b_id (map conf is))" using reserved.hyps(2,3) config_ids by metis
    note r = reserve_budgets_ok [OF ok d reserved.hyps(4) [unfolded None]]
    have "row_load rows' k \<le> uint (b_limit (conf (fst k))) \<and> row_load rows' k \<le> max_int64_value" for k
    proof (cases "k \<in> row_key tz at ` set (map conf is)")
      case True
      then obtain i where i: "i \<in> set is" "k = row_key tz at (conf i)" by auto
      then have c: "conf i \<in> set (map conf is)" "fst k = i" using reserved.hyps(3) by (auto simp: row_key_def)
      have "row_load rows' k = row_load rows k + uint n" using r(7) [of k] True by (simp add: row_load_def)
      also have "\<dots> \<le> uint (b_limit (conf i))"
        using row_le_view [OF ok r(5) [OF c(1)] r(3)] r(6) [OF c(1)] i(2) by simp
      finally show ?thesis using c limit_int [OF r(5) [OF c(1)]] by simp
    next
      case False
      then show ?thesis using r(7) [of k] reserved.IH by (simp add: row_load_def rows_within_def)
    qed
    then show ?thesis using r(4) by (simp add: rows_within_def)
  next
    case (Some x)
    then show ?thesis using reserved.IH reserved.hyps(4) reserve_budgets_failed by blast
  qed
next
  case (consumed rows "is" cerr ft at n e rows')
  show ?case by (rule moved_within [OF consumed.IH consumed.hyps(2,3) consumed.hyps(4) [unfolded consume_budgets_def]])
next
  case (released rows "is" cerr ft at n e rows')
  show ?case by (rule moved_within [OF released.IH released.hyps(2,3) released.hyps(4) [unfolded release_budgets_def]])
next
  case (restarted rows cerr ft e rows')
  then have "rows_ok rows" by (simp add: rows_within_def)
  note r = recover_ok [OF this restarted.hyps(2)]
  then have "row_load rows' = row_load rows" by (intro ext)
  then show ?case using r(1) restarted.IH by (simp add: rows_within_def)
qed


end
