(* ===== verification/Budget_Mirror.thy ===== *)
theory Budget_Mirror
  imports Budget_Durable
begin

text \<open>A manager on the SQLite tables answers every sequence of reservations, consumptions and closes as
  the manager in memory does.\<close>

section \<open>The relation\<close>

definition mirrored :: "(usage_key \<times> usage) list \<Rightarrow> usage_row list \<Rightarrow> bool" where
  "mirrored us rows = (rows_ok rows \<and>
     (\<forall>k. row_at rows k = (uint (used (get_usage us k)), uint (reserved (get_usage us k)))))"

definition mirrors :: "'s budget_manager \<Rightarrow> budget_disk budget_manager \<Rightarrow> bool" where
  "mirrors m md = (\<exists>d. bm_store md = Some d \<and> dk_schedule d = [] \<and> bm_store m = None \<and>
     map_of (bm_configs md) = map_of (bm_configs m) \<and> bm_max_reservation md = bm_max_reservation m \<and>
     mirrored (bm_usage m) (bd_usage (dk_db d)))"

lemma row_load_mirrored: "mirrored us rows \<Longrightarrow> row_load rows k = int (load us k)"
  by (simp add: mirrored_def row_load_def load_def)

text \<open>After 1970 no rolling window starts at Go's zero time, and both keep a window under the same key.\<close>

lemma row_key_eq:
  assumes "budget_validate tz c = None" "unix_epoch \<le> at"
  shows "row_key tz at c = key_or_zero tz at c"
proof -
  have "b_rolling_seconds c * second < unix_epoch" if "b_window c = ''rolling''"
    using assms(1) that
    by (auto simp: budget_validate_def window_of_def max_rolling_secs_def second_def unix_epoch_def split: if_splits)
  moreover have "at \<noteq> 0" using assms(2) by (auto simp: unix_epoch_def)
  ultimately show ?thesis
    using assms window_bounds_total [OF assms(1), of at]
    by (auto simp: row_key_def window_or_zero_def key_or_zero_def budget_window_start_def budget_usage_key_def
        window_bounds_def)
qed

lemma row_load_absent: "k \<notin> fst ` set rows \<Longrightarrow> row_load rows k = 0"
  by (simp add: row_load_def row_at_def map_of_eq_None_iff [THEN iffD2])

lemma sum_rows_keys:
  assumes "distinct (map fst rows)"
  shows "(\<Sum>(k, u, r)\<leftarrow>filter (P \<circ> fst) rows. u) + (\<Sum>(k, u, r)\<leftarrow>filter (P \<circ> fst) rows. r) =
    (\<Sum>k\<in>{k \<in> fst ` set rows. P k}. row_load rows k)"
proof -
  have g: "u + r = row_load rows k" if "(k, u, r) \<in> set rows" for k u r
    using row_at_in [OF assms that] by (simp add: row_load_def)
  have "(\<Sum>(k, u, r)\<leftarrow>xs. u) + (\<Sum>(k, u, r)\<leftarrow>xs. r) = (\<Sum>(k, u, r)\<leftarrow>xs. u + r)" for xs :: "usage_row list"
    by (induction xs) auto
  moreover have "map (\<lambda>(k, u, r). u + r) (filter (P \<circ> fst) rows) =
      map (row_load rows) (map fst (filter (P \<circ> fst) rows))"
    using g by (auto simp: split_beta)
  moreover have "distinct (map fst (filter (P \<circ> fst) rows))"
    using assms by (rule distinct_map_filter)
  moreover have "set (map fst (filter (P \<circ> fst) rows)) = {k \<in> fst ` set rows. P k}" by auto
  ultimately show ?thesis
    using sum_list_distinct_conv_sum_set [of "map fst (filter (P \<circ> fst) rows)" "row_load rows"] by (simp only:)
qed

lemma view_load_mirrored:
  assumes "mirrored us rows" "budget_validate tz c = None" "unix_epoch \<le> at"
  shows "view_load tz rows c at = int (view tz us c at)"
proof (cases "b_window c = ''rolling''")
  case True
  let ?P = "in_window (b_id c) (rolling_cutoff c at)"
  let ?K = "fst ` set us \<union> fst ` set rows"
  have "view_load tz rows c at = (\<Sum>k\<in>{k \<in> fst ` set rows. ?P k}. row_load rows k)"
    using True sum_rows_keys [OF rows_okD(1), of rows ?P] assms(1)
    by (simp add: view_load_def row_view_def mirrored_def)
  also have "\<dots> = (\<Sum>k\<in>{k \<in> ?K. ?P k}. row_load rows k)"
  proof (rule sum.mono_neutral_left)
    show "\<forall>k\<in>{k \<in> ?K. ?P k} - {k \<in> fst ` set rows. ?P k}. row_load rows k = 0"
      by (intro ballI row_load_absent) blast
  qed auto
  also have "\<dots> = (\<Sum>k\<in>{k \<in> ?K. ?P k}. int (load us k))" using row_load_mirrored [OF assms(1)] by simp
  also have "\<dots> = int (view tz us c at)"
    using view_superset [of ?K us c tz at] True by simp
  finally show ?thesis .
next
  case False
  then show ?thesis
    using row_key_eq [OF assms(2,3)] row_load_mirrored [OF assms(1)]
    by (simp add: view_load_def row_view_def row_load_def view_def)
qed

section \<open>Reservations\<close>

lemma check_rows_total:
  assumes "rows_ok rows" "at \<noteq> 0"
  shows "\<forall>c\<in>set cs. budget_validate tz c = None \<and> view_load tz rows c at + uint amount \<le> uint (b_limit c) \<Longrightarrow>
    \<exists>n' rows'. check_rows tz cerr (\<lambda>k. None) n at amount cs rows = Inr (n', rows')"
  using assms(1)
proof (induction cs arbitrary: n rows)
  case (Cons c cs)
  have v: "budget_validate tz c = None" "view_load tz rows c at + uint amount \<le> uint (b_limit c)"
    using Cons.prems(1) by simp_all
  let ?rows1 = "insert_ignore (b_id c, window_or_zero tz c at) rows"
  have ok1: "rows_ok ?rows1" using Cons.prems(2) ..
  have b: "fst (row_view tz rows c at) + snd (row_view tz rows c at) + uint amount \<le> uint (b_limit c)"
      "0 \<le> fst (row_view tz rows c at)" "0 \<le> snd (row_view tz rows c at)" "uint (b_limit c) \<le> max_int64_value"
    using v view_nonneg [OF Cons.prems(2), of tz c at] limit_int [OF v(1)] by (simp_all add: view_load_def)
  then have "fst (row_view tz ?rows1 c at) \<le> max_int64_value" "snd (row_view tz ?rows1 c at) \<le> max_int64_value"
    unfolding row_view_insert using uint_ge_0 [of amount] by linarith+
  then obtain u where u: "read_budget_usage tz cerr None c at ?rows1 = Inr u"
    using read_usage_total [OF ok1 v(1) assms(2)] by blast
  note ru = read_usage_view [OF ok1 u]
  have "\<not> (uint (used u) > max_int64_value - uint (reserved u) \<or>
        uint (reserved u) > max_int64_value - uint amount \<or>
        b_hard c \<and> (uint (used u) + uint (reserved u) > uint (b_limit c) \<or>
          uint amount > uint (b_limit c) - uint (used u) - uint (reserved u)))"
    using b ru(3,4) uint_ge_0 [of amount] unfolding row_view_insert
    by (intro notI, elim disjE conjE) linarith+
  moreover have "\<exists>n' rows'. check_rows tz cerr (\<lambda>k. None) (n + 2) at amount cs ?rows1 = Inr (n', rows')"
    using Cons.IH [OF _ ok1] Cons.prems(1) by (simp add: view_load_def)
  ultimately show ?case
    using u v(1) window_start_eq [OF v(1) assms(2)] b(4) by (simp add: Let_def)
qed simp

lemma add_rows_total: "\<exists>n' rows'. add_rows tz cerr (\<lambda>k. None) n at amount cs rows = Inr (n', rows')"
  by (induction cs arbitrary: n rows) auto

lemma reserve_budgets_total:
  assumes "rows_ok rows" "at \<noteq> 0" "cs \<noteq> []" "amount \<noteq> 0" "uint amount \<le> max_int64_value"
    "\<forall>c\<in>set cs. budget_validate tz c = None \<and> view_load tz rows c at + uint amount \<le> uint (b_limit c)"
  shows "\<exists>rows'. reserve_budgets tz cerr (\<lambda>k. None) cs at amount rows = (None, rows')"
proof -
  obtain n rows1 where c: "check_rows tz cerr (\<lambda>k. None) 1 at amount cs rows = Inr (n, rows1)"
    using check_rows_total [OF assms(1,2,6)] by blast
  obtain k rows2 where "add_rows tz cerr (\<lambda>k. None) n at amount cs rows1 = Inr (k, rows2)"
    using add_rows_total by blast
  then show ?thesis using c assms by (simp add: reserve_budgets_def)
qed

lemma durable_check:
  assumes "bm_store md = Some d"
  shows "reserve_check env md at n seen is = Inr cs \<longleftrightarrow>
    distinct is \<and> set is \<inter> set seen = {} \<and> map Some cs = map (map_of (bm_configs md)) is"
proof (induction "is" arbitrary: seen cs)
  case (Cons i "is")
  show ?case
  proof (cases "map_of (bm_configs md) i")
    case None
    then show ?thesis by (auto simp: map_eq_Cons_conv)
  next
    case (Some c)
    have "reserve_check env md at n seen (i # is) = Inr cs \<longleftrightarrow> i \<notin> set seen \<and>
        (\<exists>cs'. cs = c # cs' \<and> reserve_check env md at n (i # seen) is = Inr cs')"
      using assms Some by (auto split: sum.splits)
    then show ?thesis using Some by (auto simp: Cons.IH map_eq_Cons_conv Cons_eq_map_conv)
  qed
qed (auto)

lemma ids_configs:
  assumes "map b_id cs = is" "\<forall>c\<in>set cs. map_of t (b_id c) = Some c"
  shows "map Some cs = map (map_of t) is"
  unfolding assms(1) [symmetric] using assms(2) by simp

definition on_disk :: "'s budget_env \<Rightarrow> budget_disk budget_env \<Rightarrow> budget_config codec \<Rightarrow> bool" where
  "on_disk env envd cd = (be_zones envd = be_zones env \<and> be_store envd = sqlite_budget_store (be_zones env) cd)"

lemma on_usage_ok:
  assumes "dk_schedule d = []" "f None (\<lambda>k. None) (bd_usage (dk_db d)) = (e, rows)"
  shows "on_usage f d = (e, d\<lparr>dk_db := (dk_db d)\<lparr>bd_usage := rows\<rparr>\<rparr>)"
  using assms by (simp add: on_usage_def next_call_def after_call_def)

lemma mirrorsI:
  assumes "mirrors m md" "bm_store md = Some d" "mirrored us' rows'" "dk_schedule d = []"
  shows "mirrors (m\<lparr>bm_usage := us'\<rparr>) (md\<lparr>bm_store := Some (d\<lparr>dk_db := (dk_db d)\<lparr>bd_usage := rows'\<rparr>\<rparr>)\<rparr>)"
  using assms by (auto simp: mirrors_def)

definition leases_ok :: "zones \<Rightarrow> lease list \<Rightarrow> bool" where
  "leases_ok tz ls = (\<forall>l\<in>set ls. l_configs l \<noteq> [] \<and> distinct (map b_id (l_configs l)) \<and>
     (\<forall>c\<in>set (l_configs l). budget_validate tz c = None) \<and> unix_epoch \<le> l_at l)"

lemma keys_eq:
  assumes "\<forall>c\<in>set (l_configs l). budget_validate tz c = None" "unix_epoch \<le> l_at l"
  shows "set (lease_keys tz l) = row_key tz (l_at l) ` set (l_configs l)"
proof -
  have "row_key tz (l_at l) c = key_or_zero tz (l_at l) c" if "c \<in> set (l_configs l)" for c
    using row_key_eq assms that by blast
  then show ?thesis by (auto simp: lease_keys_def image_iff)
qed

lemma mirror_granted:
  assumes ok: "ledger_ok env \<lparr>sys_manager = m, sys_leases = ls\<rparr>" and mi: "mirrors m md"
    and dk: "on_disk env envd cd" and max: "bm_max_reservation m \<le> 2 ^ 40" and at: "unix_epoch \<le> at"
    and r: "reserve env None at is n m = (Inr l, m')"
  shows "\<exists>md'. reserve envd None at is n md = (Inr l, md') \<and> mirrors m' md' \<and> leases_ok (be_zones env) [l]"
proof -
  let ?tz = "be_zones env"
  note D = ledger_okD [OF ok, simplified]
  obtain d where d: "bm_store md = Some d" "dk_schedule d = []" "map_of (bm_configs md) = map_of (bm_configs m)"
      "bm_max_reservation md = bm_max_reservation m" "mirrored (bm_usage m) (bd_usage (dk_db d))"
    using mi by (auto simp: mirrors_def)
  obtain cs where cs: "l = \<lparr>l_configs = cs, l_at = at, l_remaining = n, l_closed = False\<rparr>"
    "m' = m\<lparr>bm_usage := touch_usage (add_reserved n) (lease_keys ?tz l) (bm_usage m)\<rparr>"
    "distinct (lease_keys ?tz l)" "map b_id cs = is"
    "\<And>c. c \<in> set cs \<Longrightarrow> map_of (bm_configs m) (b_id c) = Some c"
    "\<And>c. c \<in> set cs \<Longrightarrow> budget_validate ?tz c = None" "is \<noteq> [] \<Longrightarrow> at \<noteq> 0"
    "\<And>c. c \<in> set cs \<Longrightarrow> view ?tz (bm_usage m) c at + unat n \<le> unat (b_limit c)"
    "is \<noteq> []" "n \<noteq> 0" "n \<le> bm_max_reservation m"
    by (rule reserve_ok [OF r D(1-3)]) blast
  have dis: "distinct is"
    using r D(1) reserve_check_admits [OF D(1-3)] by (auto simp: reserve_def Let_def split: if_splits sum.splits)
  have chk: "reserve_check envd md at n [] is = Inr cs"
    unfolding durable_check [OF d(1)] using dis ids_configs [OF cs(4)] cs(5) d(3) by simp
  have "n \<le> 2 ^ 40" using cs(11) max by simp
  then have nm: "uint n \<le> max_int64_value"
    using word_le_def [of n "2 ^ 40"] by (simp add: max_int64_value_def)
  have ok_rows: "rows_ok (bd_usage (dk_db d))" using d(5) by (simp add: mirrored_def)
  have vw: "view_load ?tz (bd_usage (dk_db d)) c at + uint n \<le> uint (b_limit c)" if "c \<in> set cs" for c
  proof -
    have "int (view ?tz (bm_usage m) c at + unat n) \<le> int (unat (b_limit c))" using cs(8) [OF that] by (simp only: of_nat_le_iff)
    then show ?thesis using view_load_mirrored [OF d(5) cs(6) [OF that] at] by simp
  qed
  have ne: "cs \<noteq> []" using cs(4,9) by auto
  obtain rows' where rows': "reserve_budgets ?tz None (\<lambda>k. None) cs at n (bd_usage (dk_db d)) = (None, rows')"
    using reserve_budgets_total [OF ok_rows cs(7) [OF cs(9)] ne cs(10) nm] vw cs(6) by blast
  have dcs: "distinct (map b_id cs)" using dis cs(4) by simp
  note rb = reserve_budgets_ok [OF ok_rows dcs rows']
  have keys: "set (lease_keys ?tz l) = row_key ?tz at ` set cs"
    using keys_eq [of l ?tz] cs(1,6) at by simp
  have "mirrored (touch_usage (add_reserved n) (lease_keys ?tz l) (bm_usage m)) rows'"
  proof -
    have "row_at rows' k = (uint (used (get_usage (bm_usage m') k)), uint (reserved (get_usage (bm_usage m') k)))" for k
    proof -
      have g: "get_usage (bm_usage m') k = (if k \<in> set (lease_keys ?tz l) then add_reserved n (get_usage (bm_usage m) k)
          else get_usage (bm_usage m) k)"
        using cs(2,3) by (simp add: get_usage_touch)
      have "int (unat (reserved (get_usage (bm_usage m') k))) = int (unat (reserved (get_usage (bm_usage m) k)) +
          (if k \<in> set (lease_keys ?tz l) then unat n else 0))"
        using reserve_load(2) [OF r D(1-3), of k] by (simp only:)
      then show ?thesis
        using rb(7) [of k] d(5) g keys by (simp add: mirrored_def add_reserved_def split: if_splits)
    qed
    then show ?thesis using rb(4) cs(2) by (simp add: mirrored_def)
  qed
  note mi' = mirrorsI [OF mi d(1) this d(2)]
  have "reserve envd None at is n md = (Inr l, md\<lparr>bm_store := Some (d\<lparr>dk_db := (dk_db d)\<lparr>bd_usage := rows'\<rparr>\<rparr>)\<rparr>)"
    using cs(1,9-11) d(1,4) chk dk on_usage_ok [OF d(2), where f = "\<lambda>cerr ft. reserve_budgets ?tz cerr ft cs at n", OF rows']
    by (simp add: reserve_def on_disk_def sqlite_budget_store_def Let_def)
  moreover have "leases_ok ?tz [l]" using cs(1,6) ne dcs at by (simp add: leases_ok_def)
  ultimately show ?thesis using mi' cs(2) by auto
qed

lemma mirror_refused:
  assumes ok: "ledger_ok env \<lparr>sys_manager = m, sys_leases = ls\<rparr>" and mi: "mirrors m md"
    and dk: "on_disk env envd cd" and at: "unix_epoch \<le> at" and r: "reserve env None at is n m = (Inl e, m')"
  shows "\<exists>e' md'. reserve envd None at is n md = (Inl e', md') \<and> mirrors m' md'"
proof -
  let ?tz = "be_zones env"
  note D = ledger_okD [OF ok, simplified]
  have m': "m' = m" using reserve_refused [OF r D(1)] .
  obtain d where d: "bm_store md = Some d" "dk_schedule d = []" "map_of (bm_configs md) = map_of (bm_configs m)"
      "bm_max_reservation md = bm_max_reservation m" "mirrored (bm_usage m) (bd_usage (dk_db d))"
    using mi by (auto simp: mirrors_def)
  obtain y md' where y: "reserve envd None at is n md = (y, md')" by (metis surj_pair)
  show ?thesis
  proof (cases "is = [] \<or> n = 0 \<or> n > bm_max_reservation m \<or> (\<exists>e. reserve_check envd md at n [] is = Inl e)")
    case True
    then have "isl y" "md' = md" using y d(4) by (auto simp: reserve_def split: if_splits)
    then show ?thesis using y mi m' by (cases y) auto
  next
    case False
    then obtain cs where cs: "reserve_check envd md at n [] is = Inr cs"
      by (cases "reserve_check envd md at n [] is") auto
    obtain x rows' where rows': "reserve_budgets ?tz None (\<lambda>k. None) cs at n (bd_usage (dk_db d)) = (x, rows')"
      by (metis surj_pair)
    have ok_rows: "rows_ok (bd_usage (dk_db d))" using d(5) by (simp add: mirrored_def)
    have md': "md' = md\<lparr>bm_store := Some (d\<lparr>dk_db := (dk_db d)\<lparr>bd_usage := rows'\<rparr>\<rparr>)\<rparr>" "isl y \<longleftrightarrow> x \<noteq> None"
      using y False d(1,4) cs dk on_usage_ok [OF d(2), where f = "\<lambda>cerr ft. reserve_budgets ?tz cerr ft cs at n", OF rows']
      by (auto simp: reserve_def on_disk_def sqlite_budget_store_def Let_def split: option.splits)
    show ?thesis
    proof (cases x)
      case (Some e')
      then have "rows' = bd_usage (dk_db d)" using reserve_budgets_failed rows' by blast
      then have "mirrors m md'" using mirrorsI [OF mi d(1) d(5) d(2)] md'(1) by simp
      then show ?thesis using y md'(2) Some m' by (cases y) auto
    next
      case None
      have k: "distinct is" "map Some cs = map (map_of (bm_configs m)) is"
        using cs unfolding durable_check [OF d(1)] d(3) by simp_all
      then have len: "length cs = length is" using map_eq_imp_length_eq by blast
      have conf: "map_of (bm_configs m) (is ! j) = Some (cs ! j)" if "j < length is" for j
        using k(2) that len by (metis nth_map)
      then have ids: "map b_id cs = is"
        using D(2) len by (intro nth_equalityI [of "map b_id cs" "is"]) (simp_all add: configs_ok_def)
      note rb = reserve_budgets_ok [OF ok_rows _ rows' [unfolded None], unfolded ids, OF k(1)]
      have "\<forall>i\<in>set is. admits env m at n i"
      proof
        fix i assume "i \<in> set is"
        then obtain j where j: "j < length is" "i = is ! j" by (auto simp: in_set_conv_nth)
        then have c: "cs ! j \<in> set cs" using len by simp
        have "int (view ?tz (bm_usage m) (cs ! j) at + unat n) \<le> int (unat (b_limit (cs ! j)))"
          using rb(6) [OF c] view_load_mirrored [OF d(5) rb(5) [OF c] at] by simp
        then have "view ?tz (bm_usage m) (cs ! j) at + unat n \<le> unat (b_limit (cs ! j))"
          by (simp only: of_nat_le_iff)
        then show "admits env m at n i" using conf [OF j(1)] j(2) by (simp add: admits_def)
      qed
      then obtain cs' where "reserve_check env m at n [] is = Inr cs'"
        using reserve_check_complete [OF D(1-3) rb(3) k(1), of "[]" n] by auto
      then have False using r False D(1) by (auto simp: reserve_def Let_def split: if_splits)
      then show ?thesis ..
    qed
  qed
qed

section \<open>Leases\<close>

lemma move_rows_total:
  assumes "rows_ok rows" "distinct (map b_id cs)" "at \<noteq> 0" "amount \<noteq> 0"
    "\<forall>c\<in>set cs. budget_validate tz c = None \<and> movable consuming (uint amount) (row_at rows (row_key tz at c))"
  shows "\<exists>n' rows'. move_rows tz cerr (\<lambda>k. None) n consuming at amount cs rows = Inr (n', rows')"
  using assms(1,2,5)
proof (induction cs arbitrary: n rows)
  case (Cons c cs)
  let ?k = "row_key tz at c"
  have v: "budget_validate tz c = None" "movable consuming (uint amount) (row_at rows ?k)" using Cons.prems(3) by simp_all
  have "0 < uint amount" using assms(4) by (metis uint_0_iff uint_ge_0 order_le_less)
  then obtain p where p: "map_of rows ?k = Some p"
    using v(2) by (cases "map_of rows ?k") (auto simp: movable_def row_at_def)
  obtain rows1 where m: "move_row consuming ?k (uint amount) rows = (1, rows1)"
    using p v(2) by (simp add: move_row_eq [OF rows_okD(1) [OF Cons.prems(1)]] row_at_def)
  have "move_rows tz cerr (\<lambda>k. None) 0 consuming at amount [c] rows = Inr (2, rows1)"
    using m window_start_eq [OF v(1) assms(3)] by (simp add: row_key_def)
  note e = move_rows_exact [OF Cons.prems(1) _ this, simplified]
  have "row_key tz at d \<noteq> ?k" if "d \<in> set cs" for d
    using Cons.prems(2) that by (simp add: row_key_def) (metis image_eqI)
  then have "\<forall>d\<in>set cs. budget_validate tz d = None \<and> movable consuming (uint amount) (row_at rows1 (row_key tz at d))"
    using e Cons.prems(3) by simp
  then have "\<exists>n' rows'. move_rows tz cerr (\<lambda>k. None) (n + 2) consuming at amount cs rows1 = Inr (n', rows')"
    using Cons.IH e Cons.prems(2) by simp
  then show ?case using m window_start_eq [OF v(1) assms(3)] by (simp add: row_key_def)
qed simp

lemma mirror_move:
  assumes ok: "ledger_ok env \<lparr>sys_manager = m, sys_leases = ls\<rparr>" and i: "i < length ls"
    and lo: "leases_ok (be_zones env) ls" and mi: "mirrored (bm_usage m) rows" and n: "n \<le> l_remaining (ls ! i)"
  shows "\<exists>rows'. move_budget_reservation (be_zones env) None (\<lambda>k. None) consuming (l_configs (ls ! i)) (l_at (ls ! i)) n rows =
      (None, rows') \<and>
    mirrored (touch_usage (if consuming then move_used n else drop_reserved n) (lease_keys (be_zones env) (ls ! i)) (bm_usage m)) rows'"
proof -
  let ?tz = "be_zones env" and ?l = "ls ! i" and ?us = "bm_usage m"
  let ?f = "if consuming then move_used n else drop_reserved n"
  have l: "l_configs ?l \<noteq> []" "distinct (map b_id (l_configs ?l))" "\<forall>c\<in>set (l_configs ?l). budget_validate ?tz c = None"
      "unix_epoch \<le> l_at ?l"
    using lo nth_mem [OF i] unfolding leases_ok_def by blast+
  have rows: "rows_ok rows" "row_at rows k = (uint (used (get_usage ?us k)), uint (reserved (get_usage ?us k)))" for k
    using mi by (simp_all add: mirrored_def)
  have keys: "set (lease_keys ?tz ?l) = row_key ?tz (l_at ?l) ` set (l_configs ?l)" by (rule keys_eq [OF l(3,4)])
  have cov: "unat n \<le> unat (reserved (get_usage ?us k))" "load ?us k < 2 ^ 63" if "k \<in> set (lease_keys ?tz ?l)" for k
    using ledger_lease_covered [OF ok, of i k] i n that ledger_okD(6) [OF ok, of k]
    by (auto simp: word_le_nat_alt)
  have mv: "movable consuming (uint n) (row_at rows k)" if "k \<in> set (lease_keys ?tz ?l)" for k
  proof -
    have "int (unat n) \<le> int (unat (reserved (get_usage ?us k)))" using cov(1) [OF that] by (simp only: of_nat_le_iff)
    moreover have "int (unat (used (get_usage ?us k)) + unat (reserved (get_usage ?us k))) < int (2 ^ 63)"
      using cov(2) [OF that] by (simp only: load_def of_nat_less_iff)
    ultimately show ?thesis by (auto simp: movable_def rows(2) max_int64_value_def)
  qed
  have "l_at ?l \<noteq> 0" using l(4) by (auto simp: unix_epoch_def)
  obtain c where c: "c \<in> set (l_configs ?l)" using l(1) by (cases "l_configs ?l") auto
  have "uint n \<le> max_int64_value"
    using mv [of "row_key ?tz (l_at ?l) c"] c keys rows_okD(5) [OF rows(1), of "row_key ?tz (l_at ?l) c"]
    by (auto simp: movable_def)
  moreover have "\<exists>k rows'. move_rows ?tz None (\<lambda>k. None) 1 consuming (l_at ?l) n (l_configs ?l) rows = Inr (k, rows')" if "n \<noteq> 0"
    by (rule move_rows_total [OF rows(1) l(2) \<open>l_at ?l \<noteq> 0\<close> that]) (use l(3) mv keys in auto)
  ultimately obtain rows' where rows': "move_budget_reservation ?tz None (\<lambda>k. None) consuming (l_configs ?l) (l_at ?l) n rows = (None, rows')"
    using l(1) by (cases "n = 0") (auto simp: move_budget_reservation_def not_less)
  note mo = move_budget_ok [OF rows(1) l(2) rows']
  have d: "distinct (lease_keys ?tz ?l)" using ledger_okD(4) [OF ok] i by simp
  have "row_at rows' k = (uint (used (get_usage (touch_usage ?f (lease_keys ?tz ?l) ?us) k)),
      uint (reserved (get_usage (touch_usage ?f (lease_keys ?tz ?l) ?us) k)))" for k
  proof (cases "k \<in> set (lease_keys ?tz ?l)")
    case True
    let ?u = "get_usage ?us k"
    have "unat (used ?u) + unat (reserved ?u) < 2 ^ 64" using cov(2) [OF True] by (simp add: load_def)
    then have "unat (reserved (?f ?u)) = unat (reserved ?u) - unat n"
        "unat (used (?f ?u)) = unat (used ?u) + (if consuming then unat n else 0)"
      using move_used_exact [OF cov(1) [OF True]] drop_reserved_exact [OF cov(1) [OF True]] by (cases consuming; simp)+
    then have "int (unat (reserved (?f ?u))) = int (unat (reserved ?u) - unat n)"
        "int (unat (used (?f ?u))) = int (unat (used ?u) + (if consuming then unat n else 0))"
      by (simp_all only:)
    moreover have "int (unat (reserved ?u) - unat n) = int (unat (reserved ?u)) - int (unat n)"
      using cov(1) [OF True] by (rule of_nat_diff)
    ultimately show ?thesis
      using mo(3) [of k] True keys by (auto simp: get_usage_touch [OF d] moved_def rows(2))
  next
    case False
    then show ?thesis using mo(3) [of k] keys by (simp add: get_usage_touch [OF d] rows(2))
  qed
  then show ?thesis using rows' mo(1) by (auto simp: mirrored_def)
qed

section \<open>Runs\<close>

datatype budget_call = CallReserve go_time "go_id list" bytes | CallConsume nat bytes | CallClose nat

datatype budget_answer = Granted lease | Refused | Consumed "bytes \<times> error option" lease | Closed "error option" lease | NoLease

fun call_budget :: "'s budget_env \<Rightarrow> budget_call \<Rightarrow> 's budget_manager \<times> lease list \<Rightarrow>
    budget_answer \<times> 's budget_manager \<times> lease list" where
  "call_budget env (CallReserve at is n) (m, ls) = (case reserve env None at is n m of
     (Inl e, m') \<Rightarrow> (Refused, m', ls) | (Inr l, m') \<Rightarrow> (Granted l, m', ls @ [l]))"
| "call_budget env (CallConsume i n) (m, ls) = (if i < length ls
     then case consume env None n (ls ! i) m of (r, l, m') \<Rightarrow> (Consumed r l, m', ls[i := l]) else (NoLease, m, ls))"
| "call_budget env (CallClose i) (m, ls) = (if i < length ls
     then case close env (ls ! i) m of (e, l, m') \<Rightarrow> (Closed e l, m', ls[i := l]) else (NoLease, m, ls))"

fun call_budgets :: "'s budget_env \<Rightarrow> budget_call list \<Rightarrow> 's budget_manager \<times> lease list \<Rightarrow> budget_answer list" where
  "call_budgets env [] s = []"
| "call_budgets env (q # qs) s = (case call_budget env q s of (a, s') \<Rightarrow> a # call_budgets env qs s')"

fun call_time_ok :: "budget_call \<Rightarrow> bool" where
  "call_time_ok (CallReserve at is n) = (unix_epoch \<le> at)"
| "call_time_ok q = True"

definition twins :: "'s budget_env \<Rightarrow> 's budget_manager \<times> lease list \<Rightarrow> budget_disk budget_manager \<times> lease list \<Rightarrow> bool" where
  "twins env s t = (ledger_ok env \<lparr>sys_manager = fst s, sys_leases = snd s\<rparr> \<and> mirrors (fst s) (fst t) \<and>
     snd t = snd s \<and> leases_ok (be_zones env) (snd s) \<and> bm_max_reservation (fst s) \<le> 2 ^ 40)"

lemma leases_ok_update:
  "leases_ok tz ls \<Longrightarrow> i < length ls \<Longrightarrow> l_configs l = l_configs (ls ! i) \<Longrightarrow> l_at l = l_at (ls ! i) \<Longrightarrow>
     leases_ok tz (ls[i := l])"
  unfolding leases_ok_def using set_update_subset_insert [of ls i l] nth_mem [of i ls] by fastforce

lemma twin_move:
  assumes tw: "twins env (m, ls) (md, ls)" and dk: "on_disk env envd cd" and i: "i < length ls"
    and n: "n \<le> l_remaining (ls ! i)"
  shows "\<exists>d rows'. bm_store md = Some d \<and>
    on_usage (\<lambda>cerr ft. move_budget_reservation (be_zones env) cerr ft consuming (l_configs (ls ! i)) (l_at (ls ! i)) n) d =
      (None, d\<lparr>dk_db := (dk_db d)\<lparr>bd_usage := rows'\<rparr>\<rparr>) \<and>
    mirrors (m\<lparr>bm_usage := touch_usage (if consuming then move_used n else drop_reserved n)
        (lease_keys (be_zones env) (ls ! i)) (bm_usage m)\<rparr>)
      (md\<lparr>bm_store := Some (d\<lparr>dk_db := (dk_db d)\<lparr>bd_usage := rows'\<rparr>\<rparr>)\<rparr>)"
proof -
  have t: "ledger_ok env \<lparr>sys_manager = m, sys_leases = ls\<rparr>" "mirrors m md" "leases_ok (be_zones env) ls"
    using tw by (simp_all add: twins_def)
  obtain d where d: "bm_store md = Some d" "dk_schedule d = []" "mirrored (bm_usage m) (bd_usage (dk_db d))"
    using t(2) by (auto simp: mirrors_def)
  obtain rows' where r: "move_budget_reservation (be_zones env) None (\<lambda>k. None) consuming (l_configs (ls ! i)) (l_at (ls ! i)) n
      (bd_usage (dk_db d)) = (None, rows')"
    "mirrored (touch_usage (if consuming then move_used n else drop_reserved n) (lease_keys (be_zones env) (ls ! i)) (bm_usage m)) rows'"
    using mirror_move [OF t(1) i t(3) d(3) n] by blast
  show ?thesis
    using d(1) on_usage_ok [OF d(2), where f = "\<lambda>cerr ft. move_budget_reservation (be_zones env) cerr ft consuming
        (l_configs (ls ! i)) (l_at (ls ! i)) n", OF r(1)] mirrorsI [OF t(2) d(1) r(2) d(2)] by blast
qed

lemma twin_consume:
  assumes tw: "twins env (m, ls) (md, ls)" and dk: "on_disk env envd cd" and i: "i < length ls"
    and c: "consume env None n (ls ! i) m = (r, l, m')"
  shows "\<exists>md'. consume envd None n (ls ! i) md = (r, l, md') \<and> mirrors m' md' \<and>
    l_configs l = l_configs (ls ! i) \<and> l_at l = l_at (ls ! i)"
proof -
  have t: "mirrors m md" "bm_store m = None" using tw by (auto simp: twins_def mirrors_def)
  show ?thesis
  proof (cases "l_closed (ls ! i)")
    case True
    then show ?thesis using c t by (auto simp: consume_def)
  next
    case False
    let ?n = "min n (l_remaining (ls ! i))"
    have le: "?n \<le> l_remaining (ls ! i)" by simp
    have m: "r = (?n, if ?n < n then Some BudgetErrExceeded else None)" "l = (ls ! i)\<lparr>l_remaining := l_remaining (ls ! i) - ?n\<rparr>"
        "m' = m\<lparr>bm_usage := touch_usage (move_used ?n) (lease_keys (be_zones env) (ls ! i)) (bm_usage m)\<rparr>"
      using consume_ok [OF c t(2)] False by auto
    then show ?thesis
      using twin_move [OF tw dk i le, of True] dk False
      by (auto simp: consume_def Let_def on_disk_def sqlite_budget_store_def consume_budgets_def)
  qed
qed

lemma twin_close:
  assumes tw: "twins env (m, ls) (md, ls)" and dk: "on_disk env envd cd" and i: "i < length ls"
    and c: "close env (ls ! i) m = (e, l, m')"
  shows "\<exists>md'. close envd (ls ! i) md = (e, l, md') \<and> mirrors m' md' \<and>
    l_configs l = l_configs (ls ! i) \<and> l_at l = l_at (ls ! i)"
proof -
  have t: "mirrors m md" "bm_store m = None" using tw by (auto simp: twins_def mirrors_def)
  show ?thesis
  proof (cases "l_closed (ls ! i)")
    case True
    then show ?thesis using c t by (auto simp: close_def)
  next
    case False
    have m: "e = None" "l = (ls ! i)\<lparr>l_remaining := 0, l_closed := True\<rparr>"
        "m' = m\<lparr>bm_usage := touch_usage (drop_reserved (l_remaining (ls ! i))) (lease_keys (be_zones env) (ls ! i)) (bm_usage m)\<rparr>"
      using close_ok [OF c t(2)] False by auto
    then show ?thesis
      using twin_move [OF tw dk i order_refl, of False] dk False
      by (auto simp: close_def Let_def on_disk_def sqlite_budget_store_def release_budgets_def)
  qed
qed

lemma reserve_max:
  "reserve env cerr at is n m = (x, m') \<Longrightarrow> bm_store m = None \<Longrightarrow> bm_max_reservation m' = bm_max_reservation m"
  by (auto simp: reserve_def Let_def split: option.splits if_splits sum.splits)

lemma twin_call:
  assumes tw: "twins env (m, ls) (md, ls)" and dk: "on_disk env envd cd" and q: "call_time_ok q"
  shows "fst (call_budget envd q (md, ls)) = fst (call_budget env q (m, ls)) \<and>
    twins env (snd (call_budget env q (m, ls))) (snd (call_budget envd q (md, ls)))"
proof -
  have t: "ledger_ok env \<lparr>sys_manager = m, sys_leases = ls\<rparr>" "mirrors m md" "leases_ok (be_zones env) ls"
      "bm_max_reservation m \<le> 2 ^ 40"
    using tw by (simp_all add: twins_def)
  show ?thesis
  proof (cases q)
    case (CallReserve at "is" n)
    obtain x m' where r: "reserve env None at is n m = (x, m')" by (metis surj_pair)
    have at: "unix_epoch \<le> at" using q CallReserve by simp
    show ?thesis
    proof (cases x)
      case (Inl e)
      then obtain e' md' where e: "reserve envd None at is n md = (Inl e', md')" "mirrors m' md'"
        using mirror_refused [OF t(1,2) dk at] r by blast
      moreover have "m' = m" using r Inl t by (auto simp: mirrors_def dest: reserve_refused)
      ultimately show ?thesis using CallReserve r Inl t by (simp add: twins_def)
    next
      case (Inr l)
      then obtain md' where e: "reserve envd None at is n md = (Inr l, md')" "mirrors m' md'" "leases_ok (be_zones env) [l]"
        using mirror_granted [OF t(1,2) dk t(4) at] r by blast
      have "ledger_ok env \<lparr>sys_manager = m', sys_leases = ls @ [l]\<rparr>" using ledger_reserve [OF t(1)] r Inr by blast
      moreover have "bm_max_reservation m' = bm_max_reservation m"
        using r t(2) by (auto simp: mirrors_def dest: reserve_max)
      ultimately show ?thesis using CallReserve r Inr e t by (auto simp: twins_def leases_ok_def)
    qed
  next
    case (CallConsume i n)
    show ?thesis
    proof (cases "i < length ls")
      case True
      obtain r l m' where c: "consume env None n (ls ! i) m = (r, l, m')" by (metis surj_pair)
      obtain md' where d: "consume envd None n (ls ! i) md = (r, l, md')" "mirrors m' md'"
          "l_configs l = l_configs (ls ! i)" "l_at l = l_at (ls ! i)"
        using twin_consume [OF tw dk True c] by blast
      have "bm_max_reservation m' = bm_max_reservation m"
        using consume_ok [OF c] t(2) by (auto simp: mirrors_def)
      then show ?thesis
        using CallConsume True c d t ledger_consume [OF t(1) True c] leases_ok_update [OF t(3) True d(3,4)]
        by (simp add: twins_def)
    qed (use CallConsume tw in simp)
  next
    case (CallClose i)
    show ?thesis
    proof (cases "i < length ls")
      case True
      obtain e l m' where c: "close env (ls ! i) m = (e, l, m')" by (metis surj_pair)
      obtain md' where d: "close envd (ls ! i) md = (e, l, md')" "mirrors m' md'"
          "l_configs l = l_configs (ls ! i)" "l_at l = l_at (ls ! i)"
        using twin_close [OF tw dk True c] by blast
      have "bm_max_reservation m' = bm_max_reservation m"
        using close_ok [OF c] t(2) by (auto simp: mirrors_def)
      then show ?thesis
        using CallClose True c d t ledger_close [OF t(1) True c] leases_ok_update [OF t(3) True d(3,4)]
        by (simp add: twins_def)
    qed (use CallClose tw in simp)
  qed
qed

lemma twin_calls:
  "twins env s t \<Longrightarrow> on_disk env envd cd \<Longrightarrow> \<forall>q\<in>set qs. call_time_ok q \<Longrightarrow> call_budgets envd qs t = call_budgets env qs s"
proof (induction qs arbitrary: s t)
  case (Cons q qs)
  obtain m ls md where s: "s = (m, ls)" "t = (md, ls)" using Cons.prems(1) by (cases s; cases t) (auto simp: twins_def)
  note c = twin_call [OF Cons.prems(1) [unfolded s] Cons.prems(2), of q]
  show ?case
    using c Cons.IH [of "snd (call_budget env q s)" "snd (call_budget envd q t)"] Cons.prems(2,3) s
    by (simp add: split_beta)
qed simp

section \<open>Starting on a fresh database\<close>

definition fresh_disk :: budget_disk where
  "fresh_disk = \<lparr>dk_db = \<lparr>bd_initialized = False, bd_configs = [], bd_usage = []\<rparr>, dk_schedule = []\<rparr>"

definition storable :: "budget_config codec \<Rightarrow> budget_config \<Rightarrow> bool" where
  "storable cd c = (\<exists>doc. marshal cd c = Some doc \<and> length doc \<le> max_budget_document \<and> unmarshal cd doc = Some c)"

lemma load_configs_map:
  "load_configs tz cs acc = Inr configs \<Longrightarrow> (\<forall>c\<in>set cs. budget_validate tz c = None) \<and> distinct (map b_id cs) \<and>
     (\<forall>c\<in>set cs. map_of acc (b_id c) = None) \<and>
     map_of configs = map_of acc ++ map_of (map (\<lambda>c. (b_id c, c)) cs)"
proof (induction cs arbitrary: acc)
  case (Cons c cs)
  then have c: "budget_validate tz c = None" "map_of acc (b_id c) = None"
      "load_configs tz cs (AList.update (b_id c) c acc) = Inr configs"
    by (auto split: if_splits)
  note IH = Cons.IH [OF c(3)]
  then have n: "b_id c \<notin> b_id ` set cs" "\<forall>d\<in>set cs. map_of acc (b_id d) = None"
    by (auto simp: update_conv' split: if_splits)
  then have "map_of (map (\<lambda>c. (b_id c, c)) cs) (b_id c) = None" by (auto simp: map_of_eq_None_iff)
  then have "map_of configs i = (map_of acc ++ map_of (map (\<lambda>c. (b_id c, c)) (c # cs))) i" for i
    using IH by (cases "i = b_id c") (auto simp: update_conv' map_add_def split: option.splits)
  then have "map_of configs = map_of acc ++ map_of (map (\<lambda>c. (b_id c, c)) (c # cs))" ..
  moreover have "\<forall>d\<in>set (c # cs). budget_validate tz d = None" "distinct (map b_id (c # cs))"
      "\<forall>d\<in>set (c # cs). map_of acc (b_id d) = None"
    using IH n c(1,2) by simp_all
  ultimately show ?case by blast
qed simp

lemma marshal_budgets_rev:
  "\<forall>c\<in>set cs. storable cd c \<and> budget_validate tz c = None \<Longrightarrow> distinct (map b_id cs) \<Longrightarrow>
     \<forall>c\<in>set cs. map_of acc (b_id c) = None \<Longrightarrow>
     marshal_budgets tz cd acc cs = Some (rev (map (\<lambda>c. (b_id c, the (marshal cd c))) cs) @ acc)"
proof (induction cs arbitrary: acc)
  case (Cons c cs)
  then have m: "marshal_budget tz cd c = Inr (the (marshal cd c))"
    by (auto simp: marshal_budget_def storable_def)
  have "\<forall>d\<in>set cs. map_of ((b_id c, the (marshal cd c)) # acc) (b_id d) = None"
    using Cons.prems(2,3) by simp (metis image_eqI)
  then show ?case using Cons m by simp
qed simp

lemma insert_budgets_all:
  "distinct (map fst rows) \<Longrightarrow> \<forall>x\<in>set rows. map_of t (fst x) = None \<Longrightarrow>
     insert_budgets cerr (\<lambda>k. None) n rows t = Inr (n + length rows, t @ map (\<lambda>(i, doc). (i, doc, 1)) rows)"
proof (induction rows arbitrary: n t)
  case (Cons x rows)
  obtain i doc where x: "x = (i, doc)" by (cases x)
  have "\<forall>y\<in>set rows. map_of (t @ [(i, doc, 1)]) (fst y) = None"
    using Cons.prems x by (auto simp: map_of_append_new image_iff simp del: map_of_append split: option.splits)
  then show ?case using Cons x by simp
qed simp

lemma scan_budget_rows:
  "\<forall>i\<in>set is. \<exists>doc. f i = (doc, 1) \<and> unmarshal cd doc = Some (g i) \<and> budget_validate tz (g i) = None \<and> b_id (g i) = i \<Longrightarrow>
     scan_rows cd b_id (budget_validate tz) cerr (\<lambda>k. None) n (map (\<lambda>i. (i, f i)) is) =
       Inr (map (\<lambda>i. \<lparr>st_doc = g i, st_revision = 1\<rparr>) is)"
proof (induction "is" arbitrary: n)
  case (Cons i "is")
  then obtain doc where "f i = (doc, 1)" "unmarshal cd doc = Some (g i)" "budget_validate tz (g i) = None" "b_id (g i) = i"
    by auto
  then show ?case using Cons by (simp add: decode_row_def)
qed simp

lemma foldl_record:
  "\<forall>i\<in>set is. b_id (g i) = i \<Longrightarrow>
   map_of (foldl (\<lambda>m (c, rev). AList.update (b_id c) c m) [] (map (\<lambda>i. (g i, 1 :: int)) is)) i =
     (if i \<in> set is then Some (g i) else None)"
  by (induction "is" rule: rev_induct) (auto simp: update_conv')

lemma start_on_disk:
  assumes n: "new_persistent env cs n None = Inr m" and st: "\<forall>c\<in>set cs. storable cd c"
    and dk: "on_disk env envd cd"
  shows "\<exists>md. new_persistent envd cs n (Some fresh_disk) = Inr md \<and> twins env (m, []) (md, [])"
proof -
  let ?tz = "be_zones env"
  obtain configs where c: "load_configs ?tz cs [] = Inr configs" "n \<noteq> 0" "n \<le> 2 ^ 40"
      "m = \<lparr>bm_configs = configs, bm_revisions = map (\<lambda>(i, c). (i, 1)) configs, bm_usage = [],
        bm_max_reservation = n, bm_store = None\<rparr>"
    using n by (auto simp: new_persistent_def split: if_splits sum.splits)
  note lc = load_configs_map [OF c(1)]
  have v: "\<forall>c\<in>set cs. budget_validate ?tz c = None" and d: "distinct (map b_id cs)"
    and cm: "map_of configs = map_of (map (\<lambda>c. (b_id c, c)) cs)"
    using lc by simp_all
  define docs where "docs = rev (map (\<lambda>c. (b_id c, the (marshal cd c))) cs)"
  have md: "marshal_budgets ?tz cd [] cs = Some docs"
    using marshal_budgets_rev [of cs cd ?tz "[]"] st v d by (simp add: docs_def)
  have dd: "distinct (map fst (sort_key fst docs))"
  proof -
    have "map fst docs = rev (map b_id cs)" by (simp add: docs_def rev_map comp_def)
    then have "distinct (map fst docs)" using d by simp
    then show ?thesis by (simp add: distinct_map)
  qed
  define t where "t = map (\<lambda>(i, doc). (i, doc, 1 :: int)) (sort_key fst docs)"
  have ins: "insert_budgets None (\<lambda>k. None) 3 (sort_key fst docs) [] = Inr (3 + length docs, t)"
    using insert_budgets_all [OF dd, of "[]"] by (simp add: t_def)
  have keys: "keys_of t = map fst (sort_key fst docs)" by (simp add: t_def split_beta comp_def)
  then have ids: "set (keys_of t) = b_id ` set cs" by (auto simp: docs_def image_iff)
  define g where "g i = the (map_of configs i)" for i
  have g: "g (b_id c) = c" if "c \<in> set cs" for c
  proof -
    have "map_of (map (\<lambda>c. (b_id c, c)) cs) (b_id c) = Some c"
      using that d by (simp add: map_of_eq_Some_iff comp_def)
    then show ?thesis by (simp add: g_def cm)
  qed
  have tv: "map_of t (b_id c) = Some (the (marshal cd c), 1)" if "c \<in> set cs" for c
  proof -
    have "(b_id c, the (marshal cd c), 1) \<in> set t" using that by (auto simp: t_def docs_def image_iff)
    then show ?thesis using dd keys by (simp add: map_of_eq_Some_iff)
  qed
  have "scan_rows cd b_id (budget_validate ?tz) None (\<lambda>k. None) 2 (map (\<lambda>i. (i, the (map_of t i))) (sort (keys_of t))) =
      Inr (map (\<lambda>i. \<lparr>st_doc = g i, st_revision = 1\<rparr>) (sort (keys_of t)))"
    using ids tv g v st by (intro scan_budget_rows) (fastforce simp: storable_def)
  then have init: "initialize_budgets ?tz cd None (\<lambda>k. None) cs (dk_db fresh_disk) =
      (Inr (map (\<lambda>i. (g i, 1)) (sort (keys_of t))), \<lparr>bd_initialized = True, bd_configs = t, bd_usage = []\<rparr>)"
    using md ins by (simp add: initialize_budgets_def sqlite_list_budgets_def fresh_disk_def Let_def comp_def)
  define md where "md = \<lparr>bm_configs = foldl (\<lambda>m (c, rev). AList.update (b_id c) c m) [] (map (\<lambda>i. (g i, 1 :: int)) (sort (keys_of t))),
     bm_revisions = foldl (\<lambda>m (c, rev). AList.update (b_id c) rev m) [] (map (\<lambda>i. (g i, 1)) (sort (keys_of t))),
     bm_usage = [], bm_max_reservation = n,
     bm_store = Some \<lparr>dk_db = \<lparr>bd_initialized = True, bd_configs = t, bd_usage = []\<rparr>, dk_schedule = []\<rparr>\<rparr>"
  have nd: "new_persistent envd cs n (Some fresh_disk) = Inr md"
    using c dk init
    by (simp add: new_persistent_def on_disk_def sqlite_budget_store_def next_call_def after_call_def on_usage_def
        recover_budgets_def fresh_disk_def md_def)
  have gi: "\<forall>i\<in>set (sort (keys_of t)). b_id (g i) = i" using ids g by force
  have "map_of (bm_configs md) i = map_of configs i" for i
  proof (cases "i \<in> b_id ` set cs")
    case True
    then obtain c where c: "c \<in> set cs" "i = b_id c" by auto
    then have "map_of configs i = Some c"
      using d by (simp add: cm map_of_eq_Some_iff comp_def)
    then show ?thesis using foldl_record [OF gi, of i] ids True g [OF c(1)] c(2) by (simp add: md_def)
  next
    case False
    then have "map_of configs i = None" by (auto simp: cm map_of_eq_None_iff)
    then show ?thesis using foldl_record [OF gi, of i] ids False by (simp add: md_def)
  qed
  then have "map_of (bm_configs md) = map_of configs" ..
  then have "mirrors m md"
    by (simp add: mirrors_def md_def c(4) mirrored_def rows_ok_def row_at_def get_usage_def empty_usage_def)
  moreover have "ledger_ok env \<lparr>sys_manager = m, sys_leases = []\<rparr>"
    using budget_reachable_ledger [OF reach_init n] .
  ultimately show ?thesis using nd c(3,4) by (auto simp: twins_def leases_ok_def)
qed


section \<open>Witnesses\<close>

definition sample_budget_codec :: "budget_config codec" where
  "sample_budget_codec = \<lparr>marshal = (\<lambda>c. if c = lifetime_budget then Some ''l'' else if c = hourly_budget then Some ''h'' else None),
     unmarshal = (\<lambda>s. if s = ''l'' then Some lifetime_budget else if s = ''h'' then Some hourly_budget else None)\<rparr>"

definition sample_disk_env :: "budget_disk budget_env" where
  "sample_disk_env = \<lparr>be_zones = sample_zones, be_store = sqlite_budget_store sample_zones sample_budget_codec\<rparr>"

lemma sample_storable: "\<forall>c\<in>set [lifetime_budget, hourly_budget]. storable sample_budget_codec c"
  by (simp add: storable_def sample_budget_codec_def max_budget_document_def)


definition sample_conf :: "go_id \<Rightarrow> budget_config" where
  "sample_conf i = (if i = ''b1'' then lifetime_budget else hourly_budget)"


end
