(* ===== verification/Cache_Keys.thy ===== *)
theory Cache_Keys
  imports Go_Strings
begin

text \<open>pkg/cache/cache.go: which requests and responses may be cached, for how long, and the keys that
  partition the cache.  Headers are lists of canonical names with their values; http.ParseTime is an
  argument.\<close>

type_synonym http_header = "(string \<times> string list) list"

definition header_values :: "http_header \<Rightarrow> string \<Rightarrow> string list" where
  "header_values h k = (case map_of h k of None \<Rightarrow> [] | Some vs \<Rightarrow> vs)"

definition header_get :: "http_header \<Rightarrow> string \<Rightarrow> string" where
  "header_get h k = (case header_values h k of [] \<Rightarrow> [] | v # vs \<Rightarrow> v)"

record eligibility =
  el_eligible :: bool
  el_reason :: string
  el_expires_at :: go_time

definition refuse :: "string \<Rightarrow> eligibility" where
  "refuse reason = \<lparr>el_eligible = False, el_reason = reason, el_expires_at = 0\<rparr>"

section \<open>Directives\<close>

text \<open>strings.Cut at the first equals sign, without the flag.\<close>

fun cut_equals :: "string \<Rightarrow> string \<times> string" where
  "cut_equals [] = ([], [])"
| "cut_equals (c # cs) = (if c = CHR ''='' then ([], cs) else map_prod (Cons c) id (cut_equals cs))"

definition unquote :: "string \<Rightarrow> string" where
  "unquote v = (if length v \<ge> 2 \<and> hd v = CHR 0x22 \<and> last v = CHR 0x22 then butlast (tl v) else v)"

definition add_directive :: "string \<Rightarrow> (string \<times> string) list \<Rightarrow> (string \<times> string) list" where
  "add_directive part out = (case cut_equals (trim_space (to_lower part)) of
     (k, v) \<Rightarrow> (let k = trim_space k; v = trim_space v in
       if k \<noteq> [] then AList.update k (unquote v) out else out))"

definition parse_directives :: "string \<Rightarrow> (string \<times> string) list" where
  "parse_directives value = fold add_directive (split_on CHR '','' value) []"

definition has_directive :: "(string \<times> string) list \<Rightarrow> string \<Rightarrow> bool" where
  "has_directive ds name = (map_of ds name \<noteq> None)"

definition cache_control :: "http_header \<Rightarrow> (string \<times> string) list" where
  "cache_control h = parse_directives (join_on CHR '','' (header_values h ''Cache-Control''))"

section \<open>Requests\<close>

definition check_request :: "string \<Rightarrow> http_header \<Rightarrow> eligibility" where
  "check_request verb h =
     (if verb \<noteq> ''GET'' \<and> verb \<noteq> ''HEAD'' then refuse ''method''
      else if header_get h ''Authorization'' \<noteq> [] then refuse ''authorization''
      else if header_get h ''Cookie'' \<noteq> [] then refuse ''cookie''
      else let ds = cache_control h in
        if has_directive ds ''no-store'' \<or> has_directive ds ''private'' \<or> has_directive ds ''no-cache'' \<or>
           map_of ds ''max-age'' = Some ''0'' \<or> equal_fold (trim_space (header_get h ''Pragma'')) ''no-cache''
        then refuse ''request cache-control''
        else \<lparr>el_eligible = True, el_reason = [], el_expires_at = 0\<rparr>)"

section \<open>Responses\<close>

definition fresh_for :: "string \<Rightarrow> string \<Rightarrow> int option" where
  "fresh_for value age = (case parse_int64 value of None \<Rightarrow> None
     | Some seconds \<Rightarrow>
        if seconds \<le> 0 \<or> seconds > (2 ^ 63 - 1) div second then None
        else if age = [] then Some seconds
        else (case parse_int64 age of None \<Rightarrow> None
          | Some a \<Rightarrow> if a < 0 \<or> a \<ge> seconds then None else Some (seconds - a)))"

definition expiration :: "(string \<Rightarrow> go_time option) \<Rightarrow> (string \<times> string) list \<Rightarrow> http_header \<Rightarrow> go_time \<Rightarrow>
    go_time option" where
  "expiration http_time ds h now =
     (case (case map_of ds ''s-maxage'' of Some v \<Rightarrow> Some v | None \<Rightarrow> map_of ds ''max-age'') of
        Some value \<Rightarrow> map_option (\<lambda>s. now + s * second) (fresh_for value (trim_space (header_get h ''Age'')))
      | None \<Rightarrow> (case http_time (header_get h ''Expires'') of None \<Rightarrow> None
          | Some t \<Rightarrow> if t > now then Some t else None))"

definition check_response :: "(string \<Rightarrow> go_time option) \<Rightarrow> int \<Rightarrow> http_header \<Rightarrow> int \<Rightarrow> int \<Rightarrow> go_time \<Rightarrow> eligibility" where
  "check_response http_time status h content_length max_bytes now =
     (if status < 200 \<or> status > 299 \<or> status = 206 \<or> header_get h ''Content-Range'' \<noteq> [] then refuse ''status''
      else if header_get h ''Set-Cookie'' \<noteq> [] then refuse ''set-cookie''
      else let ds = cache_control h in
        if has_directive ds ''no-store'' \<or> has_directive ds ''private'' \<or> has_directive ds ''no-cache''
        then refuse ''response cache-control''
        else if trim_space (header_get h ''Vary'') \<noteq> [] then refuse ''vary''
        else if content_length < 0 \<or> content_length > max_bytes then refuse ''size''
        else case expiration http_time ds h now of None \<Rightarrow> refuse ''freshness''
          | Some t \<Rightarrow> \<lparr>el_eligible = True, el_reason = [], el_expires_at = t\<rparr>)"

section \<open>Keys\<close>

record cache_key =
  ck_client_id :: go_id
  ck_session_hash :: string
  ck_route_id :: go_id
  ck_proxy_id :: go_id
  ck_policy_id :: go_id
  ck_rule_id :: go_id
  ck_runtime_revision :: int
  ck_method :: string
  ck_url :: string
  ck_vary :: "(string \<times> string) list"

definition cache_key_validate :: "cache_key \<Rightarrow> error option" where
  "cache_key_validate k =
     (if \<not> id_valid (ck_client_id k) \<or> \<not> id_valid (ck_route_id k) \<or> ck_session_hash k = [] \<or> ck_method k = [] \<or>
         ck_url k = [] \<or> length (ck_url k) > 8192 \<or> length (ck_vary k) > 32
      then Some CacheErrInvalid else None)"

definition format_int :: "int \<Rightarrow> string" where
  "format_int i = (if i < 0 then CHR ''-'' # itoa (nat (- i)) else itoa (nat i))"

definition cache_key_string :: "cache_key \<Rightarrow> string" where
  "cache_key_string k = join_on (CHR 0x00)
     ([ck_client_id k, ck_session_hash k, ck_route_id k, ck_proxy_id k, ck_policy_id k, ck_rule_id k,
       format_int (ck_runtime_revision k), ck_method k, ck_url k] @
      map (\<lambda>name. to_lower name @ CHR ''='' # the (map_of (ck_vary k) name)) (sort (keys_of (ck_vary k))))"

section \<open>Partition\<close>

lemma format_int_inj: "format_int a = format_int b \<Longrightarrow> a = b"
proof -
  have m: "itoa n \<noteq> CHR ''-'' # s" for n s
    using itoa_digits [of "CHR ''-''" n] by (auto simp: digit_of_def)
  show "format_int a = format_int b \<Longrightarrow> a = b"
    using m by (auto simp: format_int_def dest: itoa_inj m [THEN notE] m [THEN not_sym, THEN notE] split: if_splits)
qed

lemma format_int_plain: "CHR 0x00 \<notin> set (format_int i)"
  using itoa_digits [of "CHR 0x00"] by (auto simp: format_int_def digit_of_def)

text \<open>A key as the forward proxy builds it: no varying headers and no NUL in a component.\<close>

definition plain_key :: "cache_key \<Rightarrow> bool" where
  "plain_key k = (ck_vary k = [] \<and> CHR 0x00 \<notin> set (concat [ck_client_id k, ck_session_hash k, ck_route_id k, ck_proxy_id k,
     ck_policy_id k, ck_rule_id k, ck_method k, ck_url k]))"

lemma join_on_inj:
  "join_on d xs = join_on d ys \<Longrightarrow> \<forall>x\<in>set xs. d \<notin> set x \<Longrightarrow> \<forall>y\<in>set ys. d \<notin> set y \<Longrightarrow> xs \<noteq> [] \<Longrightarrow> ys \<noteq> [] \<Longrightarrow> xs = ys"
  by (metis split_join)

lemma cache_key_inj:
  assumes "plain_key k" "plain_key k'" "cache_key_string k = cache_key_string k'"
  shows "k = k'"
proof -
  let ?p = "\<lambda>k. [ck_client_id k, ck_session_hash k, ck_route_id k, ck_proxy_id k, ck_policy_id k, ck_rule_id k,
       format_int (ck_runtime_revision k), ck_method k, ck_url k]"
  have "?p k = ?p k'"
    using assms by (intro join_on_inj [where d = "CHR 0x00"]) (auto simp: cache_key_string_def plain_key_def format_int_plain)
  then show ?thesis
    using assms(1,2) by (intro cache_key.equality) (auto simp: plain_key_def dest: format_int_inj)
qed

end
