(* ===== verification/Cache_Table.thy ===== *)
theory Cache_Table
  imports Cache_Keys
begin

text \<open>What the three caches of internal/cache share: a table of entries that expire, with a bound on their
  number and their bytes, and the eviction of the entry that expires first.  The entries are in the order
  in which the program iterates over its map.\<close>

type_synonym 'e entries = "(string \<times> 'e) list"

section \<open>Operations\<close>

fun remove_expired :: "('e \<Rightarrow> go_time) \<Rightarrow> ('e \<Rightarrow> int) \<Rightarrow> go_time \<Rightarrow> string \<Rightarrow> 'e entries \<Rightarrow> int \<Rightarrow> 'e entries \<times> int" where
  "remove_expired expires weight now except [] bytes = ([], bytes)"
| "remove_expired expires weight now except ((i, e) # es) bytes =
     (if i \<noteq> except \<and> \<not> expires e > now then remove_expired expires weight now except es (bytes - weight e)
      else case remove_expired expires weight now except es bytes of (es', b) \<Rightarrow> ((i, e) # es', b))"

text \<open>The loop of evict; the empty string stands for no candidate, as in the code.\<close>

fun victim :: "('e \<Rightarrow> go_time) \<Rightarrow> string \<Rightarrow> 'e entries \<Rightarrow> string \<times> go_time \<Rightarrow> string \<times> go_time" where
  "victim expires except [] (c, t) = (c, t)"
| "victim expires except ((i, e) # es) (c, t) =
     (if i = except \<or> c \<noteq> [] \<and> (expires e > t \<or> expires e = t \<and> i > c) then victim expires except es (c, t)
      else victim expires except es (i, expires e))"

definition evict :: "('e \<Rightarrow> go_time) \<Rightarrow> ('e \<Rightarrow> int) \<Rightarrow> string \<Rightarrow> 'e entries \<times> int \<Rightarrow> ('e entries \<times> int) option" where
  "evict expires weight except s = (case s of (es, bytes) \<Rightarrow>
     (case fst (victim expires except es ([], 0)) of [] \<Rightarrow> None
      | c # cs \<Rightarrow> Some (AList.delete (c # cs) es, bytes - weight (the (map_of es (c # cs))))))"

definition over_bound :: "nat \<Rightarrow> int \<Rightarrow> bool \<Rightarrow> int \<Rightarrow> int \<Rightarrow> 'e entries \<times> int \<Rightarrow> bool" where
  "over_bound max_entries max_bytes exists old_bytes new_bytes s =
     (\<not> exists \<and> length (fst s) \<ge> max_entries \<or> snd s - old_bytes + new_bytes > max_bytes)"

lemma victim_cases:
  "victim expires except es (c, t) = (d, u) \<Longrightarrow> (d = c \<and> u = t) \<or> (d \<noteq> except \<and> (\<exists>e. (d, e) \<in> set es \<and> u = expires e))"
  by (induction expires except es "(c, t)" arbitrary: c t rule: victim.induct) (auto split: if_splits)

lemma evict_shrinks: "evict expires weight except s = Some s' \<Longrightarrow> length (fst s') < length (fst s)"
proof -
  assume a: "evict expires weight except s = Some s'"
  obtain es bytes where s: "s = (es, bytes)" by (cases s)
  obtain d u where v: "victim expires except es ([], 0) = (d, u)" by (cases "victim expires except es ([], 0)")
  have "d \<noteq> []" "s' = (AList.delete d es, bytes - weight (the (map_of es d)))"
    using a s v by (auto simp: evict_def split: list.splits)
  moreover have "\<exists>e. (d, e) \<in> set es" using victim_cases [OF v] calculation(1) by auto
  then have "length (AList.delete d es) < length es"
    by (auto simp: AList.delete_eq intro: length_filter_less)
  ultimately show ?thesis using s by simp
qed

text \<open>The eviction loop of Put: whether there is room, and what is left.\<close>

function make_room :: "('e \<Rightarrow> go_time) \<Rightarrow> ('e \<Rightarrow> int) \<Rightarrow> nat \<Rightarrow> int \<Rightarrow> string \<Rightarrow> bool \<Rightarrow> int \<Rightarrow> int \<Rightarrow> 'e entries \<times> int \<Rightarrow>
    bool \<times> 'e entries \<times> int" where
  "make_room expires weight max_entries max_bytes except exists old_bytes new_bytes s =
     (if over_bound max_entries max_bytes exists old_bytes new_bytes s
      then case evict expires weight except s of None \<Rightarrow> (False, s)
        | Some s' \<Rightarrow> make_room expires weight max_entries max_bytes except exists old_bytes new_bytes s'
      else (True, s))"
  by auto
termination
  by (relation "measure (\<lambda>(expires, weight, n, m, except, x, a, b, s). length (fst s))") (auto dest: evict_shrinks)

declare make_room.simps [simp del]

lemma map_of_filter_distinct:
  "distinct (keys_of es) \<Longrightarrow> map_of (filter P es) j = (case map_of es j of None \<Rightarrow> None | Some x \<Rightarrow> if P (j, x) then Some x else None)"
  by (induction es) (auto split: option.splits simp: map_of_eq_None_iff)

lemma submap_length:
  assumes "distinct (keys_of es)" "\<forall>i. map_of es i = map_of es' i \<or> map_of es i = None"
  shows "length es \<le> length es'"
proof -
  have "set (keys_of es) \<subseteq> set (keys_of es')"
    using assms(2) by (metis dom_map_of_conv_image_fst domIff list.set_map subsetI)
  then have "card (set (keys_of es)) \<le> card (set (keys_of es'))" by (intro card_mono) auto
  moreover have "card (set (keys_of es)) = length es" using distinct_card [OF assms(1)] by simp
  moreover have "card (set (keys_of es')) \<le> length es'" using card_length [of "keys_of es'"] by simp
  ultimately show ?thesis by linarith
qed

section \<open>The contract\<close>

definition total_weight :: "('e \<Rightarrow> int) \<Rightarrow> 'e entries \<Rightarrow> int" where
  "total_weight weight es = (\<Sum>(i, e)\<leftarrow>es. weight e)"

definition table_ok :: "('e \<Rightarrow> int) \<Rightarrow> ('e \<Rightarrow> bool) \<Rightarrow> 'e entries \<times> int \<Rightarrow> bool" where
  "table_ok weight admitted s = (distinct (keys_of (fst s)) \<and> [] \<notin> set (keys_of (fst s)) \<and>
     (\<forall>(i, e)\<in>set (fst s). admitted e) \<and> snd s = total_weight weight (fst s))"

text \<open>The order of eviction.\<close>

definition sooner :: "('e \<Rightarrow> go_time) \<Rightarrow> string \<times> 'e \<Rightarrow> string \<times> 'e \<Rightarrow> bool" where
  "sooner expires x y = (expires (snd x) < expires (snd y) \<or> expires (snd x) = expires (snd y) \<and> fst x \<le> fst y)"

locale expiring_table =
  fixes expires :: "'e \<Rightarrow> go_time" and weight :: "'e \<Rightarrow> int" and admitted :: "'e \<Rightarrow> bool"
  assumes weight_nonneg: "admitted e \<Longrightarrow> 0 \<le> weight e"
begin

lemma total_nonneg: "\<forall>(i, e)\<in>set es. admitted e \<Longrightarrow> 0 \<le> total_weight weight es"
  unfolding total_weight_def by (rule sum_list_nonneg) (auto simp: weight_nonneg)

lemma table_bytes_nonneg: "table_ok weight admitted s \<Longrightarrow> 0 \<le> snd s"
  using total_nonneg [of "fst s"] by (simp add: table_ok_def)

lemma total_filter:
  "total_weight weight (filter P es) + total_weight weight (filter (\<lambda>x. \<not> P x) es) = total_weight weight es"
  by (induction es) (auto simp: total_weight_def)

lemma total_delete:
  assumes "distinct (keys_of es)" "map_of es i = Some e"
  shows "total_weight weight (AList.delete i es) = total_weight weight es - weight e"
  using assms
proof (induction es)
  case (Cons x es)
  obtain j d where x: "x = (j, d)" by (cases x)
  show ?case
  proof (cases "j = i")
    case True
    then have "i \<notin> fst ` set es" "d = e" using Cons.prems x by auto
    then have "AList.delete i es = es" by (force simp: AList.delete_eq filter_id_conv)
    then show ?thesis using x True \<open>d = e\<close> by (simp add: total_weight_def)
  next
    case False
    then show ?thesis using Cons x by (simp add: total_weight_def)
  qed
qed simp

lemma remove_expired_eq:
  "remove_expired expires weight now except es bytes =
     (filter (\<lambda>(i, e). i = except \<or> expires e > now) es,
      bytes - total_weight weight (filter (\<lambda>x. \<not> (\<lambda>(i, e). i = except \<or> expires e > now) x) es))"
  by (induction expires weight now except es bytes rule: remove_expired.induct) (auto simp: total_weight_def)

lemma remove_expired_ok:
  assumes "table_ok weight admitted (es, bytes)"
  shows "table_ok weight admitted (remove_expired expires weight now except es bytes)"
  using assms total_filter [of "\<lambda>(i, e). i = except \<or> expires e > now" es]
  by (auto simp: table_ok_def remove_expired_eq distinct_map_filter)

text \<open>The victim is the entry that expires first, the smaller key among equals.\<close>

lemma victim_least:
  assumes "victim expires except es (c, t) = (d, u)" "[] \<notin> set (keys_of es)"
  shows "(c \<noteq> [] \<longrightarrow> d \<noteq> [] \<and> (u < t \<or> u = t \<and> d \<le> c)) \<and>
    (\<forall>(i, e)\<in>set es. i \<noteq> except \<longrightarrow> d \<noteq> [] \<and> (u < expires e \<or> u = expires e \<and> d \<le> i))"
  using assms
proof (induction es arbitrary: c t)
  case (Cons x es)
  obtain i e where x: "x = (i, e)" by (cases x)
  show ?case
  proof (cases "i = except \<or> c \<noteq> [] \<and> (expires e > t \<or> expires e = t \<and> i > c)")
    case True
    then have "victim expires except es (c, t) = (d, u)" using Cons.prems(1) x by simp
    then show ?thesis using Cons.IH [of c t] Cons.prems(2) True x by auto
  next
    case False
    have "victim expires except (x # es) (c, t) = victim expires except es (i, expires e)"
      unfolding x by (simp only: victim.simps if_not_P [OF False])
    then have v: "victim expires except es (i, expires e) = (d, u)" using Cons.prems(1) by simp
    have "i \<noteq> []" using Cons.prems(2) x by auto
    then show ?thesis using Cons.IH [OF v] Cons.prems(2) False x by auto
  qed
qed simp

lemma evict_some:
  assumes ok: "table_ok weight admitted s" and e: "evict expires weight except s = Some s'"
  obtains d x where "map_of (fst s) d = Some x" "d \<noteq> except" "fst s' = AList.delete d (fst s)"
    "snd s' = snd s - weight x" "table_ok weight admitted s'"
    "\<forall>i e. (i, e) \<in> set (fst s) \<longrightarrow> i \<noteq> except \<longrightarrow> sooner expires (d, x) (i, e)"
proof -
  obtain es bytes where s: "s = (es, bytes)" by (cases s)
  obtain d u where v: "victim expires except es ([], 0) = (d, u)" by (cases "victim expires except es ([], 0)")
  have d: "d \<noteq> []" "s' = (AList.delete d es, bytes - weight (the (map_of es d)))"
    using e s v by (auto simp: evict_def split: list.splits)
  then obtain x where x: "(d, x) \<in> set es" "u = expires x" "d \<noteq> except" using victim_cases [OF v] by auto
  have dk: "distinct (keys_of es)" "[] \<notin> set (keys_of es)" using ok s by (simp_all add: table_ok_def)
  then have m: "map_of es d = Some x" using x(1) by simp
  have "table_ok weight admitted s'"
    using ok s d(2) m total_delete [OF dk(1) m] by (auto simp: table_ok_def AList.delete_eq distinct_map_filter)
  moreover have "sooner expires (d, x) (i, e)" if "(i, e) \<in> set es" "i \<noteq> except" for i e
    using victim_least [OF v dk(2)] that x(2) by (auto simp: sooner_def)
  ultimately show ?thesis using that [of d x] m s d(2) x(3) by simp
qed

lemma evict_none:
  assumes "table_ok weight admitted s" "evict expires weight except s = None"
  shows "\<forall>(i, e)\<in>set (fst s). i = except"
proof -
  obtain es bytes where s: "s = (es, bytes)" by (cases s)
  obtain d u where v: "victim expires except es ([], 0) = (d, u)" by (cases "victim expires except es ([], 0)")
  then have "d = []" using assms(2) s by (auto simp: evict_def split: list.splits)
  then show ?thesis using victim_least [OF v] assms(1) s by (auto simp: table_ok_def)
qed

text \<open>The loop makes room by removing the entries that expire first and no others.\<close>

lemma make_room_ok:
  assumes ok: "table_ok weight admitted s" and b: "0 < max_entries" "0 \<le> new_bytes" "new_bytes \<le> max_bytes"
    and x: "exists \<longleftrightarrow> map_of (fst s) except \<noteq> None"
    and o: "old_bytes = (case map_of (fst s) except of None \<Rightarrow> 0 | Some e \<Rightarrow> weight e)"
  shows "\<exists>s'. make_room expires weight max_entries max_bytes except exists old_bytes new_bytes s = (True, s') \<and>
    table_ok weight admitted s' \<and> \<not> over_bound max_entries max_bytes exists old_bytes new_bytes s' \<and>
    map_of (fst s') except = map_of (fst s) except \<and>
    (\<forall>i. map_of (fst s') i = map_of (fst s) i \<or> map_of (fst s') i = None) \<and>
    (\<forall>i e j d. map_of (fst s) i = Some e \<and> map_of (fst s') i = None \<and> map_of (fst s') j = Some d \<and> j \<noteq> except \<longrightarrow>
       sooner expires (i, e) (j, d))"
  using ok x o
proof (induction "length (fst s)" arbitrary: s rule: less_induct)
  case less
  show ?case
  proof (cases "over_bound max_entries max_bytes exists old_bytes new_bytes s")
    case False
    then show ?thesis using less.prems by (subst make_room.simps) auto
  next
    case True
    show ?thesis
    proof (cases "evict expires weight except s")
      case None
      have one: "\<forall>(i, e)\<in>set (fst s). i = except" by (rule evict_none [OF less.prems(1) None])
      have False
      proof (cases "fst s")
        case Nil
        then show ?thesis
          using True b less.prems by (simp add: over_bound_def table_ok_def total_weight_def)
      next
        case (Cons y ys)
        then have "fst s = [y]" "fst y = except"
          using one less.prems(1) by (cases ys; force simp: table_ok_def)+
        then show ?thesis
          using True b less.prems by (cases y) (auto simp: over_bound_def table_ok_def total_weight_def)
      qed
      then show ?thesis ..
    next
      case (Some s1)
      obtain d y where e: "map_of (fst s) d = Some y" "d \<noteq> except" "fst s1 = AList.delete d (fst s)"
          "snd s1 = snd s - weight y" "table_ok weight admitted s1"
          "\<forall>i e. (i, e) \<in> set (fst s) \<longrightarrow> i \<noteq> except \<longrightarrow> sooner expires (d, y) (i, e)"
        by (rule evict_some [OF less.prems(1) Some])
      have m: "map_of (fst s1) i = (if i = d then None else map_of (fst s) i)" for i
        by (simp add: e(3) map_simps)
      have l: "length (fst s1) < length (fst s)" by (rule evict_shrinks [OF Some])
      obtain s' where s': "make_room expires weight max_entries max_bytes except exists old_bytes new_bytes s1 = (True, s')"
          "table_ok weight admitted s'" "\<not> over_bound max_entries max_bytes exists old_bytes new_bytes s'"
          "map_of (fst s') except = map_of (fst s1) except"
          "\<forall>i. map_of (fst s') i = map_of (fst s1) i \<or> map_of (fst s') i = None"
          "\<forall>i e j d. map_of (fst s1) i = Some e \<and> map_of (fst s') i = None \<and> map_of (fst s') j = Some d \<and> j \<noteq> except \<longrightarrow>
             sooner expires (i, e) (j, d)"
        using less.hyps [OF l e(5)] less.prems(2,3) m [of except] e(2) by auto
      have "sooner expires (i, a) (j, c)"
        if r: "map_of (fst s) i = Some a" "map_of (fst s') i = None" "map_of (fst s') j = Some c" "j \<noteq> except" for i a j c
      proof (cases "i = d")
        case True
        have "map_of (fst s) j = Some c" using s'(5) [rule_format, of j] m [of j] r(3) by (simp split: if_splits)
        then show ?thesis using e(1,6) r(1,4) True map_of_SomeD by force
      next
        case False
        then show ?thesis using s'(6) m r by auto
      qed
      moreover have "map_of (fst s') i = map_of (fst s) i \<or> map_of (fst s') i = None" for i
        using s'(5) [rule_format, of i] m [of i] by (simp split: if_splits)
      moreover have "make_room expires weight max_entries max_bytes except exists old_bytes new_bytes s = (True, s')"
        using s'(1) True Some by (subst make_room.simps) simp
      ultimately show ?thesis using s'(2-4) m [of except] e(2) by auto
    qed
  qed
qed

text \<open>Storing an entry.\<close>

lemma table_update:
  assumes ok: "table_ok weight admitted (es, b)" and x: "old = (case map_of es i of None \<Rightarrow> 0 | Some e \<Rightarrow> weight e)"
    and s: "admitted e" "i \<noteq> []"
  shows "table_ok weight admitted (AList.update i e es, b + weight e - old) \<and>
    length (AList.update i e es) = (if map_of es i = None then Suc (length es) else length es)"
  using ok x
proof (induction es arbitrary: b)
  case Nil
  then show ?case using s by (auto simp: table_ok_def total_weight_def)
next
  case (Cons y es)
  obtain j d where y: "y = (j, d)" by (cases y)
  show ?case
  proof (cases "j = i")
    case True
    then show ?thesis using Cons.prems s y by (auto simp: table_ok_def total_weight_def)
  next
    case False
    have t: "table_ok weight admitted (es, b - weight d)" using Cons.prems(1) y by (auto simp: table_ok_def total_weight_def)
    have o: "old = (case map_of es i of None \<Rightarrow> 0 | Some e \<Rightarrow> weight e)" using Cons.prems(2) False y by simp
    show ?thesis using Cons.IH [OF t o] Cons.prems(1) False y
      by (auto simp: table_ok_def total_weight_def update_keys dest: in_set_butlastD)
  qed
qed

end

end
