(* ===== verification/Cache_Memory.thy ===== *)
theory Cache_Memory
  imports Cache_Table
begin

text \<open>internal/cache/memory.go and dns.go: the response cache of a process and the cache in front of a
  resolver.  url.Parse with Hostname, the resolver and the text of an address are arguments; the ratio
  of hits that Stats derives in floating point is left out.\<close>

section \<open>The memory cache\<close>

record cache_entry =
  ce_status :: int
  ce_header :: http_header
  ce_body :: string
  ce_expires_at :: go_time
  ce_host :: string

record memory_cache =
  mc_entries :: "cache_entry entries"
  mc_max_entries :: nat
  mc_max_bytes :: int
  mc_bytes :: int
  mc_hits :: "64 word"
  mc_misses :: "64 word"
  mc_bypasses :: "64 word"
  mc_expired :: "64 word"
  mc_evictions :: "64 word"
  mc_served :: "64 word"

record cache_stats =
  cs_entries :: int
  cs_bytes :: int
  cs_max_entries :: int
  cs_max_bytes :: int
  cs_hits :: "64 word"
  cs_misses :: "64 word"
  cs_bypasses :: "64 word"
  cs_expired :: "64 word"
  cs_evictions :: "64 word"
  cs_served :: "64 word"

definition body_bytes :: "cache_entry \<Rightarrow> int" where
  "body_bytes e = int (length (ce_body e))"

definition new_memory_cache :: "int \<Rightarrow> int \<Rightarrow> error + memory_cache" where
  "new_memory_cache max_entries max_bytes =
     (if max_entries < 1 \<or> max_bytes < 1 then Inl CacheErrInvalid
      else Inr \<lparr>mc_entries = [], mc_max_entries = nat max_entries, mc_max_bytes = max_bytes, mc_bytes = 0,
        mc_hits = 0, mc_misses = 0, mc_bypasses = 0, mc_expired = 0, mc_evictions = 0, mc_served = 0\<rparr>)"

definition cache_get :: "cache_key \<Rightarrow> go_time \<Rightarrow> memory_cache \<Rightarrow> cache_entry option \<times> memory_cache" where
  "cache_get key now m =
     (if cache_key_validate key \<noteq> None then (None, m)
      else case map_of (mc_entries m) (cache_key_string key) of
        None \<Rightarrow> (None, m\<lparr>mc_misses := mc_misses m + 1\<rparr>)
      | Some e \<Rightarrow>
          if \<not> ce_expires_at e > now
          then (None, m\<lparr>mc_bytes := mc_bytes m - body_bytes e,
             mc_entries := AList.delete (cache_key_string key) (mc_entries m),
             mc_expired := mc_expired m + 1, mc_misses := mc_misses m + 1\<rparr>)
          else (Some e, m\<lparr>mc_hits := mc_hits m + 1, mc_served := mc_served m + of_nat (length (ce_body e))\<rparr>))"

definition cache_bypass :: "memory_cache \<Rightarrow> memory_cache" where
  "cache_bypass m = m\<lparr>mc_bypasses := mc_bypasses m + 1\<rparr>"

definition cache_drop_expired :: "go_time \<Rightarrow> string \<Rightarrow> memory_cache \<Rightarrow> memory_cache" where
  "cache_drop_expired now except m =
     (case remove_expired ce_expires_at body_bytes now except (mc_entries m) (mc_bytes m) of (es, b) \<Rightarrow>
        m\<lparr>mc_entries := es, mc_bytes := b,
          mc_expired := mc_expired m + of_nat (length (mc_entries m) - length es)\<rparr>)"

text \<open>The host under which an entry is purged.\<close>

definition cache_host :: "(string \<Rightarrow> string option) \<Rightarrow> string \<Rightarrow> string option" where
  "cache_host hostname u = (case hostname u of None \<Rightarrow> None
     | Some h \<Rightarrow> if h = [] then None else Some (to_lower (trim_suffix h ''.'')))"

definition cache_put :: "(string \<Rightarrow> string option) \<Rightarrow> go_time \<Rightarrow> cache_key \<Rightarrow> cache_entry \<Rightarrow> memory_cache \<Rightarrow>
    bool \<times> memory_cache" where
  "cache_put hostname now key entry m =
     (if cache_key_validate key \<noteq> None \<or> ce_expires_at entry = 0 \<or> body_bytes entry > mc_max_bytes m then (False, m)
      else case cache_host hostname (ck_url key) of None \<Rightarrow> (False, m)
      | Some host \<Rightarrow>
        let i = cache_key_string key; found = map_of (mc_entries m) i;
            old_bytes = (case found of None \<Rightarrow> 0 | Some e \<Rightarrow> body_bytes e);
            m1 = cache_drop_expired now i m in
        (case make_room ce_expires_at body_bytes (mc_max_entries m) (mc_max_bytes m) i (found \<noteq> None) old_bytes
            (body_bytes entry) (mc_entries m1, mc_bytes m1) of
          (room, es, b) \<Rightarrow>
            let m2 = m1\<lparr>mc_evictions := mc_evictions m1 + of_nat (length (mc_entries m1) - length es)\<rparr> in
            if room then (True, m2\<lparr>mc_entries := AList.update i (entry\<lparr>ce_host := host\<rparr>) es,
                mc_bytes := b + body_bytes entry - old_bytes\<rparr>)
            else (False, m2\<lparr>mc_entries := es, mc_bytes := b\<rparr>)))"

definition cache_stats_of :: "go_time \<Rightarrow> memory_cache \<Rightarrow> cache_stats \<times> memory_cache" where
  "cache_stats_of now m0 = (let m = cache_drop_expired now [] m0 in
     (\<lparr>cs_entries = int (length (mc_entries m)), cs_bytes = mc_bytes m, cs_max_entries = int (mc_max_entries m),
       cs_max_bytes = mc_max_bytes m, cs_hits = mc_hits m, cs_misses = mc_misses m, cs_bypasses = mc_bypasses m,
       cs_expired = mc_expired m, cs_evictions = mc_evictions m, cs_served = mc_served m\<rparr>, m))"

definition cache_purge :: "memory_cache \<Rightarrow> (int \<times> int) \<times> memory_cache" where
  "cache_purge m = ((int (length (mc_entries m)), mc_bytes m), m\<lparr>mc_entries := [], mc_bytes := 0\<rparr>)"

definition cache_purge_domain :: "string \<Rightarrow> memory_cache \<Rightarrow> (int \<times> int) \<times> memory_cache" where
  "cache_purge_domain domain0 m =
     (let domain = to_lower (trim_suffix domain0 ''.'');
          gone = filter (\<lambda>(i, e). ce_host e = domain) (mc_entries m);
          freed = total_weight body_bytes gone in
      ((int (length gone), freed),
       m\<lparr>mc_entries := filter (\<lambda>(i, e). ce_host e \<noteq> domain) (mc_entries m), mc_bytes := mc_bytes m - freed\<rparr>))"

section \<open>The DNS cache\<close>

record dns_entry =
  de_addresses :: "ip_addr list"
  de_expires_at :: go_time
  de_bytes :: int

record dns_cache =
  dn_entries :: "dns_entry entries"
  dn_max_entries :: nat
  dn_max_bytes :: int
  dn_ttl :: duration
  dn_bytes :: int

definition new_dns_cache :: "int \<Rightarrow> int \<Rightarrow> duration \<Rightarrow> error + dns_cache" where
  "new_dns_cache max_entries max_bytes ttl =
     (if max_entries < 1 \<or> max_bytes < 1 \<or> ttl \<le> 0 then Inl CacheErrInvalid
      else Inr \<lparr>dn_entries = [], dn_max_entries = nat max_entries, dn_max_bytes = max_bytes, dn_ttl = ttl, dn_bytes = 0\<rparr>)"

definition dns_key :: "string \<Rightarrow> string" where
  "dns_key host = to_lower (trim_suffix host ''.'')"

text \<open>The two critical sections of LookupNetIP: the lookup and, after the resolver, the insertion.\<close>

definition dns_find :: "string \<Rightarrow> go_time \<Rightarrow> dns_cache \<Rightarrow> ip_addr list option \<times> dns_cache" where
  "dns_find host now d = (case map_of (dn_entries d) (dns_key host) of None \<Rightarrow> (None, d)
     | Some e \<Rightarrow> if \<not> de_expires_at e > now
         then (None, d\<lparr>dn_bytes := dn_bytes d - de_bytes e, dn_entries := AList.delete (dns_key host) (dn_entries d)\<rparr>)
         else (Some (de_addresses e), d))"

definition dns_insert :: "(ip_addr \<Rightarrow> string) \<Rightarrow> string \<Rightarrow> ip_addr list \<Rightarrow> go_time \<Rightarrow> go_time \<Rightarrow> dns_cache \<Rightarrow> dns_cache" where
  "dns_insert addr_text host addresses resolved now d =
     (let key = dns_key host;
          entry = \<lparr>de_addresses = addresses, de_expires_at = resolved + dn_ttl d,
            de_bytes = int (length key) + (\<Sum>a\<leftarrow>addresses. int (length (addr_text a)))\<rparr> in
      if de_bytes entry > dn_max_bytes d then d
      else case remove_expired de_expires_at de_bytes now [] (dn_entries d) (dn_bytes d) of (es, b) \<Rightarrow>
        let found = map_of es key; old_bytes = (case found of None \<Rightarrow> 0 | Some e \<Rightarrow> de_bytes e) in
        (case make_room de_expires_at de_bytes (dn_max_entries d) (dn_max_bytes d) key (found \<noteq> None) old_bytes
            (de_bytes entry) (es, b) of
          (room, es2, b2) \<Rightarrow>
            if room then d\<lparr>dn_entries := AList.update key entry es2, dn_bytes := b2 + de_bytes entry - old_bytes\<rparr>
            else d\<lparr>dn_entries := es2, dn_bytes := b2\<rparr>))"

definition dns_lookup :: "(ip_addr \<Rightarrow> string) \<Rightarrow> (string \<Rightarrow> ip_addr list \<times> error option) \<Rightarrow> go_time \<Rightarrow> go_time \<Rightarrow>
    go_time \<Rightarrow> string \<Rightarrow> dns_cache \<Rightarrow> (ip_addr list \<times> error option) \<times> dns_cache" where
  "dns_lookup addr_text base t0 t1 t2 host d0 =
     (case dns_find host t0 d0 of
        (Some addresses, d) \<Rightarrow> ((addresses, None), d)
      | (None, d) \<Rightarrow>
         (case base host of (addresses, err) \<Rightarrow>
            if err \<noteq> None \<or> addresses = [] \<or> dns_key host = [] then ((addresses, err), d)
            else ((addresses, None), dns_insert addr_text host addresses t1 t2 d)))"

end
