(* ===== verification/Cache_Disk.thy ===== *)
theory Cache_Disk
  imports Cache_Memory
begin

text \<open>internal/cache/disk.go: the response cache that survives a restart.  The files of its directory are a map
  from names to contents, so a path is its name; what the file system refuses is an argument, as are the
  JSON codec, SHA-256 and url.Parse.\<close>

section \<open>Files\<close>

type_synonym files = "string \<rightharpoonup> string"

record os_faults =
  of_remove :: "string \<Rightarrow> bool"
  of_rename :: "string \<Rightarrow> string \<Rightarrow> bool"
  of_read :: "string \<Rightarrow> bool"
  of_lstat :: "string \<Rightarrow> bool"
  of_chmod :: "string \<Rightarrow> bool"
  of_temporary :: "string option"
  of_write :: bool
  of_written :: nat

datatype os_result = OsOk | OsMissing | OsFailed

definition os_remove :: "os_faults \<Rightarrow> string \<Rightarrow> files \<Rightarrow> os_result \<times> files" where
  "os_remove fa p fs = (if of_remove fa p then (OsFailed, fs) else if fs p = None then (OsMissing, fs)
     else (OsOk, fs(p := None)))"

definition os_rename :: "os_faults \<Rightarrow> string \<Rightarrow> string \<Rightarrow> files \<Rightarrow> os_result \<times> files" where
  "os_rename fa a b fs = (if of_rename fa a b then (OsFailed, fs)
     else case fs a of None \<Rightarrow> (OsMissing, fs) | Some x \<Rightarrow> (OsOk, fs(a := None, b \<mapsto> x)))"

abbreviation os_error :: error where "os_error \<equiv> OtherErr 1"

section \<open>Records\<close>

record disk_record =
  dr_version :: int
  dr_key :: cache_key
  dr_entry :: cache_entry

record disk_meta =
  dm_path :: string
  dm_host :: string
  dm_expires_at :: go_time
  dm_bytes :: int

record disk_cache =
  dk_files :: files
  dk_entries :: "disk_meta entries"
  dk_max_entries :: nat
  dk_max_bytes :: int
  dk_bytes :: int
  dk_hits :: "64 word"
  dk_misses :: "64 word"
  dk_bypasses :: "64 word"
  dk_expired :: "64 word"
  dk_evictions :: "64 word"
  dk_served :: "64 word"

record disk_env =
  dv_encode :: "disk_record \<Rightarrow> string option"
  dv_decode :: "string \<Rightarrow> disk_record option"
  dv_sha256 :: "string \<Rightarrow> string"
  dv_hostname :: "string \<Rightarrow> string option"
  dv_faults :: "go_time \<Rightarrow> os_faults"

definition hex_digit :: "nat \<Rightarrow> char" where
  "hex_digit n = ''0123456789abcdef'' ! n"

definition hex_encode :: "string \<Rightarrow> string" where
  "hex_encode s = concat (map (\<lambda>c. [hex_digit (of_char c div 16), hex_digit (of_char c mod 16)]) s)"

definition disk_id :: "disk_env \<Rightarrow> cache_key \<Rightarrow> string" where
  "disk_id v key = hex_encode (dv_sha256 v (cache_key_string key))"

definition valid_disk_id :: "string \<Rightarrow> bool" where
  "valid_disk_id s = (length s = 64 \<and> list_all (\<lambda>c. c \<in> set ''0123456789abcdefABCDEF'') s)"

definition disk_host :: "disk_env \<Rightarrow> cache_key \<Rightarrow> string option" where
  "disk_host v key = (if cache_key_validate key \<noteq> None then None else cache_host (dv_hostname v) (ck_url key))"

definition max_disk_record_bytes :: int where "max_disk_record_bytes = 12 * 2 ^ 20"

definition max_disk_body_bytes :: int where "max_disk_body_bytes = 8 * 2 ^ 20"

definition disk_read :: "disk_env \<Rightarrow> os_faults \<Rightarrow> string \<Rightarrow> files \<Rightarrow> disk_record option" where
  "disk_read v fa p fs = (case fs p of None \<Rightarrow> None | Some data \<Rightarrow>
     if of_read fa p \<or> int (length data) > max_disk_record_bytes then None
     else case dv_decode v data of None \<Rightarrow> None | Some r \<Rightarrow>
       if dr_version r \<noteq> 1 \<or> cache_key_validate (dr_key r) \<noteq> None \<or> ce_expires_at (dr_entry r) = 0 \<or>
          body_bytes (dr_entry r) > max_disk_body_bytes then None else Some r)"

section \<open>Operations\<close>

definition disk_drop :: "os_faults \<Rightarrow> string \<Rightarrow> disk_meta \<Rightarrow> disk_cache \<Rightarrow> disk_cache" where
  "disk_drop fa i meta d = d\<lparr>dk_files := snd (os_remove fa (dm_path meta) (dk_files d)),
     dk_entries := AList.delete i (dk_entries d), dk_bytes := dk_bytes d - dm_bytes meta\<rparr>"

definition expire_one :: "os_faults \<Rightarrow> go_time \<Rightarrow> string \<Rightarrow> string \<times> disk_meta \<Rightarrow> disk_cache \<Rightarrow> disk_cache" where
  "expire_one fa now except x d = (if fst x \<noteq> except \<and> \<not> dm_expires_at (snd x) > now
     then (disk_drop fa (fst x) (snd x) d)\<lparr>dk_expired := dk_expired d + 1\<rparr> else d)"

definition disk_remove_expired :: "os_faults \<Rightarrow> go_time \<Rightarrow> string \<Rightarrow> disk_cache \<Rightarrow> disk_cache" where
  "disk_remove_expired fa now except d = fold (expire_one fa now except) (dk_entries d) d"

definition disk_evict :: "os_faults \<Rightarrow> string \<Rightarrow> disk_cache \<Rightarrow> disk_cache option" where
  "disk_evict fa except d = (case fst (victim dm_expires_at except (dk_entries d) ([], 0)) of [] \<Rightarrow> None
     | c # cs \<Rightarrow> let meta = the (map_of (dk_entries d) (c # cs)) in
       (case os_remove fa (dm_path meta) (dk_files d) of
         (OsFailed, fs) \<Rightarrow> None
       | (r, fs) \<Rightarrow> Some (d\<lparr>dk_files := fs, dk_entries := AList.delete (c # cs) (dk_entries d),
           dk_bytes := dk_bytes d - dm_bytes meta, dk_evictions := dk_evictions d + 1\<rparr>)))"

lemma disk_evict_entries:
  "disk_evict fa except d = Some d' \<Longrightarrow>
     evict dm_expires_at dm_bytes except (dk_entries d, dk_bytes d) = Some (dk_entries d', dk_bytes d') \<and>
     dk_max_entries d' = dk_max_entries d \<and> dk_max_bytes d' = dk_max_bytes d"
  by (auto simp: disk_evict_def evict_def Let_def split: list.splits prod.splits os_result.splits)

text \<open>The eviction loops of Put and of load.\<close>

function disk_make_room :: "os_faults \<Rightarrow> string \<Rightarrow> bool \<Rightarrow> int \<Rightarrow> int \<Rightarrow> disk_cache \<Rightarrow> bool \<times> disk_cache" where
  "disk_make_room fa i exists old_bytes new_bytes d =
     (if over_bound (dk_max_entries d) (dk_max_bytes d) exists old_bytes new_bytes (dk_entries d, dk_bytes d)
      then case disk_evict fa i d of None \<Rightarrow> (False, d) | Some d' \<Rightarrow> disk_make_room fa i exists old_bytes new_bytes d'
      else (True, d))"
  by auto
termination
  by (relation "measure (\<lambda>(fa, i, x, a, b, d). length (dk_entries d))") (auto dest!: disk_evict_entries evict_shrinks)

function disk_trim :: "os_faults \<Rightarrow> disk_cache \<Rightarrow> error + disk_cache" where
  "disk_trim fa d =
     (if length (dk_entries d) > dk_max_entries d \<or> dk_bytes d > dk_max_bytes d
      then case disk_evict fa [] d of None \<Rightarrow> Inl CacheErrInvalid | Some d' \<Rightarrow> disk_trim fa d'
      else Inr d)"
  by auto
termination
  by (relation "measure (\<lambda>(fa, d). length (dk_entries d))") (auto dest!: disk_evict_entries evict_shrinks)

declare disk_make_room.simps [simp del] disk_trim.simps [simp del]

definition disk_get :: "disk_env \<Rightarrow> cache_key \<Rightarrow> go_time \<Rightarrow> disk_cache \<Rightarrow> cache_entry option \<times> disk_cache" where
  "disk_get v key now d =
     (if cache_key_validate key \<noteq> None then (None, d)
      else let i = disk_id v key; fa = dv_faults v now in
      (case map_of (dk_entries d) i of
        None \<Rightarrow> (None, d\<lparr>dk_misses := dk_misses d + 1\<rparr>)
      | Some meta \<Rightarrow>
          if \<not> dm_expires_at meta > now
          then (None, (disk_drop fa i meta d)\<lparr>dk_expired := dk_expired d + 1, dk_misses := dk_misses d + 1\<rparr>)
          else (case disk_read v fa (dm_path meta) (dk_files d) of
             None \<Rightarrow> (None, (disk_drop fa i meta d)\<lparr>dk_misses := dk_misses d + 1\<rparr>)
           | Some r \<Rightarrow>
               if disk_id v (dr_key r) \<noteq> i \<or> cache_key_string (dr_key r) \<noteq> cache_key_string key \<or>
                  ce_expires_at (dr_entry r) \<noteq> dm_expires_at meta \<or> \<not> ce_expires_at (dr_entry r) > now \<or>
                  body_bytes (dr_entry r) \<noteq> dm_bytes meta
               then (None, (disk_drop fa i meta d)\<lparr>dk_misses := dk_misses d + 1\<rparr>)
               else (Some (dr_entry r), d\<lparr>dk_hits := dk_hits d + 1,
                 dk_served := dk_served d + of_nat (length (ce_body (dr_entry r)))\<rparr>))))"

definition disk_bypass :: "disk_cache \<Rightarrow> disk_cache" where
  "disk_bypass d = d\<lparr>dk_bypasses := dk_bypasses d + 1\<rparr>"

text \<open>replace with the directory after every call, first to last, so that a crash leaves one of them.\<close>

definition replace_trace :: "os_faults \<Rightarrow> string \<Rightarrow> string \<Rightarrow> bool \<Rightarrow> files \<Rightarrow> bool \<times> files list" where
  "replace_trace fa temporary target exists fs =
     (if \<not> exists then (case os_rename fa temporary target fs of (r, fs1) \<Rightarrow> (r = OsOk, [fs, fs1]))
      else let backup = target @ ''.old''; fs1 = snd (os_remove fa backup fs) in
      (case os_rename fa target backup fs1 of
        (OsFailed, fs2) \<Rightarrow> (False, [fs, fs1, fs2])
      | (moved, fs2) \<Rightarrow>
         (case os_rename fa temporary target fs2 of
           (OsOk, fs3) \<Rightarrow> (True, [fs, fs1, fs2, fs3, snd (os_remove fa backup fs3)])
         | (refused, fs3) \<Rightarrow> (False, [fs, fs1, fs2, fs3, snd (os_rename fa backup target fs3)]))))"

definition disk_replace :: "os_faults \<Rightarrow> string \<Rightarrow> string \<Rightarrow> bool \<Rightarrow> files \<Rightarrow> bool \<times> files" where
  "disk_replace fa temporary target exists fs = map_prod id last (replace_trace fa temporary target exists fs)"

definition disk_write_temporary :: "os_faults \<Rightarrow> string \<Rightarrow> string \<Rightarrow> files \<Rightarrow> string option \<times> files" where
  "disk_write_temporary fa i data fs = (case of_temporary fa of
       None \<Rightarrow> (None, fs)
     | Some n \<Rightarrow> let path = i @ ''-'' @ n @ ''.tmp'' in
         if of_write fa then (Some path, fs(path \<mapsto> data))
         else (None, snd (os_remove fa path (fs(path \<mapsto> take (of_written fa) data)))))"

definition disk_put :: "disk_env \<Rightarrow> go_time \<Rightarrow> cache_key \<Rightarrow> cache_entry \<Rightarrow> disk_cache \<Rightarrow> bool \<times> disk_cache" where
  "disk_put v now key entry d =
     (case disk_host v key of None \<Rightarrow> (False, d) | Some host \<Rightarrow>
      if ce_expires_at entry = 0 \<or> body_bytes entry > dk_max_bytes d \<or> body_bytes entry > max_disk_body_bytes
      then (False, d)
      else case dv_encode v \<lparr>dr_version = 1, dr_key = key, dr_entry = entry\<lparr>ce_host := []\<rparr>\<rparr> of
        None \<Rightarrow> (False, d)
      | Some data \<Rightarrow> if int (length data) > max_disk_record_bytes then (False, d)
        else let i = disk_id v key; fa = dv_faults v now in
        (case disk_write_temporary fa i data (dk_files d) of
          (None, fs) \<Rightarrow> (False, d\<lparr>dk_files := fs\<rparr>)
        | (Some temporary, fs) \<Rightarrow>
          let found = map_of (dk_entries d) i; old_bytes = (case found of None \<Rightarrow> 0 | Some m \<Rightarrow> dm_bytes m);
              clean = (\<lambda>d. d\<lparr>dk_files := snd (os_remove fa temporary (dk_files d))\<rparr>) in
          (case disk_make_room fa i (found \<noteq> None) old_bytes (body_bytes entry)
              (disk_remove_expired fa now i (d\<lparr>dk_files := fs\<rparr>)) of
            (False, d1) \<Rightarrow> (False, clean d1)
          | (True, d1) \<Rightarrow>
            (case disk_replace fa temporary (i @ ''.cache'') (found \<noteq> None) (dk_files d1) of
              (False, fs2) \<Rightarrow> (False, clean (d1\<lparr>dk_files := fs2\<rparr>))
            | (True, fs2) \<Rightarrow> (True, clean (d1\<lparr>dk_files := fs2,
                dk_entries := AList.update i \<lparr>dm_path = i @ ''.cache'', dm_host = host,
                  dm_expires_at = ce_expires_at entry, dm_bytes = body_bytes entry\<rparr> (dk_entries d1),
                dk_bytes := dk_bytes d1 + (body_bytes entry - old_bytes)\<rparr>))))))"

definition disk_stats :: "disk_env \<Rightarrow> go_time \<Rightarrow> disk_cache \<Rightarrow> cache_stats \<times> disk_cache" where
  "disk_stats v now d0 = (let d = disk_remove_expired (dv_faults v now) now [] d0 in
     (\<lparr>cs_entries = int (length (dk_entries d)), cs_bytes = dk_bytes d, cs_max_entries = int (dk_max_entries d),
       cs_max_bytes = dk_max_bytes d, cs_hits = dk_hits d, cs_misses = dk_misses d, cs_bypasses = dk_bypasses d,
       cs_expired = dk_expired d, cs_evictions = dk_evictions d, cs_served = dk_served d\<rparr>, d))"

text \<open>The loops of Purge and PurgeDomain differ in the entries they visit.\<close>

definition purge_one :: "os_faults \<Rightarrow> string \<times> disk_meta \<Rightarrow> (int \<times> int) \<times> disk_cache \<Rightarrow> (int \<times> int) \<times> disk_cache" where
  "purge_one fa x s = (case (x, s) of ((i, meta), ((n, b), d)) \<Rightarrow>
     (case os_remove fa (dm_path meta) (dk_files d) of
       (OsFailed, fs) \<Rightarrow> ((n, b), d)
     | (r, fs) \<Rightarrow> ((n + 1, b + dm_bytes meta), d\<lparr>dk_files := fs, dk_entries := AList.delete i (dk_entries d)\<rparr>)))"

definition disk_purge :: "os_faults \<Rightarrow> disk_cache \<Rightarrow> (int \<times> int) \<times> disk_cache" where
  "disk_purge fa d = (case fold (purge_one fa) (dk_entries d) ((0, 0), d) of
     (result, d1) \<Rightarrow> (result, d1\<lparr>dk_bytes := dk_bytes d1 - snd result\<rparr>))"

definition disk_purge_domain :: "os_faults \<Rightarrow> string \<Rightarrow> disk_cache \<Rightarrow> (int \<times> int) \<times> disk_cache" where
  "disk_purge_domain fa domain0 d = (let domain = to_lower (trim_suffix domain0 ''.'') in
     case fold (\<lambda>x s. if dm_host (snd x) \<noteq> domain then s else purge_one fa x s) (dk_entries d) ((0, 0), d) of
     (result, d1) \<Rightarrow> (result, d1\<lparr>dk_bytes := dk_bytes d1 - snd result\<rparr>))"

section \<open>Loading\<close>

text \<open>recoverTemporary: the name to read instead, whether the name is done with, and an error.\<close>

definition recover_temporary :: "os_faults \<Rightarrow> string \<Rightarrow> files \<Rightarrow> (string \<times> bool \<times> error option) \<times> files" where
  "recover_temporary fa name fs =
     (if has_suffix name ''.cache.old'' then
        let i = trim_suffix name ''.cache.old''; target = i @ ''.cache'' in
        if \<not> valid_disk_id i then (([], False, None), fs)
        else if of_lstat fa target then (([], True, Some os_error), fs)
        else if fs target \<noteq> None
        then (case os_remove fa name fs of (r, fs1) \<Rightarrow> (([], True, if r = OsOk then None else Some os_error), fs1))
        else (case os_rename fa name target fs of
            (OsOk, fs1) \<Rightarrow> ((target, True, None), fs1)
          | (r, fs1) \<Rightarrow> (([], True, Some os_error), fs1))
      else if length name > 64 + length ''-.tmp'' \<and> name ! 64 = CHR ''-'' \<and> has_suffix name ''.tmp'' \<and> valid_disk_id (take 64 name)
      then (case os_remove fa name fs of (r, fs1) \<Rightarrow> (([], True, if r = OsOk then None else Some os_error), fs1))
      else (([], False, None), fs))"

definition load_file :: "disk_env \<Rightarrow> os_faults \<Rightarrow> go_time \<Rightarrow> string \<times> bool \<Rightarrow> disk_cache \<Rightarrow> error + disk_cache" where
  "load_file v fa now file d =
     (case recover_temporary fa (fst file) (dk_files d) of
        ((recovered, handled, Some err), fs) \<Rightarrow> Inl err
      | ((recovered, handled, None), fs) \<Rightarrow>
         let d = d\<lparr>dk_files := fs\<rparr>; name = (if handled then recovered else fst file); i = trim_suffix name ''.cache'';
             gone = d\<lparr>dk_files := snd (os_remove fa name fs)\<rparr> in
         if handled \<and> recovered = [] then Inr d
         else if \<not> snd file \<or> \<not> has_suffix name ''.cache'' \<or> \<not> valid_disk_id i then Inr d
         else if of_chmod fa name then Inr gone
         else (case disk_read v fa name fs of None \<Rightarrow> Inr gone
           | Some r \<Rightarrow> (case disk_host v (dr_key r) of None \<Rightarrow> Inr gone
             | Some host \<Rightarrow>
               if disk_id v (dr_key r) \<noteq> i \<or> \<not> ce_expires_at (dr_entry r) > now \<or> body_bytes (dr_entry r) > dk_max_bytes d
               then Inr gone
               else disk_trim fa (d\<lparr>dk_entries := AList.update i \<lparr>dm_path = name, dm_host = host,
                   dm_expires_at = ce_expires_at (dr_entry r), dm_bytes = body_bytes (dr_entry r)\<rparr> (dk_entries d),
                   dk_bytes := dk_bytes d + body_bytes (dr_entry r)\<rparr>))))"

text \<open>The listing is what ReadDir returns over all batches, and whether it ends with an error.\<close>

fun disk_load :: "disk_env \<Rightarrow> os_faults \<Rightarrow> go_time \<Rightarrow> (string \<times> bool) list \<Rightarrow> error option \<Rightarrow> disk_cache \<Rightarrow> error + disk_cache" where
  "disk_load v fa now [] read_err d = (case read_err of None \<Rightarrow> Inr d | Some e \<Rightarrow> Inl e)"
| "disk_load v fa now (f # fs) read_err d =
     (case load_file v fa now f d of Inl e \<Rightarrow> Inl e | Inr d' \<Rightarrow> disk_load v fa now fs read_err d')"

definition new_disk_cache :: "disk_env \<Rightarrow> string \<Rightarrow> int \<Rightarrow> int \<Rightarrow> error option \<Rightarrow> go_time \<Rightarrow> (string \<times> bool) list \<Rightarrow>
    error option \<Rightarrow> files \<Rightarrow> error + disk_cache" where
  "new_disk_cache v dir max_entries max_bytes prepared now listing read_err fs =
     (if dir = [] \<or> CHR 0x00 \<in> set dir \<or> max_entries < 1 \<or> max_bytes < 1 then Inl CacheErrInvalid
      else case prepared of Some e \<Rightarrow> Inl e
      | None \<Rightarrow> disk_load v (dv_faults v now) now listing read_err
         \<lparr>dk_files = fs, dk_entries = [], dk_max_entries = nat max_entries, dk_max_bytes = max_bytes, dk_bytes = 0,
          dk_hits = 0, dk_misses = 0, dk_bypasses = 0, dk_expired = 0, dk_evictions = 0, dk_served = 0\<rparr>)"

end
