(* ===== verification/Cache_Store.thy ===== *)
theory Cache_Store
  imports Cache_Memory
begin

text \<open>The interface ResponseStore of internal/cache (memory.go and disk.go implement it) as a locale: what a
  store may answer, against an ideal cache that never forgets.  The memory cache is the first
  interpretation.\<close>

section \<open>Operations as steps\<close>

datatype cache_op = CacheGet cache_key | CacheBypass | CachePut cache_key cache_entry | CacheStats | CachePurge
  | CachePurgeDomain string

datatype cache_reply = ReplyEntry "cache_entry option" | ReplyStored bool | ReplyStats cache_stats
  | ReplyPurged "int \<times> int" | ReplyNone

definition memory_step :: "(string \<Rightarrow> string option) \<Rightarrow> go_time \<Rightarrow> cache_op \<Rightarrow> memory_cache \<Rightarrow> cache_reply \<times> memory_cache" where
  "memory_step hostname now q m = (case q of
     CacheGet k \<Rightarrow> map_prod ReplyEntry id (cache_get k now m)
   | CacheBypass \<Rightarrow> (ReplyNone, cache_bypass m)
   | CachePut k e \<Rightarrow> map_prod ReplyStored id (cache_put hostname now k e m)
   | CacheStats \<Rightarrow> map_prod ReplyStats id (cache_stats_of now m)
   | CachePurge \<Rightarrow> map_prod ReplyPurged id (cache_purge m)
   | CachePurgeDomain d \<Rightarrow> map_prod ReplyPurged id (cache_purge_domain d m))"

fun cache_run :: "(go_time \<Rightarrow> cache_op \<Rightarrow> 's \<Rightarrow> cache_reply \<times> 's) \<Rightarrow> (go_time \<times> cache_op) list \<Rightarrow> 's \<Rightarrow>
    cache_reply list \<times> 's" where
  "cache_run step [] s = ([], s)"
| "cache_run step ((now, q) # qs) s =
     (case step now q s of (r, s1) \<Rightarrow> (case cache_run step qs s1 of (rs, s2) \<Rightarrow> (r # rs, s2)))"

text \<open>The ideal cache: the response last stored under each key, whatever was evicted or purged since.\<close>

fun last_stored :: "(cache_op \<times> cache_reply) list \<Rightarrow> (string \<rightharpoonup> cache_entry) \<Rightarrow> string \<rightharpoonup> cache_entry" where
  "last_stored [] c = c"
| "last_stored ((CachePut k e, ReplyStored True) # h) c =
     last_stored h (c(cache_key_string k \<mapsto> e\<lparr>ce_host := []\<rparr>))"
| "last_stored (x # h) c = last_stored h c"

definition unhosted :: "cache_entry \<Rightarrow> cache_entry" where
  "unhosted e = e\<lparr>ce_host := []\<rparr>"

section \<open>The interface\<close>

locale response_store =
  fixes step :: "go_time \<Rightarrow> cache_op \<Rightarrow> 's \<Rightarrow> cache_reply \<times> 's"
    and contents :: "'s \<Rightarrow> string \<rightharpoonup> cache_entry"
    and ok :: "'s \<Rightarrow> bool"
    and admissible :: "cache_op \<Rightarrow> bool"
  assumes step_ok: "ok s \<Longrightarrow> ok (snd (step now q s))"
    and get_reply: "ok s \<Longrightarrow> step now (CacheGet k) s = (ReplyEntry (Some e), s') \<Longrightarrow>
      contents s (cache_key_string k) = Some e \<and> now < ce_expires_at e"
    and put_contents: "ok s \<Longrightarrow> admissible q \<Longrightarrow> q = CachePut k e \<Longrightarrow> step now q s = (ReplyStored True, s') \<Longrightarrow>
      contents s' (cache_key_string k) = Some x \<Longrightarrow> unhosted x = unhosted e"
    and keeps_contents: "ok s \<Longrightarrow> admissible q \<Longrightarrow> step now q s = (r, s') \<Longrightarrow> contents s' i = Some x \<Longrightarrow>
      (\<forall>k e. q = CachePut k e \<and> r = ReplyStored True \<longrightarrow> i \<noteq> cache_key_string k) \<Longrightarrow> contents s i = Some x"
begin

definition covered :: "'s \<Rightarrow> (string \<rightharpoonup> cache_entry) \<Rightarrow> bool" where
  "covered s c = (\<forall>i x. contents s i = Some x \<longrightarrow> c i = Some (unhosted x))"

lemma covered_step:
  assumes "ok s" "admissible q" "covered s c" "step now q s = (r, s')"
  shows "covered s' (last_stored [(q, r)] c)"
proof (cases "\<exists>k e. q = CachePut k e \<and> r = ReplyStored True")
  case True
  then obtain k e where q: "q = CachePut k e" "r = ReplyStored True" by blast
  have "(c(cache_key_string k \<mapsto> unhosted e)) i = Some (unhosted x)" if x: "contents s' i = Some x" for i x
  proof (cases "i = cache_key_string k")
    case True
    then show ?thesis using put_contents [OF assms(1,2) q(1)] assms(4) q(2) x by simp
  next
    case False
    then show ?thesis using keeps_contents [OF assms(1,2,4) x] q assms(3) by (simp add: covered_def)
  qed
  then show ?thesis by (simp add: covered_def q unhosted_def)
next
  case False
  then have "last_stored [(q, r)] c = c" by (cases "((q, r) # [], c)" rule: last_stored.cases) auto
  then show ?thesis using keeps_contents [OF assms(1,2,4)] assms(3) False by (auto simp: covered_def)
qed

lemma last_stored_cons: "last_stored (x # h) c = last_stored h (last_stored [x] c)"
  by (cases "(x # h, c)" rule: last_stored.cases) auto

lemma run_covered:
  assumes "ok s" "\<forall>(t, q)\<in>set qs. admissible q" "covered s c" "cache_run step qs s = (rs, s')"
  shows "ok s' \<and> covered s' (last_stored (zip (map snd qs) rs) c) \<and> length rs = length qs"
  using assms
proof (induction qs arbitrary: s c rs)
  case (Cons y qs)
  obtain now q where y: "y = (now, q)" by (cases y)
  obtain r s1 where s1: "step now q s = (r, s1)" by (cases "step now q s")
  obtain rs1 where rs1: "cache_run step qs s1 = (rs1, s')" "rs = r # rs1"
    using Cons.prems(4) y s1 by (auto split: prod.splits)
  have a: "admissible q" "\<forall>(t, q)\<in>set qs. admissible q" using Cons.prems(2) y by auto
  have "covered s1 (last_stored [(q, r)] c)" by (rule covered_step [OF Cons.prems(1) a(1) Cons.prems(3) s1])
  then have "ok s' \<and> covered s' (last_stored (zip (map snd qs) rs1) (last_stored [(q, r)] c)) \<and> length rs1 = length qs"
    using Cons.IH [OF _ a(2) _ rs1(1)] step_ok [OF Cons.prems(1), of now q] s1 by simp
  then show ?case by (simp add: y rs1(2) last_stored_cons [of "(q, r)" "zip (map snd qs) rs1" c])
qed simp

text \<open>What a store serves after any run is the response last stored under that key, and still fresh.\<close>

lemma served_was_stored:
  assumes "ok s" "contents s = (\<lambda>i. None)" "\<forall>(t, q)\<in>set qs. admissible q" "cache_run step qs s = (rs, s')"
    "step now (CacheGet k) s' = (ReplyEntry (Some e), s'')"
  shows "last_stored (zip (map snd qs) rs) (\<lambda>i. None) (cache_key_string k) = Some (unhosted e) \<and> now < ce_expires_at e"
proof -
  have "covered s (\<lambda>i. None)" using assms(2) by (simp add: covered_def)
  then have s': "ok s'" "covered s' (last_stored (zip (map snd qs) rs) (\<lambda>i. None))"
    using run_covered [OF assms(1,3) _ assms(4)] by blast+
  then show ?thesis using get_reply [OF s'(1) assms(5)] by (simp add: covered_def)
qed

end

section \<open>The memory cache\<close>

abbreviation storable :: "cache_entry \<Rightarrow> bool" where
  "storable e \<equiv> ce_expires_at e \<noteq> 0"

interpretation memory_table: expiring_table ce_expires_at body_bytes storable
  by unfold_locales (simp add: body_bytes_def)

definition memory_ok :: "memory_cache \<Rightarrow> bool" where
  "memory_ok m = (table_ok body_bytes storable (mc_entries m, mc_bytes m) \<and> 0 < mc_max_entries m \<and>
     length (mc_entries m) \<le> mc_max_entries m \<and> mc_bytes m \<le> mc_max_bytes m)"

lemma key_string_nonempty: "cache_key_string k \<noteq> []"
  by (cases "ck_client_id k") (simp_all add: cache_key_string_def)

lemma new_memory_cache_ok: "new_memory_cache n b = Inr m \<Longrightarrow> memory_ok m \<and> mc_entries m = [] \<and>
    mc_max_entries m = nat n \<and> mc_max_bytes m = b"
  by (auto simp: new_memory_cache_def memory_ok_def table_ok_def total_weight_def split: if_splits)

lemma filtered_ok:
  assumes "memory_ok m" "es = filter P (mc_entries m)" "b = mc_bytes m - total_weight body_bytes (filter (\<lambda>x. \<not> P x) (mc_entries m))"
  shows "memory_ok (m\<lparr>mc_entries := es, mc_bytes := b\<rparr>)"
proof -
  have "0 \<le> total_weight body_bytes (filter (\<lambda>x. \<not> P x) (mc_entries m))"
    using assms(1) by (intro memory_table.total_nonneg) (auto simp: memory_ok_def table_ok_def)
  moreover have "length es \<le> mc_max_entries m"
    using assms(1,2) le_trans [OF length_filter_le [of P "mc_entries m"]] by (simp add: memory_ok_def)
  ultimately show ?thesis
    using assms(1,3) assms(2) [symmetric] memory_table.total_filter [of P "mc_entries m"]
    by (auto simp: memory_ok_def table_ok_def distinct_map_filter)
qed

lemma memory_ok_counters:
  "memory_ok (m\<lparr>mc_hits := h\<rparr>) = memory_ok m" "memory_ok (m\<lparr>mc_misses := h\<rparr>) = memory_ok m"
  "memory_ok (m\<lparr>mc_bypasses := h\<rparr>) = memory_ok m" "memory_ok (m\<lparr>mc_expired := h\<rparr>) = memory_ok m"
  "memory_ok (m\<lparr>mc_evictions := h\<rparr>) = memory_ok m" "memory_ok (m\<lparr>mc_served := h\<rparr>) = memory_ok m"
  by (simp_all add: memory_ok_def)

lemma drop_expired_ok: "memory_ok m \<Longrightarrow> memory_ok (cache_drop_expired now except m)"
  by (simp only: cache_drop_expired_def memory_table.remove_expired_eq prod.case memory_ok_counters filtered_ok [OF _ refl refl])

lemma drop_expired_entries:
  "mc_entries (cache_drop_expired now except m) = filter (\<lambda>(i, e). i = except \<or> ce_expires_at e > now) (mc_entries m)"
  by (simp add: cache_drop_expired_def memory_table.remove_expired_eq)

text \<open>What an accepted or refused Put leaves.\<close>

lemma put_cases:
  assumes ok: "memory_ok m" and p: "cache_put hostname now k e m = (stored, m')"
  obtains (refused) "\<not> stored" "memory_ok m'"
      "\<forall>i. map_of (mc_entries m') i = map_of (mc_entries m) i \<or> map_of (mc_entries m') i = None"
  | (accepted) host es where "stored" "memory_ok m'" "cache_host hostname (ck_url k) = Some host" "storable e"
      "mc_entries m' = AList.update (cache_key_string k) (e\<lparr>ce_host := host\<rparr>) es"
      "\<forall>i. map_of es i = map_of (mc_entries m) i \<or> map_of es i = None"
      "\<forall>i x. map_of es i = Some x \<longrightarrow> i \<noteq> cache_key_string k \<longrightarrow> now < ce_expires_at x"
      "\<forall>i x j y. map_of (mc_entries m) i = Some x \<and> now < ce_expires_at x \<and> map_of es i = None \<and> map_of es j = Some y \<and>
         j \<noteq> cache_key_string k \<longrightarrow> sooner ce_expires_at (i, x) (j, y)"
proof (cases "cache_key_validate k \<noteq> None \<or> ce_expires_at e = 0 \<or> body_bytes e > mc_max_bytes m \<or>
    cache_host hostname (ck_url k) = None")
  case True
  then have "stored = False \<and> m' = m" using p by (auto simp: cache_put_def split: option.splits if_splits)
  then show thesis using refused ok by simp
next
  case False
  then obtain host where h: "cache_host hostname (ck_url k) = Some host" by auto
  let ?i = "cache_key_string k" and ?m = "cache_drop_expired now (cache_key_string k) m"
  let ?f = "map_of (mc_entries m) ?i"
  let ?o = "case ?f of None \<Rightarrow> 0 | Some e \<Rightarrow> body_bytes e"
  have m1: "memory_ok ?m" by (rule drop_expired_ok [OF ok])
  have caps: "mc_max_entries ?m = mc_max_entries m" "mc_max_bytes ?m = mc_max_bytes m"
    by (simp_all add: cache_drop_expired_def split: prod.splits)
  have dk: "distinct (keys_of (mc_entries m))" using ok by (simp add: memory_ok_def table_ok_def)
  have keep: "map_of (mc_entries ?m) j = (case map_of (mc_entries m) j of None \<Rightarrow> None
      | Some x \<Rightarrow> if j = ?i \<or> ce_expires_at x > now then Some x else None)" for j
    by (simp add: drop_expired_entries map_of_filter_distinct [OF dk] split: option.split)
  have fits: "0 < mc_max_entries m" "0 \<le> body_bytes e" "body_bytes e \<le> mc_max_bytes m"
    using ok False by (simp_all add: memory_ok_def body_bytes_def)
  have t: "table_ok body_bytes storable (mc_entries ?m, mc_bytes ?m)" using m1 by (simp add: memory_ok_def)
  have mi: "map_of (mc_entries ?m) ?i = ?f" by (simp add: keep split: option.splits)
  obtain es b where r: "make_room ce_expires_at body_bytes (mc_max_entries m) (mc_max_bytes m) ?i (?f \<noteq> None) ?o
        (body_bytes e) (mc_entries ?m, mc_bytes ?m) = (True, es, b)" "table_ok body_bytes storable (es, b)"
      "\<not> over_bound (mc_max_entries m) (mc_max_bytes m) (?f \<noteq> None) ?o (body_bytes e) (es, b)" "map_of es ?i = ?f"
      "\<forall>i. map_of es i = map_of (mc_entries ?m) i \<or> map_of es i = None"
      "\<forall>i x j y. map_of (mc_entries ?m) i = Some x \<and> map_of es i = None \<and> map_of es j = Some y \<and> j \<noteq> ?i \<longrightarrow>
        sooner ce_expires_at (i, x) (j, y)"
    using memory_table.make_room_ok [OF t fits, of "?f \<noteq> None" ?i ?o] mi by auto
  have h1: "body_bytes (e\<lparr>ce_host := host\<rparr>) = body_bytes e" by (simp add: body_bytes_def)
  have res: "stored = True" "m' = ?m\<lparr>mc_evictions := mc_evictions ?m + of_nat (length (mc_entries ?m) - length es),
      mc_entries := AList.update ?i (e\<lparr>ce_host := host\<rparr>) es, mc_bytes := b + body_bytes e - ?o\<rparr>"
    using p False h r(1) by (auto simp: cache_put_def Let_def)
  have u: "table_ok body_bytes storable (AList.update ?i (e\<lparr>ce_host := host\<rparr>) es, b + body_bytes e - ?o) \<and>
      length (AList.update ?i (e\<lparr>ce_host := host\<rparr>) es) = (if ?f = None then Suc (length es) else length es)"
    using memory_table.table_update [OF r(2), of ?o ?i "e\<lparr>ce_host := host\<rparr>"] False r(4) by (simp add: h1 key_string_nonempty)
  have "length es \<le> length (mc_entries ?m)"
    using r(2) by (intro submap_length [OF _ r(5)]) (simp add: table_ok_def)
  then have ok': "memory_ok m'"
    using u r(3) m1 fits(1) by (auto simp: memory_ok_def res(2) over_bound_def caps)
  show thesis
  proof (rule accepted [OF _ _ h, of es])
    have sub: "map_of es i = None \<or> (\<exists>x. map_of es i = Some x \<and> map_of (mc_entries m) i = Some x \<and> (i = ?i \<or> now < ce_expires_at x))" for i
      using r(5) [rule_format, of i] keep [of i] by (auto split: option.splits if_splits)
    then show "\<forall>i. map_of es i = map_of (mc_entries m) i \<or> map_of es i = None" by metis
    show "\<forall>i x. map_of es i = Some x \<longrightarrow> i \<noteq> ?i \<longrightarrow> now < ce_expires_at x"
      using sub by (metis option.inject option.distinct(1))
    show "\<forall>i x j y. map_of (mc_entries m) i = Some x \<and> now < ce_expires_at x \<and> map_of es i = None \<and> map_of es j = Some y \<and>
         j \<noteq> ?i \<longrightarrow> sooner ce_expires_at (i, x) (j, y)"
      using r(6) keep by (auto split: option.splits if_splits)
  qed (use ok' res False in simp_all)
qed

section \<open>The interpretation\<close>

definition memory_contents :: "memory_cache \<Rightarrow> string \<rightharpoonup> cache_entry" where
  "memory_contents m = map_of (mc_entries m)"

lemma get_ok: "memory_ok m \<Longrightarrow> memory_ok (snd (cache_get k now m))"
proof -
  assume ok: "memory_ok m"
  have "memory_ok (m\<lparr>mc_bytes := mc_bytes m - body_bytes e, mc_entries := AList.delete i (mc_entries m)\<rparr>)"
    if f: "map_of (mc_entries m) i = Some e" for i e
  proof -
    have dk: "distinct (keys_of (mc_entries m))" using ok by (simp add: memory_ok_def table_ok_def)
    have "0 \<le> body_bytes e" by (simp add: body_bytes_def)
    moreover have "length (AList.delete i (mc_entries m)) \<le> mc_max_entries m"
      using ok by (auto simp: memory_ok_def AList.delete_eq intro: le_trans [OF length_filter_le])
    ultimately show ?thesis using ok memory_table.total_delete [OF dk f]
      by (auto simp: memory_ok_def table_ok_def AList.delete_eq distinct_map_filter)
  qed
  then show "memory_ok (snd (cache_get k now m))" using ok
    by (auto simp: cache_get_def memory_ok_counters split: option.split)
qed

lemma filtered_contents: "map_of (filter P es) i = Some x \<Longrightarrow> distinct (keys_of es) \<Longrightarrow> map_of es i = Some x"
  by (simp add: map_of_filter_distinct split: option.splits if_splits)

lemma memory_step_ok:
  assumes "memory_ok m"
  shows "memory_ok (snd (memory_step hostname now q m))"
proof (cases q)
  case (CachePut k e)
  obtain stored m' where p: "cache_put hostname now k e m = (stored, m')" by fastforce
  then show ?thesis using put_cases [OF assms p] by (auto simp: memory_step_def CachePut)
next
  case CachePurge
  have "mc_bytes m = total_weight body_bytes (mc_entries m)" using assms by (simp add: memory_ok_def table_ok_def)
  then show ?thesis using filtered_ok [OF assms refl refl, of "\<lambda>x. False"]
    by (simp add: memory_step_def CachePurge cache_purge_def)
next
  case (CachePurgeDomain d)
  show ?thesis
    using filtered_ok [OF assms refl refl, of "\<lambda>(i, e). ce_host e \<noteq> to_lower (trim_suffix d ''.'')"]
    by (simp add: memory_step_def CachePurgeDomain cache_purge_domain_def Let_def case_prod_unfold)
qed (use assms in \<open>simp_all add: memory_step_def get_ok cache_bypass_def cache_stats_of_def Let_def drop_expired_ok memory_ok_counters\<close>)

lemma memory_get_cases:
  assumes "memory_ok m" "cache_get k now m = (r, m')"
  shows "(\<forall>e. r = Some e \<longrightarrow> memory_contents m (cache_key_string k) = Some e \<and> now < ce_expires_at e) \<and>
    (\<forall>i x. memory_contents m' i = Some x \<longrightarrow> memory_contents m i = Some x)"
  using assms by (auto simp: cache_get_def memory_contents_def map_simps split: option.splits if_splits)

lemma memory_keeps:
  assumes ok: "memory_ok m" and s: "memory_step hostname now q m = (r, m')" and x: "memory_contents m' i = Some x"
    and n: "\<forall>k e. q = CachePut k e \<and> r = ReplyStored True \<longrightarrow> i \<noteq> cache_key_string k"
  shows "memory_contents m i = Some x"
proof -
  have dk: "distinct (keys_of (mc_entries m))" using ok by (simp add: memory_ok_def table_ok_def)
  show ?thesis
  proof (cases q)
    case (CacheGet k)
    then show ?thesis using memory_get_cases [OF ok, of k now] s x by (cases "cache_get k now m") (auto simp: memory_step_def)
  next
    case (CachePut k e)
    obtain stored m1 where p: "cache_put hostname now k e m = (stored, m1)" by fastforce
    then have m': "m1 = m'" "r = ReplyStored stored" using s CachePut by (simp_all add: memory_step_def)
    show ?thesis using ok p
    proof (cases rule: put_cases)
      case refused
      then show ?thesis using x m' by (metis memory_contents_def option.distinct(1))
    next
      case (accepted host es)
      then have "i \<noteq> cache_key_string k" using n CachePut m' by blast
      then have "map_of es i = Some x" using x m' accepted(5) by (simp add: memory_contents_def update_conv')
      then show ?thesis using accepted(6) by (metis memory_contents_def option.distinct(1))
    qed
  qed (use s x filtered_contents [OF _ dk, of _ i x] in
      \<open>auto simp: memory_step_def memory_contents_def cache_bypass_def cache_stats_of_def Let_def drop_expired_entries
        cache_purge_def cache_purge_domain_def\<close>)
qed

lemma memory_puts:
  assumes ok: "memory_ok m" and q: "q = CachePut k e" and s: "memory_step hostname now q m = (ReplyStored True, m')"
    and x: "memory_contents m' (cache_key_string k) = Some x"
  shows "unhosted x = unhosted e"
proof -
  have p: "cache_put hostname now k e m = (True, m')" using s q by (cases "cache_put hostname now k e m") (simp add: memory_step_def)
  show ?thesis using ok p
  proof (cases rule: put_cases)
    case (accepted host es)
    then have "x = e\<lparr>ce_host := host\<rparr>" using x by (simp add: memory_contents_def update_conv')
    then show ?thesis by (simp add: unhosted_def)
  qed simp
qed

interpretation memory_store: response_store "memory_step hostname" memory_contents memory_ok "\<lambda>q. True" for hostname
proof
  show "memory_step hostname now (CacheGet k) s = (ReplyEntry (Some e), s') \<Longrightarrow> memory_ok s \<Longrightarrow>
      memory_contents s (cache_key_string k) = Some e \<and> now < ce_expires_at e" for now k s e s'
    using memory_get_cases [of s k now] by (cases "cache_get k now s") (simp add: memory_step_def)
qed (use memory_step_ok memory_keeps memory_puts in blast)+

end
