(* ===== verification/Cache_Disk_Laws.thy ===== *)
theory Cache_Disk_Laws
  imports Cache_Disk Cache_Store
begin

text \<open>The disk cache keeps its index, its bounds and its files consistent, whatever the file system refuses, and
  implements the interface of the response stores.\<close>

interpretation disk_table: expiring_table dm_expires_at dm_bytes "\<lambda>m. 0 \<le> dm_bytes m"
  by unfold_locales

definition disk_path :: "string \<Rightarrow> string" where
  "disk_path i = i @ ''.cache''"

definition disk_backup :: "string \<Rightarrow> string" where
  "disk_backup p = p @ ''.old''"

definition disk_ok :: "disk_cache \<Rightarrow> bool" where
  "disk_ok d = (table_ok dm_bytes (\<lambda>m. 0 \<le> dm_bytes m) (dk_entries d, dk_bytes d) \<and> 0 < dk_max_entries d \<and>
     length (dk_entries d) \<le> dk_max_entries d \<and> dk_bytes d \<le> dk_max_bytes d \<and>
     (\<forall>(i, m)\<in>set (dk_entries d). dm_path m = disk_path i))"

section \<open>Paths\<close>

lemma disk_path_inj [simp]: "disk_path i = disk_path j \<longleftrightarrow> i = j"
  by (simp add: disk_path_def)

lemma disk_backup_inj [simp]: "disk_backup p = disk_backup q \<longleftrightarrow> p = q"
  by (simp add: disk_backup_def)

lemma last_neq: "last s \<noteq> last t \<Longrightarrow> s \<noteq> t"
  by auto

lemma disk_paths_differ [simp]: "disk_path i \<noteq> disk_backup p" "disk_backup p \<noteq> disk_path i"
  by (rule last_neq, simp add: disk_path_def disk_backup_def)+

definition is_temporary :: "string \<Rightarrow> bool" where
  "is_temporary t = (\<forall>p. t \<noteq> disk_path p \<and> t \<noteq> disk_backup p)"

lemma temporary_name: "is_temporary (j @ ''-'' @ n @ ''.tmp'')"
proof -
  have "last (j @ ''-'' @ n @ ''.tmp'') \<noteq> last (disk_path p)" "last (j @ ''-'' @ n @ ''.tmp'') \<noteq> last (disk_backup p)" for p
    by (simp_all add: disk_path_def disk_backup_def)
  then show ?thesis unfolding is_temporary_def using last_neq by blast
qed

lemma temporary_differs [simp]:
  "is_temporary t \<Longrightarrow> t \<noteq> disk_path p" "is_temporary t \<Longrightarrow> t \<noteq> disk_backup p"
  "is_temporary t \<Longrightarrow> disk_path p \<noteq> t" "is_temporary t \<Longrightarrow> disk_backup p \<noteq> t"
  by (auto simp: is_temporary_def)

section \<open>What the directory holds for an entry\<close>

text \<open>The record of an entry is its file, or the backup while its file is being replaced.\<close>

definition held :: "files \<Rightarrow> string \<Rightarrow> string option" where
  "held fs i = (if fs (disk_path i) = None then fs (disk_backup (disk_path i)) else fs (disk_path i))"

definition held_le :: "files \<Rightarrow> files \<Rightarrow> string \<Rightarrow> bool" where
  "held_le fs' fs i = (held fs' i = held fs i \<or> held fs' i = None)"

lemma held_le_refl [simp]: "held_le fs fs i"
  by (simp add: held_le_def)

lemma held_le_trans: "held_le fs2 fs1 i \<Longrightarrow> held_le fs1 fs i \<Longrightarrow> held_le fs2 fs i"
  by (auto simp: held_le_def)

lemma remove_held: "p \<noteq> disk_path i \<Longrightarrow> held_le (snd (os_remove fa p fs)) fs i"
  by (auto simp: os_remove_def held_le_def held_def split: option.splits)

lemma write_held: "is_temporary t \<Longrightarrow> held (fs(t \<mapsto> x)) i = held fs i"
  by (simp add: held_def fun_upd_def)

lemma os_remove_other [simp]: "p \<noteq> a \<Longrightarrow> snd (os_remove fa a fs) p = fs p"
  by (simp add: os_remove_def)

lemma os_rename_other [simp]: "p \<noteq> a \<Longrightarrow> p \<noteq> b \<Longrightarrow> snd (os_rename fa a b fs) p = fs p"
  by (simp add: os_rename_def split: option.split)

text \<open>Every state that a replacement passes through.\<close>

lemma replace_trace_other:
  assumes "p \<noteq> t" "p \<noteq> disk_path j" "p \<noteq> disk_backup (disk_path j)" "g \<in> set (snd (replace_trace fa t (disk_path j) exists fs))"
  shows "g p = fs p"
  using assms
  by (auto simp: replace_trace_def disk_backup_def [symmetric] Let_def case_prod_unfold split: if_splits os_result.splits)

lemma replace_last: "disk_replace fa t p exists fs = (ok, fs') \<Longrightarrow>
    ok = fst (replace_trace fa t p exists fs) \<and> fs' \<in> set (snd (replace_trace fa t p exists fs))"
  by (auto simp: disk_replace_def replace_trace_def Let_def case_prod_unfold split: if_splits os_result.splits)

lemma replace_other:
  assumes "disk_replace fa t (disk_path j) exists fs = (ok, fs')" "i \<noteq> j" "is_temporary t"
  shows "held fs' i = held fs i"
  using replace_trace_other [of "disk_path i" t j fs' fa exists fs]
    replace_trace_other [of "disk_backup (disk_path i)" t j fs' fa exists fs] replace_last [OF assms(1)] assms(2,3)
  by (simp add: held_def)

lemma rename_cases:
  obtains "os_rename fa a b fs = (OsFailed, fs)" | "os_rename fa a b fs = (OsMissing, fs)" "fs a = None"
  | x where "os_rename fa a b fs = (OsOk, fs(a := None, b \<mapsto> x))" "fs a = Some x"
  by (cases "of_rename fa a b"; cases "fs a") (auto simp: os_rename_def)

lemma rename_ok: "fst (os_rename fa a b fs) = OsOk \<Longrightarrow> snd (os_rename fa a b fs) b = fs a \<and> fs a \<noteq> None"
  by (cases rule: rename_cases [of fa a b fs]) simp_all

definition kept :: "string \<Rightarrow> files \<Rightarrow> files \<Rightarrow> bool" where
  "kept i fs g = (held_le g fs i \<and> (fs (disk_path i) \<noteq> None \<longrightarrow> held g i = held fs i))"

text \<open>After every call of a replacement the directory holds the old record, the new one or none.\<close>

lemma replace_trace_self:
  assumes t: "is_temporary t" and g: "g \<in> set (snd (replace_trace fa t (disk_path j) exists fs))"
  shows "kept j fs g \<or> (fst (replace_trace fa t (disk_path j) exists fs) \<and> held g j = fs t)"
proof (cases exists)
  case False
  then show ?thesis using t g
    by (cases rule: rename_cases [of fa t "disk_path j" fs]) (auto simp: replace_trace_def kept_def held_le_def held_def)
next
  case True
  let ?b = "disk_backup (disk_path j)"
  define fs1 where "fs1 = snd (os_remove fa ?b fs)"
  have l1: "kept j fs fs1" by (simp add: fs1_def kept_def remove_held) (simp add: held_def)
  have t1: "fs1 t = fs t" using t by (simp add: fs1_def)
  define fs2 where "fs2 = snd (os_rename fa (disk_path j) ?b fs1)"
  have h2: "held fs2 j = held fs1 j" "fs2 t = fs t"
    using t t1 unfolding fs2_def
    by (cases rule: rename_cases [of fa "disk_path j" ?b fs1]; simp add: held_def)+
  have l2: "kept j fs fs2" using l1 h2(1) by (simp add: kept_def held_le_def)
  show ?thesis
  proof (cases "fst (os_rename fa (disk_path j) ?b fs1) = OsFailed")
    case True
    then have "snd (replace_trace fa t (disk_path j) exists fs) = [fs, fs1, fs2]"
      using \<open>exists\<close> by (simp add: replace_trace_def Let_def case_prod_unfold fs1_def fs2_def disk_backup_def)
    then show ?thesis using g l1 l2 by (auto simp: kept_def)
  next
    case False
    then have none: "fs2 (disk_path j) = None"
      unfolding fs2_def by (cases rule: rename_cases [of fa "disk_path j" ?b fs1]) simp_all
    define r fs3 where r: "r = fst (os_rename fa t (disk_path j) fs2)" and fs3: "fs3 = snd (os_rename fa t (disk_path j) fs2)"
    have tr: "replace_trace fa t (disk_path j) exists fs = (if r = OsOk then (True, [fs, fs1, fs2, fs3, snd (os_remove fa ?b fs3)])
        else (False, [fs, fs1, fs2, fs3, snd (os_rename fa ?b (disk_path j) fs3)]))"
      using \<open>exists\<close> False
      by (auto simp: replace_trace_def Let_def case_prod_unfold fs1_def fs2_def r fs3 disk_backup_def split: os_result.splits)
    have r3: "r \<noteq> OsOk \<longrightarrow> fs3 = fs2"
      unfolding r fs3 by (cases rule: rename_cases [of fa t "disk_path j" fs2]) simp_all
    have restored: "held (snd (os_rename fa ?b (disk_path j) fs2)) j = held fs2 j"
      using none by (cases rule: rename_cases [of fa ?b "disk_path j" fs2]) (simp_all add: held_def)
    show ?thesis
    proof (cases "r = OsOk")
      case True
      then have f3: "fs3 (disk_path j) = fs t" "fs t \<noteq> None"
        unfolding r fs3 using rename_ok [of fa t "disk_path j" fs2] h2(2) by simp_all
      then show ?thesis using g l1 l2 True by (auto simp: tr kept_def held_def)
    next
      case False
      then show ?thesis using g l1 l2 r3 restored by (auto simp: tr kept_def held_le_def)
    qed
  qed
qed

lemma replace_refused:
  assumes "disk_replace fa t (disk_path j) exists fs = (False, fs')" "is_temporary t"
  shows "held_le fs' fs j"
  using replace_trace_self [OF assms(2), of fs' fa j exists fs] replace_last [OF assms(1)] by (simp add: kept_def)

lemma replace_accepted:
  assumes "disk_replace fa t (disk_path j) exists fs = (True, fs')" "is_temporary t"
  shows "fs' (disk_path j) = fs t \<and> fs t \<noteq> None"
proof (cases exists)
  case False
  then show ?thesis using assms(1) rename_ok [of fa t "disk_path j" fs]
    by (auto simp: disk_replace_def replace_trace_def case_prod_unfold)
next
  case True
  let ?f = "snd (os_rename fa (disk_path j) (disk_backup (disk_path j)) (snd (os_remove fa (disk_backup (disk_path j)) fs)))"
  have f: "?f t = fs t" using assms(2) by simp
  have "fst (os_rename fa t (disk_path j) ?f) = OsOk \<and>
      fs' = snd (os_remove fa (disk_backup (disk_path j)) (snd (os_rename fa t (disk_path j) ?f)))"
    using assms(1) True
    by (auto simp: disk_replace_def replace_trace_def case_prod_unfold Let_def disk_backup_def [symmetric]
        split: os_result.splits)
  then show ?thesis using rename_ok [of fa t "disk_path j" ?f] f by simp
qed

section \<open>The index shrinks\<close>

definition disk_sub :: "disk_cache \<Rightarrow> disk_cache \<Rightarrow> bool" where
  "disk_sub d' d = (\<forall>i m. map_of (dk_entries d') i = Some m \<longrightarrow> map_of (dk_entries d) i = Some m \<and>
     held_le (dk_files d') (dk_files d) i)"

lemma disk_sub_refl [simp]: "disk_sub d d"
  by (simp add: disk_sub_def)

lemma disk_sub_trans: "disk_sub d2 d1 \<Longrightarrow> disk_sub d1 d \<Longrightarrow> disk_sub d2 d"
  unfolding disk_sub_def using held_le_trans by blast

lemma disk_sub_more:
  "dk_entries e = dk_entries e' \<Longrightarrow> dk_files e = dk_files e' \<Longrightarrow> disk_sub e d = disk_sub e' d"
  by (simp add: disk_sub_def)

lemma disk_ok_more:
  "dk_entries e = dk_entries d \<Longrightarrow> dk_bytes e = dk_bytes d \<Longrightarrow> dk_max_entries e = dk_max_entries d \<Longrightarrow>
   dk_max_bytes e = dk_max_bytes d \<Longrightarrow> disk_ok e = disk_ok d"
  by (simp add: disk_ok_def)

lemma disk_meta_ok: "disk_ok d \<Longrightarrow> map_of (dk_entries d) i = Some m \<Longrightarrow> dm_path m = disk_path i \<and> 0 \<le> dm_bytes m"
  using map_of_SomeD [of "dk_entries d" i m] by (fastforce simp: disk_ok_def table_ok_def)

text \<open>Removing an entry together with its file.\<close>

lemma removed_ok:
  assumes ok: "disk_ok d" and m: "map_of (dk_entries d) i = Some m"
    and e: "dk_entries e = AList.delete i (dk_entries d)" "dk_bytes e = dk_bytes d - dm_bytes m"
      "dk_max_entries e = dk_max_entries d" "dk_max_bytes e = dk_max_bytes d" "dk_files e = snd (os_remove fa (dm_path m) (dk_files d))"
  shows "disk_ok e \<and> disk_sub e d"
proof -
  have dk: "distinct (keys_of (dk_entries d))" using ok by (simp add: disk_ok_def table_ok_def)
  have "length (AList.delete i (dk_entries d)) \<le> dk_max_entries d"
    using ok by (auto simp: disk_ok_def AList.delete_eq intro: le_trans [OF length_filter_le])
  then have "disk_ok e" using ok disk_table.total_delete [OF dk m] disk_meta_ok [OF ok m]
    by (auto simp: disk_ok_def table_ok_def AList.delete_eq distinct_map_filter e)
  moreover have "disk_sub e d"
    using disk_meta_ok [OF ok m] by (auto simp: disk_sub_def e map_simps intro!: remove_held split: if_splits)
  ultimately show ?thesis ..
qed

lemma drop_ok:
  "disk_ok d \<Longrightarrow> map_of (dk_entries d) i = Some m \<Longrightarrow> disk_ok (disk_drop fa i m d) \<and> disk_sub (disk_drop fa i m d) d"
  by (rule removed_ok) (simp_all add: disk_drop_def)

lemma disk_counters:
  "disk_ok (d\<lparr>dk_hits := h\<rparr>) = disk_ok d" "disk_ok (d\<lparr>dk_misses := h\<rparr>) = disk_ok d"
  "disk_ok (d\<lparr>dk_bypasses := h\<rparr>) = disk_ok d" "disk_ok (d\<lparr>dk_expired := h\<rparr>) = disk_ok d"
  "disk_ok (d\<lparr>dk_evictions := h\<rparr>) = disk_ok d" "disk_ok (d\<lparr>dk_served := h\<rparr>) = disk_ok d"
  "disk_ok (d\<lparr>dk_files := fs\<rparr>) = disk_ok d"
  "disk_sub (d\<lparr>dk_hits := h\<rparr>) c = disk_sub d c" "disk_sub (d\<lparr>dk_misses := h\<rparr>) c = disk_sub d c"
  "disk_sub (d\<lparr>dk_bypasses := h\<rparr>) c = disk_sub d c" "disk_sub (d\<lparr>dk_expired := h\<rparr>) c = disk_sub d c"
  "disk_sub (d\<lparr>dk_evictions := h\<rparr>) c = disk_sub d c" "disk_sub (d\<lparr>dk_served := h\<rparr>) c = disk_sub d c"
  by (simp_all add: disk_ok_def disk_sub_def)

text \<open>The caps of a cache never change.\<close>

definition same_caps :: "disk_cache \<Rightarrow> disk_cache \<Rightarrow> bool" where
  "same_caps d' d = (dk_max_entries d' = dk_max_entries d \<and> dk_max_bytes d' = dk_max_bytes d)"

text \<open>What each helper of Put and Get does to the cache, as one step.\<close>

definition disk_less :: "disk_cache \<Rightarrow> disk_cache \<Rightarrow> bool" where
  "disk_less d' d = (disk_ok d' \<and> disk_sub d' d \<and> same_caps d' d \<and>
     (\<forall>t. is_temporary t \<longrightarrow> dk_files d' t = dk_files d t))"

lemma disk_less_refl: "disk_ok d \<Longrightarrow> disk_less d d"
  by (simp add: disk_less_def same_caps_def)

lemma disk_less_trans: "disk_less d2 d1 \<Longrightarrow> disk_less d1 d \<Longrightarrow> disk_less d2 d"
  unfolding disk_less_def same_caps_def using disk_sub_trans by metis

lemma drop_less:
  "disk_ok d \<Longrightarrow> map_of (dk_entries d) i = Some m \<Longrightarrow> disk_less (disk_drop fa i m d) d"
  using drop_ok [of d i m fa] disk_meta_ok [of d i m] by (simp add: disk_less_def same_caps_def disk_drop_def)

lemma disk_less_counters:
  "disk_less (d\<lparr>dk_hits := h\<rparr>) c = disk_less d c" "disk_less (d\<lparr>dk_misses := h\<rparr>) c = disk_less d c"
  "disk_less (d\<lparr>dk_bypasses := h\<rparr>) c = disk_less d c" "disk_less (d\<lparr>dk_expired := h\<rparr>) c = disk_less d c"
  "disk_less (d\<lparr>dk_evictions := h\<rparr>) c = disk_less d c" "disk_less (d\<lparr>dk_served := h\<rparr>) c = disk_less d c"
  by (simp_all add: disk_less_def disk_counters same_caps_def)

text \<open>A loop over the entries that the cache had when it started.\<close>

lemma fold_less:
  assumes f: "\<And>i m e. (i, m) \<in> set xs \<Longrightarrow> disk_ok e \<Longrightarrow> map_of (dk_entries e) i = Some m \<Longrightarrow>
      disk_less (f (i, m) e) e \<and> (\<forall>j. j \<noteq> i \<longrightarrow> map_of (dk_entries (f (i, m) e)) j = map_of (dk_entries e) j)"
    and d: "disk_ok d" "distinct (keys_of xs)" "\<forall>(i, m)\<in>set xs. map_of (dk_entries d) i = Some m"
  shows "disk_less (fold f xs d) d"
  using assms
proof (induction xs arbitrary: d)
  case Nil
  then show ?case by (simp add: disk_less_refl)
next
  case (Cons x xs)
  obtain i m where x: "x = (i, m)" by (cases x)
  have m: "map_of (dk_entries d) i = Some m" using Cons.prems(4) x by simp
  have s: "disk_less (f x d) d" "\<forall>j. j \<noteq> i \<longrightarrow> map_of (dk_entries (f x d)) j = map_of (dk_entries d) j"
    using Cons.prems(1) [OF _ Cons.prems(2) m] x by simp_all
  have "\<forall>(j, n)\<in>set xs. map_of (dk_entries (f x d)) j = Some n"
  proof clarify
    fix j n assume j: "(j, n) \<in> set xs"
    then have "j \<noteq> i" using Cons.prems(3) x by force
    then show "map_of (dk_entries (f x d)) j = Some n" using s(2) Cons.prems(4) j by auto
  qed
  then have "disk_less (fold f xs (f x d)) (f x d)"
    using Cons.prems(1,3) s(1) x by (intro Cons.IH) (auto simp: disk_less_def)
  then show ?case using disk_less_trans [OF _ s(1)] by simp
qed

lemma disk_remove_expired_less: "disk_ok d \<Longrightarrow> disk_less (disk_remove_expired fa now except d) d"
proof -
  assume ok: "disk_ok d"
  have dk: "distinct (keys_of (dk_entries d))" using ok by (simp add: disk_ok_def table_ok_def)
  show ?thesis unfolding disk_remove_expired_def
  proof (rule fold_less [OF _ ok dk])
    fix i m e assume "disk_ok e" "map_of (dk_entries e) i = Some m"
    then show "disk_less (expire_one fa now except (i, m) e) e \<and>
        (\<forall>j. j \<noteq> i \<longrightarrow> map_of (dk_entries (expire_one fa now except (i, m) e)) j = map_of (dk_entries e) j)"
      using drop_less [of e i m fa] by (simp add: expire_one_def disk_less_counters disk_less_refl) (simp add: disk_drop_def map_simps)
  qed (use dk in auto)
qed

text \<open>The entry of the key at hand stays during removal and eviction.\<close>

lemma disk_remove_expired_keeps: "map_of (dk_entries (disk_remove_expired fa now except d)) except = map_of (dk_entries d) except"
proof -
  have "map_of (dk_entries (fold (expire_one fa now except) xs d)) except = map_of (dk_entries d) except" for xs
    by (induction xs arbitrary: d) (simp_all add: expire_one_def disk_drop_def map_simps)
  then show ?thesis by (simp add: disk_remove_expired_def)
qed

lemma evict_some_less:
  assumes ok: "disk_ok d" and e: "disk_evict fa except d = Some d'"
  shows "disk_less d' d \<and> map_of (dk_entries d') except = map_of (dk_entries d) except"
proof -
  obtain c u where v: "victim dm_expires_at except (dk_entries d) ([], 0) = (c, u)" by fastforce
  have t: "[] \<notin> set (keys_of (dk_entries d))" "distinct (keys_of (dk_entries d))" using ok by (simp_all add: disk_ok_def table_ok_def)
  have c: "c \<noteq> []" using e v by (auto simp: disk_evict_def split: list.splits)
  then obtain m where m: "map_of (dk_entries d) c = Some m" "c \<noteq> except"
    using victim_cases [OF v] t(2) by auto
  have "dk_entries d' = AList.delete c (dk_entries d)" "dk_bytes d' = dk_bytes d - dm_bytes m" "same_caps d' d"
      "dk_files d' = snd (os_remove fa (dm_path m) (dk_files d))"
    using e v c m by (auto simp: disk_evict_def Let_def same_caps_def split: list.splits prod.splits os_result.splits)
  then show ?thesis using removed_ok [OF ok m(1), of d' fa] m(2) disk_meta_ok [OF ok m(1)]
    by (simp add: disk_less_def same_caps_def map_simps)
qed

lemma disk_make_room_less:
  assumes "disk_ok d" "disk_make_room fa i exists old new d = (room, d')"
  shows "disk_less d' d \<and> map_of (dk_entries d') i = map_of (dk_entries d) i \<and>
    (room \<longrightarrow> \<not> over_bound (dk_max_entries d') (dk_max_bytes d') exists old new (dk_entries d', dk_bytes d'))"
  using assms
proof (induction fa i exists old new d rule: disk_make_room.induct)
  case (1 fa i exists old new d)
  show ?case
  proof (cases "over_bound (dk_max_entries d) (dk_max_bytes d) exists old new (dk_entries d, dk_bytes d)")
    case False
    then have "room" "d' = d" using 1(3) by (subst (asm) disk_make_room.simps, simp)+
    then show ?thesis using False 1(2) by (simp add: disk_less_refl)
  next
    case True
    show ?thesis
    proof (cases "disk_evict fa i d")
      case None
      then have "\<not> room" "d' = d" using True 1(3) by (subst (asm) disk_make_room.simps, simp)+
      then show ?thesis using 1(2) by (simp add: disk_less_refl)
    next
      case (Some d1)
      have l: "disk_less d1 d \<and> map_of (dk_entries d1) i = map_of (dk_entries d) i" by (rule evict_some_less [OF 1(2) Some])
      have "disk_make_room fa i exists old new d1 = (room, d')" using True Some 1(3) by (subst (asm) disk_make_room.simps) simp
      then show ?thesis using 1(1) [OF True Some] l disk_less_trans [of d' d1 d] by (auto simp: disk_less_def)
    qed
  qed
qed

lemma disk_trim_bounds:
  assumes "disk_trim fa d = Inr d'"
  shows "length (dk_entries d') \<le> dk_max_entries d \<and> dk_bytes d' \<le> dk_max_bytes d"
  using assms
proof (induction fa d rule: disk_trim.induct)
  case (1 fa d)
  show ?case
  proof (cases "length (dk_entries d) > dk_max_entries d \<or> dk_bytes d > dk_max_bytes d")
    case False
    then show ?thesis using 1(2) by (subst (asm) disk_trim.simps) auto
  next
    case True
    then obtain d1 where e: "disk_evict fa [] d = Some d1" "disk_trim fa d1 = Inr d'"
      using 1(2) by (subst (asm) disk_trim.simps) (auto split: option.splits)
    then show ?thesis using 1(1) [OF True e] disk_evict_entries [OF e(1)] by simp
  qed
qed

section \<open>The interpretation\<close>

text \<open>The JSON codec keeps a record whose text is ASCII and whose maps are written in the order of their keys;
  a digest has 32 bytes.\<close>

definition canonical :: "(string \<times> 'v) list \<Rightarrow> bool" where
  "canonical h = (sorted (keys_of h) \<and> distinct (keys_of h))"

definition ascii :: "string \<Rightarrow> bool" where
  "ascii s = list_all (\<lambda>c. of_char c < (128::nat)) s"

definition portable :: "cache_key \<Rightarrow> cache_entry \<Rightarrow> bool" where
  "portable k e = (canonical (ck_vary k) \<and> canonical (ce_header e) \<and>
     list_all ascii [ck_client_id k, ck_session_hash k, ck_route_id k, ck_proxy_id k, ck_policy_id k, ck_rule_id k,
       ck_method k, ck_url k] \<and> list_all (\<lambda>(n, x). ascii n \<and> ascii x) (ck_vary k) \<and>
     list_all (\<lambda>(n, xs). ascii n \<and> list_all ascii xs) (ce_header e))"

definition disk_env_ok :: "disk_env \<Rightarrow> bool" where
  "disk_env_ok v = ((\<forall>s. length (dv_sha256 v s) = 32) \<and>
     (\<forall>r data. portable (dr_key r) (dr_entry r) \<and> ce_host (dr_entry r) = [] \<and> dv_encode v r = Some data \<longrightarrow>
        dv_decode v data = Some r))"

fun disk_admissible :: "cache_op \<Rightarrow> bool" where
  "disk_admissible (CachePut k e) = portable k e"
| "disk_admissible q = True"

definition disk_step :: "disk_env \<Rightarrow> go_time \<Rightarrow> cache_op \<Rightarrow> disk_cache \<Rightarrow> cache_reply \<times> disk_cache" where
  "disk_step v now q d = (case q of
     CacheGet k \<Rightarrow> map_prod ReplyEntry id (disk_get v k now d)
   | CacheBypass \<Rightarrow> (ReplyNone, disk_bypass d)
   | CachePut k e \<Rightarrow> map_prod ReplyStored id (disk_put v now k e d)
   | CacheStats \<Rightarrow> map_prod ReplyStats id (disk_stats v now d)
   | CachePurge \<Rightarrow> map_prod ReplyPurged id (disk_purge (dv_faults v now) d)
   | CachePurgeDomain x \<Rightarrow> map_prod ReplyPurged id (disk_purge_domain (dv_faults v now) x d))"

text \<open>What the cache can serve under a key.\<close>

definition disk_contents :: "disk_env \<Rightarrow> disk_cache \<Rightarrow> string \<rightharpoonup> cache_entry" where
  "disk_contents v d s = (let i = hex_encode (dv_sha256 v s) in
     case map_of (dk_entries d) i of None \<Rightarrow> None | Some m \<Rightarrow>
     (case held (dk_files d) i of None \<Rightarrow> None | Some data \<Rightarrow>
       (case dv_decode v data of None \<Rightarrow> None | Some r \<Rightarrow>
          if cache_key_string (dr_key r) = s then Some (dr_entry r) else None)))"

lemma contents_sub: "disk_sub d' d \<Longrightarrow> disk_contents v d' s = Some x \<Longrightarrow> disk_contents v d s = Some x"
proof -
  assume s: "disk_sub d' d" and c: "disk_contents v d' s = Some x"
  let ?i = "hex_encode (dv_sha256 v s)"
  obtain m data where m: "map_of (dk_entries d') ?i = Some m" "held (dk_files d') ?i = Some data"
    using c by (auto simp: disk_contents_def Let_def split: option.splits)
  then have "map_of (dk_entries d) ?i = Some m" "held (dk_files d) ?i = Some data"
    using s unfolding disk_sub_def held_le_def by (metis option.distinct(1))+
  then show ?thesis using c m by (simp add: disk_contents_def)
qed

lemma disk_id_nonempty: "disk_env_ok v \<Longrightarrow> disk_id v k \<noteq> []"
proof -
  assume "disk_env_ok v"
  then have "length (dv_sha256 v (cache_key_string k)) = 32" by (simp add: disk_env_ok_def)
  then show ?thesis by (cases "dv_sha256 v (cache_key_string k)") (simp_all add: disk_id_def hex_encode_def)
qed

lemma disk_get_ok:
  assumes "disk_ok d" "disk_get v k now d = (r, d')"
  shows "disk_less d' d \<and> (\<forall>e. r = Some e \<longrightarrow> disk_contents v d (cache_key_string k) = Some e \<and> now < ce_expires_at e)"
proof -
  have same: "disk_less d d" by (rule disk_less_refl [OF assms(1)])
  show ?thesis
  proof (cases "cache_key_validate k \<noteq> None \<or> map_of (dk_entries d) (disk_id v k) = None")
    case True
    then show ?thesis using assms(2) same by (auto simp: disk_get_def Let_def disk_less_counters split: if_splits)
  next
    case False
    then obtain m where m: "map_of (dk_entries d) (disk_id v k) = Some m" by auto
    let ?fa = "dv_faults v now"
    have less: "disk_less (disk_drop ?fa (disk_id v k) m d) d" by (rule drop_less [OF assms(1) m])
    have path: "dm_path m = disk_path (disk_id v k)" using disk_meta_ok [OF assms(1) m] by simp
    show ?thesis
    proof (cases "now < dm_expires_at m")
      case False
      then show ?thesis using assms(2) less m \<open>\<not> (cache_key_validate k \<noteq> None \<or> _)\<close>
        by (auto simp: disk_get_def Let_def disk_less_counters)
    next
      case True
      note get = assms(2) [unfolded disk_get_def Let_def]
      show ?thesis
      proof (cases "disk_read v ?fa (dm_path m) (dk_files d)")
        case None
        then show ?thesis using get less m True False by (auto simp: disk_less_counters)
      next
        case (Some x)
        show ?thesis
        proof (cases "disk_id v (dr_key x) \<noteq> disk_id v k \<or> cache_key_string (dr_key x) \<noteq> cache_key_string k \<or>
            ce_expires_at (dr_entry x) \<noteq> dm_expires_at m \<or> \<not> ce_expires_at (dr_entry x) > now \<or>
            body_bytes (dr_entry x) \<noteq> dm_bytes m")
          case t: True
          then have "r = None \<and> (\<exists>h. d' = (disk_drop ?fa (disk_id v k) m d)\<lparr>dk_misses := h\<rparr>)"
            using get m True False Some by (auto simp: if_P [OF t])
          then show ?thesis using less by (auto simp: disk_less_counters)
        next
          case f: False
          then have r: "r = Some (dr_entry x)" "\<exists>h h2. d' = d\<lparr>dk_hits := h, dk_served := h2\<rparr>"
            using get m True False Some by (auto simp: if_not_P [OF f])
          obtain data where "dk_files d (disk_path (disk_id v k)) = Some data" "dv_decode v data = Some x"
            using Some by (auto simp: disk_read_def path split: option.splits if_splits)
          then have "disk_contents v d (cache_key_string k) = Some (dr_entry x)"
            using m f by (simp add: disk_contents_def disk_id_def held_def)
          then show ?thesis using r same f by (auto simp: disk_less_counters)
        qed
      qed
    qed
  qed
qed

text \<open>Put: either the cache has at most lost entries, or it holds exactly the new record under the key.\<close>

lemma write_temporary_held:
  assumes "disk_write_temporary fa i data fs = (r, fs')"
  shows "held_le fs' fs j \<and> (\<forall>t. r = Some t \<longrightarrow> is_temporary t \<and> fs' t = Some data)"
proof (cases "of_temporary fa")
  case None
  then show ?thesis using assms by (simp add: disk_write_temporary_def)
next
  case (Some n)
  let ?t = "i @ ''-'' @ n @ ''.tmp''"
  have t: "is_temporary ?t" by (rule temporary_name)
  have w: "held_le (fs(?t \<mapsto> x)) fs j" for x using write_held [OF t] by (simp add: held_le_def)
  have c: "held_le (snd (os_remove fa ?t (fs(?t \<mapsto> x)))) fs j" for x
    using held_le_trans [OF remove_held w] t by simp
  show ?thesis
  proof (cases "of_write fa")
    case True
    then have "r = Some ?t" "fs' = fs(?t \<mapsto> data)" using assms Some by (simp_all add: disk_write_temporary_def Let_def)
    then show ?thesis using t w by simp
  next
    case False
    then have "r = None" "fs' = snd (os_remove fa ?t (fs(?t \<mapsto> take (of_written fa) data)))"
      using assms Some by (simp_all add: disk_write_temporary_def Let_def)
    then show ?thesis using c by simp
  qed
qed

lemma put_stored:
  assumes ok: "disk_ok d1" and i: "i \<noteq> []" "i = disk_id v k" and t: "is_temporary t" "fs t = Some data"
    and bound: "\<not> over_bound (dk_max_entries d1) (dk_max_bytes d1) (map_of (dk_entries d1) i \<noteq> None) old (body_bytes e)
      (dk_entries d1, dk_bytes d1)"
    and old: "old = (case map_of (dk_entries d1) i of None \<Rightarrow> 0 | Some m \<Rightarrow> dm_bytes m)"
    and fs: "fs = dk_files d1" "disk_replace fa t (disk_path i) x fs = (True, fs2)"
    and m: "dm_path m = disk_path i" "dm_bytes m = body_bytes e"
    and d': "dk_files d' = snd (os_remove fa t fs2)" "dk_entries d' = AList.update i m (dk_entries d1)"
      "dk_bytes d' = dk_bytes d1 + (body_bytes e - old)" "same_caps d' d1"
  shows "disk_ok d' \<and> held (dk_files d') i = Some data \<and>
    (\<forall>j n. j \<noteq> i \<and> map_of (dk_entries d') j = Some n \<longrightarrow> map_of (dk_entries d1) j = Some n \<and>
       held_le (dk_files d') (dk_files d1) j)"
proof -
  have b: "0 \<le> body_bytes e" by (simp add: body_bytes_def)
  have "table_ok dm_bytes (\<lambda>m. 0 \<le> dm_bytes m) (dk_entries d1, dk_bytes d1)" using ok by (simp add: disk_ok_def)
  from disk_table.table_update [OF this old, of m] i(1) b m(2)
  have u: "table_ok dm_bytes (\<lambda>m. 0 \<le> dm_bytes m) (AList.update i m (dk_entries d1), dk_bytes d1 + body_bytes e - old) \<and>
      length (AList.update i m (dk_entries d1)) =
      (if map_of (dk_entries d1) i = None then Suc (length (dk_entries d1)) else length (dk_entries d1))"
    by simp
  have dk: "distinct (keys_of (dk_entries d1))" using ok by (simp add: disk_ok_def table_ok_def)
  have "\<forall>(j, n)\<in>set (AList.update i m (dk_entries d1)). dm_path n = disk_path j"
  proof clarify
    fix j n assume "(j, n) \<in> set (AList.update i m (dk_entries d1))"
    then have "map_of (AList.update i m (dk_entries d1)) j = Some n"
      using distinct_update [OF dk] by (intro map_of_is_SomeI) simp_all
    then show "dm_path n = disk_path j"
      using m(1) disk_meta_ok [OF ok] by (auto simp: update_conv' split: if_splits)
  qed
  then have "disk_ok d'"
    using u bound ok d' by (auto simp: disk_ok_def over_bound_def same_caps_def add_diff_eq split: if_splits)
  moreover have "held (dk_files d') i = Some data"
    using replace_accepted [OF fs(2) t(1)] t fs(1) by (simp add: d' held_def)
  moreover have "held_le (dk_files d') (dk_files d1) j" if "j \<noteq> i" for j
    using replace_other [OF fs(2) that t(1)] remove_held [of t j fa fs2] t(1) fs(1) by (simp add: d' held_le_def)
  ultimately show ?thesis by (auto simp: d' update_conv')
qed

lemma put_disk_cases:
  assumes ok: "disk_ok d" and env: "disk_env_ok v" and p: "disk_put v now k e d = (stored, d')"
  obtains (refused) "\<not> stored" "disk_ok d'" "disk_sub d' d"
  | (accepted) data where "stored" "disk_ok d'" "disk_host v k \<noteq> None" "ce_expires_at e \<noteq> 0"
      "dv_encode v \<lparr>dr_version = 1, dr_key = k, dr_entry = e\<lparr>ce_host := []\<rparr>\<rparr> = Some data"
      "held (dk_files d') (disk_id v k) = Some data"
      "\<forall>j n. j \<noteq> disk_id v k \<and> map_of (dk_entries d') j = Some n \<longrightarrow> map_of (dk_entries d) j = Some n \<and>
         held_le (dk_files d') (dk_files d) j"
proof -
  let ?i = "disk_id v k" and ?fa = "dv_faults v now"
  let ?rec = "\<lparr>dr_version = 1, dr_key = k, dr_entry = e\<lparr>ce_host := []\<rparr>\<rparr>"
  let ?bad = "ce_expires_at e = 0 \<or> body_bytes e > dk_max_bytes d \<or> body_bytes e > max_disk_body_bytes"
  show thesis
  proof (cases "disk_host v k = None \<or> ?bad \<or> (case dv_encode v ?rec of None \<Rightarrow> True | Some data \<Rightarrow> int (length data) > max_disk_record_bytes)")
    case True
    then have "\<not> stored \<and> d' = d" using p by (auto simp: disk_put_def split: option.splits if_splits)
    then show thesis using refused ok by simp
  next
    case False
    then obtain host data where h: "disk_host v k = Some host" "dv_encode v ?rec = Some data" "\<not> ?bad"
        "\<not> int (length data) > max_disk_record_bytes"
      by (auto split: option.splits)
    obtain tmp fs where w: "disk_write_temporary ?fa ?i data (dk_files d) = (tmp, fs)" by fastforce
    define d0 where "d0 = d\<lparr>dk_files := fs\<rparr>"
    have d0: "disk_ok d0" "disk_sub d0 d" "same_caps d0 d" "dk_entries d0 = dk_entries d"
      using ok write_temporary_held [OF w] by (simp_all add: d0_def disk_counters disk_sub_def same_caps_def)
    define old where "old = (case map_of (dk_entries d) ?i of None \<Rightarrow> 0 | Some m \<Rightarrow> dm_bytes m)"
    show thesis
    proof (cases tmp)
      case None
      then have "stored = False" "d' = d0" using p h w by (simp_all add: disk_put_def if_not_P [OF h(3)] d0_def Let_def)
      then show thesis using refused d0 by simp
    next
      case (Some t)
      have t: "is_temporary t" "fs t = Some data" using write_temporary_held [OF w] Some by auto
      define dx where "dx = disk_remove_expired ?fa now ?i d0"
      have dx: "disk_less dx d0" by (simp add: dx_def disk_remove_expired_less d0)
      have dx_i: "map_of (dk_entries dx) ?i = map_of (dk_entries d) ?i" by (simp add: dx_def disk_remove_expired_keeps d0)
      obtain room d1 where r: "disk_make_room ?fa ?i (map_of (dk_entries d) ?i \<noteq> None) old (body_bytes e) dx = (room, d1)"
        by fastforce
      have room: "disk_less d1 dx" "map_of (dk_entries d1) ?i = map_of (dk_entries d) ?i"
          "room \<longrightarrow> \<not> over_bound (dk_max_entries d1) (dk_max_bytes d1) (map_of (dk_entries d) ?i \<noteq> None) old (body_bytes e)
            (dk_entries d1, dk_bytes d1)"
        using disk_make_room_less [OF _ r] dx dx_i by (auto simp: disk_less_def)
      have d1: "disk_less d1 d0" by (rule disk_less_trans [OF room(1) dx])
      then have d1_ok: "disk_ok d1" and d1_t: "dk_files d1 t = Some data" and d1_sub: "disk_sub d1 d"
        using t disk_sub_trans [OF _ d0(2)] by (auto simp: disk_less_def d0_def)
      obtain fin fs2 where f: "disk_replace ?fa t (disk_path ?i) (map_of (dk_entries d) ?i \<noteq> None) (dk_files d1) = (fin, fs2)"
        by fastforce
      let ?m = "\<lparr>dm_path = ?i @ ''.cache'', dm_host = host, dm_expires_at = ce_expires_at e, dm_bytes = body_bytes e\<rparr>"
      let ?clean = "\<lambda>d. d\<lparr>dk_files := snd (os_remove ?fa t (dk_files d))\<rparr>"
      have put: "(stored, d') = (if \<not> room then (False, ?clean d1) else if \<not> fin then (False, ?clean (d1\<lparr>dk_files := fs2\<rparr>))
          else (True, ?clean (d1\<lparr>dk_files := fs2, dk_entries := AList.update ?i ?m (dk_entries d1),
            dk_bytes := dk_bytes d1 + (body_bytes e - old)\<rparr>)))"
        using p r f w Some h(1,2,4)
        by (cases room; cases fin) (simp_all add: disk_put_def if_not_P [OF h(3)] Let_def old_def dx_def d0_def disk_path_def)
      have clean: "held_le (snd (os_remove ?fa t g)) g j" for g j using t(1) by (simp add: remove_held)
      have gone: "disk_ok (?clean x)" "disk_sub (?clean x) d" if "disk_ok x" "disk_sub x d" for x
      proof -
        show "disk_ok (?clean x)" using that(1) by (simp add: disk_counters)
        have "disk_sub (?clean x) x" using clean by (simp add: disk_sub_def)
        then show "disk_sub (?clean x) d" using disk_sub_trans that(2) by blast
      qed
      show thesis
      proof (cases "room \<and> fin")
        case True
        have d': "stored" "dk_files d' = snd (os_remove ?fa t fs2)" "dk_entries d' = AList.update ?i ?m (dk_entries d1)"
            "dk_bytes d' = dk_bytes d1 + (body_bytes e - old)" "same_caps d' d1"
          using put True by (simp_all add: same_caps_def)
        have o: "old = (case map_of (dk_entries d1) ?i of None \<Rightarrow> 0 | Some m \<Rightarrow> dm_bytes m)" by (simp add: old_def room(2))
        have b: "\<not> over_bound (dk_max_entries d1) (dk_max_bytes d1) (map_of (dk_entries d1) ?i \<noteq> None) old (body_bytes e)
            (dk_entries d1, dk_bytes d1)" using room True by simp
        have f': "disk_replace ?fa t (disk_path ?i) (map_of (dk_entries d) ?i \<noteq> None) (dk_files d1) = (True, fs2)" using f True by simp
        have s: "disk_ok d' \<and> held (dk_files d') ?i = Some data \<and>
            (\<forall>j n. j \<noteq> ?i \<and> map_of (dk_entries d') j = Some n \<longrightarrow> map_of (dk_entries d1) j = Some n \<and>
               held_le (dk_files d') (dk_files d1) j)"
          by (rule put_stored [OF d1_ok disk_id_nonempty [OF env] refl t(1) d1_t b o refl f' _ _ d'(2-5)])
            (simp_all add: disk_path_def)
        have "\<forall>j n. j \<noteq> ?i \<and> map_of (dk_entries d') j = Some n \<longrightarrow> map_of (dk_entries d) j = Some n \<and>
            held_le (dk_files d') (dk_files d) j"
          using s d1_sub held_le_trans unfolding disk_sub_def by blast
        then show thesis using accepted [OF d'(1) _ _ _ h(2)] s h(1,3) by simp
      next
        case False
        have "disk_sub (d1\<lparr>dk_files := fs2\<rparr>) d1" if "\<not> fin"
        proof -
          have "disk_replace ?fa t (disk_path ?i) (map_of (dk_entries d) ?i \<noteq> None) (dk_files d1) = (False, fs2)" using f that by simp
          then have "held_le fs2 (dk_files d1) j" for j
            using replace_refused [OF _ t(1)] replace_other [OF _ _ t(1), of ?fa ?i _ _ False fs2 j]
            by (cases "j = ?i") (auto simp: held_le_def)
          then show ?thesis by (simp add: disk_sub_def)
        qed
        then have "disk_ok d' \<and> disk_sub d' d \<and> \<not> stored"
          using put False gone [OF d1_ok d1_sub] gone [of "d1\<lparr>dk_files := fs2\<rparr>"] d1_ok disk_sub_trans [OF _ d1_sub]
          by (auto simp: disk_counters split: if_splits)
        then show thesis using refused by simp
      qed
    qed
  qed
qed

end
