(* ===== verification/Cache_Disk_Store.thy ===== *)
theory Cache_Disk_Store
  imports Cache_Disk_Laws
begin

text \<open>The disk cache as a response store, and what a restart finds after a crash in the middle of a
  replacement.\<close>

section \<open>Purging\<close>

text \<open>The loops of Purge as removals whose bytes are taken off at once.\<close>

definition purge_view :: "os_faults \<Rightarrow> string \<times> disk_meta \<Rightarrow> disk_cache \<Rightarrow> disk_cache" where
  "purge_view fa x e = (if fst (os_remove fa (dm_path (snd x)) (dk_files e)) = OsFailed then e
     else disk_drop fa (fst x) (snd x) e)"

definition purge_booked :: "(int \<times> int) \<times> disk_cache \<Rightarrow> disk_cache" where
  "purge_booked s = (snd s)\<lparr>dk_bytes := dk_bytes (snd s) - snd (fst s)\<rparr>"

lemma purge_one_view: "purge_booked (purge_one fa x s) = purge_view fa x (purge_booked s)"
  by (cases x; cases s; cases "fst s")
    (auto simp: purge_one_def purge_booked_def purge_view_def disk_drop_def split: prod.splits os_result.splits)

lemma purge_fold_view:
  "purge_booked (fold (\<lambda>x s. if P x then s else purge_one fa x s) xs s) =
     fold (\<lambda>x e. if P x then e else purge_view fa x e) xs (purge_booked s)"
  by (induction xs arbitrary: s) (simp_all add: purge_one_view)

lemma purge_view_less:
  assumes ok: "disk_ok d"
  shows "disk_less (fold (\<lambda>x e. if P x then e else purge_view fa x e) (dk_entries d) d) d"
proof -
  have dk: "distinct (keys_of (dk_entries d))" using ok by (simp add: disk_ok_def table_ok_def)
  show ?thesis
  proof (rule fold_less [OF _ ok dk])
    fix i m e assume "disk_ok e" "map_of (dk_entries e) i = Some m"
    then show "disk_less (if P (i, m) then e else purge_view fa (i, m) e) e \<and>
        (\<forall>j. j \<noteq> i \<longrightarrow> map_of (dk_entries (if P (i, m) then e else purge_view fa (i, m) e)) j = map_of (dk_entries e) j)"
      using drop_less [of e i m fa] by (simp add: purge_view_def disk_less_refl) (simp add: disk_drop_def map_simps)
  qed (use dk in auto)
qed

lemma purge_less: "disk_ok d \<Longrightarrow> disk_less (snd (disk_purge fa d)) d"
proof -
  assume ok: "disk_ok d"
  have "snd (disk_purge fa d) = purge_booked (fold (\<lambda>x s. if False then s else purge_one fa x s) (dk_entries d) ((0, 0), d))"
    by (simp add: disk_purge_def purge_booked_def split: prod.split)
  then show ?thesis using purge_view_less [OF ok, of "\<lambda>x. False" fa]
    by (simp only: purge_fold_view) (simp add: purge_booked_def)
qed

lemma purge_domain_less: "disk_ok d \<Longrightarrow> disk_less (snd (disk_purge_domain fa x d)) d"
proof -
  assume ok: "disk_ok d"
  let ?P = "\<lambda>y. dm_host (snd y) \<noteq> to_lower (trim_suffix x ''.'')"
  have "snd (disk_purge_domain fa x d) = purge_booked (fold (\<lambda>y s. if ?P y then s else purge_one fa y s) (dk_entries d) ((0, 0), d))"
    by (simp add: disk_purge_domain_def purge_booked_def Let_def split: prod.split)
  then show ?thesis using purge_view_less [OF ok, of ?P fa]
    by (simp only: purge_fold_view) (simp add: purge_booked_def)
qed

section \<open>The interpretation\<close>

definition disk_lawful :: "disk_env \<Rightarrow> disk_cache \<Rightarrow> bool" where
  "disk_lawful v d = (disk_env_ok v \<and> disk_ok d)"

text \<open>Everything but an accepted Put only loses entries.\<close>

lemma disk_step_less:
  assumes "disk_ok d" "disk_env_ok v" "disk_step v now q d = (r, d')"
  shows "disk_ok d' \<and> (disk_sub d' d \<or> (\<exists>k e. q = CachePut k e \<and> r = ReplyStored True))"
proof (cases q)
  case (CacheGet k)
  then show ?thesis using disk_get_ok [OF assms(1), of v k now] assms(3)
    by (cases "disk_get v k now d") (auto simp: disk_step_def disk_less_def)
next
  case (CachePut k e)
  obtain stored d1 where p: "disk_put v now k e d = (stored, d1)" by fastforce
  then have d1: "d1 = d'" "r = ReplyStored stored" using assms(3) CachePut by (simp_all add: disk_step_def)
  show ?thesis using assms(1,2) p by (cases rule: put_disk_cases) (auto simp: d1 CachePut)
next
  case CacheBypass
  then show ?thesis using assms by (auto simp: disk_step_def disk_bypass_def disk_counters)
next
  case CacheStats
  then show ?thesis using assms disk_remove_expired_less [OF assms(1), of "dv_faults v now" now "[]"]
    by (auto simp: disk_step_def disk_stats_def Let_def disk_less_def)
next
  case CachePurge
  then show ?thesis using assms(3) purge_less [OF assms(1), of "dv_faults v now"]
    by (cases "disk_purge (dv_faults v now) d") (auto simp: disk_step_def disk_less_def)
next
  case (CachePurgeDomain x)
  then show ?thesis using assms(3) purge_domain_less [OF assms(1), of "dv_faults v now" x]
    by (cases "disk_purge_domain (dv_faults v now) x d") (auto simp: disk_step_def disk_less_def)
qed

lemma disk_put_contents:
  assumes ok: "disk_ok d" "disk_env_ok v" and a: "portable k e" and p: "disk_put v now k e d = (True, d')"
    and x: "disk_contents v d' s = Some x"
  shows "if s = cache_key_string k then unhosted x = unhosted e else disk_contents v d s = Some x"
  using ok p
proof (cases rule: put_disk_cases)
  case (accepted data)
  let ?r = "\<lparr>dr_version = 1, dr_key = k, dr_entry = e\<lparr>ce_host := []\<rparr>\<rparr>"
  have "portable (dr_key ?r) (dr_entry ?r)" using a by (simp add: portable_def)
  then have dec: "dv_decode v data = Some ?r" using ok(2) accepted(5) by (simp add: disk_env_ok_def)
  let ?j = "hex_encode (dv_sha256 v s)"
  obtain n dt rec where n: "map_of (dk_entries d') ?j = Some n" "held (dk_files d') ?j = Some dt" "dv_decode v dt = Some rec"
      "cache_key_string (dr_key rec) = s" "x = dr_entry rec"
    using x by (auto simp: disk_contents_def Let_def split: option.splits if_splits)
  show ?thesis
  proof (cases "?j = disk_id v k")
    case True
    then have "rec = ?r" using n accepted(6) dec by simp
    then show ?thesis using n(4,5) by (auto simp: unhosted_def)
  next
    case False
    then have "s \<noteq> cache_key_string k" by (auto simp: disk_id_def)
    moreover have "map_of (dk_entries d) ?j = Some n" "held_le (dk_files d') (dk_files d) ?j"
      using accepted(7) False n(1) by auto
    then have "held (dk_files d) ?j = Some dt" using n(2) by (auto simp: held_le_def)
    then have "disk_contents v d s = Some x" using n \<open>map_of (dk_entries d) ?j = Some n\<close> by (simp add: disk_contents_def)
    ultimately show ?thesis by simp
  qed
qed simp

interpretation disk_store: response_store "disk_step v" "disk_contents v" "disk_lawful v" disk_admissible for v
proof
  fix d now q r d' k e s x
  show "disk_lawful v (snd (disk_step v now q d))" if "disk_lawful v d"
    using that disk_step_less [of d v now q] by (cases "disk_step v now q d") (auto simp: disk_lawful_def)
  show "disk_contents v d (cache_key_string k) = Some e \<and> now < ce_expires_at e"
    if "disk_lawful v d" "disk_step v now (CacheGet k) d = (ReplyEntry (Some e), d')"
    using that disk_get_ok [of d v k now] by (cases "disk_get v k now d") (auto simp: disk_lawful_def disk_step_def)
  show "unhosted x = unhosted e"
    if "disk_lawful v d" "disk_admissible q" "q = CachePut k e" "disk_step v now q d = (ReplyStored True, d')"
      "disk_contents v d' (cache_key_string k) = Some x"
    using that disk_put_contents [of d v k e now d' "cache_key_string k" x]
    by (cases "disk_put v now k e d") (auto simp: disk_lawful_def disk_step_def)
  show "disk_contents v d s = Some x"
    if l: "disk_lawful v d" and st: "disk_step v now q d = (r, d')" and x: "disk_contents v d' s = Some x" and a: "disk_admissible q"
      and n: "\<forall>k e. q = CachePut k e \<and> r = ReplyStored True \<longrightarrow> s \<noteq> cache_key_string k"
  proof -
    have d: "disk_ok d" "disk_env_ok v" using l by (simp_all add: disk_lawful_def)
    consider "disk_sub d' d" | k e where "q = CachePut k e" "r = ReplyStored True"
      using disk_step_less [OF d st] by blast
    then show ?thesis
    proof cases
      case 1
      then show ?thesis using contents_sub x by blast
    next
      case (2 k e)
      then have "disk_put v now k e d = (True, d')" using st by (cases "disk_put v now k e d") (simp add: disk_step_def)
      then show ?thesis using disk_put_contents [OF d _ _ x, of k e now] n a 2 by simp
    qed
  qed
qed

section \<open>A crash during a replacement\<close>

text \<open>The recovery that load performs on every name of the directory.\<close>

fun recover_all :: "os_faults \<Rightarrow> string list \<Rightarrow> files \<Rightarrow> error + files" where
  "recover_all fa [] fs = Inr fs"
| "recover_all fa (n # ns) fs = (case recover_temporary fa n fs of
     ((r, h, Some e), fs') \<Rightarrow> Inl e | ((r, h, None), fs') \<Rightarrow> recover_all fa ns fs')"

definition no_faults :: "os_faults \<Rightarrow> bool" where
  "no_faults fa = (\<forall>a b. \<not> of_remove fa a \<and> \<not> of_rename fa a b \<and> \<not> of_lstat fa a)"

lemma backup_name: "has_suffix n ''.cache.old'' \<Longrightarrow> n = disk_backup (disk_path (trim_suffix n ''.cache.old''))"
  by (auto simp: has_suffix_iff disk_backup_def disk_path_def)

lemma recover_step:
  assumes nf: "no_faults fa" and n: "fs n \<noteq> None"
  shows "\<exists>r h fs'. recover_temporary fa n fs = ((r, h, None), fs') \<and> (\<forall>m. m \<noteq> n \<and> fs m \<noteq> None \<longrightarrow> fs' m \<noteq> None) \<and>
    (\<forall>i. held fs' i = held fs i \<and> (fs (disk_backup (disk_path i)) = None \<longrightarrow> fs' (disk_backup (disk_path i)) = None) \<and>
       (n = disk_backup (disk_path i) \<and> valid_disk_id i \<longrightarrow> fs' n = None))"
proof (cases "has_suffix n ''.cache.old''")
  case True
  define j where "j = trim_suffix n ''.cache.old''"
  have b: "n = disk_backup (disk_path j)" using backup_name [OF True] by (simp add: j_def)
  have j: "trim_suffix (disk_backup (disk_path j)) ''.cache.old'' = j"
    using trim_suffix_append [of j "''.cache.old''"] by (simp add: disk_backup_def disk_path_def)
  show ?thesis
    using True nf n
    by (auto simp: recover_temporary_def j disk_path_def [symmetric] Let_def no_faults_def os_remove_def
        os_rename_def held_def b split: option.splits)
next
  case False
  then have f: "n \<noteq> disk_backup (disk_path i)" for i by (auto simp: has_suffix_iff disk_backup_def disk_path_def)
  have t: "n \<noteq> disk_path i" if "has_suffix n ''.tmp''" for i
  proof -
    have "last n = CHR ''p''" using that by (auto simp: has_suffix_iff)
    then show ?thesis by (auto simp: disk_path_def)
  qed
  show ?thesis
    using False nf n f t f [symmetric] t [symmetric]
    by (auto simp: recover_temporary_def no_faults_def os_remove_def held_def)
qed

lemma recover_all_held:
  assumes "no_faults fa" "distinct ns" "\<forall>n\<in>set ns. fs n \<noteq> None"
  shows "\<exists>h. recover_all fa ns fs = Inr h \<and> (\<forall>i. held h i = held fs i \<and>
    (fs (disk_backup (disk_path i)) = None \<longrightarrow> h (disk_backup (disk_path i)) = None) \<and>
    (valid_disk_id i \<and> disk_backup (disk_path i) \<in> set ns \<longrightarrow> h (disk_backup (disk_path i)) = None))"
  using assms
proof (induction ns arbitrary: fs)
  case (Cons n ns)
  obtain r h1 fs1 where r: "recover_temporary fa n fs = ((r, h1, None), fs1)"
      "\<forall>m. m \<noteq> n \<and> fs m \<noteq> None \<longrightarrow> fs1 m \<noteq> None"
      "\<forall>i. held fs1 i = held fs i \<and> (fs (disk_backup (disk_path i)) = None \<longrightarrow> fs1 (disk_backup (disk_path i)) = None) \<and>
         (n = disk_backup (disk_path i) \<and> valid_disk_id i \<longrightarrow> fs1 n = None)"
    using recover_step [OF Cons.prems(1), of fs n] Cons.prems(3) by auto
  have "\<forall>m\<in>set ns. fs1 m \<noteq> None" using r(2) Cons.prems(2,3) by auto
  then obtain h where h: "recover_all fa ns fs1 = Inr h" "\<forall>i. held h i = held fs1 i \<and>
      (fs1 (disk_backup (disk_path i)) = None \<longrightarrow> h (disk_backup (disk_path i)) = None) \<and>
      (valid_disk_id i \<and> disk_backup (disk_path i) \<in> set ns \<longrightarrow> h (disk_backup (disk_path i)) = None)"
    using Cons.IH [OF Cons.prems(1), of fs1] Cons.prems(2) by auto
  show ?case using r h by (auto simp: Cons.prems)
qed simp

end
