(* ===== verification/Cache_Dns.thy ===== *)
theory Cache_Dns
  imports Cache_Memory
begin

text \<open>The cache in front of a resolver keeps its bounds and answers what the resolver answered, for no longer
  than its time to live.\<close>

interpretation dns_table: expiring_table de_expires_at de_bytes "\<lambda>e. 0 \<le> de_bytes e"
  by unfold_locales

definition dns_ok :: "dns_cache \<Rightarrow> bool" where
  "dns_ok d = (table_ok de_bytes (\<lambda>e. 0 \<le> de_bytes e) (dn_entries d, dn_bytes d) \<and> 0 < dn_max_entries d \<and>
     length (dn_entries d) \<le> dn_max_entries d \<and> dn_bytes d \<le> dn_max_bytes d)"

lemma new_dns_ok: "new_dns_cache n b ttl = Inr d \<Longrightarrow> dns_ok d \<and> dn_entries d = [] \<and> dn_ttl d = ttl \<and>
    dn_max_entries d = nat n \<and> dn_max_bytes d = b"
  by (auto simp: new_dns_cache_def dns_ok_def table_ok_def total_weight_def split: if_splits)

lemma dns_find_cases:
  assumes ok: "dns_ok d" and f: "dns_find host now d = (r, d')"
  shows "dns_ok d' \<and> dn_ttl d' = dn_ttl d \<and> (\<forall>i e. map_of (dn_entries d') i = Some e \<longrightarrow> map_of (dn_entries d) i = Some e) \<and>
    (\<forall>as. r = Some as \<longrightarrow> (\<exists>e. map_of (dn_entries d) (dns_key host) = Some e \<and> now < de_expires_at e \<and> as = de_addresses e))"
proof -
  have "dns_ok (d\<lparr>dn_bytes := dn_bytes d - de_bytes e, dn_entries := AList.delete i (dn_entries d)\<rparr>)"
    if f: "map_of (dn_entries d) i = Some e" for i e
  proof -
    have dk: "distinct (keys_of (dn_entries d))" using ok by (simp add: dns_ok_def table_ok_def)
    have "0 \<le> de_bytes e" using ok map_of_SomeD [OF f] by (auto simp: dns_ok_def table_ok_def)
    moreover have "length (AList.delete i (dn_entries d)) \<le> dn_max_entries d"
      using ok by (auto simp: dns_ok_def AList.delete_eq intro: le_trans [OF length_filter_le])
    ultimately show ?thesis using ok dns_table.total_delete [OF dk f]
      by (auto simp: dns_ok_def table_ok_def AList.delete_eq distinct_map_filter)
  qed
  then show ?thesis using ok f by (auto simp: dns_find_def map_simps split: option.splits if_splits)
qed

lemma dns_insert_cases:
  assumes ok: "dns_ok d" and k: "dns_key host \<noteq> []"
  shows "dns_ok (dns_insert addr_text host as t now d) \<and> dn_ttl (dns_insert addr_text host as t now d) = dn_ttl d \<and>
    (\<forall>i e. map_of (dn_entries (dns_insert addr_text host as t now d)) i = Some e \<longrightarrow> map_of (dn_entries d) i = Some e \<or>
       i = dns_key host \<and> de_addresses e = as \<and> de_expires_at e = t + dn_ttl d)"
proof -
  let ?i = "dns_key host" and ?e = "\<lparr>de_addresses = as, de_expires_at = t + dn_ttl d,
    de_bytes = int (length (dns_key host)) + (\<Sum>a\<leftarrow>as. int (length (addr_text a)))\<rparr>"
  have n: "0 \<le> de_bytes ?e" by (auto intro!: add_nonneg_nonneg sum_list_nonneg)
  show ?thesis
  proof (cases "de_bytes ?e > dn_max_bytes d")
    case True
    then show ?thesis using ok by (simp add: dns_insert_def Let_def)
  next
    case False
    obtain es b where x: "remove_expired de_expires_at de_bytes now [] (dn_entries d) (dn_bytes d) = (es, b)" by fastforce
    have t: "table_ok de_bytes (\<lambda>e. 0 \<le> de_bytes e) (es, b)"
      using dns_table.remove_expired_ok [of "dn_entries d" "dn_bytes d" now "[]"] ok x by (simp add: dns_ok_def)
    have es: "es = filter (\<lambda>(i, e). i = [] \<or> de_expires_at e > now) (dn_entries d)"
      using x by (simp add: dns_table.remove_expired_eq)
    have dk: "distinct (keys_of (dn_entries d))" using ok by (simp add: dns_ok_def table_ok_def)
    have sub: "map_of es i = Some e \<Longrightarrow> map_of (dn_entries d) i = Some e" for i e
      by (auto simp: es map_of_filter_distinct [OF dk] split: option.splits if_splits)
    let ?f = "map_of es ?i"
    let ?o = "case ?f of None \<Rightarrow> 0 | Some e \<Rightarrow> de_bytes e"
    have fits: "0 < dn_max_entries d" "0 \<le> de_bytes ?e" "de_bytes ?e \<le> dn_max_bytes d"
      using ok False n by (simp_all add: dns_ok_def)
    obtain es2 b2 where r: "make_room de_expires_at de_bytes (dn_max_entries d) (dn_max_bytes d) ?i (?f \<noteq> None) ?o
          (de_bytes ?e) (es, b) = (True, es2, b2)" "table_ok de_bytes (\<lambda>e. 0 \<le> de_bytes e) (es2, b2)"
        "\<not> over_bound (dn_max_entries d) (dn_max_bytes d) (?f \<noteq> None) ?o (de_bytes ?e) (es2, b2)" "map_of es2 ?i = ?f"
        "\<forall>i. map_of es2 i = map_of es i \<or> map_of es2 i = None"
      using dns_table.make_room_ok [OF t fits, of "?f \<noteq> None" ?i ?o] by auto
    have res: "dns_insert addr_text host as t now d =
        d\<lparr>dn_entries := AList.update ?i ?e es2, dn_bytes := b2 + de_bytes ?e - ?o\<rparr>"
      using False x r(1) by (simp add: dns_insert_def Let_def)
    have u: "table_ok de_bytes (\<lambda>e. 0 \<le> de_bytes e) (AList.update ?i ?e es2, b2 + de_bytes ?e - ?o) \<and>
        length (AList.update ?i ?e es2) = (if ?f = None then Suc (length es2) else length es2)"
      using dns_table.table_update [OF r(2), of ?o ?i ?e] n k r(4) by simp
    have "length es2 \<le> length es" using r(2) by (intro submap_length [OF _ r(5)]) (simp add: table_ok_def)
    moreover have "length es \<le> dn_max_entries d" using ok by (auto simp: es dns_ok_def intro: le_trans [OF length_filter_le])
    ultimately have "dns_ok (dns_insert addr_text host as t now d)"
      using u r(3) fits(1) by (auto simp: dns_ok_def res over_bound_def)
    moreover have "map_of (dn_entries d) i = Some e \<or> i = ?i \<and> de_addresses e = as \<and> de_expires_at e = t + dn_ttl d"
      if "map_of (AList.update ?i ?e es2) i = Some e" for i e
      using that r(5) [rule_format, of i] sub [of i e] by (auto simp: update_conv' split: if_splits)
    ultimately show ?thesis by (simp add: res)
  qed
qed

section \<open>Histories\<close>

record dns_call =
  dc_host :: string
  dc_base :: "string \<Rightarrow> ip_addr list \<times> error option"
  dc_asked :: go_time
  dc_resolved :: go_time
  dc_stored :: go_time

fun dns_run :: "(ip_addr \<Rightarrow> string) \<Rightarrow> dns_call list \<Rightarrow> dns_cache \<Rightarrow> dns_cache" where
  "dns_run addr_text [] d = d"
| "dns_run addr_text (c # cs) d =
     dns_run addr_text cs (snd (dns_lookup addr_text (dc_base c) (dc_asked c) (dc_resolved c) (dc_stored c) (dc_host c) d))"

definition answered_by :: "dns_call list \<Rightarrow> duration \<Rightarrow> string \<Rightarrow> dns_entry \<Rightarrow> bool" where
  "answered_by h ttl i e = (\<exists>c\<in>set h. dns_key (dc_host c) = i \<and> dc_base c (dc_host c) = (de_addresses e, None) \<and>
     de_expires_at e = dc_resolved c + ttl)"

definition dns_history :: "dns_call list \<Rightarrow> duration \<Rightarrow> dns_cache \<Rightarrow> bool" where
  "dns_history h ttl d = (dns_ok d \<and> dn_ttl d = ttl \<and> (\<forall>i e. map_of (dn_entries d) i = Some e \<longrightarrow> answered_by h ttl i e))"

lemma dns_lookup_history:
  assumes "dns_history h ttl d"
  shows "dns_history (c # h) ttl
    (snd (dns_lookup addr_text (dc_base c) (dc_asked c) (dc_resolved c) (dc_stored c) (dc_host c) d))"
proof -
  obtain r d1 where f: "dns_find (dc_host c) (dc_asked c) d = (r, d1)" by fastforce
  obtain as err where b: "dc_base c (dc_host c) = (as, err)" by fastforce
  have d1: "dns_history h ttl d1"
    using dns_find_cases [OF _ f] assms by (auto simp: dns_history_def)
  have m: "dns_history h ttl x \<Longrightarrow> dns_history (c # h) ttl x" for x
    by (fastforce simp: dns_history_def answered_by_def)
  show ?thesis
  proof (cases "r = None \<and> err = None \<and> as \<noteq> [] \<and> dns_key (dc_host c) \<noteq> []")
    case True
    have "dns_history (c # h) ttl (dns_insert addr_text (dc_host c) as (dc_resolved c) (dc_stored c) d1)"
      using dns_insert_cases [of d1 "dc_host c" addr_text as "dc_resolved c" "dc_stored c"] d1 True b
      by (fastforce simp: dns_history_def answered_by_def)
    then show ?thesis using True by (simp add: dns_lookup_def f b)
  next
    case False
    then have "snd (dns_lookup addr_text (dc_base c) (dc_asked c) (dc_resolved c) (dc_stored c) (dc_host c) d) = d1"
      by (auto simp: dns_lookup_def f b split: option.splits)
    then show ?thesis using m [OF d1] by simp
  qed
qed

lemma dns_run_history:
  "dns_history h ttl d \<Longrightarrow> dns_history (rev cs @ h) ttl (dns_run addr_text cs d)"
proof (induction cs arbitrary: h d)
  case (Cons c cs)
  show ?case using Cons.IH [OF dns_lookup_history [OF Cons.prems, of c addr_text]] by simp
qed simp

lemma dns_caps:
  "dn_max_entries (snd (dns_lookup addr_text base t0 t1 t2 host d)) = dn_max_entries d \<and>
   dn_max_bytes (snd (dns_lookup addr_text base t0 t1 t2 host d)) = dn_max_bytes d"
  by (simp add: dns_lookup_def dns_find_def dns_insert_def Let_def split: option.split prod.split)

lemma dns_run_caps: "dn_max_entries (dns_run addr_text cs d) = dn_max_entries d \<and> dn_max_bytes (dns_run addr_text cs d) = dn_max_bytes d"
  by (induction cs arbitrary: d) (simp_all add: dns_caps)


definition wit_base :: "string \<Rightarrow> ip_addr list \<times> error option" where
  "wit_base host = (if host = ''a.test.'' then ([], None) else ([], Some (OtherErr 0)))"


end
