(* ===== verification/Cache_Use.thy ===== *)
theory Cache_Use
  imports Cache_Disk_Store Cache_Dns
begin

text \<open>What the forward proxy and the resolver may rely on: the properties of the caches.\<close>

section \<open>Who stored a response\<close>

lemma last_stored_put:
  "last_stored h c i = Some x \<Longrightarrow> c i = Some x \<or>
     (\<exists>k e. (CachePut k e, ReplyStored True) \<in> set h \<and> cache_key_string k = i \<and> x = unhosted e)"
proof (induction h c rule: last_stored.induct)
  case (2 k e h c)
  have "(c(cache_key_string k \<mapsto> e\<lparr>ce_host := []\<rparr>)) i = Some x \<or>
      (\<exists>k' e'. (CachePut k' e', ReplyStored True) \<in> set h \<and> cache_key_string k' = i \<and> x = unhosted e')"
    by (rule 2(1)) (use 2(2) in \<open>simp only: last_stored.simps\<close>)
  then show ?case
  proof
    assume "(c(cache_key_string k \<mapsto> e\<lparr>ce_host := []\<rparr>)) i = Some x"
    then show ?case by (cases "i = cache_key_string k") (auto simp: unhosted_def)
  qed (metis list.set_intros(2))
qed auto

definition plain_op :: "cache_op \<Rightarrow> bool" where
  "plain_op q = (case q of CachePut k e \<Rightarrow> plain_key k | _ \<Rightarrow> True)"

lemma last_stored_plain:
  assumes "last_stored (zip (map snd qs) rs) (\<lambda>i. None) (cache_key_string k) = Some x" "plain_key k"
    "\<forall>(t, q)\<in>set qs. plain_op q"
  shows "\<exists>t e. (t, CachePut k e) \<in> set qs \<and> unhosted e = x"
proof -
  obtain k' e where p: "(CachePut k' e, ReplyStored True) \<in> set (zip (map snd qs) rs)"
      "cache_key_string k' = cache_key_string k" "x = unhosted e"
    using last_stored_put [OF assms(1)] by auto
  then obtain t where t: "(t, CachePut k' e) \<in> set qs" by (auto dest!: set_zip_leftD)
  then have "plain_key k'" using assms(3) by (auto simp: plain_op_def)
  then have "k' = k" using cache_key_inj assms(2) p(2) by blast
  then show ?thesis using t p(3) by blast
qed

lemma memory_step_caps:
  "mc_max_entries (snd (memory_step hostname now q m)) = mc_max_entries m \<and>
   mc_max_bytes (snd (memory_step hostname now q m)) = mc_max_bytes m"
  by (simp add: memory_step_def cache_get_def cache_bypass_def cache_put_def cache_drop_expired_def cache_stats_of_def
      cache_purge_def cache_purge_domain_def Let_def split: cache_op.split option.split prod.split)

lemma memory_run_caps:
  "cache_run (memory_step hostname) qs m = (rs, m') \<Longrightarrow> mc_max_entries m' = mc_max_entries m \<and> mc_max_bytes m' = mc_max_bytes m"
proof (induction qs arbitrary: m rs)
  case (Cons x qs)
  obtain now q where x: "x = (now, q)" by (cases x)
  obtain r m1 where m1: "memory_step hostname now q m = (r, m1)" by fastforce
  obtain rs1 where "cache_run (memory_step hostname) qs m1 = (rs1, m')"
    using Cons.prems x m1 by (auto split: prod.splits)
  then show ?case using Cons.IH memory_step_caps [of hostname now q m] m1 by simp
qed simp

text \<open>C19: whatever was stored, evicted and purged before, the memory cache stays within its bounds and serves
  under a key only the response that was last stored under exactly this key, before it expires; no other client,
  session, route, endpoint, rule or configuration shares it.\<close>

theorem memory_cache_isolated:
  assumes "new_memory_cache max_entries max_bytes = Inr m0" "cache_run (memory_step hostname) qs m0 = (rs, m)"
    and "\<forall>(t, q)\<in>set qs. plain_op q" "plain_key k" "cache_get k now m = (Some e, m')"
  shows "(\<exists>t e0. (t, CachePut k e0) \<in> set qs \<and> unhosted e0 = unhosted e) \<and>
    last_stored (zip (map snd qs) rs) (\<lambda>i. None) (cache_key_string k) = Some (unhosted e) \<and> now < ce_expires_at e \<and>
    length (mc_entries m) \<le> nat max_entries \<and> total_weight body_bytes (mc_entries m) \<le> max_bytes"
proof -
  have m0: "memory_ok m0" "memory_contents m0 = (\<lambda>i. None)" "mc_max_entries m0 = nat max_entries" "mc_max_bytes m0 = max_bytes"
    using new_memory_cache_ok [OF assms(1)] by (simp_all add: memory_contents_def)
  have g: "memory_step hostname now (CacheGet k) m = (ReplyEntry (Some e), m')" by (simp add: memory_step_def assms(5))
  have s: "last_stored (zip (map snd qs) rs) (\<lambda>i. None) (cache_key_string k) = Some (unhosted e) \<and> now < ce_expires_at e"
    by (rule memory_store.served_was_stored [OF m0(1,2) _ assms(2) g]) simp
  have "memory_ok m"
    using memory_store.run_covered [OF m0(1) _ _ assms(2), of "\<lambda>i. None"] m0(2) by (simp add: memory_store.covered_def)
  then have "length (mc_entries m) \<le> nat max_entries \<and> total_weight body_bytes (mc_entries m) \<le> max_bytes"
    using memory_run_caps [OF assms(2)] m0(3,4) by (simp add: memory_ok_def table_ok_def)
  then show ?thesis using s last_stored_plain [OF _ assms(4,3)] by blast
qed

definition wit_key :: cache_key where
  "wit_key = \<lparr>ck_client_id = ''client-1'', ck_session_hash = ''s'', ck_route_id = ''route-1'', ck_proxy_id = [],
     ck_policy_id = [], ck_rule_id = [], ck_runtime_revision = 1, ck_method = ''GET'', ck_url = ''http://a.test/'', ck_vary = []\<rparr>"

definition wit_response :: cache_entry where
  "wit_response = \<lparr>ce_status = 200, ce_header = [], ce_body = ''hi'', ce_expires_at = 100, ce_host = []\<rparr>"

definition wit_hostname :: "string \<Rightarrow> string option" where
  "wit_hostname u = Some ''a.test''"

definition wit_memory :: memory_cache where
  "wit_memory = projr (new_memory_cache 4 64)"

definition wit_run :: "(go_time \<times> cache_op) list" where
  "wit_run = [(1, CachePut wit_key wit_response)]"

lemma wit_memory_new: "new_memory_cache 4 64 = Inr wit_memory"
  by (simp add: wit_memory_def new_memory_cache_def)

lemma wit_served:
  "fst (cache_get wit_key 5 (snd (cache_run (memory_step wit_hostname) wit_run wit_memory))) =
     Some (wit_response\<lparr>ce_host := ''a.test''\<rparr>)"
  by code_simp

lemma wit_plain: "plain_key wit_key"
  by code_simp

theorem memory_cache_isolated_witness:
  "last_stored (zip (map snd wit_run) (fst (cache_run (memory_step wit_hostname) wit_run wit_memory))) (\<lambda>i. None)
     (cache_key_string wit_key) = Some wit_response"
proof -
  have "\<forall>(t, q)\<in>set wit_run. plain_op q" by (simp add: wit_run_def plain_op_def wit_plain)
  note served = memory_cache_isolated [where hostname = wit_hostname and now = 5, OF wit_memory_new prod.collapse [symmetric] this wit_plain]
  obtain m' where "cache_get wit_key 5 (snd (cache_run (memory_step wit_hostname) wit_run wit_memory)) =
      (Some (wit_response\<lparr>ce_host := ''a.test''\<rparr>), m')"
    using wit_served by (metis prod.collapse)
  from served [OF this] show ?thesis by (simp add: unhosted_def wit_response_def)
qed

text \<open>C20: the disk cache, opened on an empty directory, serves under a key only the response that was last
  stored under it, before it expires, whatever the file system refused on the way and even if two keys had the
  same digest, for responses that its JSON records can carry.\<close>

theorem disk_cache_honest:
  assumes "disk_env_ok v" "disk_ok d0" "dk_entries d0 = []" "cache_run (disk_step v) qs d0 = (rs, d)"
    and "\<forall>(t, q)\<in>set qs. disk_admissible q" "disk_get v k now d = (Some e, d')"
  shows "last_stored (zip (map snd qs) rs) (\<lambda>i. None) (cache_key_string k) = Some (unhosted e) \<and> now < ce_expires_at e \<and>
    length (dk_entries d) \<le> dk_max_entries d \<and> dk_bytes d = total_weight dm_bytes (dk_entries d) \<and> dk_bytes d \<le> dk_max_bytes d"
proof -
  have d0: "disk_lawful v d0" "disk_contents v d0 = (\<lambda>i. None)"
    using assms(1-3) by (auto simp: disk_lawful_def disk_contents_def)
  have g: "disk_step v now (CacheGet k) d = (ReplyEntry (Some e), d')" by (simp add: disk_step_def assms(6))
  have "disk_lawful v d"
    using disk_store.run_covered [OF d0(1) assms(5) _ assms(4), of "\<lambda>i. None"] d0(2) by (simp add: disk_store.covered_def)
  then show ?thesis using disk_store.served_was_stored [OF d0 assms(5,4) g]
    by (simp add: disk_lawful_def disk_ok_def table_ok_def)
qed

definition wit_faults :: os_faults where
  "wit_faults = \<lparr>of_remove = (\<lambda>p. False), of_rename = (\<lambda>a b. False), of_read = (\<lambda>p. False), of_lstat = (\<lambda>p. False),
     of_chmod = (\<lambda>p. False), of_temporary = Some ''7'', of_write = True, of_written = 0\<rparr>"

definition wit_record :: disk_record where
  "wit_record = \<lparr>dr_version = 1, dr_key = wit_key, dr_entry = wit_response\<rparr>"

text \<open>A codec that writes one record only, and a digest of zeros.\<close>

definition wit_env :: disk_env where
  "wit_env = \<lparr>dv_encode = (\<lambda>r. if r = wit_record then Some ''{}'' else None), dv_decode = (\<lambda>s. Some wit_record),
     dv_sha256 = (\<lambda>s. replicate 32 CHR 0x00), dv_hostname = wit_hostname, dv_faults = (\<lambda>t. wit_faults)\<rparr>"

definition wit_disk :: disk_cache where
  "wit_disk = projr (new_disk_cache wit_env ''/cache'' 4 64 None 0 [] None (\<lambda>p. None))"

lemma wit_disk_new: "disk_ok wit_disk \<and> dk_entries wit_disk = []"
  by (simp add: wit_disk_def new_disk_cache_def disk_ok_def table_ok_def total_weight_def)

lemma wit_env_ok: "disk_env_ok wit_env"
  by (simp add: wit_env_def disk_env_ok_def)

lemma wit_portable: "portable wit_key wit_response"
  by code_simp

lemma wit_disk_served:
  "fst (disk_get wit_env wit_key 5 (snd (cache_run (disk_step wit_env) wit_run wit_disk))) = Some wit_response"
  by code_simp

theorem disk_cache_honest_witness:
  "last_stored (zip (map snd wit_run) (fst (cache_run (disk_step wit_env) wit_run wit_disk))) (\<lambda>i. None)
     (cache_key_string wit_key) = Some wit_response"
proof -
  have "\<forall>(t, q)\<in>set wit_run. disk_admissible q" by (simp add: wit_run_def wit_portable)
  note served = disk_cache_honest [where now = 5 and k = wit_key,
      OF wit_env_ok wit_disk_new [THEN conjunct1] wit_disk_new [THEN conjunct2] prod.collapse [symmetric] this]
  obtain d' where "disk_get wit_env wit_key 5 (snd (cache_run (disk_step wit_env) wit_run wit_disk)) = (Some wit_response, d')"
    using wit_disk_served by (metis prod.collapse)
  from served [OF this] show ?thesis by (simp add: unhosted_def wit_response_def)
qed

text \<open>a response that Put accepts is what Get returns until it expires, and Put takes away only what had
  expired and, to make room, what expires before everything it keeps.\<close>

theorem memory_put_get:
  assumes "memory_ok m" "cache_put hostname t0 k e m = (True, m1)" "t1 < ce_expires_at e"
  shows "(\<exists>x. fst (cache_get k t1 m1) = Some x \<and> unhosted x = unhosted e) \<and>
    (\<forall>i x. i \<noteq> cache_key_string k \<and> map_of (mc_entries m) i = Some x \<and> t0 < ce_expires_at x \<longrightarrow>
       map_of (mc_entries m1) i = Some x \<or> map_of (mc_entries m1) i = None \<and>
       (\<forall>j y. j \<noteq> cache_key_string k \<and> map_of (mc_entries m1) j = Some y \<longrightarrow> sooner ce_expires_at (i, x) (j, y)))"
  using assms(1,2)
proof (cases rule: put_cases)
  case (accepted host es)
  let ?i = "cache_key_string k"
  have v: "cache_key_validate k = None" using assms(2) by (simp add: cache_put_def split: if_splits)
  have m1: "map_of (mc_entries m1) j = (if j = ?i then Some (e\<lparr>ce_host := host\<rparr>) else map_of es j)" for j
    by (simp add: accepted(5) update_conv')
  have g: "fst (cache_get k t1 m1) = Some (e\<lparr>ce_host := host\<rparr>)" using assms(3) v by (simp add: cache_get_def m1)
  have rest: "map_of (mc_entries m1) i = Some x \<or> map_of (mc_entries m1) i = None \<and>
       (\<forall>j y. j \<noteq> ?i \<and> map_of (mc_entries m1) j = Some y \<longrightarrow> sooner ce_expires_at (i, x) (j, y))"
    if a: "i \<noteq> ?i" "map_of (mc_entries m) i = Some x" "t0 < ce_expires_at x" for i x
  proof (cases "map_of es i")
    case None
    then show ?thesis using accepted(8) a by (auto simp: m1)
  next
    case (Some y)
    then show ?thesis using accepted(6) [rule_format, of i] a by (simp add: m1)
  qed
  have "unhosted (e\<lparr>ce_host := host\<rparr>) = unhosted e" by (simp add: unhosted_def)
  then show ?thesis using g rest by blast
qed simp

theorem memory_put_get_witness:
  "\<exists>x. fst (cache_get wit_key 5 (snd (cache_put wit_hostname 1 wit_key wit_response wit_memory))) = Some x \<and>
     unhosted x = wit_response"
proof -
  have "fst (cache_put wit_hostname 1 wit_key wit_response wit_memory)" by code_simp
  then have p: "cache_put wit_hostname 1 wit_key wit_response wit_memory =
      (True, snd (cache_put wit_hostname 1 wit_key wit_response wit_memory))" by (metis prod.collapse)
  have "memory_ok wit_memory" using new_memory_cache_ok [OF wit_memory_new] by blast
  from memory_put_get [OF this p, of 5] show ?thesis by (simp add: wit_response_def unhosted_def)
qed

text \<open>C21: a crash after any call of a replacement, followed by the recovery of the next start, leaves the record
  that was there before or the complete new one, never a part and never nothing.\<close>

theorem replacement_crash_safe:
  assumes "valid_disk_id i" "exists \<longrightarrow> fs (i @ ''.cache'') \<noteq> None" "fs (i @ ''-'' @ n @ ''.tmp'') = Some new"
    and "g \<in> set (snd (replace_trace fa (i @ ''-'' @ n @ ''.tmp'') (i @ ''.cache'') exists fs))"
    and "no_faults fa'" "distinct names" "set names = dom g"
  shows "\<exists>h. recover_all fa' names g = Inr h \<and> (h (i @ ''.cache'') = held fs i \<or> h (i @ ''.cache'') = Some new)"
proof -
  let ?t = "i @ ''-'' @ n @ ''.tmp''"
  have t: "is_temporary ?t" by (rule temporary_name)
  have g: "kept i fs g \<or> held g i = Some new"
    using replace_trace_self [OF t, of g fa i exists fs] assms(3,4) by (auto simp: disk_path_def)
  have "held g i = held fs i \<or> held g i = Some new"
  proof (cases exists)
    case True
    then show ?thesis using g assms(2) by (auto simp: kept_def disk_path_def)
  next
    case False
    have "g = fs \<or> fst (os_rename fa ?t (disk_path i) fs) = OsOk \<and> g (disk_path i) = Some new \<or> g = snd (os_rename fa ?t (disk_path i) fs)"
      using assms(4) False by (auto simp: replace_trace_def disk_path_def split: prod.splits)
    then show ?thesis
      using assms(3) by (cases rule: rename_cases [of fa ?t "disk_path i" fs]) (auto simp: held_def)
  qed
  moreover obtain h where h: "recover_all fa' names g = Inr h" "\<forall>i. held h i = held g i \<and>
      (g (disk_backup (disk_path i)) = None \<longrightarrow> h (disk_backup (disk_path i)) = None) \<and>
      (valid_disk_id i \<and> disk_backup (disk_path i) \<in> set names \<longrightarrow> h (disk_backup (disk_path i)) = None)"
    using recover_all_held [OF assms(5,6), of g] assms(7) by auto
  have "h (disk_backup (disk_path i)) = None" using h(2) assms(1,7) by (cases "g (disk_backup (disk_path i))") auto
  then have "h (i @ ''.cache'') = held h i" by (simp add: held_def disk_path_def split: if_splits)
  ultimately show ?thesis using h by metis
qed

definition wit_id :: string where
  "wit_id = replicate 64 CHR ''a''"

definition wit_files :: files where
  "wit_files = [wit_id @ ''.cache'' \<mapsto> ''old'', wit_id @ ''-7.tmp'' \<mapsto> ''new'']"

text \<open>The crash after the second call: the old record is only in the backup.\<close>

theorem replacement_crash_safe_witness:
  "\<exists>h. recover_all wit_faults [wit_id @ ''.cache.old'', wit_id @ ''-7.tmp'']
      [wit_id @ ''.cache.old'' \<mapsto> ''old'', wit_id @ ''-7.tmp'' \<mapsto> ''new''] = Inr h \<and>
    (h (wit_id @ ''.cache'') = Some ''old'' \<or> h (wit_id @ ''.cache'') = Some ''new'')"
proof -
  let ?g = "[wit_id @ ''.cache.old'' \<mapsto> ''old'', wit_id @ ''-7.tmp'' \<mapsto> ''new'']"
  have v: "valid_disk_id wit_id" by (simp add: valid_disk_id_def wit_id_def list_all_iff)
  have g: "?g \<in> set (snd (replace_trace wit_faults (wit_id @ ''-'' @ ''7'' @ ''.tmp'') (wit_id @ ''.cache'') True wit_files))"
    by (auto simp: replace_trace_def wit_faults_def os_remove_def os_rename_def wit_files_def Let_def)
  have "held wit_files wit_id = Some ''old''" by (simp add: held_def disk_path_def wit_files_def)
  then show ?thesis
    using replacement_crash_safe [OF v _ _ g, of "''new''" wit_faults "[wit_id @ ''.cache.old'', wit_id @ ''-7.tmp'']"]
    by (auto simp: wit_files_def no_faults_def wit_faults_def)
qed

section \<open>What may be cached\<close>

lemma fresh_for_bounds: "fresh_for value age = Some s \<Longrightarrow> \<exists>seconds. parse_int64 value = Some seconds \<and> 0 < s \<and> s \<le> seconds"
  by (auto simp: fresh_for_def split: option.splits if_splits)


definition wit_headers :: http_header where
  "wit_headers = [(''Cache-Control'', [''public, max-age=60'']), (''Age'', [''10''])]"


text \<open>Header.Get reads the first line of a header only: an empty first Vary line hides the second.\<close>

lemma second_vary_line_cached:
  "el_eligible (check_response (\<lambda>s. None) 200 [(''Cache-Control'', [''max-age=60'']), (''Vary'', ['''', ''Accept-Language''])] 10 100 0)"
  by code_simp

text \<open>The listing of a start may name a recovered record twice, once as its backup and once as the file that the
  recovery made of it; its bytes are then counted twice.\<close>

lemma recovered_record_counted_twice:
  "(case new_disk_cache wit_env ''/cache'' 4 64 None 1
      [(replicate 64 CHR ''0'' @ ''.cache.old'', True), (replicate 64 CHR ''0'' @ ''.cache'', True)] None
      [replicate 64 CHR ''0'' @ ''.cache.old'' \<mapsto> ''{}''] of
    Inl e \<Rightarrow> False | Inr d \<Rightarrow> length (dk_entries d) = 1 \<and> dk_bytes d = 4 \<and> total_weight dm_bytes (dk_entries d) = 2)"
  by code_simp

end
