(* ===== verification/Wire.thy ===== *)
theory Wire
  imports Endpoint_Model
begin

text \<open>Connections as the handshakes of internal/upstream and internal/transport/socks5 use them: the bytes that
  the peer sends, the bytes written so far, and which writes fail.  Bytes are characters.  With
  net.SplitHostPort, the addresses of net/netip as bytes, and base64.\<close>

section \<open>Connections\<close>

record conn =
  cn_in :: string
  cn_out :: string
  cn_writes :: "bool list"

definition conn_write :: "string \<Rightarrow> conn \<Rightarrow> bool \<times> conn" where
  "conn_write bs c = (case cn_writes c of
       False # ws \<Rightarrow> (False, c\<lparr>cn_writes := ws\<rparr>)
     | True # ws \<Rightarrow> (True, c\<lparr>cn_out := cn_out c @ bs, cn_writes := ws\<rparr>)
     | [] \<Rightarrow> (True, c\<lparr>cn_out := cn_out c @ bs\<rparr>))"

text \<open>io.ReadFull of a buffer.\<close>

definition conn_read :: "nat \<Rightarrow> conn \<Rightarrow> string option \<times> conn" where
  "conn_read n c = (if n \<le> length (cn_in c) then (Some (take n (cn_in c)), c\<lparr>cn_in := drop n (cn_in c)\<rparr>)
     else (None, c\<lparr>cn_in := []\<rparr>))"

lemma conn_read_append [simp]: "length xs = n \<Longrightarrow> conn_read n (c\<lparr>cn_in := xs @ ys\<rparr>) = (Some xs, c\<lparr>cn_in := ys\<rparr>)"
  by (auto simp: conn_read_def)

lemma conn_write_ok [simp]: "cn_writes c = [] \<Longrightarrow> conn_write bs c = (True, c\<lparr>cn_out := cn_out c @ bs\<rparr>)"
  by (simp add: conn_write_def)

text \<open>bufio.Reader.ReadString up to a newline.\<close>

definition conn_read_line :: "conn \<Rightarrow> string option \<times> nat \<times> conn" where
  "conn_read_line c = (let line = takeWhile (\<lambda>x. x \<noteq> CHR 0x0A) (cn_in c); rest = dropWhile (\<lambda>x. x \<noteq> CHR 0x0A) (cn_in c) in
     case rest of [] \<Rightarrow> (None, length line, c\<lparr>cn_in := []\<rparr>)
     | x # xs \<Rightarrow> (Some (line @ [x]), length line + 1, c\<lparr>cn_in := xs\<rparr>))"

lemma conn_read_line_append:
  assumes "CHR 0x0A \<notin> set l"
  shows "conn_read_line (c\<lparr>cn_in := l @ CHR 0x0A # ys\<rparr>) = (Some (l @ [CHR 0x0A]), Suc (length l), c\<lparr>cn_in := ys\<rparr>)"
proof -
  have "\<forall>x\<in>set l. x \<noteq> CHR 0x0A" using assms by auto
  then show ?thesis by (simp add: conn_read_line_def Let_def takeWhile_append2 dropWhile_append2)
qed

section \<open>Bytes\<close>

definition byte :: "nat \<Rightarrow> char" where
  "byte n = char_of n"

definition byte_val :: "char \<Rightarrow> nat" where
  "byte_val c = of_char c"

lemma byte_val_byte [simp]: "n < 256 \<Longrightarrow> byte_val (byte n) = n"
  by (simp add: byte_val_def byte_def)

lemma byte_byte_val [simp]: "byte (byte_val c) = c"
  by (simp add: byte_val_def byte_def)

lemma byte_val_less [simp]: "byte_val c < 256"
  by (simp add: byte_val_def)

text \<open>Numbers of a fixed width, most significant byte first.\<close>

fun big_endian :: "nat \<Rightarrow> nat \<Rightarrow> string" where
  "big_endian 0 n = []"
| "big_endian (Suc k) n = big_endian k (n div 256) @ [byte (n mod 256)]"

definition big_endian_val :: "string \<Rightarrow> nat" where
  "big_endian_val bs = foldl (\<lambda>n c. 256 * n + byte_val c) 0 bs"

lemma big_endian_length [simp]: "length (big_endian k n) = k"
  by (induction k arbitrary: n) simp_all

lemma big_endian_val_snoc: "big_endian_val (bs @ [c]) = 256 * big_endian_val bs + byte_val c"
  by (simp add: big_endian_val_def)

lemma big_endian_roundtrip: "n < 256 ^ k \<Longrightarrow> big_endian_val (big_endian k n) = n"
proof (induction k arbitrary: n)
  case 0
  then show ?case by (simp add: big_endian_val_def)
next
  case (Suc k)
  have "n div 256 < 256 ^ k" using Suc.prems by (simp add: less_mult_imp_div_less mult.commute)
  then show ?case using Suc.IH by (simp add: big_endian_val_snoc)
qed

definition ip_bytes :: "ip_addr \<Rightarrow> string" where
  "ip_bytes a = (case a of IP4 w \<Rightarrow> big_endian 4 (unat w) | IP6 w z \<Rightarrow> big_endian 16 (unat w))"

definition ip4_of_bytes :: "string \<Rightarrow> ip_addr" where
  "ip4_of_bytes bs = IP4 (of_nat (big_endian_val bs))"

definition ip6_of_bytes :: "string \<Rightarrow> ip_addr" where
  "ip6_of_bytes bs = IP6 (of_nat (big_endian_val bs)) []"

lemma ip4_roundtrip: "ip4_of_bytes (ip_bytes (IP4 w)) = IP4 w"
proof -
  have "unat w < 256 ^ 4" using unsigned_less [of w, where ?'a = nat] by simp
  then show ?thesis using big_endian_roundtrip [of "unat w" 4] by (simp add: ip4_of_bytes_def ip_bytes_def)
qed

lemma ip6_roundtrip: "ip6_of_bytes (ip_bytes (IP6 w z)) = IP6 w []"
proof -
  have "unat w < 256 ^ 16" using unsigned_less [of w, where ?'a = nat] by simp
  then show ?thesis using big_endian_roundtrip [of "unat w" 16] by (simp add: ip6_of_bytes_def ip_bytes_def)
qed

section \<open>net.SplitHostPort\<close>

fun last_index :: "char \<Rightarrow> string \<Rightarrow> nat option" where
  "last_index d [] = None"
| "last_index d (c # cs) = (case last_index d cs of Some i \<Rightarrow> Some (Suc i) | None \<Rightarrow> if c = d then Some 0 else None)"

fun first_index :: "char \<Rightarrow> string \<Rightarrow> nat option" where
  "first_index d [] = None"
| "first_index d (c # cs) = (if c = d then Some 0 else map_option Suc (first_index d cs))"

definition split_host_port :: "string \<Rightarrow> (string \<times> string) option" where
  "split_host_port s = (case last_index CHR '':'' s of None \<Rightarrow> None | Some i \<Rightarrow>
     if has_prefix s ''['' then
       (case first_index CHR '']'' s of None \<Rightarrow> None | Some e \<Rightarrow>
          if e + 1 \<noteq> i \<or> CHR ''['' \<in> set (drop 1 s) \<or> CHR '']'' \<in> set (drop (e + 1) s) then None
          else Some (take (e - 1) (drop 1 s), drop (i + 1) s))
     else if CHR '':'' \<in> set (take i s) \<or> CHR ''['' \<in> set s \<or> CHR '']'' \<in> set s then None
     else Some (take i s, drop (i + 1) s))"

lemma last_index_append: "d \<notin> set p \<Longrightarrow> last_index d (h @ d # p) = Some (length h)"
proof -
  assume p: "d \<notin> set p"
  then have "last_index d p = None" by (induction p) auto
  then show ?thesis by (induction h) auto
qed

lemma first_index_append: "d \<notin> set h \<Longrightarrow> first_index d (h @ d # p) = Some (length h)"
  by (induction h) auto

text \<open>What JoinHostPort writes, SplitHostPort takes apart.\<close>

lemma split_join_host_port:
  assumes "CHR ''['' \<notin> set h" "CHR '']'' \<notin> set h" "\<forall>c\<in>set p. digit_of c \<noteq> None"
  shows "split_host_port (join_host_port h p) = Some (h, p)"
proof -
  have p: "CHR '':'' \<notin> set p" "CHR ''['' \<notin> set p" "CHR '']'' \<notin> set p" using assms(3) by (auto simp: digit_of_def)
  show ?thesis
  proof (cases "CHR '':'' \<in> set h")
    case True
    have l: "last_index CHR '':'' (CHR ''['' # h @ '']:'' @ p) = Some (Suc (Suc (length h)))"
      using last_index_append [OF p(1), of "CHR ''['' # h @ '']''"] by simp
    have f: "first_index CHR '']'' (CHR ''['' # h @ '']:'' @ p) = Some (Suc (length h))"
      using first_index_append [of "CHR '']''" "CHR ''['' # h" "CHR '':'' # p"] assms(2) by simp
    show ?thesis using l f assms(1) p True by (simp add: join_host_port_def split_host_port_def has_prefix_def)
  next
    case False
    then show ?thesis
      using last_index_append [OF p(1), of h] assms(1,2) p
      by (cases h) (auto simp: join_host_port_def split_host_port_def has_prefix_def)
  qed
qed

section \<open>base64.StdEncoding\<close>

definition base64_digit :: "nat \<Rightarrow> char" where
  "base64_digit n = (if n < 26 then byte (n + 65) else if n < 52 then byte (n + 71) else if n < 62 then byte (n - 4)
     else if n = 62 then CHR ''+'' else CHR ''/'')"

fun base64_encode :: "string \<Rightarrow> string" where
  "base64_encode [] = []"
| "base64_encode [a] = [base64_digit (byte_val a div 4), base64_digit (byte_val a mod 4 * 16), CHR ''='', CHR ''='']"
| "base64_encode [a, b] = [base64_digit (byte_val a div 4), base64_digit (byte_val a mod 4 * 16 + byte_val b div 16),
     base64_digit (byte_val b mod 16 * 4), CHR ''='']"
| "base64_encode (a # b # c # cs) = base64_digit (byte_val a div 4) # base64_digit (byte_val a mod 4 * 16 + byte_val b div 16) #
     base64_digit (byte_val b mod 16 * 4 + byte_val c div 64) # base64_digit (byte_val c mod 64) # base64_encode cs"

end
