(* ===== verification/Upstream_Client.thy ===== *)
theory Upstream_Client
  imports Wire Net_Addr Gateway_Route
begin

text \<open>internal/upstream/connector.go and socks.go: tunnels through HTTP, HTTPS, SOCKS5 and SOCKS5H endpoints and
  through chains of them.  The credentials, the resolver, the dialer and the TLS handshake are arguments;
  deadlines are left out, and a connection that an error closes is not returned.\<close>

section \<open>Connectors\<close>

record credentials =
  cr_username :: string
  cr_password :: string

definition credentials_valid :: "credentials \<Rightarrow> bool" where
  "credentials_valid k = (cr_username k \<noteq> [] \<and> cr_password k \<noteq> [])"

definition no_credentials :: credentials where
  "no_credentials = \<lparr>cr_username = [], cr_password = []\<rparr>"

record connector =
  co_lib :: go_lib
  co_credentials :: "(string \<Rightarrow> error + credentials) option"
  co_resolver :: "(string \<Rightarrow> ip_addr list \<times> error option) option"
  co_tls :: "endpoint \<Rightarrow> conn \<Rightarrow> error + conn"

definition resolve_credentials :: "connector \<Rightarrow> string \<Rightarrow> error + credentials" where
  "resolve_credentials co ref =
     (if ref = [] then Inr no_credentials
      else case co_credentials co of None \<Rightarrow> Inl UpstreamErrCredentials
      | Some f \<Rightarrow> (case f ref of Inl e \<Rightarrow> Inl UpstreamErrCredentials
          | Inr k \<Rightarrow> if credentials_valid k then Inr k else Inl UpstreamErrCredentials))"

section \<open>SOCKS\<close>

definition socks_auth :: "credentials \<Rightarrow> string" where
  "socks_auth k = [byte 1, byte (length (cr_username k))] @ cr_username k @ [byte (length (cr_password k))] @ cr_password k"

definition socks_greeting :: "credentials \<Rightarrow> conn \<Rightarrow> error option \<times> conn" where
  "socks_greeting k c =
     (let methods = (if credentials_valid k then [byte 2] else [byte 0]) in
      case conn_write ([byte 5, byte (length methods)] @ methods) c of (False, c) \<Rightarrow> (Some UpstreamErrConnect, c)
      | (True, c) \<Rightarrow> (case conn_read 2 c of (None, c) \<Rightarrow> (Some UpstreamErrProtocol, c)
      | (Some reply, c) \<Rightarrow>
          if reply ! 0 \<noteq> byte 5 then (Some UpstreamErrProtocol, c)
          else if reply ! 1 = byte 255 then (Some UpstreamErrCredentials, c)
          else if reply ! 1 = byte 2 then
            (if \<not> credentials_valid k then (Some UpstreamErrCredentials, c)
             else if length (cr_username k) > 255 \<or> length (cr_password k) > 255 then (Some UpstreamErrCredentials, c)
             else case conn_write (socks_auth k) c of (False, c) \<Rightarrow> (Some UpstreamErrConnect, c)
             | (True, c) \<Rightarrow> (case conn_read 2 c of (None, c) \<Rightarrow> (Some UpstreamErrCredentials, c)
             | (Some reply, c) \<Rightarrow> if reply ! 0 \<noteq> byte 1 \<or> reply ! 1 \<noteq> byte 0 then (Some UpstreamErrCredentials, c) else (None, c)))
          else if reply ! 1 \<noteq> byte 0 then (Some UpstreamErrProtocol, c) else (None, c)))"

definition socks_ip :: "ip_addr \<Rightarrow> string" where
  "socks_ip a = (case unmap_addr a of IP4 w \<Rightarrow> byte 1 # ip_bytes (IP4 w) | IP6 w z \<Rightarrow> byte 4 # ip_bytes (IP6 w z))"

definition socks_address :: "connector \<Rightarrow> string \<Rightarrow> string \<Rightarrow> error + string" where
  "socks_address co protocol host =
     (case parse_addr (co_lib co) host of Some a \<Rightarrow> Inr (socks_ip a)
      | None \<Rightarrow>
        if protocol = ''socks5h''
        then if length host = 0 \<or> length host > 255 then Inl UpstreamErrProtocol
          else Inr ([byte 3, byte (length host)] @ host)
        else case co_resolver co of None \<Rightarrow> Inl UpstreamErrConnect
        | Some f \<Rightarrow> (case f host of (ips, err) \<Rightarrow> if err \<noteq> None \<or> ips = [] then Inl UpstreamErrConnect else Inr (socks_ip (hd ips))))"

definition socks_response :: "conn \<Rightarrow> error option \<times> conn" where
  "socks_response c =
     (case conn_read 4 c of (None, c) \<Rightarrow> (Some UpstreamErrProtocol, c)
      | (Some header, c) \<Rightarrow>
        if header ! 0 \<noteq> byte 5 \<or> header ! 1 \<noteq> byte 0 then (Some UpstreamErrProtocol, c)
        else case (if header ! 3 = byte 1 then (Some 4, c) else if header ! 3 = byte 4 then (Some 16, c)
            else if header ! 3 = byte 3 then
              (case conn_read 1 c of (None, c) \<Rightarrow> (None, c) | (Some n, c) \<Rightarrow> (Some (byte_val (n ! 0)), c))
            else (None, c)) of
          (None, c) \<Rightarrow> (Some UpstreamErrProtocol, c)
        | (Some n, c) \<Rightarrow> (case conn_read (n + 2) c of (None, c) \<Rightarrow> (Some UpstreamErrProtocol, c) | (Some d, c) \<Rightarrow> (None, c)))"

definition socks_request :: "string \<Rightarrow> nat \<Rightarrow> string" where
  "socks_request address port = [byte 5, byte 1, byte 0] @ address @ big_endian 2 port"

definition connect_socks :: "connector \<Rightarrow> (string \<Rightarrow> error + conn) \<Rightarrow> endpoint \<Rightarrow> string \<Rightarrow> error + conn" where
  "connect_socks co dial e target =
     (case dial (endpoint_address e) of Inl err \<Rightarrow> Inl UpstreamErrConnect
      | Inr c \<Rightarrow> (case resolve_credentials co (ep_credential_ref e) of Inl err \<Rightarrow> Inl err
      | Inr k \<Rightarrow> (case socks_greeting k c of (Some err, c) \<Rightarrow> Inl err
      | (None, c) \<Rightarrow> (case split_host_port target of None \<Rightarrow> Inl UpstreamErrConnect
      | Some (host, raw) \<Rightarrow> (case parse_uint 16 raw of None \<Rightarrow> Inl UpstreamErrConnect
      | Some port \<Rightarrow> if port = 0 then Inl UpstreamErrConnect
        else (case socks_address co (ep_protocol e) host of Inl err \<Rightarrow> Inl err
      | Inr address \<Rightarrow> (case conn_write (socks_request address (nat port)) c of (False, c) \<Rightarrow> Inl UpstreamErrConnect
      | (True, c) \<Rightarrow> (case socks_response c of (Some err, c) \<Rightarrow> Inl err | (None, c) \<Rightarrow> Inr c))))))))"

section \<open>HTTP CONNECT\<close>

definition max_response_header_bytes :: nat where "max_response_header_bytes = 32 * 1024"

definition read_header_line :: "nat \<Rightarrow> conn \<Rightarrow> string option \<times> nat \<times> conn" where
  "read_header_line taken c = (case conn_read_line c of (line, n, c') \<Rightarrow>
     (case line of None \<Rightarrow> (None, taken + n, c')
      | Some l \<Rightarrow> if taken + n > max_response_header_bytes then (None, taken + n, c')
          else (Some (trim_suffix (trim_suffix l [CHR 0x0A]) [CHR 0x0D]), taken + n, c')))"

lemma read_header_line_consumes:
  "read_header_line taken c = (Some l, taken', c') \<Longrightarrow> length (cn_in c') < length (cn_in c)"
proof -
  assume r: "read_header_line taken c = (Some l, taken', c')"
  obtain x xs where d: "dropWhile (\<lambda>x. x \<noteq> CHR 0x0A) (cn_in c) = x # xs" "c' = c\<lparr>cn_in := xs\<rparr>"
    using r by (auto simp: read_header_line_def conn_read_line_def Let_def split: list.splits if_splits)
  then have "length (x # xs) \<le> length (cn_in c)" by (metis length_dropWhile_le)
  then show ?thesis by (simp add: d(2))
qed

function read_headers :: "nat \<Rightarrow> conn \<Rightarrow> bool \<times> conn" where
  "read_headers taken c = (case read_header_line taken c of (None, taken', c') \<Rightarrow> (False, c')
     | (Some line, taken', c') \<Rightarrow>
        if line = [] then (True, c')
        else if has_prefix line '' '' \<or> has_prefix line [CHR 0x09] \<or> \<not> contains line '':'' then (False, c')
        else read_headers taken' c')"
  by auto
termination
  by (relation "measure (\<lambda>(taken, c). length (cn_in c))") (auto dest: read_header_line_consumes [OF sym])

declare read_headers.simps [simp del]

definition str_fields :: "string \<Rightarrow> string list" where
  "str_fields s = filter (\<lambda>x. x \<noteq> []) (split_on CHR '' '' (map (\<lambda>c. if is_space c then CHR '' '' else c) s))"

definition read_connect_response :: "conn \<Rightarrow> int option \<times> conn" where
  "read_connect_response c = (case read_header_line 0 c of (None, taken, c') \<Rightarrow> (None, c')
     | (Some line, taken, c') \<Rightarrow>
        if length (str_fields line) < 2 \<or> \<not> has_prefix (str_fields line ! 0) ''HTTP/'' then (None, c')
        else case parse_int64 (str_fields line ! 1) of None \<Rightarrow> (None, c')
        | Some status \<Rightarrow> (case read_headers taken c' of (ok, c'') \<Rightarrow> (if ok then Some status else None, c'')))"

definition crlf :: string where "crlf = [CHR 0x0D, CHR 0x0A]"

definition basic_auth :: "credentials \<Rightarrow> string" where
  "basic_auth k = ''Basic '' @ base64_encode (cr_username k @ '':'' @ cr_password k)"

definition connect_text :: "credentials \<Rightarrow> string \<Rightarrow> string" where
  "connect_text k target = ''CONNECT '' @ target @ '' HTTP/1.1'' @ crlf @ ''Host: '' @ target @ crlf @
     (if credentials_valid k then ''Proxy-Authorization: '' @ basic_auth k @ crlf else []) @ ''Connection: keep-alive'' @ crlf @ crlf"

definition connect_http :: "connector \<Rightarrow> (string \<Rightarrow> error + conn) \<Rightarrow> endpoint \<Rightarrow> string \<Rightarrow> error + conn" where
  "connect_http co dial e target =
     (case dial (endpoint_address e) of Inl err \<Rightarrow> Inl UpstreamErrConnect
      | Inr c \<Rightarrow> (case (if ep_protocol e = ''https'' then co_tls co e c else Inr c) of Inl err \<Rightarrow> Inl UpstreamErrConnect
      | Inr c \<Rightarrow> (case resolve_credentials co (ep_credential_ref e) of Inl err \<Rightarrow> Inl err
      | Inr k \<Rightarrow> (case conn_write (connect_text k target) c of (False, c) \<Rightarrow> Inl UpstreamErrConnect
      | (True, c) \<Rightarrow> (case read_connect_response c of (None, c) \<Rightarrow> Inl UpstreamErrProtocol
      | (Some status, c) \<Rightarrow> if status = 407 then Inl UpstreamErrCredentials
          else if status < 200 \<or> status > 299 then Inl UpstreamErrProtocol else Inr c)))))"

section \<open>One endpoint and chains\<close>

definition connect_endpoint :: "connector \<Rightarrow> (string \<Rightarrow> error + conn) \<Rightarrow> endpoint \<Rightarrow> string \<Rightarrow> error + conn" where
  "connect_endpoint co dial e target =
     (if endpoint_validate (co_lib co) e \<noteq> None then Inl UpstreamErrConnect
      else if split_host_port target = None then Inl UpstreamErrConnect
      else if ep_protocol e = ''http'' \<or> ep_protocol e = ''https'' then connect_http co dial e target
      else if ep_protocol e = ''socks5'' \<or> ep_protocol e = ''socks5h'' then connect_socks co dial e target
      else Inl UpstreamErrConnect)"

record chain_error =
  che_hop :: nat
  che_pool_id :: go_id
  che_endpoint_id :: go_id
  che_cause :: error

definition hop_error :: "nat \<Rightarrow> chain_hop \<Rightarrow> error \<Rightarrow> chain_error" where
  "hop_error index h cause =
     \<lparr>che_hop = index, che_pool_id = ch_pool_id h, che_endpoint_id = ep_id (ch_endpoint h), che_cause = cause\<rparr>"

text \<open>The dialer of a hop: the network for the first, the partial connection for the others.\<close>

definition hop_dial :: "(string \<Rightarrow> error + conn) \<Rightarrow> conn option \<Rightarrow> chain_hop \<Rightarrow> string \<Rightarrow> error + conn" where
  "hop_dial dial connection h address = (case connection of None \<Rightarrow> dial address
     | Some partial \<Rightarrow> if address \<noteq> endpoint_address (ch_endpoint h) then Inl UpstreamErrConnect else Inr partial)"

fun chain_hops_from :: "connector \<Rightarrow> (string \<Rightarrow> error + conn) \<Rightarrow> string \<Rightarrow> nat \<Rightarrow> go_id list \<Rightarrow> conn option \<Rightarrow>
    chain_hop list \<Rightarrow> (error + chain_error) + conn option" where
  "chain_hops_from co dial target index seen connection [] = Inr connection"
| "chain_hops_from co dial target index seen connection (h # hs) =
     (if endpoint_validate (co_lib co) (ch_endpoint h) \<noteq> None \<or> ep_id (ch_endpoint h) \<in> set seen
      then Inl (Inr (hop_error index h UpstreamErrConnect))
      else let next_target = (case hs of [] \<Rightarrow> target | n # ns \<Rightarrow> endpoint_address (ch_endpoint n)) in
        (case connect_endpoint co (hop_dial dial connection h) (ch_endpoint h) next_target of
          Inl err \<Rightarrow> Inl (Inr (hop_error index h err))
        | Inr c \<Rightarrow> chain_hops_from co dial target (index + 1) (ep_id (ch_endpoint h) # seen) (Some c) hs))"

definition connect_chain :: "connector \<Rightarrow> (string \<Rightarrow> error + conn) \<Rightarrow> chain_hop list \<Rightarrow> string \<Rightarrow>
    (error + chain_error) + conn option" where
  "connect_chain co dial hops target =
     (if length hops < 2 \<or> length hops > 8 then Inl (Inl UpstreamErrConnect)
      else if split_host_port target = None then Inl (Inl UpstreamErrConnect)
      else chain_hops_from co dial target 0 [] None hops)"

end
