(* ===== verification/Socks_Server.thy ===== *)
theory Socks_Server
  imports Upstream_Client
begin

text \<open>internal/transport/socks5/server.go: the handshake of the SOCKS5 listener, and what a served connection
  answers.  The password check is an argument; it is None where the listener takes no authentication.\<close>

section \<open>Handshake\<close>

definition read_password :: "conn \<Rightarrow> (string \<times> string) option \<times> conn" where
  "read_password c =
     (case conn_read 2 c of (None, c) \<Rightarrow> (None, c)
      | (Some header, c) \<Rightarrow> if header ! 0 \<noteq> byte 1 \<or> header ! 1 = byte 0 then (None, c)
        else (case conn_read (byte_val (header ! 1)) c of (None, c) \<Rightarrow> (None, c)
      | (Some username, c) \<Rightarrow> (case conn_read 1 c of (None, c) \<Rightarrow> (None, c)
      | (Some n, c) \<Rightarrow> if n ! 0 = byte 0 then (None, c)
        else (case conn_read (byte_val (n ! 0)) c of (None, c) \<Rightarrow> (None, c)
      | (Some password, c) \<Rightarrow> (Some (username, password), c)))))"

definition negotiate :: "(string \<Rightarrow> string \<Rightarrow> error + go_id) option \<Rightarrow> conn \<Rightarrow> go_id option \<times> conn" where
  "negotiate authenticate c =
     (case conn_read 2 c of (None, c) \<Rightarrow> (None, c)
      | (Some header, c) \<Rightarrow> if header ! 0 \<noteq> byte 5 \<or> header ! 1 = byte 0 then (None, c)
        else (case conn_read (byte_val (header ! 1)) c of (None, c) \<Rightarrow> (None, c)
      | (Some methods, c) \<Rightarrow>
          let selected = (case authenticate of
              Some f \<Rightarrow> if byte 2 \<in> set methods then 2 else 255
            | None \<Rightarrow> if byte 0 \<in> set methods then 0 else (255 :: nat)) in
          (case conn_write [byte 5, byte selected] c of (False, c) \<Rightarrow> (None, c)
           | (True, c) \<Rightarrow>
             if selected = 0 then (Some ''local-socks'', c)
             else if selected \<noteq> 2 then (None, c)
             else (case read_password c of (None, c) \<Rightarrow> (None, c)
               | (Some (username, password), c) \<Rightarrow>
                   (case authenticate of None \<Rightarrow> (None, c)
                    | Some f \<Rightarrow>
                      (case f username password of
                        Inr i \<Rightarrow> if id_valid i
                          then (case conn_write [byte 1, byte 0] c of (ok, c) \<Rightarrow> (if ok then Some i else None, c))
                          else (None, snd (conn_write [byte 1, byte 1] c))
                      | Inl e \<Rightarrow> (None, snd (conn_write [byte 1, byte 1] c))))))))"

definition read_request :: "go_lib \<Rightarrow> conn \<Rightarrow> (string \<times> nat) option \<times> conn" where
  "read_request lib c =
     (case conn_read 4 c of (None, c) \<Rightarrow> (None, c)
      | (Some header, c) \<Rightarrow>
        if header ! 0 \<noteq> byte 5 \<or> header ! 1 \<noteq> byte 1 \<or> header ! 2 \<noteq> byte 0 then (None, c)
        else case (if header ! 3 = byte 1 then
              (case conn_read 4 c of (None, c) \<Rightarrow> (None, c) | (Some b, c) \<Rightarrow> (Some (addr_string lib (ip4_of_bytes b)), c))
            else if header ! 3 = byte 4 then
              (case conn_read 16 c of (None, c) \<Rightarrow> (None, c) | (Some b, c) \<Rightarrow> (Some (addr_string lib (ip6_of_bytes b)), c))
            else if header ! 3 = byte 3 then
              (case conn_read 1 c of (None, c) \<Rightarrow> (None, c)
               | (Some n, c) \<Rightarrow> if n ! 0 = byte 0 then (None, c) else conn_read (byte_val (n ! 0)) c)
            else (None, c)) of
          (None, c) \<Rightarrow> (None, c)
        | (Some host, c) \<Rightarrow> if \<not> valid_host lib host then (None, c)
          else (case conn_read 2 c of (None, c) \<Rightarrow> (None, c)
            | (Some b, c) \<Rightarrow> let port = byte_val (b ! 0) * 256 + byte_val (b ! 1) in
                (if port > 0 then Some (host, port) else None, c)))"

definition write_reply :: "nat \<Rightarrow> conn \<Rightarrow> bool \<times> conn" where
  "write_reply code c = conn_write ([byte 5, byte code, byte 0, byte 1] @ replicate 6 (byte 0)) c"

end
