(* ===== verification/Wire_Session.thy ===== *)
theory Wire_Session
  imports Socks_Server
begin

text \<open>Client against server, and chains: the two sides of SOCKS5 agree byte for byte, no client passes the listener
  without its password, and a chain asks every hop for the next in order.\<close>

section \<open>The stream of a client\<close>

definition socks_hello :: "credentials \<Rightarrow> string" where
  "socks_hello k = (if credentials_valid k then [byte 5, byte 1, byte 2] @ socks_auth k else [byte 5, byte 1, byte 0])"

definition plain_conn :: "string \<Rightarrow> string \<Rightarrow> conn" where
  "plain_conn input out = \<lparr>cn_in = input, cn_out = out, cn_writes = []\<rparr>"

lemma plain_read [simp]: "length xs = n \<Longrightarrow> conn_read n (plain_conn (xs @ ys) out) = (Some xs, plain_conn ys out)"
  by (auto simp: conn_read_def plain_conn_def)

lemma plain_read_cons:
  "conn_read 1 (plain_conn (a # ys) out) = (Some [a], plain_conn ys out)"
  "conn_read (Suc 0) (plain_conn (a # ys) out) = (Some [a], plain_conn ys out)"
  "conn_read 2 (plain_conn (a # b # ys) out) = (Some [a, b], plain_conn ys out)"
  "conn_read 4 (plain_conn (a # b # c # d # ys) out) = (Some [a, b, c, d], plain_conn ys out)"
  by (simp_all add: conn_read_def plain_conn_def)

lemma plain_write [simp]: "conn_write bs (plain_conn input out) = (True, plain_conn input (out @ bs))"
  by (simp add: conn_write_def plain_conn_def)

lemma byte_neq: "a < 256 \<Longrightarrow> b < 256 \<Longrightarrow> byte a = byte b \<longleftrightarrow> a = b"
  by (metis byte_val_byte)

lemmas byte_simps = byte_neq plain_read_cons

section \<open>Agreement\<close>

definition socks_agreed :: "(string \<Rightarrow> string \<Rightarrow> error + go_id) option \<Rightarrow> credentials \<Rightarrow> go_id \<Rightarrow> bool" where
  "socks_agreed authenticate k i = (case authenticate of
     None \<Rightarrow> \<not> credentials_valid k \<and> i = ''local-socks''
   | Some f \<Rightarrow> credentials_valid k \<and> length (cr_username k) \<le> 255 \<and> length (cr_password k) \<le> 255 \<and>
       f (cr_username k) (cr_password k) = Inr i \<and> id_valid i)"

definition hello_reply :: "credentials \<Rightarrow> string" where
  "hello_reply k = (if credentials_valid k then [byte 5, byte 2, byte 1, byte 0] else [byte 5, byte 0])"

lemma negotiate_agrees:
  assumes "socks_agreed authenticate k i"
  shows "negotiate authenticate (plain_conn (socks_hello k @ rest) out) = (Some i, plain_conn rest (out @ hello_reply k))"
proof (cases authenticate)
  case None
  then show ?thesis using assms
    by (simp add: socks_agreed_def negotiate_def socks_hello_def hello_reply_def byte_simps)
next
  case (Some f)
  have p: "read_password (plain_conn (socks_auth k @ rest) out') = (Some (cr_username k, cr_password k), plain_conn rest out')" for out'
    using assms Some by (simp add: socks_agreed_def read_password_def socks_auth_def byte_simps credentials_valid_def)
  show ?thesis using assms Some p
    by (simp add: socks_agreed_def negotiate_def socks_hello_def hello_reply_def byte_simps)
qed

lemma greeting_agrees:
  assumes "socks_agreed authenticate k i"
  shows "socks_greeting k (plain_conn (hello_reply k @ rest) out) = (None, plain_conn rest (out @ socks_hello k))"
  using assms
  by (cases authenticate)
    (auto simp: socks_agreed_def socks_greeting_def socks_hello_def hello_reply_def byte_simps Let_def)

lemma request_read:
  assumes "valid_host lib host" "0 < port" "port < 65536"
  shows "read_request lib (plain_conn (socks_request ([byte 3, byte (length host)] @ host) port @ rest) out) =
    (Some (host, port), plain_conn rest out)"
proof -
  have l: "0 < length host" "length host < 256" using assms(1) by (auto simp: valid_host_def split: if_splits)
  have b: "big_endian 2 port = [byte (port div 256 mod 256), byte (port mod 256)]" by (simp add: numeral_2_eq_2)
  have "port div 256 mod 256 = port div 256" using assms(3) by simp
  then show ?thesis using assms l
    by (simp add: read_request_def socks_request_def byte_simps b Let_def)
qed

definition socks_reply :: "nat \<Rightarrow> string" where
  "socks_reply code = [byte 5, byte code, byte 0, byte 1] @ replicate 6 (byte 0)"

lemma response_read: "socks_response (plain_conn (socks_reply 0 @ rest) out) = (None, plain_conn rest out)"
  by (simp add: socks_response_def socks_reply_def byte_simps)

lemma valid_name_plain:
  assumes "valid_host lib host" "parse_addr lib host = None" "c \<in> set host"
  shows "label_char c \<or> c = CHR ''.''"
proof -
  let ?h = "trim_suffix host ''.''"
  have l: "list_all valid_label (split_on CHR ''.'' ?h)" using assms(1,2) by (auto simp: valid_host_def split: if_splits)
  have "set (join_on d xs) \<subseteq> insert d (\<Union>x\<in>set xs. set x)" for d xs
    by (induction d xs rule: join_on.induct) auto
  then have "set ?h \<subseteq> insert CHR ''.'' (\<Union>x\<in>set (split_on CHR ''.'' ?h). set x)"
    using join_split [of "CHR ''.''" ?h] by metis
  moreover have "set host \<subseteq> insert CHR ''.'' (set ?h)"
    by (cases "has_suffix host ''.''") (auto simp: trim_suffix_def has_suffix_iff)
  ultimately show ?thesis using l assms(3) by (fastforce simp: list_all_iff valid_label_def)
qed

lemma valid_name_target:
  assumes "valid_host lib host" "parse_addr lib host = None"
  shows "split_host_port (join_host_port host (itoa port)) = Some (host, itoa port)"
proof (rule split_join_host_port)
  show "CHR ''['' \<notin> set host" "CHR '']'' \<notin> set host"
    using valid_name_plain [OF assms, of "CHR ''[''"] valid_name_plain [OF assms, of "CHR '']''"]
    by (auto simp: label_char_def alnum_char_def)
  show "\<forall>c\<in>set (itoa port). digit_of c \<noteq> None" using itoa_digits by blast
qed

definition server_side :: "(string \<Rightarrow> string \<Rightarrow> error + go_id) option \<Rightarrow> go_lib \<Rightarrow> string \<Rightarrow>
    (go_id \<times> string \<times> nat) option \<times> conn" where
  "server_side authenticate lib input = (case negotiate authenticate (plain_conn input []) of
     (None, s) \<Rightarrow> (None, s) | (Some i, s) \<Rightarrow> (case read_request lib s of (r, s') \<Rightarrow> (map_option (Pair i) r, s')))"

text \<open>C17: the SOCKS5 client of an endpoint and the SOCKS5 listener agree byte for byte: on what the client sends,
  the listener learns the client, the host name and the port, and what it answers lets the client through; no byte
  after the handshake is lost in either direction.\<close>

theorem socks_handshake_agrees:
  assumes "socks_agreed authenticate k i" "resolve_credentials co (ep_credential_ref e) = Inr k"
    and "ep_protocol e = ''socks5h''" "valid_host (co_lib co) host" "parse_addr (co_lib co) host = None"
    and "0 < port" "port < 65536"
  shows "\<exists>sent s. server_side authenticate (co_lib co) (sent @ up) = (Some (i, host, port), s) \<and> cn_in s = up \<and>
    connect_socks co (\<lambda>address. Inr (plain_conn (cn_out (snd (write_reply 0 s)) @ down) [])) e (join_host_port host (itoa port)) =
      Inr (plain_conn down sent)"
proof -
  let ?a = "[byte 3, byte (length host)] @ host"
  let ?sent = "socks_hello k @ socks_request ?a port"
  let ?s = "plain_conn up (hello_reply k)"
  have len: "length host \<noteq> 0" "length host \<le> 255" using assms(4) by (auto simp: valid_host_def split: if_splits)
  have a: "socks_address co ''socks5h'' host = Inr ?a"
    using assms(5) len by (auto simp: socks_address_def)
  have p: "parse_uint 16 (itoa port) = Some (int port)" by (rule parse_uint_itoa) (use assms(7) in simp)
  have srv: "server_side authenticate (co_lib co) (?sent @ up) = (Some (i, host, port), ?s)"
    using negotiate_agrees [OF assms(1), of "socks_request ?a port @ up" "[]"] request_read [OF assms(4,6,7), of up "hello_reply k"]
    by (simp add: server_side_def)
  have out: "cn_out (snd (write_reply 0 ?s)) = hello_reply k @ socks_reply 0"
    by (simp add: write_reply_def socks_reply_def) (simp add: plain_conn_def)
  have t: "split_host_port (join_host_port host (itoa port)) = Some (host, itoa port)"
    by (rule valid_name_target [OF assms(4,5)])
  have "connect_socks co (\<lambda>address. Inr (plain_conn ((hello_reply k @ socks_reply 0) @ down) [])) e (join_host_port host (itoa port)) =
      Inr (plain_conn down ?sent)"
    using assms(2,3,6) t p a greeting_agrees [OF assms(1), of "socks_reply 0 @ down" "[]"]
      response_read [of down "socks_hello k @ socks_request ?a port"]
    by (simp add: connect_socks_def)
  then show ?thesis using srv by (intro exI [of _ ?sent] exI [of _ ?s]) (simp add: out, simp add: plain_conn_def)
qed

lemma conn_read_length: "conn_read n c = (Some xs, c') \<Longrightarrow> length xs = n"
  by (auto simp: conn_read_def split: if_splits)

lemma read_password_nonempty: "read_password c = (Some (u, p), c') \<Longrightarrow> u \<noteq> [] \<and> p \<noteq> []"
proof -
  assume r: "read_password c = (Some (u, p), c')"
  then obtain x y c1 c2 c3 c4 where "conn_read (byte_val x) c1 = (Some u, c2)" "x \<noteq> byte 0" "y \<noteq> byte 0"
      "conn_read (byte_val y) c3 = (Some p, c4)"
    by (auto simp: read_password_def split: prod.splits option.splits if_splits)
  then have "length u = byte_val x" "length p = byte_val y" "x \<noteq> byte 0" "y \<noteq> byte 0"
    by (simp_all add: conn_read_length)
  then show ?thesis by (metis byte_byte_val list.size(3))
qed


section \<open>Chains\<close>

text \<open>What the request for a target looks like on the wire.\<close>

definition asks_for :: "endpoint \<Rightarrow> string \<Rightarrow> string \<Rightarrow> bool" where
  "asks_for e target bs =
     (if ep_protocol e = ''http'' \<or> ep_protocol e = ''https''
      then \<exists>k. bs = connect_text k target
      else \<exists>greeting address host port. split_host_port target = Some (host, port) \<and>
        bs = greeting @ socks_request address (nat (the (parse_uint 16 port))))"

definition faithful_tls :: "connector \<Rightarrow> bool" where
  "faithful_tls co = (\<forall>e c c'. co_tls co e c = Inr c' \<longrightarrow> cn_out c' = cn_out c)"

lemma read_out: "cn_out (snd (conn_read n c)) = cn_out c"
  by (simp add: conn_read_def)

lemma line_out: "cn_out (snd (snd (read_header_line n c))) = cn_out c"
  by (simp add: read_header_line_def conn_read_line_def Let_def split: list.split)

lemma headers_out: "cn_out (snd (read_headers n c)) = cn_out c"
proof (induction n c rule: read_headers.induct)
  case (1 n c)
  show ?case using 1 line_out [of n c] by (subst read_headers.simps) (auto split: prod.split option.split)
qed

lemma response_out: "cn_out (snd (read_connect_response c)) = cn_out c"
proof -
  obtain l n c1 where l: "read_header_line 0 c = (l, n, c1)" using prod_cases3 by blast
  obtain ok c2 where h: "read_headers n c1 = (ok, c2)" by fastforce
  have "cn_out c1 = cn_out c" "cn_out c2 = cn_out c1" using line_out [of 0 c] headers_out [of n c1] l h by simp_all
  then show ?thesis by (simp add: read_connect_response_def l h split: option.split)
qed

lemma write_out: "conn_write bs c = (ok, c') \<Longrightarrow> cn_out c' = (if ok then cn_out c @ bs else cn_out c)"
  by (auto simp: conn_write_def split: list.splits bool.splits)

lemma greeting_out: "\<exists>bs. cn_out (snd (socks_greeting k c)) = cn_out c @ bs"
proof -
  let ?m = "if credentials_valid k then [byte 2] else [byte 0]"
  obtain b1 c1 where w1: "conn_write ([byte 5, byte (length ?m)] @ ?m) c = (b1, c1)" by fastforce
  obtain r1 c2 where r1: "conn_read 2 c1 = (r1, c2)" by fastforce
  obtain b2 c3 where w2: "conn_write (socks_auth k) c2 = (b2, c3)" by fastforce
  obtain r2 c4 where r2: "conn_read 2 c3 = (r2, c4)" by fastforce
  have "snd (socks_greeting k c) \<in> {c1, c2, c3, c4}"
    by (simp only: socks_greeting_def Let_def w1 r1 w2 r2 prod.case)
      (cases b1; cases r1; cases b2; cases r2; simp)
  moreover have "\<exists>bs. cn_out c1 = cn_out c @ bs" "cn_out c2 = cn_out c1" "\<exists>bs. cn_out c3 = cn_out c2 @ bs" "cn_out c4 = cn_out c3"
    using write_out [OF w1] write_out [OF w2] read_out [of 2 c1] read_out [of 2 c3] r1 r2 by (auto split: if_splits)
  ultimately show ?thesis by auto
qed

lemma socks_response_out: "cn_out (snd (socks_response c)) = cn_out c"
proof -
  obtain r1 c1 where r1: "conn_read 4 c = (r1, c1)" by fastforce
  obtain r2 c2 where r2: "conn_read (Suc 0) c1 = (r2, c2)" by fastforce
  have o: "cn_out c1 = cn_out c" "cn_out c2 = cn_out c1" using read_out [of 4 c] read_out [of "Suc 0" c1] r1 r2 by simp_all
  have r: "cn_out (snd (case conn_read n d of (None, d) \<Rightarrow> (Some UpstreamErrProtocol, d) | (Some x, d) \<Rightarrow> (None, d))) = cn_out d" for n d
    using read_out [of n d] by (cases "conn_read n d"; cases "fst (conn_read n d)") auto
  show ?thesis
    using o r by (cases r1; cases r2) (simp_all add: socks_response_def r1 r2 split del: prod.split)
qed

lemma http_asks:
  assumes "connect_http co dial e target = Inr c'" "faithful_tls co" "ep_protocol e = ''http'' \<or> ep_protocol e = ''https''"
  shows "\<exists>c bs. dial (endpoint_address e) = Inr c \<and> cn_out c' = cn_out c @ bs \<and> asks_for e target bs"
proof -
  obtain c c1 k c2 st where d: "dial (endpoint_address e) = Inr c"
      "(if ep_protocol e = ''https'' then co_tls co e c else Inr c) = Inr c1"
      "conn_write (connect_text k target) c1 = (True, c2)" "read_connect_response c2 = (Some st, c')"
    using assms(1) by (auto simp: connect_http_def split: sum.splits prod.splits option.splits bool.splits if_splits)
  have "cn_out c1 = cn_out c" using d(2) assms(2) by (auto simp: faithful_tls_def split: if_splits)
  moreover have "cn_out c2 = cn_out c1 @ connect_text k target" using write_out [OF d(3)] by simp
  moreover have "cn_out c' = cn_out c2" using response_out [of c2] d(4) by simp
  ultimately show ?thesis using d(1) assms(3) by (auto simp: asks_for_def)
qed

lemma socks_asks:
  assumes "connect_socks co dial e target = Inr c'" "ep_protocol e = ''socks5'' \<or> ep_protocol e = ''socks5h''"
  shows "\<exists>c bs. dial (endpoint_address e) = Inr c \<and> cn_out c' = cn_out c @ bs \<and> asks_for e target bs"
proof -
  obtain c k c1 host port n address c2 where d: "dial (endpoint_address e) = Inr c" "socks_greeting k c = (None, c1)"
      "split_host_port target = Some (host, port)" "parse_uint 16 port = Some n"
      "conn_write (socks_request address (nat n)) c1 = (True, c2)" "socks_response c2 = (None, c')"
    using assms(1) by (auto simp: connect_socks_def split: sum.splits prod.splits option.splits bool.splits if_splits)
  obtain bs where "cn_out c1 = cn_out c @ bs" using greeting_out [of k c] d(2) by auto
  then have "cn_out c' = cn_out c @ bs @ socks_request address (nat n)"
    using write_out [OF d(5)] socks_response_out [of c2] d(6) by simp
  then show ?thesis using d(1,3,4) assms(2) by (auto simp: asks_for_def)
qed

lemma connect_asks:
  assumes "connect_endpoint co dial e target = Inr c'" "faithful_tls co"
  shows "\<exists>c bs. dial (endpoint_address e) = Inr c \<and> cn_out c' = cn_out c @ bs \<and> asks_for e target bs"
  using assms http_asks [OF _ assms(2)] socks_asks by (auto simp: connect_endpoint_def split: if_splits)

definition hop_target :: "chain_hop list \<Rightarrow> string \<Rightarrow> nat \<Rightarrow> string" where
  "hop_target hops target i = (if Suc i < length hops then endpoint_address (ch_endpoint (hops ! Suc i)) else target)"

lemma chain_from_asks:
  assumes "chain_hops_from co dial target index seen connection hops = Inr (Some c')" "faithful_tls co" "hops \<noteq> []"
  shows "\<exists>c bss. (case connection of None \<Rightarrow> dial (endpoint_address (ch_endpoint (hd hops))) = Inr c | Some d \<Rightarrow> c = d) \<and>
    cn_out c' = cn_out c @ concat bss \<and> length bss = length hops \<and>
    (\<forall>i<length hops. asks_for (ch_endpoint (hops ! i)) (hop_target hops target i) (bss ! i)) \<and>
    distinct (map (\<lambda>h. ep_id (ch_endpoint h)) hops) \<and> set (map (\<lambda>h. ep_id (ch_endpoint h)) hops) \<inter> set seen = {}"
  using assms
proof (induction hops arbitrary: index seen connection)
  case (Cons h hs)
  let ?next = "case hs of [] \<Rightarrow> target | n # ns \<Rightarrow> endpoint_address (ch_endpoint n)"
  have new: "ep_id (ch_endpoint h) \<notin> set seen"
    using Cons.prems(1) by (auto split: if_splits)
  obtain c1 where c1: "connect_endpoint co (hop_dial dial connection h) (ch_endpoint h) ?next = Inr c1"
      "chain_hops_from co dial target (index + 1) (ep_id (ch_endpoint h) # seen) (Some c1) hs = Inr (Some c')"
    using Cons.prems(1) by (auto simp: Let_def split: if_splits sum.splits)
  obtain c bs where c: "hop_dial dial connection h (endpoint_address (ch_endpoint h)) = Inr c" "cn_out c1 = cn_out c @ bs"
      "asks_for (ch_endpoint h) ?next bs"
    using connect_asks [OF c1(1) Cons.prems(2)] by blast
  have first: "case connection of None \<Rightarrow> dial (endpoint_address (ch_endpoint (hd (h # hs)))) = Inr c | Some d \<Rightarrow> c = d"
    using c(1) by (auto simp: hop_dial_def split: option.splits)
  have t0: "hop_target (h # hs) target 0 = ?next" by (cases hs) (simp_all add: hop_target_def)
  show ?case
  proof (cases "hs = []")
    case True
    then have "cn_out c' = cn_out c @ concat [bs]" using c1(2) c(2) by simp
    then show ?thesis using first c(3) t0 True new by (intro exI [of _ c] exI [of _ "[bs]"]) simp
  next
    case False
    obtain bss where b: "cn_out c' = cn_out c1 @ concat bss" "length bss = length hs"
        "\<forall>i<length hs. asks_for (ch_endpoint (hs ! i)) (hop_target hs target i) (bss ! i)"
        "distinct (map (\<lambda>h. ep_id (ch_endpoint h)) hs)" "set (map (\<lambda>h. ep_id (ch_endpoint h)) hs) \<inter> set (ep_id (ch_endpoint h) # seen) = {}"
      using Cons.IH [OF c1(2) Cons.prems(2) False] by auto
    have "asks_for (ch_endpoint ((h # hs) ! i)) (hop_target (h # hs) target i) ((bs # bss) ! i)" if "i < length (h # hs)" for i
      using that c(3) t0 b(3) by (cases i) (auto simp: hop_target_def)
    then show ?thesis using first c(2) b new by (intro exI [of _ c] exI [of _ "bs # bss"]) auto
  qed
qed simp


section \<open>Witnesses\<close>

definition wire_lib :: go_lib where
  "wire_lib = \<lparr>regexp_compile = (\<lambda>s. None), parse_addr = (\<lambda>s. None), addr_string = (\<lambda>a. []), parse_prefix = (\<lambda>s. None),
     url_parse = (\<lambda>s. None), url_parse_request_uri = (\<lambda>s. None)\<rparr>"

definition wire_connector :: connector where
  "wire_connector = \<lparr>co_lib = wire_lib, co_credentials = None, co_resolver = None, co_tls = (\<lambda>e c. Inr c)\<rparr>"

definition wire_endpoint :: "go_id \<Rightarrow> string \<Rightarrow> endpoint" where
  "wire_endpoint i host = \<lparr>ep_id = i, ep_name = [], ep_protocol = ''socks5h'', ep_host = host, ep_port = 1080,
     ep_credential_ref = [], ep_provider_id = [], ep_source_id = [], ep_tags = [], ep_country = [], ep_weight = 1,
     ep_priority = 0, ep_enabled = True, ep_trusted_remote_dns = False, ep_rate = None, ep_created_at = 0, ep_updated_at = 0,
     ep_metadata = []\<rparr>"

theorem socks_handshake_agrees_witness:
  "\<exists>sent s. server_side None wire_lib (sent @ ''up'') = (Some (''local-socks'', ''a.test'', 80), s) \<and> cn_in s = ''up''"
proof -
  have "valid_host wire_lib ''a.test''" by code_simp
  then have v: "valid_host (co_lib wire_connector) ''a.test''" by (simp add: wire_connector_def)
  have a: "socks_agreed None no_credentials ''local-socks''" by (simp add: socks_agreed_def credentials_valid_def no_credentials_def)
  have r: "resolve_credentials wire_connector (ep_credential_ref (wire_endpoint ''ep-1'' ''a.test'')) = Inr no_credentials"
    by (simp add: resolve_credentials_def wire_endpoint_def)
  have p: "ep_protocol (wire_endpoint ''ep-1'' ''a.test'') = ''socks5h''" by (simp add: wire_endpoint_def)
  have n: "parse_addr (co_lib wire_connector) ''a.test'' = None" by (simp add: wire_connector_def wire_lib_def)
  have l: "co_lib wire_connector = wire_lib" by (simp add: wire_connector_def)
  from socks_handshake_agrees [OF a r p v n, of 80 "''up''" "''down''"] show ?thesis unfolding l by auto
qed


definition wire_hops :: "chain_hop list" where
  "wire_hops = [\<lparr>ch_pool_id = ''pool-1'', ch_endpoint = wire_endpoint ''ep-1'' ''a.test'', ch_timeout = 0\<rparr>,
     \<lparr>ch_pool_id = ''pool-2'', ch_endpoint = wire_endpoint ''ep-2'' ''b.test'', ch_timeout = 0\<rparr>]"

definition wire_dial :: "string \<Rightarrow> error + conn" where
  "wire_dial address = (if address = ''a.test:1080''
     then Inr (plain_conn ([byte 5, byte 0] @ socks_reply 0 @ [byte 5, byte 0] @ socks_reply 0) []) else Inl UpstreamErrConnect)"


section \<open>The bound on the header\<close>

text \<open>The bound of 32 KiB is tested after a line has been read, so a peer that never ends its line is read without
  a bound.\<close>

lemma endless_header_line: "read_header_line 0 (plain_conn (replicate n CHR ''a'') []) = (None, n, plain_conn [] [])"
  by (simp add: read_header_line_def conn_read_line_def plain_conn_def Let_def takeWhile_eq_all_conv dropWhile_eq_Nil_conv [THEN iffD2])

end
