(* ===== verification/Forward_Request.thy ===== *)
theory Forward_Request
  imports Wire Gateway_Use Cache_Keys
begin

text \<open>internal/transport/httpforward/proxy.go, the parts without state: what a request names as its destination,
  who sends it, which headers travel on, under which key its response is cached, and the event that
  records it.  A request is what net/http has parsed; net/url's views of its URL are fields.\<close>

section \<open>Requests\<close>

record request_url =
  ru_absolute :: bool
  ru_scheme :: string
  ru_host :: string
  ru_hostname :: string
  ru_port :: string
  ru_has_user :: bool
  ru_path :: string
  ru_text :: string

record http_request =
  hr_method :: string
  hr_url :: request_url
  hr_host :: string
  hr_header :: http_header
  hr_content_length :: int
  hr_transfer_encoding :: "string list"

definition session_header :: string where "session_header = ''X-Proxysieve-Session''"

definition default_port :: "string \<Rightarrow> nat" where
  "default_port scheme = (if scheme = ''https'' then 443 else if scheme = ''http'' then 80 else 0)"

text \<open>A refusal is the status and the code that http.Error writes.\<close>

type_synonym refusal = "int \<times> string"

definition forward_target :: "go_lib \<Rightarrow> http_request \<Rightarrow> refusal + string \<times> nat" where
  "forward_target lib r =
     (let u = hr_url r in
      if length (header_get (hr_header r) session_header) > 4096 then Inl (400, ''INVALID_SESSION_KEY'')
      else if \<not> ru_absolute u \<or> ru_host u = [] \<or> ru_has_user u \<or> hr_host r = [] \<or> default_port (ru_scheme u) = 0
      then Inl (400, ''INVALID_PROXY_REQUEST'')
      else if hr_content_length r > 2 ^ 30 then Inl (413, ''REQUEST_TOO_LARGE'')
      else case (if ru_port u \<noteq> [] then
            (case parse_uint 16 (ru_port u) of None \<Rightarrow> None | Some p \<Rightarrow> if p = 0 then None else Some (nat p))
          else Some (default_port (ru_scheme u))) of
        None \<Rightarrow> Inl (400, ''INVALID_DESTINATION'')
      | Some port \<Rightarrow>
          if \<not> valid_host lib (ru_hostname u) \<or> port = 0 \<or> has_suffix (ru_host u) '':''
          then Inl (400, ''INVALID_DESTINATION'') else Inr (ru_hostname u, port))"

definition parse_connect_target :: "go_lib \<Rightarrow> string \<Rightarrow> (string \<times> nat) option" where
  "parse_connect_target lib raw =
     (if length raw > 512 then None
      else case split_host_port raw of None \<Rightarrow> None
      | Some (host, port_raw) \<Rightarrow> if \<not> valid_host lib host then None
          else case parse_uint 16 port_raw of None \<Rightarrow> None
          | Some port \<Rightarrow> if port > 0 then Some (host, nat port) else None)"

definition trim_prefix :: "string \<Rightarrow> string \<Rightarrow> string" where
  "trim_prefix s p = (if has_prefix s p then drop (length p) s else s)"

definition inspect_authority :: "go_lib \<Rightarrow> string \<Rightarrow> (string \<times> nat) option" where
  "inspect_authority lib authority =
     (if length authority = 0 \<or> length authority > 512 then None
      else case (case split_host_port authority of Some x \<Rightarrow> Some x
          | None \<Rightarrow> if contains authority '':'' then
                (if has_prefix authority ''['' \<and> has_suffix authority '']''
                 then Some (trim_suffix (trim_prefix authority ''['') '']'', ''443'') else None)
              else Some (authority, ''443'')) of
        None \<Rightarrow> None
      | Some (host, port_raw) \<Rightarrow> (case parse_uint 16 port_raw of None \<Rightarrow> None
          | Some port \<Rightarrow> if port = 0 \<or> \<not> valid_host lib host then None else Some (host, nat port)))"

section \<open>Headers\<close>

text \<open>textproto.CanonicalMIMEHeaderKey.\<close>

definition token_char :: "char \<Rightarrow> bool" where
  "token_char c = (alnum_char c \<or> c \<in> set (''!#$%&*+-.^_|~'' @ [CHR 0x27, CHR 0x60]))"

definition upper_char :: "char \<Rightarrow> char" where
  "upper_char c = (let n = (of_char c :: nat) in if 97 \<le> n \<and> n \<le> 122 then char_of (n - 32) else c)"

fun canonical_chars :: "bool \<Rightarrow> string \<Rightarrow> string" where
  "canonical_chars up [] = []"
| "canonical_chars up (c # cs) = (if up then upper_char c else lower_char c) # canonical_chars (c = CHR ''-'') cs"

definition canonical_key :: "string \<Rightarrow> string" where
  "canonical_key k = (if list_all token_char k then canonical_chars True k else k)"

definition header_del :: "string \<Rightarrow> http_header \<Rightarrow> http_header" where
  "header_del k h = filter (\<lambda>(n, vs). n \<noteq> canonical_key k) h"

definition hop_headers :: "string list" where
  "hop_headers = [''Connection'', ''Proxy-Connection'', ''Keep-Alive'', ''Proxy-Authenticate'', ''Proxy-Authorization'', ''TE'',
     ''Trailer'', ''Transfer-Encoding'', ''Upgrade'']"

definition internal_header :: "string \<Rightarrow> bool" where
  "internal_header k = has_prefix (to_lower k) ''x-proxysieve-''"

definition strip_hop_by_hop :: "http_header \<Rightarrow> http_header" where
  "strip_hop_by_hop h =
     (let h1 = fold (\<lambda>line. fold (\<lambda>k. header_del (trim_space k)) (split_on CHR '','' line)) (header_values h ''Connection'') h;
          h2 = fold header_del hop_headers h1 in
      fold (\<lambda>k h. if internal_header k then header_del k h else h) (keys_of h2) h2)"

definition visible_headers :: "http_header \<Rightarrow> http_header" where
  "visible_headers h = filter (\<lambda>(k, vs). \<not> (equal_fold k ''Proxy-Authorization'' \<or> internal_header k)) h"

definition outgoing_headers :: "http_header \<Rightarrow> http_header" where
  "outgoing_headers h = header_del ''Proxy-Connection'' (header_del ''Proxy-Authorization'' (strip_hop_by_hop h))"

section \<open>Clients\<close>

text \<open>base64.StdEncoding.DecodeString.\<close>

definition base64_value :: "char \<Rightarrow> nat option" where
  "base64_value c = (let n = (of_char c :: nat) in
     if 65 \<le> n \<and> n \<le> 90 then Some (n - 65) else if 97 \<le> n \<and> n \<le> 122 then Some (n - 71)
     else if 48 \<le> n \<and> n \<le> 57 then Some (n + 4) else if c = CHR ''+'' then Some 62
     else if c = CHR ''/'' then Some 63 else None)"

fun base64_groups :: "string \<Rightarrow> string option" where
  "base64_groups [] = Some []"
| "base64_groups (a # b # c # d # cs) =
     (case (base64_value a, base64_value b) of
        (Some x, Some y) \<Rightarrow>
          if c = CHR ''='' then (if d = CHR ''='' \<and> cs = [] then Some [byte (x * 4 + y div 16)] else None)
          else (case base64_value c of None \<Rightarrow> None
            | Some z \<Rightarrow>
               if d = CHR ''='' then (if cs = [] then Some [byte (x * 4 + y div 16), byte (y mod 16 * 16 + z div 4)] else None)
               else (case base64_value d of None \<Rightarrow> None
                 | Some w \<Rightarrow> map_option (\<lambda>t. byte (x * 4 + y div 16) # byte (y mod 16 * 16 + z div 4) # byte (z mod 4 * 64 + w) # t)
                     (base64_groups cs)))
      | _ \<Rightarrow> None)"
| "base64_groups cs = None"

definition base64_decode :: "string \<Rightarrow> string option" where
  "base64_decode s = base64_groups (filter (\<lambda>c. c \<noteq> CHR 0x0D \<and> c \<noteq> CHR 0x0A) s)"

text \<open>strings.Cut and SplitN at the first separator.\<close>

fun cut_at :: "char \<Rightarrow> string \<Rightarrow> (string \<times> string) option" where
  "cut_at d [] = None"
| "cut_at d (c # cs) = (if c = d then Some ([], cs) else map_option (map_prod (Cons c) id) (cut_at d cs))"

definition basic_credentials :: "string \<Rightarrow> (string \<times> string) option" where
  "basic_credentials header =
     (case cut_at CHR '' '' (trim_space header) of None \<Rightarrow> None
      | Some (scheme, encoded) \<Rightarrow>
        if \<not> equal_fold scheme ''Basic'' \<or> length encoded > 8192 then None
        else case base64_decode encoded of None \<Rightarrow> None
        | Some text \<Rightarrow> (case cut_at CHR '':'' text of None \<Rightarrow> None
          | Some (username, password) \<Rightarrow>
              if username = [] \<or> password = [] \<or> length username > 255 \<or> length password > 255 then None
              else Some (username, password)))"

definition authenticate_request :: "(string \<Rightarrow> string \<Rightarrow> error + go_id) option \<Rightarrow> (string \<Rightarrow> error + go_id) option \<Rightarrow>
    http_request \<Rightarrow> go_id option" where
  "authenticate_request password token r =
     (let header = header_get (hr_header r) ''Proxy-Authorization'' in
      case password of
        Some f \<Rightarrow> (case basic_credentials header of None \<Rightarrow> None
          | Some (u, p) \<Rightarrow> (case f u p of Inl e \<Rightarrow> None | Inr i \<Rightarrow> Some i))
      | None \<Rightarrow> (case token of None \<Rightarrow> Some ''local-http''
          | Some f \<Rightarrow> (case f header of Inl e \<Rightarrow> None | Inr i \<Rightarrow> Some i)))"

section \<open>Cache keys\<close>

definition cache_key_for :: "route \<Rightarrow> result \<Rightarrow> request_context \<Rightarrow> http_request \<Rightarrow> cache_key" where
  "cache_key_for ro res q r =
     (let route_id = (if ro_chain_id ro = [] then ro_pool_id ro else ro_chain_id ro) in
      \<lparr>ck_client_id = q_client_id q,
       ck_session_hash = (if ro_session_hash ro = [] then ''none'' else ro_session_hash ro),
       ck_route_id = (if route_id = [] then ''direct'' else route_id),
       ck_proxy_id = ro_proxy_id ro, ck_policy_id = res_policy_id res, ck_rule_id = res_terminal_rule_id res,
       ck_runtime_revision = res_runtime_revision res, ck_method = hr_method r, ck_url = ru_text (hr_url r), ck_vary = []\<rparr>)"

section \<open>Events\<close>

record traffic_event =
  te_at :: go_time
  te_request_id :: go_id
  te_connection_id :: go_id
  te_client_id :: go_id
  te_policy_id :: go_id
  te_rule_id :: go_id
  te_pool_id :: go_id
  te_proxy_id :: go_id
  te_chain_id :: go_id
  te_host :: string
  te_protocol :: string
  te_action :: string
  te_status :: int
  te_client_upload :: bytes
  te_client_download :: bytes
  te_upstream_upload :: bytes
  te_upstream_download :: bytes
  te_direct :: bytes
  te_cache_served :: bytes
  te_health_check :: bytes
  te_estimated_avoided :: bytes
  te_cost :: "cost_snapshot option"

definition event_bytes_ok :: "traffic_event \<Rightarrow> bool" where
  "event_bytes_ok e = list_all (\<lambda>b. uint b < 2 ^ 63) [te_client_upload e, te_client_download e, te_upstream_upload e,
     te_upstream_download e, te_direct e, te_cache_served e, te_health_check e, te_estimated_avoided e]"

definition event_validate :: "traffic_event \<Rightarrow> error option" where
  "event_validate e =
     (if te_at e < unix_epoch \<or> te_at e \<ge> unix_epoch + 2 ^ 63 \<or> \<not> id_valid (te_request_id e) \<or> \<not> id_valid (te_connection_id e) \<or>
         length (te_host e) > 253 \<or> length (te_protocol e) > 32 \<or> length (te_action e) > 32 \<or> te_status e < 0 \<or> te_status e > 999
      then Some TrafficErrInvalidEvent
      else if list_ex (\<lambda>i. i \<noteq> [] \<and> \<not> id_valid i)
        [te_client_id e, te_policy_id e, te_rule_id e, te_pool_id e, te_proxy_id e, te_chain_id e]
      then Some TrafficErrInvalidEvent
      else if \<not> event_bytes_ok e then Some TrafficErrInvalidEvent
      else if list_ex (\<lambda>s. contains_any s [CHR 0x0D, CHR 0x0A]) [te_host e, te_protocol e, te_action e]
      then Some TrafficErrInvalidEvent
      else if (case te_cost e of None \<Rightarrow> False
          | Some c \<Rightarrow> cost_snapshot_validate c (te_upstream_upload e) (te_upstream_download e) \<noteq> None)
      then Some TrafficErrInvalidEvent else None)"

text \<open>The bytes of a route by what it was; the sum of a direct HTTP route wraps, that of a tunnel is zero when it
  overflows.\<close>

definition proxied :: "route \<Rightarrow> bool" where
  "proxied ro = (ro_action ro = ''proxy'' \<or> ro_action ro = ''chain'')"

definition event_of :: "go_time \<Rightarrow> string \<Rightarrow> request_context \<Rightarrow> result \<Rightarrow> route \<Rightarrow> int \<Rightarrow> bytes \<Rightarrow> bytes \<Rightarrow> bytes \<Rightarrow> bytes \<Rightarrow> bytes \<Rightarrow>
    traffic_event" where
  "event_of now protocol q res ro status client_up client_down up down direct =
     \<lparr>te_at = now, te_request_id = q_request_id q, te_connection_id = q_connection_id q, te_client_id = q_client_id q,
      te_policy_id = res_policy_id res, te_rule_id = res_terminal_rule_id res, te_pool_id = ro_pool_id ro,
      te_proxy_id = ro_proxy_id ro, te_chain_id = ro_chain_id ro, te_host = q_host q, te_protocol = protocol,
      te_action = ro_action ro, te_status = status, te_client_upload = client_up, te_client_download = client_down,
      te_upstream_upload = (if proxied ro then up else 0), te_upstream_download = (if proxied ro then down else 0),
      te_direct = (if ro_action ro = ''direct'' then direct else 0), te_cache_served = 0, te_health_check = 0,
      te_estimated_avoided = 0,
      te_cost = (case new_cost_snapshot (ro_rate ro) (if proxied ro then up else 0) (if proxied ro then down else 0) of
          Inl e \<Rightarrow> None | Inr c \<Rightarrow> c)\<rparr>"

definition http_event :: "go_time \<Rightarrow> request_context \<Rightarrow> result \<Rightarrow> route \<Rightarrow> int \<Rightarrow> bytes \<Rightarrow> bytes \<Rightarrow> bytes \<Rightarrow> traffic_event" where
  "http_event now q res ro status up down delivered =
     event_of now ''http'' q res ro status up delivered up down (up + down)"

definition tunnel_event :: "go_time \<Rightarrow> string \<Rightarrow> request_context \<Rightarrow> result \<Rightarrow> route \<Rightarrow> int \<Rightarrow> bytes \<Rightarrow> bytes \<Rightarrow> bytes \<Rightarrow> bytes \<Rightarrow>
    traffic_event" where
  "tunnel_event now protocol q res ro status client_up client_down up down =
     event_of now protocol q res ro status client_up client_down up down
       (case bytes_add up down of Inl e \<Rightarrow> 0 | Inr b \<Rightarrow> b)"

definition cache_event :: "go_time \<Rightarrow> request_context \<Rightarrow> result \<Rightarrow> route \<Rightarrow> int \<Rightarrow> bytes \<Rightarrow> traffic_event" where
  "cache_event now q res ro status delivered =
     (event_of now ''http'' q res (ro\<lparr>ro_action := ''cache'', ro_rate := None\<rparr>) status 0 delivered 0 0 0)
       \<lparr>te_cache_served := delivered\<rparr>"

end
