(* ===== verification/Forward_Headers.thy ===== *)
theory Forward_Headers
  imports Forward_Request Upstream_Client
begin

text \<open>What the headers and credentials of a forwarded request guarantee.\<close>

section \<open>Hop-by-hop headers\<close>

lemma header_del_keys: "(n, vs) \<in> set (header_del k h) \<longleftrightarrow> (n, vs) \<in> set h \<and> n \<noteq> canonical_key k"
  by (auto simp: header_del_def)

lemma fold_del_keys: "(n, vs) \<in> set (fold header_del ks h) \<longleftrightarrow> (n, vs) \<in> set h \<and> (\<forall>k\<in>set ks. n \<noteq> canonical_key k)"
  by (induction ks arbitrary: h) (auto simp: header_del_keys)

definition connection_tokens :: "http_header \<Rightarrow> string list" where
  "connection_tokens h = concat (map (\<lambda>line. map trim_space (split_on CHR '','' line)) (header_values h ''Connection''))"

lemma fold_connection:
  "fold (\<lambda>line. fold (\<lambda>k. header_del (trim_space k)) (split_on CHR '','' line)) ls h =
     fold header_del (concat (map (\<lambda>line. map trim_space (split_on CHR '','' line)) ls)) h"
  by (induction ls arbitrary: h) (simp_all add: fold_map o_def)

lemma fold_internal:
  assumes "(n, vs) \<in> set (fold (\<lambda>k h. if internal_header k then header_del k h else h) ks h)"
  shows "(n, vs) \<in> set h \<and> (\<forall>k\<in>set ks. internal_header k \<longrightarrow> n \<noteq> canonical_key k)"
  using assms by (induction ks arbitrary: h) (fastforce simp: header_del_keys split: if_splits)+


definition wit_request_header :: http_header where
  "wit_request_header = [(''Accept'', [''text/html'']), (''Connection'', [''close, X-Trace'']), (''X-Trace'', [''1'']),
     (''Proxy-Authorization'', [''Basic dTpw'']), (''X-Proxysieve-Session'', [''s''])]"


section \<open>Basic credentials\<close>

lemma base64_value_digit: "n < 64 \<Longrightarrow> base64_value (base64_digit n) = Some n"
  by (auto simp: base64_value_def base64_digit_def byte_def Let_def)

lemma base64_digit_plain: "n < 64 \<Longrightarrow> \<not> is_space (base64_digit n)"
  by (auto simp: base64_digit_def byte_def is_space_def Let_def)

lemma not_padding: "n < 64 \<Longrightarrow> base64_digit n \<noteq> CHR ''=''"
proof
  assume "n < 64" "base64_digit n = CHR ''=''"
  then have "of_char (base64_digit n) = (61 :: nat)" by simp
  then show False using \<open>n < 64\<close> by (auto simp: base64_digit_def byte_def split: if_splits)
qed

lemma join_bits: "q < k \<Longrightarrow> (m * k + q) div k = (m :: nat)" "q < k \<Longrightarrow> (m * k + q) mod k = (q :: nat)"
  by simp_all

lemma byte_parts: "byte_val a div 4 < 64" "byte_val b div 16 < 16" "byte_val c div 64 < 4"
  using byte_val_less [of a] byte_val_less [of b] byte_val_less [of c] by linarith+

lemma six_bits:
  "byte_val a div 4 < 64" "byte_val a mod 4 * 16 + byte_val b div 16 < 64" "byte_val b mod 16 * 4 + byte_val c div 64 < 64"
  "byte_val a mod 4 * 16 < 64" "byte_val b mod 16 * 4 < 64" "byte_val c mod 64 < 64"
proof -
  have "byte_val a mod 4 < 4" "byte_val b mod 16 < 16" "byte_val c mod 64 < 64" by simp_all
  then show "byte_val a div 4 < 64" "byte_val a mod 4 * 16 + byte_val b div 16 < 64" "byte_val b mod 16 * 4 + byte_val c div 64 < 64"
    "byte_val a mod 4 * 16 < 64" "byte_val b mod 16 * 4 < 64" "byte_val c mod 64 < 64"
    using byte_parts(1) [of a] byte_parts(2) [of b] byte_parts(3) [of c] by linarith+
qed

lemma first_byte: "byte_val a div 4 * 4 + (byte_val a mod 4 * 16 + byte_val b div 16) div 16 = byte_val a"
  by (simp only: join_bits(1) [OF byte_parts(2)] div_mult_mod_eq)

lemma second_byte:
  "(byte_val a mod 4 * 16 + byte_val b div 16) mod 16 * 16 + (byte_val b mod 16 * 4 + byte_val c div 64) div 4 = byte_val b"
  by (simp only: join_bits(1) [OF byte_parts(3)] join_bits(2) [OF byte_parts(2)] div_mult_mod_eq)

lemma third_byte: "(byte_val b mod 16 * 4 + byte_val c div 64) mod 4 * 64 + byte_val c mod 64 = byte_val c"
  by (simp only: join_bits(2) [OF byte_parts(3)] div_mult_mod_eq)

lemma last_of_two: "(byte_val a mod 4 * 16 + byte_val b div 16) mod 16 * 16 + byte_val b mod 16 * 4 div 4 = byte_val b"
  by (simp only: join_bits(2) [OF byte_parts(2)]) simp

lemma base64_groups_encode: "base64_groups (base64_encode s) = Some s"
proof (induction s rule: base64_encode.induct)
  case (2 a)
  have "byte_val a div 4 * 4 + byte_val a mod 4 * 16 div 16 = byte_val a" by simp
  then show ?case using six_bits(1,4) by (simp add: base64_value_digit)
next
  case (3 a b)
  show ?case
    by (simp only: base64_encode.simps base64_groups.simps base64_value_digit [OF six_bits(1)] base64_value_digit [OF six_bits(2)]
      base64_value_digit [OF six_bits(5)] not_padding [OF six_bits(5)] if_False if_True option.case prod.case simp_thms
      first_byte last_of_two byte_byte_val)
next
  case (4 a b c cs)
  show ?case
    by (simp only: base64_encode.simps base64_groups.simps base64_value_digit [OF six_bits(1)] base64_value_digit [OF six_bits(2)]
      base64_value_digit [OF six_bits(3)] base64_value_digit [OF six_bits(6)] not_padding [OF six_bits(3)]
      not_padding [OF six_bits(6)] if_False if_True option.case prod.case 4 option.map first_byte second_byte third_byte byte_byte_val)
qed simp

lemma base64_encode_chars: "list_all (\<lambda>c. \<not> is_space c) (base64_encode s)"
proof (induction s rule: base64_encode.induct)
  case (2 a)
  show ?case by (simp add: base64_digit_plain six_bits) (simp add: is_space_def)
next
  case (3 a b)
  show ?case by (simp add: base64_digit_plain six_bits) (simp add: is_space_def)
next
  case (4 a b c cs)
  then show ?case by (simp add: base64_digit_plain six_bits)
qed simp

lemma base64_encode_nonempty: "s \<noteq> [] \<Longrightarrow> base64_encode s \<noteq> []"
  by (cases s rule: base64_encode.cases) simp_all

lemma trim_space_id: "s \<noteq> [] \<Longrightarrow> \<not> is_space (hd s) \<Longrightarrow> \<not> is_space (last s) \<Longrightarrow> trim_space s = s"
proof -
  assume s: "s \<noteq> []" "\<not> is_space (hd s)" "\<not> is_space (last s)"
  then have "dropWhile is_space s = s" by (cases s) simp_all
  moreover have "dropWhile is_space (rev s) = rev s" using s(1,3) by (cases s rule: rev_cases) simp_all
  ultimately show ?thesis by (simp add: trim_space_def)
qed

lemma base64_encode_length: "3 * length (base64_encode s) \<le> 4 * (length s + 2)"
  by (induction s rule: base64_encode.induct) simp_all

lemma base64_roundtrip: "base64_decode (base64_encode s) = Some s"
proof -
  have "filter (\<lambda>c. c \<noteq> CHR 0x0D \<and> c \<noteq> CHR 0x0A) (base64_encode s) = base64_encode s"
    using base64_encode_chars [of s] by (auto simp: filter_id_conv list_all_iff is_space_def)
  then show ?thesis by (simp add: base64_decode_def base64_groups_encode)
qed

lemma cut_at_append: "d \<notin> set a \<Longrightarrow> cut_at d (a @ d # b) = Some (a, b)"
  by (induction a) auto

text \<open>The credentials that the connector of an HTTP endpoint sends are those that the listener reads, when the
  user name has no colon.\<close>

theorem basic_credentials_roundtrip:
  assumes "credentials_valid k" "CHR '':'' \<notin> set (cr_username k)" "length (cr_username k) \<le> 255" "length (cr_password k) \<le> 255"
  shows "basic_credentials (basic_auth k) = Some (cr_username k, cr_password k)"
proof -
  let ?t = "cr_username k @ CHR '':'' # cr_password k"
  let ?e = "base64_encode ?t"
  have ne: "?e \<noteq> []" by (rule base64_encode_nonempty) simp
  have "\<not> is_space (last ?e)" using base64_encode_chars [of ?t] last_in_set [OF ne] by (auto simp: list_all_iff)
  then have trim: "trim_space (''Basic '' @ ?e) = ''Basic '' @ ?e"
    using ne by (intro trim_space_id) (simp_all add: is_space_def)
  have len: "length ?e \<le> 8192" using base64_encode_length [of ?t] assms(3,4) by simp
  have c: "cut_at CHR '' '' (''Basic '' @ ?e) = Some (''Basic'', ?e)" using cut_at_append [of "CHR '' ''" "''Basic''" ?e] by simp
  have t: "cut_at CHR '':'' ?t = Some (cr_username k, cr_password k)" by (rule cut_at_append [OF assms(2)])
  have f: "equal_fold ''Basic'' ''Basic''" by code_simp
  show ?thesis using assms trim len c t f base64_roundtrip [of ?t]
    by (simp add: basic_credentials_def basic_auth_def credentials_valid_def)
qed

theorem basic_credentials_roundtrip_witness:
  "basic_credentials (basic_auth \<lparr>cr_username = ''alice'', cr_password = ''s:x''\<rparr>) = Some (''alice'', ''s:x'')"
  using basic_credentials_roundtrip [of "\<lparr>cr_username = ''alice'', cr_password = ''s:x''\<rparr>"]
  by (simp add: credentials_valid_def)

end
