(* ===== verification/Forward_Serve.thy ===== *)
theory Forward_Serve
  imports Forward_Request Cache_Store
begin

text \<open>internal/transport/httpforward/proxy.go, forward and connect, with router.Evaluate of internal/app/gateway.go:
  what becomes of one request, through the policy, the router, the budgets, the response cache, the health of
  the endpoints and the retries, and what is recorded.  The bytes of the streams, the clock and the answers of
  the network are arguments; the copying of a tunnel and TLS inspection are left out.\<close>

section \<open>The gateway of an adapter\<close>

record ('b, 'p, 'c) gateway =
  gw_lib :: go_lib
  gw_router :: "('b, 'p) router"
  gw_policy_id :: go_id
  gw_listener :: string
  gw_cache :: "(go_time \<Rightarrow> cache_op \<Rightarrow> 'c \<Rightarrow> cache_reply \<times> 'c) option"
  gw_max_cache_body :: int
  gw_rewrite :: "request_url \<Rightarrow> string \<Rightarrow> request_url option"
  gw_http_time :: "string \<Rightarrow> go_time option"
  gw_records :: bool

record ('b, 'p, 'c) gateway_state =
  gs_router :: "('b, 'p) router_state"
  gs_cache :: 'c
  gs_events :: "traffic_event list"

text \<open>What the upstream answered, and the bytes that the reader of the budget let through.\<close>

record http_response =
  hs_status :: int
  hs_header :: http_header
  hs_content_length :: int
  hs_body :: string
  hs_read_ok :: bool

record forward_io =
  fi_request_id :: go_id
  fi_connection_id :: go_id
  fi_now :: go_time
  fi_route :: route_readings
  fi_chain :: "go_id \<Rightarrow> nat \<Rightarrow> readings"
  fi_reserve_err :: "error option"
  fi_reserve_now :: go_time
  fi_acquire_now :: "go_id \<Rightarrow> go_time"
  fi_cache_now :: go_time
  fi_attempt :: "8 word \<Rightarrow> attempt_io"
  fi_response :: http_response
  fi_upload :: bytes
  fi_download :: bytes
  fi_delivered :: bytes
  fi_complete :: complete_readings
  fi_recorded :: go_time

record forward_reply =
  fr_status :: int
  fr_code :: string
  fr_header :: http_header
  fr_body :: string
  fr_cached :: bool

definition error_reply :: "int \<Rightarrow> string \<Rightarrow> forward_reply" where
  "error_reply status code = \<lparr>fr_status = status, fr_code = code, fr_header = [], fr_body = [], fr_cached = False\<rparr>"

section \<open>Evaluation and recording\<close>

definition gateway_evaluate :: "('b, 'p, 'c) gateway \<Rightarrow> routing_snapshot \<Rightarrow> request_context \<Rightarrow> visibility \<Rightarrow> result \<times> error option" where
  "gateway_evaluate gw sn q v = (case sn_document sn (gw_policy_id gw) of
     None \<Rightarrow> (empty_result, Some PolicyErrNoRoute)
   | Some p \<Rightarrow> (case evaluate (gw_lib gw) p q v False of (res, err) \<Rightarrow> (res\<lparr>res_runtime_revision := sn_revision sn\<rparr>, err)))"

definition record_event :: "('b, 'p, 'c) gateway \<Rightarrow> traffic_event \<Rightarrow> ('b, 'p, 'c) gateway_state \<Rightarrow> ('b, 'p, 'c) gateway_state" where
  "record_event gw e s = (if gw_records gw then s\<lparr>gs_events := gs_events s @ [e]\<rparr> else s)"

definition record_http :: "('b, 'p, 'c) gateway \<Rightarrow> forward_io \<Rightarrow> request_context \<Rightarrow> result \<Rightarrow> route \<Rightarrow> bytes \<Rightarrow> bytes \<Rightarrow> bytes \<Rightarrow> int \<Rightarrow>
    ('b, 'p, 'c) gateway_state \<Rightarrow> ('b, 'p, 'c) gateway_state" where
  "record_http gw io q res ro up down delivered status s =
     record_event gw (http_event (fi_recorded io) q res ro status up down delivered)
       (s\<lparr>gs_router := complete_with (gw_router gw) (fi_complete io) up down ro (gs_router s)\<rparr>)"

text \<open>A request that no upstream sees.\<close>

definition refuse_http :: "('b, 'p, 'c) gateway \<Rightarrow> forward_io \<Rightarrow> request_context \<Rightarrow> result \<Rightarrow> route \<Rightarrow> int \<Rightarrow> string \<Rightarrow>
    ('b, 'p, 'c) gateway_state \<Rightarrow> forward_reply \<times> ('b, 'p, 'c) gateway_state" where
  "refuse_http gw io q res ro status code s = (error_reply status code, record_http gw io q res ro 0 0 0 status s)"

section \<open>The request\<close>

definition forward_context :: "('b, 'p, 'c) gateway \<Rightarrow> forward_io \<Rightarrow> go_id \<Rightarrow> http_request \<Rightarrow> string \<Rightarrow> nat \<Rightarrow> request_context" where
  "forward_context gw io client r host port =
     \<lparr>q_request_id = fi_request_id io, q_connection_id = fi_connection_id io, q_client_id = client, q_listener = gw_listener gw,
      q_protocol = ''http'', q_scheme = ru_scheme (hr_url r), q_host = host,
      q_session_key = header_get (hr_header r) session_header, q_port = of_nat port, q_source_ip = None,
      q_destination_ip = None, q_method = \<lparr>known = True, value_of = hr_method r\<rparr>,
      q_path = \<lparr>known = True, value_of = ru_path (hr_url r)\<rparr>, q_resource_type = \<lparr>known = False, value_of = []\<rparr>,
      q_mime_hint = \<lparr>known = False, value_of = []\<rparr>, q_content_length = \<lparr>known = False, value_of = 0\<rparr>,
      q_headers = \<lparr>known = True, value_of = visible_headers (hr_header r)\<rparr>, q_timestamp = fi_now io, q_inspect_mode = False\<rparr>"

definition forward_visibility :: visibility where
  "forward_visibility = \<lparr>v_host = True, v_method = True, v_path = True, v_headers = True, v_resource_type = False\<rparr>"

text \<open>The adapter as the retry policy sees it.\<close>

definition forward_adapter :: "http_request \<Rightarrow> adapter" where
  "forward_adapter r = HttpForward (hr_method r) (hr_content_length r \<noteq> 0 \<or> hr_transfer_encoding r \<noteq> [])
     (header_get (hr_header r) ''Idempotency-Key'' \<noteq> [])"

section \<open>The response\<close>

definition forward_respond :: "('b, 'p, 'c) gateway \<Rightarrow> forward_io \<Rightarrow> request_context \<Rightarrow> result \<Rightarrow> http_request \<Rightarrow> route \<Rightarrow>
    ('b, 'p, 'c) gateway_state \<Rightarrow> forward_reply \<times> ('b, 'p, 'c) gateway_state" where
  "forward_respond gw io q res r ro s =
     (let resp = fi_response io; header = strip_hop_by_hop (hs_header resp);
          el = check_response (gw_http_time gw) (hs_status resp) (hs_header resp) (hs_content_length resp) (gw_max_cache_body gw)
            (fi_now io);
          s1 = (case gw_cache gw of
              Some step \<Rightarrow>
                if ro_cache ro \<and> el_eligible (check_request (hr_method r) (hr_header r)) \<and> el_eligible el \<and> hs_read_ok resp \<and>
                   int (length (hs_body resp)) \<le> gw_max_cache_body gw
                then s\<lparr>gs_cache := snd (step (fi_cache_now io) (CachePut (cache_key_for ro res q r)
                   \<lparr>ce_status = hs_status resp, ce_header = header, ce_body = hs_body resp, ce_expires_at = el_expires_at el,
                    ce_host = []\<rparr>) (gs_cache s))\<rparr>
                else s
            | None \<Rightarrow> s) in
      (\<lparr>fr_status = hs_status resp, fr_code = [], fr_header = header, fr_body = hs_body resp, fr_cached = False\<rparr>,
       record_http gw io q res ro (fi_upload io) (fi_download io) (fi_delivered io) (hs_status resp) s1))"

text \<open>The events of the attempts: every failed one has one.\<close>

fun record_failures :: "('b, 'p, 'c) gateway \<Rightarrow> forward_io \<Rightarrow> request_context \<Rightarrow> result \<Rightarrow> 8 word \<Rightarrow> bool \<Rightarrow> route list \<Rightarrow>
    ('b, 'p, 'c) gateway_state \<Rightarrow> ('b, 'p, 'c) gateway_state" where
  "record_failures gw io q res k ok [] s = s"
| "record_failures gw io q res k ok (ro # ros) s =
     (if ok \<and> ros = [] then s
      else record_failures gw io q res (k + 1) ok ros
        (record_event gw (http_event (fi_recorded io) q res ro 502 (ai_upload (fi_attempt io k)) 0 0) s))"

definition forward_upstream :: "('b, 'p, 'c) gateway \<Rightarrow> forward_io \<Rightarrow> routing_snapshot \<Rightarrow> request_context \<Rightarrow> result \<Rightarrow> http_request \<Rightarrow>
    route \<Rightarrow> ('b, 'p, 'c) gateway_state \<Rightarrow> forward_reply \<times> ('b, 'p, 'c) gateway_state" where
  "forward_upstream gw io sn q res r ro s =
     (case route_acquire (fi_acquire_now io) ro (gs_router s) of
        (False, rs) \<Rightarrow> refuse_http gw io q res ro 502 ''ROUTE_UNAVAILABLE'' (s\<lparr>gs_router := rs\<rparr>)
      | (True, rs) \<Rightarrow>
        (case serve_attempts (gw_router gw) (forward_adapter r) (fi_attempt io) sn q ro rs of
          ((ok, tried), rs') \<Rightarrow>
            let s1 = record_failures gw io q res 1 ok tried (s\<lparr>gs_router := rs'\<rparr>) in
            if ok then forward_respond gw io q res r (last tried) s1 else (error_reply 502 ''UPSTREAM_FAILED'', s1)))"

definition serve_cached :: "('b, 'p, 'c) gateway \<Rightarrow> forward_io \<Rightarrow> request_context \<Rightarrow> result \<Rightarrow> route \<Rightarrow> cache_entry \<Rightarrow>
    ('b, 'p, 'c) gateway_state \<Rightarrow> forward_reply \<times> ('b, 'p, 'c) gateway_state" where
  "serve_cached gw io q res ro e s =
     (\<lparr>fr_status = ce_status e, fr_code = [], fr_header = ce_header e, fr_body = ce_body e, fr_cached = True\<rparr>,
      record_event gw (cache_event (fi_recorded io) q res ro (ce_status e) (fi_delivered io))
        (s\<lparr>gs_router := complete_with (gw_router gw) (fi_complete io) 0 0 ro (gs_router s)\<rparr>))"

definition forward_routed :: "('b, 'p, 'c) gateway \<Rightarrow> forward_io \<Rightarrow> routing_snapshot \<Rightarrow> request_context \<Rightarrow> result \<Rightarrow> http_request \<Rightarrow>
    route \<Rightarrow> ('b, 'p, 'c) gateway_state \<Rightarrow> forward_reply \<times> ('b, 'p, 'c) gateway_state" where
  "forward_routed gw io sn q res r ro s =
     (case route_available (gw_router gw) (fi_reserve_err io) (fi_reserve_now io) ro (gs_router s) of
        (Some e, rs) \<Rightarrow> refuse_http gw io q res (ro\<lparr>ro_action := ''budget_reject''\<rparr>) 429 ''BUDGET_EXCEEDED'' (s\<lparr>gs_router := rs\<rparr>)
      | (None, rs) \<Rightarrow>
        let s1 = s\<lparr>gs_router := rs\<rparr> in
        (case (if ro_cache ro then gw_cache gw else None) of
           None \<Rightarrow> forward_upstream gw io sn q res r ro s1
         | Some step \<Rightarrow>
             if \<not> el_eligible (check_request (hr_method r) (hr_header r))
             then forward_upstream gw io sn q res r ro (s1\<lparr>gs_cache := snd (step (fi_cache_now io) CacheBypass (gs_cache s1))\<rparr>)
             else (case step (fi_cache_now io) (CacheGet (cache_key_for ro res q r)) (gs_cache s1) of
               (ReplyEntry (Some e), c) \<Rightarrow> serve_cached gw io q res ro e (s1\<lparr>gs_cache := c\<rparr>)
             | (reply, c) \<Rightarrow> forward_upstream gw io sn q res r ro (s1\<lparr>gs_cache := c\<rparr>))))"

text \<open>What the route decides before anything is sent.\<close>

definition forward_decided :: "('b, 'p, 'c) gateway \<Rightarrow> forward_io \<Rightarrow> routing_snapshot \<Rightarrow> request_context \<Rightarrow> result \<Rightarrow> http_request \<Rightarrow>
    route \<Rightarrow> error option \<Rightarrow> ('b, 'p, 'c) gateway_state \<Rightarrow> forward_reply \<times> ('b, 'p, 'c) gateway_state" where
  "forward_decided gw io sn q res r ro err s =
     (if err \<noteq> None \<or> ro_action ro \<in> set [''block'', ''reject'', []] then
        if err = Some GatewayErrUnsupported then refuse_http gw io q res ro 501 ''ACTION_UNAVAILABLE'' s
        else let ro' = (if ro_action ro = ''block'' \<or> ro_action ro = ''reject'' then ro else ro\<lparr>ro_action := ''reject''\<rparr>) in
          refuse_http gw io q res ro' 403 (if err = Some GatewayErrDenied then ''DESTINATION_DENIED'' else ''POLICY_BLOCKED'') s
      else if ro_action ro = ''mock'' then
        (\<lparr>fr_status = 200, fr_code = [], fr_header = [(''Content-Type'', [''text/plain; charset=utf-8''])], fr_body = ro_action_value ro,
          fr_cached = False\<rparr>, record_http gw io q res ro 0 0 (fi_delivered io) 200 s)
      else if ro_action ro = ''redirect'' then
        (\<lparr>fr_status = 302, fr_code = [], fr_header = [(''Location'', [ro_action_value ro])], fr_body = [], fr_cached = False\<rparr>,
         record_http gw io q res ro 0 0 0 302 s)
      else if ro_cache ro \<and> gw_cache gw = None then refuse_http gw io q res ro 501 ''CACHE_UNAVAILABLE'' s
      else if ro_dial ro = NoDial then refuse_http gw io q res ro 502 ''ROUTE_UNAVAILABLE'' s
      else if ro_rewrite_path ro \<noteq> [] then
        (case gw_rewrite gw (hr_url r) (ro_rewrite_path ro) of
           None \<Rightarrow> refuse_http gw io q res ro 400 ''INVALID_REWRITE'' s
         | Some u \<Rightarrow>
             if ru_host u \<noteq> ru_host (hr_url r) \<or> ru_scheme u \<noteq> ru_scheme (hr_url r)
             then refuse_http gw io q res ro 400 ''INVALID_REWRITE'' s
             else forward_routed gw io sn q res (r\<lparr>hr_url := u\<rparr>) ro s)
      else forward_routed gw io sn q res r ro s)"

definition forward_http :: "('b, 'p, 'c) gateway \<Rightarrow> forward_io \<Rightarrow> routing_snapshot \<Rightarrow> (int \<Rightarrow> routing_snapshot option) \<Rightarrow> go_id \<Rightarrow>
    http_request \<Rightarrow> ('b, 'p, 'c) gateway_state \<Rightarrow> forward_reply \<times> ('b, 'p, 'c) gateway_state" where
  "forward_http gw io sn history client r s =
     (case forward_target (gw_lib gw) r of
        Inl (status, code) \<Rightarrow> (error_reply status code, s)
      | Inr (host, port) \<Rightarrow>
        let q = forward_context gw io client r host port in
        (case gateway_evaluate gw sn q forward_visibility of
          (res, Some e) \<Rightarrow> refuse_http gw io q res (empty_route\<lparr>ro_action := ''reject''\<rparr>) 403 ''POLICY_REJECTED'' s
        | (res, None) \<Rightarrow>
          (case route_request (gw_router gw) (fi_route io) (fi_chain io) history q res (gs_router s) of
            ((ro, err), rs) \<Rightarrow> forward_decided gw io sn q res r ro err (s\<lparr>gs_router := rs\<rparr>))))"

end
