(* ===== verification/Tunnel_Serve.thy ===== *)
theory Tunnel_Serve
  imports Forward_Serve Socks_Server
begin

text \<open>The tunnels of the two listeners: connect and inspectConnect of internal/transport/httpforward/proxy.go, and
  Serve of internal/transport/socks5/server.go.  Both admit a destination, open it and record the tunnel alike; they
  differ in their statuses.  The bytes copied, the clock and the answers of the network are arguments.\<close>

section \<open>Tunnels\<close>

record tunnel_io =
  ti_request_id :: go_id
  ti_connection_id :: go_id
  ti_now :: go_time
  ti_route :: route_readings
  ti_chain :: "go_id \<Rightarrow> nat \<Rightarrow> readings"
  ti_reserve_err :: "error option"
  ti_reserve_now :: go_time
  ti_acquire_now :: "go_id \<Rightarrow> go_time"
  ti_attempt :: "8 word \<Rightarrow> attempt_io"
  ti_client_upload :: bytes
  ti_client_download :: bytes
  ti_upload :: bytes
  ti_download :: bytes
  ti_complete :: complete_readings
  ti_recorded :: go_time

record tunnel_codes =
  tc_protocol :: string
  tc_denied :: int
  tc_unsupported :: int
  tc_budget :: int
  tc_unavailable :: int
  tc_done :: int

definition connect_codes :: tunnel_codes where
  "connect_codes = \<lparr>tc_protocol = ''connect'', tc_denied = 403, tc_unsupported = 501, tc_budget = 429, tc_unavailable = 502,
     tc_done = 200\<rparr>"

definition socks_codes :: tunnel_codes where
  "socks_codes = \<lparr>tc_protocol = ''socks5'', tc_denied = 2, tc_unsupported = 2, tc_budget = 2, tc_unavailable = 5, tc_done = 0\<rparr>"

definition record_tunnel :: "('b, 'p, 'c) gateway \<Rightarrow> tunnel_codes \<Rightarrow> tunnel_io \<Rightarrow> request_context \<Rightarrow> result \<Rightarrow> route \<Rightarrow> int \<Rightarrow>
    bytes \<Rightarrow> bytes \<Rightarrow> bytes \<Rightarrow> bytes \<Rightarrow> ('b, 'p, 'c) gateway_state \<Rightarrow> ('b, 'p, 'c) gateway_state" where
  "record_tunnel gw tc io q res ro status client_up client_down up down s =
     record_event gw (tunnel_event (ti_recorded io) (tc_protocol tc) q res ro status client_up client_down up down)
       (s\<lparr>gs_router := complete_with (gw_router gw) (ti_complete io) up down ro (gs_router s)\<rparr>)"

text \<open>A refusal is the status and the code of the reply.\<close>

definition refuse_tunnel :: "('b, 'p, 'c) gateway \<Rightarrow> tunnel_codes \<Rightarrow> tunnel_io \<Rightarrow> request_context \<Rightarrow> result \<Rightarrow> route \<Rightarrow> int \<Rightarrow> string \<Rightarrow>
    ('b, 'p, 'c) gateway_state \<Rightarrow> (refusal + 'x) \<times> ('b, 'p, 'c) gateway_state" where
  "refuse_tunnel gw tc io q res ro status code s = (Inl (status, code), record_tunnel gw tc io q res ro status 0 0 0 0 s)"

definition tunnel_admit :: "('b, 'p, 'c) gateway \<Rightarrow> tunnel_codes \<Rightarrow> tunnel_io \<Rightarrow> routing_snapshot \<Rightarrow> (int \<Rightarrow> routing_snapshot option) \<Rightarrow>
    request_context \<Rightarrow> visibility \<Rightarrow> ('b, 'p, 'c) gateway_state \<Rightarrow> (refusal + result \<times> route) \<times> ('b, 'p, 'c) gateway_state" where
  "tunnel_admit gw tc io sn history q v s =
     (case gateway_evaluate gw sn q v of
        (res, Some e) \<Rightarrow> refuse_tunnel gw tc io q res (empty_route\<lparr>ro_action := ''reject''\<rparr>) (tc_denied tc) ''POLICY_BLOCKED'' s
      | (res, None) \<Rightarrow>
        (case route_request (gw_router gw) (ti_route io) (ti_chain io) history q res (gs_router s) of
          ((ro, err), rs) \<Rightarrow>
            let s1 = s\<lparr>gs_router := rs\<rparr> in
            if err \<noteq> None \<or> ro_dial ro = NoDial then
              (if err = Some GatewayErrUnsupported
               then refuse_tunnel gw tc io q res ro (tc_unsupported tc) ''ACTION_UNAVAILABLE'' s1
               else refuse_tunnel gw tc io q res
                 (if ro_action ro = ''block'' \<or> ro_action ro = ''reject'' then ro else ro\<lparr>ro_action := ''reject''\<rparr>)
                 (tc_denied tc) ''DESTINATION_DENIED'' s1)
            else (Inr (res, ro), s1)))"

fun tunnel_failures :: "('b, 'p, 'c) gateway \<Rightarrow> tunnel_codes \<Rightarrow> tunnel_io \<Rightarrow> request_context \<Rightarrow> result \<Rightarrow> bool \<Rightarrow> route list \<Rightarrow>
    ('b, 'p, 'c) gateway_state \<Rightarrow> ('b, 'p, 'c) gateway_state" where
  "tunnel_failures gw tc io q res ok [] s = s"
| "tunnel_failures gw tc io q res ok (ro # ros) s =
     (if ok \<and> ros = [] then s
      else tunnel_failures gw tc io q res ok ros
        (record_event gw (tunnel_event (ti_recorded io) (tc_protocol tc) q res ro (tc_unavailable tc) 0 0 0 0) s))"

definition tunnel_open :: "('b, 'p, 'c) gateway \<Rightarrow> tunnel_codes \<Rightarrow> tunnel_io \<Rightarrow> routing_snapshot \<Rightarrow> request_context \<Rightarrow> result \<Rightarrow>
    route \<Rightarrow> ('b, 'p, 'c) gateway_state \<Rightarrow> (refusal + route) \<times> ('b, 'p, 'c) gateway_state" where
  "tunnel_open gw tc io sn q res ro s =
     (case route_available (gw_router gw) (ti_reserve_err io) (ti_reserve_now io) ro (gs_router s) of
        (Some e, rs) \<Rightarrow> refuse_tunnel gw tc io q res (ro\<lparr>ro_action := ''budget_reject''\<rparr>) (tc_budget tc) ''BUDGET_EXCEEDED''
          (s\<lparr>gs_router := rs\<rparr>)
      | (None, rs) \<Rightarrow>
        (case route_acquire (ti_acquire_now io) ro rs of
           (False, rs) \<Rightarrow> refuse_tunnel gw tc io q res ro (tc_unavailable tc) ''ROUTE_UNAVAILABLE'' (s\<lparr>gs_router := rs\<rparr>)
         | (True, rs) \<Rightarrow>
           (case serve_attempts (gw_router gw) Tunnel (ti_attempt io) sn q ro rs of
             ((ok, tried), rs') \<Rightarrow>
               let s1 = tunnel_failures gw tc io q res ok tried (s\<lparr>gs_router := rs'\<rparr>) in
               (if ok then Inr (last tried) else Inl (tc_unavailable tc, ''UPSTREAM_FAILED''), s1))))"

text \<open>What a tunnel that ran to its end leaves.\<close>

definition tunnel_close :: "('b, 'p, 'c) gateway \<Rightarrow> tunnel_codes \<Rightarrow> tunnel_io \<Rightarrow> request_context \<Rightarrow> result \<Rightarrow> route \<Rightarrow>
    ('b, 'p, 'c) gateway_state \<Rightarrow> ('b, 'p, 'c) gateway_state" where
  "tunnel_close gw tc io q res ro s = record_tunnel gw tc io q res ro (tc_done tc) (ti_client_upload io) (ti_client_download io)
     (ti_upload io) (ti_download io) s"

section \<open>CONNECT\<close>

definition tunnel_context :: "('b, 'p, 'c) gateway \<Rightarrow> tunnel_io \<Rightarrow> go_id \<Rightarrow> string \<Rightarrow> string \<Rightarrow> string \<Rightarrow> nat \<Rightarrow> string go_optional \<Rightarrow>
    request_context" where
  "tunnel_context gw io client protocol session host port verb =
     \<lparr>q_request_id = ti_request_id io, q_connection_id = ti_connection_id io, q_client_id = client, q_listener = gw_listener gw,
      q_protocol = protocol, q_scheme = [], q_host = host, q_session_key = session, q_port = of_nat port, q_source_ip = None,
      q_destination_ip = None, q_method = verb, q_path = \<lparr>known = False, value_of = []\<rparr>,
      q_resource_type = \<lparr>known = False, value_of = []\<rparr>, q_mime_hint = \<lparr>known = False, value_of = []\<rparr>,
      q_content_length = \<lparr>known = False, value_of = 0\<rparr>, q_headers = \<lparr>known = False, value_of = []\<rparr>,
      q_timestamp = ti_now io, q_inspect_mode = False\<rparr>"

text \<open>The inspector's choice for a host; a host that is selected but has no certificate is tunnelled or refused.\<close>

datatype inspection = NotSelected | InspectFailed | Inspect

datatype connect_end =
    ConnectRefused refusal
  | ConnectBroken
  | ConnectTunnel route
  | ConnectInspected string nat

definition serve_connect :: "('b, 'p, 'c) gateway \<Rightarrow> (string \<Rightarrow> inspection) \<Rightarrow> bool \<Rightarrow> bool \<Rightarrow> tunnel_io \<Rightarrow> routing_snapshot \<Rightarrow>
    (int \<Rightarrow> routing_snapshot option) \<Rightarrow> go_id \<Rightarrow> http_request \<Rightarrow> ('b, 'p, 'c) gateway_state \<Rightarrow>
    connect_end \<times> ('b, 'p, 'c) gateway_state" where
  "serve_connect gw inspector failure_tunnel client_ready io sn history client r s =
     (let session = header_get (hr_header r) session_header in
      if length session > 4096 then (ConnectRefused (400, ''INVALID_SESSION_KEY''), s)
      else case parse_connect_target (gw_lib gw) (hr_host r) of
        None \<Rightarrow> (ConnectRefused (400, ''INVALID_CONNECT_TARGET''), s)
      | Some (host, port) \<Rightarrow>
        let q = tunnel_context gw io client ''connect'' session host port \<lparr>known = True, value_of = ''CONNECT''\<rparr>;
            v = \<lparr>v_host = True, v_method = True, v_path = False, v_headers = False, v_resource_type = False\<rparr> in
        (case tunnel_admit gw connect_codes io sn history q v s of
          (Inl x, s1) \<Rightarrow> (ConnectRefused x, s1)
        | (Inr (res, ro), s1) \<Rightarrow>
          if inspector host = Inspect then (if client_ready then ConnectInspected host port else ConnectBroken, s1)
          else if inspector host = InspectFailed \<and> \<not> failure_tunnel then (ConnectRefused (502, ''INSPECT_UNAVAILABLE''), s1)
          else (case tunnel_open gw connect_codes io sn q res ro s1 of
              (Inl x, s2) \<Rightarrow> (ConnectRefused x, s2)
            | (Inr ro', s2) \<Rightarrow>
                if client_ready then (ConnectTunnel ro', tunnel_close gw connect_codes io q res ro' s2)
                else (ConnectBroken, s2))))"

text \<open>A request inside an inspected tunnel: it keeps to the destination of the tunnel.\<close>

definition header_set :: "string \<Rightarrow> string \<Rightarrow> http_header \<Rightarrow> http_header" where
  "header_set k v h = AList.update (canonical_key k) [v] h"

definition inspect_url :: "string \<Rightarrow> nat \<Rightarrow> request_url \<Rightarrow> (string \<Rightarrow> string) \<Rightarrow> request_url" where
  "inspect_url host port u text = (let h = join_host_port host (itoa port) in
     u\<lparr>ru_absolute := True, ru_scheme := ''https'', ru_host := h, ru_hostname := host, ru_port := itoa port, ru_text := text h\<rparr>)"

definition inspect_request :: "('b, 'p, 'c) gateway \<Rightarrow> string \<Rightarrow> nat \<Rightarrow> string \<Rightarrow> (string \<Rightarrow> string) \<Rightarrow> http_request \<Rightarrow>
    refusal + http_request" where
  "inspect_request gw host port session text inner =
     (if hr_method inner = ''CONNECT'' then Inl (405, ''NESTED_CONNECT_UNAVAILABLE'')
      else case inspect_authority (gw_lib gw) (hr_host inner) of
        None \<Rightarrow> Inl (421, ''INSPECT_HOST_MISMATCH'')
      | Some (inner_host, inner_port) \<Rightarrow>
          if inner_port \<noteq> port \<or> \<not> same_host (gw_lib gw) inner_host host then Inl (421, ''INSPECT_HOST_MISMATCH'')
          else Inr (inner\<lparr>hr_url := inspect_url host port (hr_url inner) text,
            hr_header := (if session \<noteq> [] \<and> header_get (hr_header inner) session_header = []
              then header_set session_header session (hr_header inner) else hr_header inner)\<rparr>))"

definition inspected_http :: "('b, 'p, 'c) gateway \<Rightarrow> string \<Rightarrow> nat \<Rightarrow> string \<Rightarrow> (string \<Rightarrow> string) \<Rightarrow> forward_io \<Rightarrow> routing_snapshot \<Rightarrow>
    (int \<Rightarrow> routing_snapshot option) \<Rightarrow> go_id \<Rightarrow> http_request \<Rightarrow> ('b, 'p, 'c) gateway_state \<Rightarrow>
    forward_reply \<times> ('b, 'p, 'c) gateway_state" where
  "inspected_http gw host port session text io sn history client inner s =
     (case inspect_request gw host port session text inner of
        Inl (status, code) \<Rightarrow> (error_reply status code, s)
      | Inr r \<Rightarrow> forward_http gw io sn history client r s)"

section \<open>SOCKS5\<close>

definition socks_serve :: "('b, 'p, 'c) gateway \<Rightarrow> (string \<Rightarrow> string \<Rightarrow> error + go_id) option \<Rightarrow> tunnel_io \<Rightarrow> routing_snapshot \<Rightarrow>
    (int \<Rightarrow> routing_snapshot option) \<Rightarrow> conn \<Rightarrow> ('b, 'p, 'c) gateway_state \<Rightarrow>
    (refusal + route) option \<times> conn \<times> ('b, 'p, 'c) gateway_state" where
  "socks_serve gw authenticate io sn history c s =
     (case negotiate authenticate c of
        (None, c) \<Rightarrow> (None, c, s)
      | (Some client, c) \<Rightarrow>
        (case read_request (gw_lib gw) c of
          (None, c) \<Rightarrow> (None, c, s)
        | (Some (host, port), c) \<Rightarrow>
          let q = tunnel_context gw io client ''socks5'' [] host port \<lparr>known = False, value_of = []\<rparr>;
              v = \<lparr>v_host = True, v_method = False, v_path = False, v_headers = False, v_resource_type = False\<rparr>;
              refuse = (\<lambda>x s. (Some (Inl x), snd (write_reply (nat (fst x)) c), s)) in
          (case tunnel_admit gw socks_codes io sn history q v s of
            (Inl x, s) \<Rightarrow> refuse x s
          | (Inr (res, ro), s) \<Rightarrow>
            (case tunnel_open gw socks_codes io sn q res ro s of
              (Inl x, s) \<Rightarrow> refuse x s
            | (Inr ro, s) \<Rightarrow>
              (case write_reply 0 c of
                (False, c) \<Rightarrow> (None, c, s)
              | (True, c) \<Rightarrow> (Some (Inr ro), c, tunnel_close gw socks_codes io q res ro s))))))"

end
