(* ===== verification/Forward_Use.thy ===== *)
theory Forward_Use
  imports Forward_Serve Gateway_Retry Cache_Use
begin

text \<open>What a client of the forward proxy may rely on: what is recorded of every request, what reaches an upstream,
  and whose responses the cache serves.\<close>

section \<open>Requests in sequence\<close>

record forward_input =
  fx_io :: forward_io
  fx_snapshot :: routing_snapshot
  fx_history :: "int \<Rightarrow> routing_snapshot option"
  fx_client :: go_id
  fx_request :: http_request

definition forward_input_step :: "('b, 'p, 'c) gateway \<Rightarrow> forward_input \<Rightarrow> ('b, 'p, 'c) gateway_state \<Rightarrow>
    forward_reply \<times> ('b, 'p, 'c) gateway_state" where
  "forward_input_step gw x s = forward_http gw (fx_io x) (fx_snapshot x) (fx_history x) (fx_client x) (fx_request x) s"

fun forward_run :: "('b, 'p, 'c) gateway \<Rightarrow> forward_input list \<Rightarrow> ('b, 'p, 'c) gateway_state \<Rightarrow>
    forward_reply list \<times> ('b, 'p, 'c) gateway_state" where
  "forward_run gw [] s = ([], s)"
| "forward_run gw (x # xs) s =
     (case forward_input_step gw x s of (r, s1) \<Rightarrow> (case forward_run gw xs s1 of (rs, s2) \<Rightarrow> (r # rs, s2)))"

section \<open>What the parts of the state keep\<close>

lemma record_event_parts [simp]:
  "gs_cache (record_event gw e s) = gs_cache s" "gs_router (record_event gw e s) = gs_router s"
  "gs_events (record_event gw e s) = gs_events s @ (if gw_records gw then [e] else [])"
  by (simp_all add: record_event_def)

lemma record_http_parts [simp]:
  "gs_cache (record_http gw io q res ro up down delivered status s) = gs_cache s"
  "gs_events (record_http gw io q res ro up down delivered status s) =
     gs_events s @ (if gw_records gw then [http_event (fi_recorded io) q res ro status up down delivered] else [])"
  by (simp_all add: record_http_def)

lemma record_failures_cache [simp]: "gs_cache (record_failures gw io q res k ok tried s) = gs_cache s"
  by (induction gw io q res k ok tried s rule: record_failures.induct) simp_all

text \<open>What every event of a request says.\<close>

definition about_request :: "forward_io \<Rightarrow> request_context \<Rightarrow> traffic_event \<Rightarrow> bool" where
  "about_request io q e = (te_request_id e = q_request_id q \<and> te_connection_id e = q_connection_id q \<and>
     te_client_id e = q_client_id q \<and> te_host e = q_host q \<and> te_protocol e = ''http'' \<and>
     (te_upstream_upload e \<noteq> 0 \<or> te_upstream_download e \<noteq> 0 \<longrightarrow> te_action e = ''proxy'' \<or> te_action e = ''chain'') \<and>
     (te_direct e \<noteq> 0 \<longrightarrow> te_action e = ''direct'') \<and> (te_cache_served e \<noteq> 0 \<longrightarrow> te_action e = ''cache''))"

lemma about_http [simp]: "about_request io q (http_event now q res ro status up down delivered)"
  by (simp add: about_request_def http_event_def event_of_def proxied_def)

lemma about_cache [simp]: "about_request io q (cache_event now q res ro status delivered)"
  by (simp add: about_request_def cache_event_def event_of_def proxied_def)

lemma http_event_status [simp]: "te_status (http_event now q res ro status up down delivered) = status"
  by (simp add: http_event_def event_of_def)

lemma cache_event_status [simp]: "te_status (cache_event now q res ro status delivered) = status"
  by (simp add: cache_event_def event_of_def)

definition failure_event :: "traffic_event \<Rightarrow> bool" where
  "failure_event e = (te_status e = 502 \<and> te_client_download e = 0 \<and> te_upstream_download e = 0)"

lemma failure_http [simp]: "failure_event (http_event now q res ro 502 up 0 0)"
  by (simp add: failure_event_def http_event_def event_of_def)

text \<open>The events of one request: those of its failed attempts, then the one that its reply agrees with.\<close>

definition accounted :: "forward_io \<Rightarrow> request_context \<Rightarrow> traffic_event list \<Rightarrow> forward_reply \<Rightarrow> traffic_event list \<Rightarrow> bool" where
  "accounted io q old rep new = (\<exists>failed e. new = old @ failed @ [e] \<and> te_status e = fr_status rep \<and>
     (\<forall>f\<in>set failed. failure_event f \<and> about_request io q f) \<and> about_request io q e)"

lemma accounted_one: "about_request io q e \<Longrightarrow> te_status e = fr_status rep \<Longrightarrow> accounted io q old rep (old @ [e])"
  by (simp add: accounted_def exI [of _ "[]"])

lemma record_failures_events:
  assumes "gw_records gw"
  shows "\<exists>failed. gs_events (record_failures gw io q res k ok tried s) = gs_events s @ failed \<and>
    (\<forall>f\<in>set failed. failure_event f \<and> about_request io q f) \<and> length failed = length tried - (if ok then 1 else 0)"
  using assms
proof (induction gw io q res k ok tried s rule: record_failures.induct)
  case (2 gw io q res k ok ro ros s)
  show ?case
  proof (cases "ok \<and> ros = []")
    case False
    let ?e = "http_event (fi_recorded io) q res ro 502 (ai_upload (fi_attempt io k)) 0 0"
    obtain failed where "gs_events (record_failures gw io q res (k + 1) ok ros (record_event gw ?e s)) = gs_events s @ ?e # failed"
        "\<forall>f\<in>set failed. failure_event f \<and> about_request io q f" "length failed = length ros - (if ok then 1 else 0)"
      using 2(1) [OF False 2(2)] 2(2) by auto
    then show ?thesis using False
      by (intro exI [of _ "?e # failed"]) (cases ros, auto)
  qed simp
qed simp

lemma attempts_tried: "attempts rt ad pol io sn q k r s = ((ok, tried), s') \<Longrightarrow> tried \<noteq> []"
  by (subst (asm) attempts.simps) (auto simp: Let_def split: option.splits prod.splits if_splits)

lemma respond_accounted:
  assumes "gw_records gw" "forward_respond gw io q res r ro s = (rep, s')" "gs_events s = old @ failed"
    "\<forall>f\<in>set failed. failure_event f \<and> about_request io q f"
  shows "accounted io q old rep (gs_events s')"
proof -
  have "\<exists>e. gs_events s' = gs_events s @ [e] \<and> te_status e = fr_status rep \<and> about_request io q e"
    using assms(1,2) by (auto simp: forward_respond_def Let_def split: option.split)
  then show ?thesis using assms(3,4) by (auto simp: accounted_def)
qed

lemma upstream_accounted:
  assumes g: "gw_records gw" and u: "forward_upstream gw io sn q res r ro s = (rep, s')"
  shows "accounted io q (gs_events s) rep (gs_events s')"
proof -
  obtain a rs where a: "route_acquire (fi_acquire_now io) ro (gs_router s) = (a, rs)" by fastforce
  show ?thesis
  proof (cases a)
    case False
    then show ?thesis using u a g by (auto simp: forward_upstream_def refuse_http_def error_reply_def intro!: accounted_one)
  next
    case True
    obtain ok tried rs' where t: "serve_attempts (gw_router gw) (forward_adapter r) (fi_attempt io) sn q ro rs = ((ok, tried), rs')"
      by (metis prod.exhaust)
    then have ne: "tried \<noteq> []" unfolding serve_attempts_def by (rule attempts_tried)
    let ?s1 = "record_failures gw io q res 1 ok tried (s\<lparr>gs_router := rs'\<rparr>)"
    obtain failed where f: "gs_events ?s1 = gs_events s @ failed" "\<forall>f\<in>set failed. failure_event f \<and> about_request io q f"
        "length failed = length tried - (if ok then 1 else 0)"
      using record_failures_events [OF g, of io q res 1 ok tried "s\<lparr>gs_router := rs'\<rparr>"] by auto
    show ?thesis
    proof (cases ok)
      case True
      then have "forward_respond gw io q res r (last tried) ?s1 = (rep, s')"
        using u a t \<open>a\<close> by (simp add: forward_upstream_def)
      then show ?thesis using respond_accounted [OF g _ f(1,2)] by simp
    next
      case False
      then have s': "rep = error_reply 502 ''UPSTREAM_FAILED''" "s' = ?s1" using u a t \<open>a\<close> by (simp_all add: forward_upstream_def)
      have "failed \<noteq> []" using f(3) ne False by auto
      then have "failed = butlast failed @ [last failed]" by simp
      moreover have "failure_event (last failed) \<and> about_request io q (last failed)" using f(2) \<open>failed \<noteq> []\<close> by simp
      moreover have "\<forall>x\<in>set (butlast failed). failure_event x \<and> about_request io q x" using f(2) by (meson in_set_butlastD)
      ultimately show ?thesis unfolding accounted_def s' f(1)
        by (intro exI [of _ "butlast failed"] exI [of _ "last failed"]) (auto simp: error_reply_def failure_event_def)
    qed
  qed
qed

text \<open>The ways through the budget and the cache.\<close>

lemma routed_cases:
  assumes u: "forward_routed gw io sn q res r ro s = (rep, s')"
  obtains (over_budget) rs where "refuse_http gw io q res (ro\<lparr>ro_action := ''budget_reject''\<rparr>) 429 ''BUDGET_EXCEEDED''
        (s\<lparr>gs_router := rs\<rparr>) = (rep, s')"
  | (uncached) rs where "forward_upstream gw io sn q res r ro (s\<lparr>gs_router := rs\<rparr>) = (rep, s')"
      "gw_cache gw = None \<or> \<not> ro_cache ro"
  | (missed) rs step k where "ro_cache ro" "gw_cache gw = Some step" "k = CacheBypass \<or> k = CacheGet (cache_key_for ro res q r)"
      "forward_upstream gw io sn q res r ro (s\<lparr>gs_router := rs, gs_cache := snd (step (fi_cache_now io) k (gs_cache s))\<rparr>) = (rep, s')"
  | (served) rs step e c where "ro_cache ro" "gw_cache gw = Some step" "el_eligible (check_request (hr_method r) (hr_header r))"
      "step (fi_cache_now io) (CacheGet (cache_key_for ro res q r)) (gs_cache s) = (ReplyEntry (Some e), c)"
      "serve_cached gw io q res ro e (s\<lparr>gs_router := rs, gs_cache := c\<rparr>) = (rep, s')"
proof -
  let ?get = "CacheGet (cache_key_for ro res q r)"
  obtain b rs where b: "route_available (gw_router gw) (fi_reserve_err io) (fi_reserve_now io) ro (gs_router s) = (b, rs)" by fastforce
  show thesis
  proof (cases b)
    case (Some e)
    then show thesis using u b over_budget by (simp add: forward_routed_def)
  next
    case None
    note u = u [unfolded forward_routed_def b None prod.case option.case Let_def]
    show thesis
    proof (cases "if ro_cache ro then gw_cache gw else None")
      case None
      then show thesis using u uncached by (auto split: if_splits)
    next
      case (Some step)
      then have c: "ro_cache ro" "gw_cache gw = Some step" by (auto split: if_splits)
      obtain y c' where y: "step (fi_cache_now io) ?get (gs_cache s) = (y, c')" by fastforce
      show thesis
      proof (cases "el_eligible (check_request (hr_method r) (hr_header r))")
        case False
        then show thesis using u c missed [OF c, of CacheBypass] by simp
      next
        case True
        show thesis
        proof (cases "\<exists>e. y = ReplyEntry (Some e)")
          case True
          then show thesis using u c y \<open>el_eligible _\<close> served [OF c] by auto
        next
          case False
          then have "forward_upstream gw io sn q res r ro (s\<lparr>gs_router := rs, gs_cache := c'\<rparr>) = (rep, s')"
            using u c y \<open>el_eligible _\<close> by (auto split: cache_reply.splits option.splits)
          then show thesis using missed [OF c, of ?get] y by simp
        qed
      qed
    qed
  qed
qed

lemma routed_accounted:
  assumes g: "gw_records gw" and u: "forward_routed gw io sn q res r ro s = (rep, s')"
  shows "accounted io q (gs_events s) rep (gs_events s')"
  using u
proof (cases rule: routed_cases)
  case (over_budget rs)
  then show ?thesis using g by (auto simp: refuse_http_def error_reply_def intro!: accounted_one)
next
  case (uncached rs)
  then show ?thesis using upstream_accounted [OF g uncached(1)] by simp
next
  case (missed rs step k)
  then show ?thesis using upstream_accounted [OF g missed(4)] by simp
next
  case (served rs step e c)
  then show ?thesis using g by (auto simp: serve_cached_def intro!: accounted_one)
qed

lemma decided_accounted:
  assumes g: "gw_records gw" and u: "forward_decided gw io sn q res r ro err s = (rep, s')"
  shows "accounted io q (gs_events s) rep (gs_events s')"
  using u g routed_accounted [OF g]
  by (auto simp: forward_decided_def refuse_http_def error_reply_def Let_def split: if_splits option.splits intro!: accounted_one)


section \<open>The keys of a request\<close>

lemma first_cut: "a @ x # b = c @ x # d \<Longrightarrow> x \<notin> set a \<Longrightarrow> x \<notin> set c \<Longrightarrow> a = c"
proof (induction a arbitrary: c)
  case Nil
  then show ?case by (cases c) auto
next
  case (Cons y a)
  then show ?case by (cases c) auto
qed

lemma last_cut: "a @ x # b = c @ x # d \<Longrightarrow> x \<notin> set b \<Longrightarrow> x \<notin> set d \<Longrightarrow> a = c \<and> b = d"
proof -
  assume a: "a @ x # b = c @ x # d" and n: "x \<notin> set b" "x \<notin> set d"
  have "rev b @ x # rev a = rev d @ x # rev c" using arg_cong [OF a, of rev] by simp
  then have "b = d" using first_cut [of "rev b" x "rev a" "rev d" "rev c"] n by simp
  then show ?thesis using a by simp
qed

definition no_nul :: "string \<Rightarrow> bool" where
  "no_nul s = (CHR 0x00 \<notin> set s)"

lemma key_string_ends:
  assumes "ck_vary k = []" "ck_vary k' = []" "cache_key_string k = cache_key_string k'"
    "no_nul (ck_client_id k)" "no_nul (ck_client_id k')" "no_nul (ck_method k)" "no_nul (ck_method k')"
    "no_nul (ck_url k)" "no_nul (ck_url k')"
  shows "ck_client_id k = ck_client_id k' \<and> ck_method k = ck_method k' \<and> ck_url k = ck_url k'"
proof -
  define pre where "pre k = ck_client_id k @ CHR 0x00 # ck_session_hash k @ CHR 0x00 # ck_route_id k @ CHR 0x00 # ck_proxy_id k @
      CHR 0x00 # ck_policy_id k @ CHR 0x00 # ck_rule_id k @ CHR 0x00 # format_int (ck_runtime_revision k)" for k :: cache_key
  have s: "cache_key_string k = (pre k @ CHR 0x00 # ck_method k) @ CHR 0x00 # ck_url k" if "ck_vary k = []" for k
    using that by (simp add: cache_key_string_def pre_def)
  have u: "pre k @ CHR 0x00 # ck_method k = pre k' @ CHR 0x00 # ck_method k'" "ck_url k = ck_url k'"
    using last_cut [of _ "CHR 0x00" "ck_url k" _ "ck_url k'"] assms(3,8,9) s [OF assms(1)] s [OF assms(2)]
    by (metis no_nul_def)+
  then have m: "pre k = pre k'" "ck_method k = ck_method k'"
    using last_cut [of _ "CHR 0x00" "ck_method k" _ "ck_method k'"] assms(6,7) by (metis no_nul_def)+
  have "ck_client_id k = ck_client_id k'"
    by (rule first_cut [OF m(1) [unfolded pre_def]]) (use assms(4,5) in \<open>simp_all add: no_nul_def\<close>)
  then show ?thesis using u m by simp
qed

text \<open>The keys that a request may use: its own client and method, and its URL or a rewriting of it at the same host.\<close>

definition own_key :: "go_id \<Rightarrow> http_request \<Rightarrow> cache_key \<Rightarrow> bool" where
  "own_key client r k = (ck_vary k = [] \<and> ck_client_id k = client \<and> ck_method k = hr_method r \<and>
     ck_url k = ru_text (hr_url r) \<and> el_eligible (check_request (hr_method r) (hr_header r)))"

definition rewriting :: "('b, 'p, 'c) gateway \<Rightarrow> http_request \<Rightarrow> request_url \<Rightarrow> bool" where
  "rewriting gw r u = (u = hr_url r \<or> (\<exists>p. gw_rewrite gw (hr_url r) p = Some u \<and> ru_host u = ru_host (hr_url r) \<and>
     ru_scheme u = ru_scheme (hr_url r)))"

definition request_key :: "('b, 'p, 'c) gateway \<Rightarrow> forward_input \<Rightarrow> cache_key \<Rightarrow> bool" where
  "request_key gw x k = (\<exists>u. rewriting gw (fx_request x) u \<and> own_key (fx_client x) ((fx_request x)\<lparr>hr_url := u\<rparr>) k)"

definition response_of :: "('b, 'p, 'c) gateway \<Rightarrow> forward_io \<Rightarrow> forward_reply \<Rightarrow> cache_entry \<Rightarrow> bool" where
  "response_of gw io rep e = (\<not> fr_cached rep \<and> fr_status rep = ce_status e \<and> fr_header rep = ce_header e \<and>
     fr_body rep = ce_body e \<and> hs_read_ok (fi_response io) \<and>
     (case check_response (gw_http_time gw) (hs_status (fi_response io)) (hs_header (fi_response io))
        (hs_content_length (fi_response io)) (gw_max_cache_body gw) (fi_now io) of
      el \<Rightarrow> el_eligible el \<and> el_expires_at el = ce_expires_at e))"

definition cached_reply_of :: "forward_io \<Rightarrow> forward_reply \<Rightarrow> cache_entry \<Rightarrow> bool" where
  "cached_reply_of io rep e = (fr_status rep = ce_status e \<and> fr_header rep = ce_header e \<and> fr_body rep = ce_body e \<and>
     fi_cache_now io < ce_expires_at e)"

text \<open>One pass through a store: what it held before is all that it may serve, and it gains at most this response.\<close>

context response_store
begin

definition backed :: "(cache_key \<times> cache_entry) set \<Rightarrow> 's \<Rightarrow> bool" where
  "backed H s = (ok s \<and> (\<forall>i x. contents s i = Some x \<longrightarrow> (\<exists>(k, e)\<in>H. cache_key_string k = i \<and> unhosted x = unhosted e)))"

lemma backed_mono: "backed H s \<Longrightarrow> H \<subseteq> H' \<Longrightarrow> backed H' s"
  unfolding backed_def by blast

lemma backed_look:
  assumes "backed H s" "q = CacheBypass \<or> q = CacheGet k" "admissible q"
  shows "backed H (snd (step now q s))"
proof -
  obtain r s' where s': "step now q s = (r, s')" by fastforce
  have k: "ok s" using assms(1) by (simp add: backed_def)
  have "contents s i = Some x" if "contents s' i = Some x" for i x
    using keeps_contents [OF k assms(3) s' that] assms(2) by auto
  then show ?thesis using assms(1) step_ok [OF k, of now q] s' by (simp add: backed_def)
qed

lemma backed_put:
  assumes "backed H s" "admissible (CachePut k e)"
  shows "backed (insert (k, e) H) (snd (step now (CachePut k e) s))"
proof -
  obtain r s' where s': "step now (CachePut k e) s = (r, s')" by fastforce
  have o: "ok s" using assms(1) by (simp add: backed_def)
  have "\<exists>(k, e)\<in>insert (k, e) H. cache_key_string k = i \<and> unhosted x = unhosted e" if x: "contents s' i = Some x" for i x
  proof (cases "r = ReplyStored True \<and> i = cache_key_string k")
    case True
    then show ?thesis using put_contents [OF o assms(2) refl] s' x by auto
  next
    case False
    then have "contents s i = Some x" using keeps_contents [OF o assms(2) s' x] by auto
    then show ?thesis using assms(1) unfolding backed_def by blast
  qed
  then show ?thesis using step_ok [OF o, of now "CachePut k e"] s' by (simp add: backed_def)
qed

lemma backed_served:
  assumes "backed H s" "step now (CacheGet k) s = (ReplyEntry (Some e), s')"
  shows "\<exists>(k', e')\<in>H. cache_key_string k' = cache_key_string k \<and> unhosted e = unhosted e' \<and> now < ce_expires_at e"
  using get_reply [OF _ assms(2)] assms(1) unfolding backed_def by blast

text \<open>What one request does to the store, and where a cached reply comes from.\<close>

definition passes :: "('b, 'p, 's) gateway \<Rightarrow> forward_io \<Rightarrow> (cache_key \<Rightarrow> bool) \<Rightarrow> (cache_key \<times> cache_entry) set \<Rightarrow>
    forward_reply \<Rightarrow> 's \<Rightarrow> bool" where
  "passes gw io K H rep s' = ((\<exists>N. backed (H \<union> N) s' \<and> (\<forall>(k, e)\<in>N. K k \<and> response_of gw io rep e)) \<and>
     (fr_cached rep \<longrightarrow> (\<exists>(k', e)\<in>H. \<exists>k. K k \<and> cache_key_string k' = cache_key_string k \<and> cached_reply_of io rep e)))"

lemma passes_mono: "passes gw io K H rep s' \<Longrightarrow> (\<And>k. K k \<Longrightarrow> K' k) \<Longrightarrow> passes gw io K' H rep s'"
  unfolding passes_def by fast

lemma passes_quiet: "backed H s' \<Longrightarrow> \<not> fr_cached rep \<Longrightarrow> passes gw io K H rep s'"
  by (simp add: passes_def exI [of _ "{}"])

lemma respond_passes:
  assumes g: "gw_cache gw = Some step" and b: "backed H (gs_cache s)" and a: "\<forall>k e. admissible (CachePut k e)"
    and q: "q_client_id q = client" and u: "forward_respond gw io q res r ro s = (rep, s')"
  shows "passes gw io (own_key client r) H rep (gs_cache s')"
proof -
  let ?resp = "fi_response io" and ?k = "cache_key_for ro res q r"
  let ?el = "check_response (gw_http_time gw) (hs_status ?resp) (hs_header ?resp) (hs_content_length ?resp) (gw_max_cache_body gw) (fi_now io)"
  let ?e = "\<lparr>ce_status = hs_status ?resp, ce_header = strip_hop_by_hop (hs_header ?resp), ce_body = hs_body ?resp,
      ce_expires_at = el_expires_at ?el, ce_host = []\<rparr>"
  have rep: "\<not> fr_cached rep" "fr_status rep = hs_status ?resp" "fr_header rep = strip_hop_by_hop (hs_header ?resp)"
      "fr_body rep = hs_body ?resp"
    using u by (auto simp: forward_respond_def Let_def)
  show ?thesis
  proof (cases "ro_cache ro \<and> el_eligible (check_request (hr_method r) (hr_header r)) \<and> el_eligible ?el \<and> hs_read_ok ?resp \<and>
      int (length (hs_body ?resp)) \<le> gw_max_cache_body gw")
    case True
    then have "gs_cache s' = snd (step (fi_cache_now io) (CachePut ?k ?e) (gs_cache s))"
      using u g by (auto simp: forward_respond_def Let_def)
    then have "backed (H \<union> {(?k, ?e)}) (gs_cache s')" using backed_put [OF b, of ?k ?e] a by simp
    moreover have "own_key client r ?k" using True q by (simp add: own_key_def cache_key_for_def Let_def)
    moreover have "response_of gw io rep ?e" using True rep by (simp add: response_of_def)
    ultimately show ?thesis using rep(1) unfolding passes_def by (intro conjI exI [of _ "{(?k, ?e)}"]) auto
  next
    case False
    then have "gs_cache s' = gs_cache s" using u g by (auto simp: forward_respond_def Let_def split: if_splits)
    then show ?thesis using passes_quiet b rep(1) by metis
  qed
qed

lemma upstream_passes:
  assumes g: "gw_cache gw = Some step" and b: "backed H (gs_cache s)" and a: "\<forall>k e. admissible (CachePut k e)"
    and q: "q_client_id q = client" and u: "forward_upstream gw io sn q res r ro s = (rep, s')"
  shows "passes gw io (own_key client r) H rep (gs_cache s')"
proof -
  obtain x rs where x: "route_acquire (fi_acquire_now io) ro (gs_router s) = (x, rs)" by fastforce
  obtain ok tried rs' where t: "serve_attempts (gw_router gw) (forward_adapter r) (fi_attempt io) sn q ro rs = ((ok, tried), rs')"
    by (metis prod.exhaust)
  let ?s1 = "record_failures gw io q res 1 ok tried (s\<lparr>gs_router := rs'\<rparr>)"
  show ?thesis
  proof (cases "x \<and> ok")
    case True
    then have "forward_respond gw io q res r (last tried) ?s1 = (rep, s')" using u x t by (simp add: forward_upstream_def)
    moreover have "backed H (gs_cache ?s1)" using b by simp
    ultimately show ?thesis using respond_passes [OF g _ a q] by blast
  next
    case False
    then have "gs_cache s' = gs_cache s \<and> \<not> fr_cached rep"
      using u x t by (auto simp: forward_upstream_def refuse_http_def error_reply_def split: bool.splits if_splits)
    then show ?thesis using passes_quiet b by metis
  qed
qed

lemma routed_passes:
  assumes g: "gw_cache gw = Some step" and b: "backed H (gs_cache s)" and a: "\<forall>q. admissible q"
    and q: "q_client_id q = client" and u: "forward_routed gw io sn q res r ro s = (rep, s')"
  shows "passes gw io (own_key client r) H rep (gs_cache s')"
  using u
proof (cases rule: routed_cases)
  case (over_budget rs)
  then have "gs_cache s' = gs_cache s \<and> \<not> fr_cached rep" by (auto simp: refuse_http_def error_reply_def)
  then show ?thesis using passes_quiet b by metis
next
  case (uncached rs)
  then show ?thesis using upstream_passes [OF g _ _ q uncached(1)] b a by simp
next
  case (missed rs stp k)
  then have "backed H (snd (step (fi_cache_now io) k (gs_cache s)))" using backed_look [OF b] g a by auto
  then show ?thesis using upstream_passes [OF g _ _ q missed(4)] a missed(2) g by simp
next
  case (served rs stp e c)
  let ?k = "cache_key_for ro res q r"
  have s: "step (fi_cache_now io) (CacheGet ?k) (gs_cache s) = (ReplyEntry (Some e), c)" using served g by simp
  have s': "gs_cache s' = c" "fr_status rep = ce_status e" "fr_header rep = ce_header e" "fr_body rep = ce_body e"
    using served(5) by (auto simp: serve_cached_def)
  have "backed H c" using backed_look [OF b, of "CacheGet ?k" ?k "fi_cache_now io"] s a by simp
  moreover obtain k' e' where k': "(k', e') \<in> H" "cache_key_string k' = cache_key_string ?k" "unhosted e = unhosted e'"
      "fi_cache_now io < ce_expires_at e"
    using backed_served [OF b s] by auto
  moreover have "cached_reply_of io rep e'"
    using k'(3,4) s' by (cases e, cases e') (simp add: cached_reply_of_def unhosted_def)
  moreover have "own_key client r ?k" using served(3) q by (simp add: own_key_def cache_key_for_def Let_def)
  ultimately show ?thesis unfolding passes_def s' by (intro conjI exI [of _ "{}"]) auto
qed

lemma decided_passes:
  assumes g: "gw_cache gw = Some step" and b: "backed H (gs_cache s)" and a: "\<forall>q. admissible q"
    and q: "q_client_id q = fx_client x" and r: "fx_request x = r" "fx_io x = io"
    and u: "forward_decided gw io sn q res r ro err s = (rep, s')"
  shows "passes gw io (request_key gw x) H rep (gs_cache s')"
proof -
  consider "gs_cache s' = gs_cache s \<and> \<not> fr_cached rep" | "forward_routed gw io sn q res r ro s = (rep, s')"
    | p v where "gw_rewrite gw (hr_url r) p = Some v" "ru_host v = ru_host (hr_url r)" "ru_scheme v = ru_scheme (hr_url r)"
      "forward_routed gw io sn q res (r\<lparr>hr_url := v\<rparr>) ro s = (rep, s')"
    using u by (auto simp: forward_decided_def refuse_http_def error_reply_def Let_def split: if_splits option.splits)
  then show ?thesis
  proof cases
    case 1
    then show ?thesis using passes_quiet b by metis
  next
    case 2
    have "request_key gw x k" if "own_key (fx_client x) r k" for k
      using that r(1) by (auto simp: request_key_def rewriting_def)
    then show ?thesis using passes_mono routed_passes [OF g b a q 2] by blast
  next
    case 3
    have "request_key gw x k" if "own_key (fx_client x) (r\<lparr>hr_url := v\<rparr>) k" for k
      using that 3(1-3) r(1) by (auto simp: request_key_def rewriting_def)
    then show ?thesis using passes_mono routed_passes [OF g b a q 3(4)] by blast
  qed
qed

lemma forward_passes:
  assumes g: "gw_cache gw = Some step" and b: "backed H (gs_cache s)" and a: "\<forall>q. admissible q"
    and u: "forward_input_step gw x s = (rep, s')"
  shows "passes gw (fx_io x) (request_key gw x) H rep (gs_cache s')"
proof (cases "forward_target (gw_lib gw) (fx_request x)")
  case (Inl y)
  then have "gs_cache s' = gs_cache s \<and> \<not> fr_cached rep"
    using u by (auto simp: forward_input_step_def forward_http_def error_reply_def split: prod.splits)
  then show ?thesis using passes_quiet b by metis
next
  case (Inr y)
  obtain host port where y: "y = (host, port)" by fastforce
  let ?q = "forward_context gw (fx_io x) (fx_client x) (fx_request x) host port"
  have q: "q_client_id ?q = fx_client x" by (simp add: forward_context_def)
  obtain res err where v: "gateway_evaluate gw (fx_snapshot x) ?q forward_visibility = (res, err)" by fastforce
  show ?thesis
  proof (cases err)
    case None
    obtain ro z rs where z: "route_request (gw_router gw) (fi_route (fx_io x)) (fi_chain (fx_io x)) (fx_history x) ?q res
        (gs_router s) = ((ro, z), rs)"
      by (metis prod.exhaust)
    have "forward_decided gw (fx_io x) (fx_snapshot x) ?q res (fx_request x) ro z (s\<lparr>gs_router := rs\<rparr>) = (rep, s')"
      using u Inr y v None z by (simp add: forward_input_step_def forward_http_def)
    moreover have "backed H (gs_cache (s\<lparr>gs_router := rs\<rparr>))" using b by simp
    ultimately show ?thesis using decided_passes [OF g _ a q refl refl] by fastforce
  next
    case (Some e)
    then have "gs_cache s' = gs_cache s \<and> \<not> fr_cached rep"
      using u Inr y v by (auto simp: forward_input_step_def forward_http_def refuse_http_def error_reply_def)
    then show ?thesis using passes_quiet b by metis
  qed
qed

lemma run_passes:
  assumes g: "gw_cache gw = Some step" and a: "\<forall>q. admissible q"
    and "backed H (gs_cache s)" "forward_run gw xs s = (reps, s')" "j < length xs" "fr_cached (reps ! j)"
  shows "\<exists>k' e k. ((k', e) \<in> H \<or> (\<exists>m<j. request_key gw (xs ! m) k' \<and> response_of gw (fx_io (xs ! m)) (reps ! m) e)) \<and>
    request_key gw (xs ! j) k \<and> cache_key_string k' = cache_key_string k \<and> cached_reply_of (fx_io (xs ! j)) (reps ! j) e"
  using assms(3-6)
proof (induction xs arbitrary: H s reps j)
  case (Cons x xs)
  obtain rep s1 where s1: "forward_input_step gw x s = (rep, s1)" by fastforce
  obtain reps1 where r1: "forward_run gw xs s1 = (reps1, s')" "reps = rep # reps1"
    using Cons.prems(2) s1 by (auto split: prod.splits)
  have p: "passes gw (fx_io x) (request_key gw x) H rep (gs_cache s1)" by (rule forward_passes [OF g Cons.prems(1) a s1])
  show ?case
  proof (cases j)
    case 0
    then show ?thesis using p Cons.prems(4) r1(2) unfolding passes_def by auto
  next
    case (Suc i)
    obtain N where N: "backed (H \<union> N) (gs_cache s1)" "\<forall>(k, e)\<in>N. request_key gw x k \<and> response_of gw (fx_io x) rep e"
      using p unfolding passes_def by blast
    obtain k' e k where k: "(k', e) \<in> H \<union> N \<or> (\<exists>m<i. request_key gw (xs ! m) k' \<and> response_of gw (fx_io (xs ! m)) (reps1 ! m) e)"
        "request_key gw (xs ! i) k" "cache_key_string k' = cache_key_string k" "cached_reply_of (fx_io (xs ! i)) (reps1 ! i) e"
      using Cons.IH [OF N(1) r1(1), of i] Cons.prems(3,4) Suc r1(2) by auto
    have "(k', e) \<in> H \<or> (\<exists>m<j. request_key gw ((x # xs) ! m) k' \<and> response_of gw (fx_io ((x # xs) ! m)) (reps ! m) e)"
      using k(1) N(2) Suc r1(2) by force
    then show ?thesis using k(2-4) Suc r1(2) by (intro exI [of _ k'] exI [of _ e] exI [of _ k]) simp
  qed
qed simp

end


end
