(* ===== verification/Tunnel_Use.thy ===== *)
theory Tunnel_Use
  imports Tunnel_Serve Forward_Use
begin

text \<open>What the tunnels of both listeners guarantee: what is recorded, when a client is told that its tunnel is open, and
  where the requests inside an inspected tunnel may go.\<close>

section \<open>What is recorded\<close>

definition about_tunnel :: "tunnel_codes \<Rightarrow> request_context \<Rightarrow> traffic_event \<Rightarrow> bool" where
  "about_tunnel tc q e = (te_request_id e = q_request_id q \<and> te_connection_id e = q_connection_id q \<and>
     te_client_id e = q_client_id q \<and> te_host e = q_host q \<and> te_protocol e = tc_protocol tc \<and> te_cache_served e = 0 \<and>
     (te_upstream_upload e \<noteq> 0 \<or> te_upstream_download e \<noteq> 0 \<longrightarrow> te_action e = ''proxy'' \<or> te_action e = ''chain'') \<and>
     (te_direct e \<noteq> 0 \<longrightarrow> te_action e = ''direct''))"

lemma about_tunnel_event [simp]: "about_tunnel tc q (tunnel_event now (tc_protocol tc) q res ro status cu cd up down)"
  by (simp add: about_tunnel_def tunnel_event_def event_of_def proxied_def)

lemma tunnel_event_parts [simp]:
  "te_status (tunnel_event now protocol q res ro status cu cd up down) = status"
  "te_client_upload (tunnel_event now protocol q res ro status cu cd up down) = cu"
  "te_client_download (tunnel_event now protocol q res ro status cu cd up down) = cd"
  by (simp_all add: tunnel_event_def event_of_def)

lemma record_tunnel_parts [simp]:
  "gs_cache (record_tunnel gw tc io q res ro status cu cd up down s) = gs_cache s"
  "gs_events (record_tunnel gw tc io q res ro status cu cd up down s) = gs_events s @
     (if gw_records gw then [tunnel_event (ti_recorded io) (tc_protocol tc) q res ro status cu cd up down] else [])"
  by (simp_all add: record_tunnel_def)

text \<open>The events of a tunnel that carried nothing: no bytes of the client, and the status of a refusal.\<close>

definition idle_events :: "tunnel_codes \<Rightarrow> request_context \<Rightarrow> int \<Rightarrow> traffic_event list \<Rightarrow> bool" where
  "idle_events tc q status es = (\<forall>e\<in>set es. about_tunnel tc q e \<and> te_status e = status \<and> te_client_upload e = 0 \<and> te_client_download e = 0)"

definition refused_events :: "tunnel_codes \<Rightarrow> request_context \<Rightarrow> int \<Rightarrow> traffic_event list \<Rightarrow> traffic_event list \<Rightarrow> bool" where
  "refused_events tc q status old new = (\<exists>es. new = old @ es \<and> es \<noteq> [] \<and> idle_events tc q status es)"

lemma refuse_tunnel_events:
  assumes "gw_records gw" "refuse_tunnel gw tc io q res ro status code s = (x, s')"
  shows "x = Inl (status, code) \<and> refused_events tc q status (gs_events s) (gs_events s') \<and> gs_cache s' = gs_cache s"
  using assms by (auto simp: refuse_tunnel_def refused_events_def idle_events_def)

lemma tunnel_failures_events:
  assumes "gw_records gw"
  shows "\<exists>es. gs_events (tunnel_failures gw tc io q res ok tried s) = gs_events s @ es \<and> idle_events tc q (tc_unavailable tc) es \<and>
    length es = length tried - (if ok then 1 else 0) \<and> gs_cache (tunnel_failures gw tc io q res ok tried s) = gs_cache s"
  using assms
proof (induction gw tc io q res ok tried s rule: tunnel_failures.induct)
  case (2 gw tc io q res ok ro ros s)
  show ?case
  proof (cases "ok \<and> ros = []")
    case False
    let ?e = "tunnel_event (ti_recorded io) (tc_protocol tc) q res ro (tc_unavailable tc) 0 0 0 0"
    obtain es where "gs_events (tunnel_failures gw tc io q res ok ros (record_event gw ?e s)) = gs_events s @ ?e # es"
        "idle_events tc q (tc_unavailable tc) es" "length es = length ros - (if ok then 1 else 0)"
        "gs_cache (tunnel_failures gw tc io q res ok ros (record_event gw ?e s)) = gs_cache s"
      using 2(1) [OF False 2(2)] 2(2) by auto
    then show ?thesis using False
      by (intro exI [of _ "?e # es"]) (cases ros, auto simp: idle_events_def)
  qed (simp add: idle_events_def)
qed (simp add: idle_events_def)

lemma admit_events:
  assumes "gw_records gw" "tunnel_admit gw tc io sn history q v s = (x, s')"
  shows "(case x of Inl (status, code) \<Rightarrow> refused_events tc q status (gs_events s) (gs_events s') | Inr y \<Rightarrow> gs_events s' = gs_events s) \<and>
    gs_cache s' = gs_cache s"
proof -
  obtain res err where v: "gateway_evaluate gw sn q v = (res, err)" by fastforce
  obtain ro y rs where z: "route_request (gw_router gw) (ti_route io) (ti_chain io) history q res (gs_router s) = ((ro, y), rs)"
    by (metis prod.exhaust)
  note r = refuse_tunnel_events [OF assms(1), where 'd = "result \<times> route"]
  show ?thesis
  proof (cases err)
    case None
    show ?thesis
    proof (cases "y \<noteq> None \<or> ro_dial ro = NoDial")
      case True
      then obtain ro' status code where "refuse_tunnel gw tc io q res ro' status code (s\<lparr>gs_router := rs\<rparr>) = (x, s')"
        using assms(2) v z None by (simp add: tunnel_admit_def Let_def split: if_splits)
      from r [OF this] show ?thesis by simp
    next
      case False
      then show ?thesis using assms(2) v z None by (auto simp: tunnel_admit_def Let_def)
    qed
  next
    case (Some e)
    then have "refuse_tunnel gw tc io q res (empty_route\<lparr>ro_action := ''reject''\<rparr>) (tc_denied tc) ''POLICY_BLOCKED'' s = (x, s')"
      using assms(2) v by (simp add: tunnel_admit_def)
    from r [OF this] show ?thesis by simp
  qed
qed

lemma open_events:
  assumes "gw_records gw" "tunnel_open gw tc io sn q res ro s = (x, s')"
  shows "(case x of Inl (status, code) \<Rightarrow> refused_events tc q status (gs_events s) (gs_events s')
    | Inr y \<Rightarrow> \<exists>es. gs_events s' = gs_events s @ es \<and> idle_events tc q (tc_unavailable tc) es) \<and> gs_cache s' = gs_cache s"
proof -
  obtain b rs where b: "route_available (gw_router gw) (ti_reserve_err io) (ti_reserve_now io) ro (gs_router s) = (b, rs)" by fastforce
  obtain a rs1 where a: "route_acquire (ti_acquire_now io) ro rs = (a, rs1)" by fastforce
  obtain ok tried rs2 where t: "serve_attempts (gw_router gw) Tunnel (ti_attempt io) sn q ro rs1 = ((ok, tried), rs2)"
    by (metis prod.exhaust)
  then have ne: "tried \<noteq> []" unfolding serve_attempts_def by (rule attempts_tried)
  note r = refuse_tunnel_events [OF assms(1), where 'd = route]
  show ?thesis
  proof (cases "b = None \<and> a")
    case True
    let ?s1 = "tunnel_failures gw tc io q res ok tried (s\<lparr>gs_router := rs2\<rparr>)"
    obtain es where es: "gs_events ?s1 = gs_events s @ es" "idle_events tc q (tc_unavailable tc) es"
        "length es = length tried - (if ok then 1 else 0)" "gs_cache ?s1 = gs_cache s"
      using tunnel_failures_events [OF assms(1), of tc io q res ok tried "s\<lparr>gs_router := rs2\<rparr>"] by auto
    have x: "x = (if ok then Inr (last tried) else Inl (tc_unavailable tc, ''UPSTREAM_FAILED''))" "s' = ?s1"
      using assms(2) a b t True by (simp_all add: tunnel_open_def Let_def)
    have "ok \<or> es \<noteq> []" using es(3) ne by auto
    then show ?thesis using es(1,2,4) x by (auto simp: refused_events_def)
  next
    case False
    then obtain ro' status code rs' where "refuse_tunnel gw tc io q res ro' status code (s\<lparr>gs_router := rs'\<rparr>) = (x, s')"
      using assms(2) a b by (auto simp: tunnel_open_def split: option.splits)
    from r [OF this] show ?thesis by simp
  qed
qed



section \<open>Inspected tunnels\<close>

lemma no_trailing_colon: "\<not> has_suffix (join_host_port h (itoa p)) '':''"
proof
  assume "has_suffix (join_host_port h (itoa p)) '':''"
  then have "last (join_host_port h (itoa p)) = CHR '':''"
    by (auto simp: has_suffix_def) (metis append_take_drop_id last_snoc)
  then have "last (itoa p) = CHR '':''" by (simp add: join_host_port_def split: if_splits)
  moreover have "last (itoa p) \<in> set (itoa p)" by simp
  ultimately show False using itoa_digits by (fastforce simp: digit_of_def)
qed

text \<open>C15: a request inside an inspected tunnel is forwarded to the host and the port of the tunnel and nowhere else.\<close>

theorem inspected_requests_stay:
  assumes "parse_connect_target (gw_lib gw) target = Some (host, port)" "inspect_request gw host port session text inner = Inr r"
  shows "hr_method r \<noteq> ''CONNECT'' \<and> ru_scheme (hr_url r) = ''https'' \<and>
    (case forward_target (gw_lib gw) r of Inl e \<Rightarrow>
        ru_has_user (hr_url inner) \<or> hr_content_length inner > 2 ^ 30 \<or> length (header_get (hr_header r) session_header) > 4096
     | Inr (h, p) \<Rightarrow> h = host \<and> p = port)"
proof -
  have p: "valid_host (gw_lib gw) host" "0 < port" "port < 65536"
    using assms(1) by (auto simp: parse_connect_target_def parse_uint_def split: if_splits option.splits)
  then have u: "parse_uint 16 (itoa port) = Some (int port)" by (intro parse_uint_itoa) simp
  define h where "h = (if session \<noteq> [] \<and> header_get (hr_header inner) session_header = []
    then header_set session_header session (hr_header inner) else hr_header inner)"
  have r: "r = inner\<lparr>hr_url := inspect_url host port (hr_url inner) text, hr_header := h\<rparr>" "hr_method inner \<noteq> ''CONNECT''"
      "inspect_authority (gw_lib gw) (hr_host inner) \<noteq> None"
    using assms(2) unfolding inspect_request_def h_def [symmetric] by (auto split: if_splits option.splits)
  then have "hr_host inner \<noteq> []" by (auto simp: inspect_authority_def)
  note r = r(1,2) this
  have n: "join_host_port host (itoa port) \<noteq> []" by (simp add: join_host_port_def)
  have "forward_target (gw_lib gw) r = (if length (header_get h session_header) > 4096 then Inl (400, ''INVALID_SESSION_KEY'')
      else if ru_has_user (hr_url inner) then Inl (400, ''INVALID_PROXY_REQUEST'')
      else if hr_content_length inner > 2 ^ 30 then Inl (413, ''REQUEST_TOO_LARGE'') else Inr (host, port))"
    using p u r n no_trailing_colon [of host port]
    by (simp add: forward_target_def inspect_url_def default_port_def Let_def)
  then show ?thesis using r by (auto simp: inspect_url_def Let_def)
qed

end
