(* ===== verification/Forward_Witness.thy ===== *)
theory Forward_Witness
  imports Forward_Use
begin

text \<open>A gateway whose policy caches everything and sends it through the pool main, and two requests for the same page:
  the properties of the forward proxy at a concrete input.\<close>

section \<open>Only what the policy and the budgets let through\<close>

lemma error_reply_code [simp]: "fr_code (error_reply status code) = code"
  by (simp add: error_reply_def)

lemma routed_open:
  assumes "forward_routed gw io sn q res r ro s = (rep, s')" "fr_code rep = []"
  shows "fst (route_available (gw_router gw) (fi_reserve_err io) (fi_reserve_now io) ro (gs_router s)) = None"
  using assms by (auto simp: forward_routed_def refuse_http_def split: prod.splits option.splits)

text \<open>C10: a reply that is no refusal of the proxy means that the request named a destination, that its policy ended in
  an action which allows it, that the router found a route, and, unless the action answers by itself and leaves the
  cache alone, that the route can be dialled and its budgets have room.\<close>

theorem forward_fail_closed:
  assumes "forward_http gw io sn history client r s = (rep, s')" "fr_code rep = []"
  shows "\<exists>host port res ro rs. forward_target (gw_lib gw) r = Inr (host, port) \<and>
    gateway_evaluate gw sn (forward_context gw io client r host port) forward_visibility = (res, None) \<and>
    route_request (gw_router gw) (fi_route io) (fi_chain io) history (forward_context gw io client r host port) res
      (gs_router s) = ((ro, None), rs) \<and> ro_action ro \<notin> {''block'', ''reject'', []} \<and>
    (ro_action ro \<in> {''mock'', ''redirect''} \<and> gs_cache s' = gs_cache s \<or>
     ro_dial ro \<noteq> NoDial \<and> fst (route_available (gw_router gw) (fi_reserve_err io) (fi_reserve_now io) ro rs) = None)"
proof -
  obtain host port where t: "forward_target (gw_lib gw) r = Inr (host, port)"
  proof (cases "forward_target (gw_lib gw) r")
    case (Inl y)
    then show ?thesis using assms by (auto simp: forward_http_def forward_target_def Let_def split: prod.splits option.splits if_splits)
  qed auto
  let ?q = "forward_context gw io client r host port"
  obtain res err where v: "gateway_evaluate gw sn ?q forward_visibility = (res, err)" by fastforce
  obtain ro x rs where z: "route_request (gw_router gw) (fi_route io) (fi_chain io) history ?q res (gs_router s) = ((ro, x), rs)"
    by (metis prod.exhaust)
  have e: "err = None" using assms t v by (cases err) (auto simp: forward_http_def refuse_http_def)
  have d: "forward_decided gw io sn ?q res r ro x (s\<lparr>gs_router := rs\<rparr>) = (rep, s')"
    using assms(1) t v e z by (simp add: forward_http_def)
  have n: "x = None" "ro_action ro \<notin> {''block'', ''reject'', []}"
    using d assms(2) by (auto simp: forward_decided_def refuse_http_def Let_def split: if_splits)
  have "ro_action ro \<in> {''mock'', ''redirect''} \<and> gs_cache s' = gs_cache s \<or> ro_dial ro \<noteq> NoDial \<and>
      fst (route_available (gw_router gw) (fi_reserve_err io) (fi_reserve_now io) ro rs) = None"
    using d assms(2) n routed_open [of gw io sn ?q res _ ro "s\<lparr>gs_router := rs\<rparr>" rep s']
    by (auto simp: forward_decided_def refuse_http_def split: if_splits option.splits)
  then show ?thesis using t v e z n by auto
qed

section \<open>Two requests\<close>

definition wit_policy :: policy where
  "wit_policy = \<lparr>p_version = 1, p_id = ''all'', p_name = ''all'', p_rules =
     [\<lparr>r_id = ''go'', r_name = ''go'', r_priority = 1, r_enabled = True, r_stop_processing = True,
       r_conditions = Condition [] [] [] [] [] None,
       r_actions = [\<lparr>a_type = ''cache'', a_pool_id = [], a_chain_id = [], a_fallback_chain_ids = [], a_value = []\<rparr>,
         \<lparr>a_type = ''direct'', a_pool_id = [], a_chain_id = [], a_fallback_chain_ids = [], a_value = []\<rparr>]\<rparr>]\<rparr>"

definition wit_snapshot :: routing_snapshot where
  "wit_snapshot = \<lparr>sn_revision = 1, sn_bundle = demo_bundle\<lparr>rb_policies := [wit_policy]\<rparr>\<rparr>"

definition wit_router :: "(unit, unit) router" where
  "wit_router = demo_router\<lparr>rt_security := \<lparr>sx_deny_private = True, sx_allow_direct = True, sx_direct_allowlist = [''a.test'']\<rparr>,
     rt_lookup := (\<lambda>h. Inr [IP4 0x08080808])\<rparr>"

definition wit_gateway :: "(unit, unit, memory_cache) gateway" where
  "wit_gateway = \<lparr>gw_lib = plain_lib, gw_router = wit_router, gw_policy_id = ''all'', gw_listener = ''http'',
     gw_cache = Some (memory_step wit_hostname), gw_max_cache_body = 64, gw_rewrite = (\<lambda>u p. None),
     gw_http_time = (\<lambda>s. None), gw_records = True\<rparr>"

definition wit_gateway_state :: "memory_cache \<Rightarrow> traffic_event list \<Rightarrow> (unit, unit, memory_cache) gateway_state" where
  "wit_gateway_state m es = \<lparr>gs_router = demo_state, gs_cache = m, gs_events = es\<rparr>"

definition wit_request :: http_request where
  "wit_request = \<lparr>hr_method = ''GET'', hr_url = \<lparr>ru_absolute = True, ru_scheme = ''http'', ru_host = ''a.test'',
       ru_hostname = ''a.test'', ru_port = [], ru_has_user = False, ru_path = ''/'', ru_text = ''http://a.test/''\<rparr>,
     hr_host = ''a.test'', hr_header = [], hr_content_length = 0, hr_transfer_encoding = []\<rparr>"

definition wit_io :: forward_io where
  "wit_io = \<lparr>fi_request_id = ''r1'', fi_connection_id = ''c1'', fi_now = 1000, fi_route = demo_route_readings,
     fi_chain = (\<lambda>c k. demo_readings), fi_reserve_err = None, fi_reserve_now = 1000, fi_acquire_now = (\<lambda>i. 1000),
     fi_cache_now = 1000, fi_attempt = (\<lambda>k. demo_io 2),
     fi_response = \<lparr>hs_status = 200, hs_header = [(''Cache-Control'', [''max-age=60''])], hs_content_length = 5,
       hs_body = ''hello'', hs_read_ok = True\<rparr>,
     fi_upload = 0, fi_download = 5, fi_delivered = 5, fi_complete = \<lparr>cp_big = 0, cp_err = None, cp_now = 1000, cp_elapsed = 5\<rparr>,
     fi_recorded = 1000\<rparr>"

definition wit_input :: forward_input where
  "wit_input = \<lparr>fx_io = wit_io, fx_snapshot = wit_snapshot, fx_history = (\<lambda>i. if i = 1 then Some wit_snapshot else None),
     fx_client = ''alice'', fx_request = wit_request\<rparr>"

definition wit_context :: request_context where
  "wit_context = forward_context wit_gateway wit_io ''alice'' wit_request ''a.test'' 80"

definition wit_result :: result where
  "wit_result = empty_result\<lparr>res_policy_id := ''all'', res_actions := r_actions (hd (p_rules wit_policy)),
     res_matched_rule_ids := [''go''], res_terminal_rule_id := ''go'', res_runtime_revision := 1\<rparr>"

definition wit_route :: route where
  "wit_route = empty_route\<lparr>ro_action := ''direct'', ro_dial := DirectDial [IP4 0x08080808], ro_cache := True\<rparr>"

definition wit_page_key :: cache_key where
  "wit_page_key = cache_key_for wit_route wit_result wit_context wit_request"

definition wit_page :: cache_entry where
  "wit_page = \<lparr>ce_status = 200, ce_header = [(''Cache-Control'', [''max-age=60''])], ce_body = ''hello'',
     ce_expires_at = 1000 + 60 * second, ce_host = []\<rparr>"

lemma wit_target: "forward_target plain_lib wit_request = Inr (''a.test'', 80)"
  by code_simp

lemma wit_evaluated: "gateway_evaluate wit_gateway wit_snapshot wit_context forward_visibility = (wit_result, None)"
  by code_simp

lemma wit_routed: "route_request wit_router rr rd history wit_context wit_result s = ((wit_route, None), s)"
proof -
  have "direct_allowed (rt_security wit_router) ''a.test''" "destination_allow (rt_destination wit_router) [IP4 0x08080808] = None"
    by code_simp+
  then show ?thesis
    by (simp add: route_request_def wit_result_def wit_policy_def wit_context_def forward_context_def direct_route_def
      wit_router_def wit_route_def decorate_def decorate_step_def Let_def)
qed

lemma wit_checked: "check_response (\<lambda>s. None) 200 [(''Cache-Control'', [''max-age=60''])] 5 64 1000 =
    \<lparr>el_eligible = True, el_reason = [], el_expires_at = 1000 + 60 * second\<rparr> \<and>
  strip_hop_by_hop [(''Cache-Control'', [''max-age=60''])] = [(''Cache-Control'', [''max-age=60''])] \<and>
  el_eligible (check_request ''GET'' [])"
  by code_simp

definition wit_missed :: memory_cache where
  "wit_missed = snd (memory_step wit_hostname 1000 (CacheGet wit_page_key) wit_memory)"

definition wit_filled :: memory_cache where
  "wit_filled = snd (memory_step wit_hostname 1000 (CachePut wit_page_key wit_page) wit_missed)"

lemma wit_cache: "fst (memory_step wit_hostname 1000 (CacheGet wit_page_key) wit_memory) = ReplyEntry None \<and>
  fst (memory_step wit_hostname 1000 (CacheGet wit_page_key) wit_filled) = ReplyEntry (Some (wit_page\<lparr>ce_host := ''a.test''\<rparr>))"
  by code_simp

lemma wit_forward: "forward_input_step wit_gateway wit_input (wit_gateway_state m es) =
    forward_routed wit_gateway wit_io wit_snapshot wit_context wit_result wit_request wit_route (wit_gateway_state m es)"
  using wit_target wit_evaluated
  by (simp add: forward_input_step_def wit_input_def forward_http_def wit_context_def [symmetric] wit_gateway_def [THEN arg_cong, of gw_lib]
    wit_gateway_def [THEN arg_cong, of gw_router] wit_routed forward_decided_def wit_gateway_state_def)
    (simp add: wit_route_def empty_route_def wit_gateway_def)

lemma wit_dial: "ro_dial wit_route = DirectDial [IP4 0x08080808]" "ro_cache wit_route" "ro_reserve wit_route = None"
    "ro_retry_policy wit_route = None"
  by (simp_all add: wit_route_def empty_route_def)

lemma wit_upstream: "forward_upstream wit_gateway wit_io sn q res r wit_route s = forward_respond wit_gateway wit_io q res r wit_route s"
  by (simp add: forward_upstream_def route_acquire_def wit_dial serve_attempts_def attempts.simps wit_io_def demo_io_def
    route_observe_def Let_def)

lemma wit_ask: "forward_routed wit_gateway wit_io sn wit_context wit_result wit_request wit_route s =
    (case memory_step wit_hostname 1000 (CacheGet wit_page_key) (gs_cache s) of
       (ReplyEntry (Some e), c) \<Rightarrow> serve_cached wit_gateway wit_io wit_context wit_result wit_route e (s\<lparr>gs_cache := c\<rparr>)
     | (reply, c) \<Rightarrow> forward_respond wit_gateway wit_io wit_context wit_result wit_request wit_route (s\<lparr>gs_cache := c\<rparr>))"
proof -
  have "gw_cache wit_gateway = Some (memory_step wit_hostname)" "fi_cache_now wit_io = 1000"
      "el_eligible (check_request (hr_method wit_request) (hr_header wit_request))"
    using wit_checked by (simp_all add: wit_gateway_def wit_io_def wit_request_def)
  then show ?thesis
    by (simp add: forward_routed_def route_available_def wit_dial wit_upstream wit_page_key_def [symmetric]
      split: prod.split cache_reply.split option.split)
qed

lemma wit_first: "\<exists>rep es'. forward_input_step wit_gateway wit_input (wit_gateway_state wit_memory es) =
    (rep, wit_gateway_state wit_filled es') \<and> \<not> fr_cached rep \<and> fr_code rep = []"
proof -
  have c: "memory_step wit_hostname 1000 (CacheGet wit_page_key) wit_memory = (ReplyEntry None, wit_missed)"
    using wit_cache by (simp add: wit_missed_def prod_eq_iff)
  show ?thesis using wit_checked unfolding wit_forward wit_ask
    by (simp add: wit_gateway_state_def c forward_respond_def Let_def wit_dial wit_io_def wit_request_def wit_gateway_def record_http_def
      record_event_def complete_with_def route_complete_def wit_filled_def wit_page_key_def [unfolded wit_request_def, symmetric] wit_page_def)
qed

lemma wit_second: "\<exists>s'. forward_input_step wit_gateway wit_input (wit_gateway_state wit_filled es) =
    (\<lparr>fr_status = 200, fr_code = [], fr_header = ce_header wit_page, fr_body = ''hello'', fr_cached = True\<rparr>, s')"
proof -
  obtain m where c: "memory_step wit_hostname 1000 (CacheGet wit_page_key) wit_filled = (ReplyEntry (Some (wit_page\<lparr>ce_host := ''a.test''\<rparr>)), m)"
    using wit_cache by (metis prod.collapse)
  show ?thesis unfolding wit_forward wit_ask
    by (simp add: wit_gateway_state_def c serve_cached_def wit_page_def)
qed

theorem forward_fail_closed_witness: "destination_allow (rt_destination wit_router) [IP4 0x08080808] = None \<and> (\<exists>ro rs.
    route_request wit_router (fi_route wit_io) (fi_chain wit_io) (fx_history wit_input) wit_context wit_result demo_state = ((ro, None), rs) \<and>
    ro_action ro \<notin> {''block'', ''reject'', []})"
proof -
  obtain rep s' where r: "forward_input_step wit_gateway wit_input (wit_gateway_state wit_memory []) = (rep, s')" "fr_code rep = []"
    using wit_first by blast
  have d: "destination_allow (rt_destination wit_router) [IP4 0x08080808] = None" by code_simp
  have t: "forward_target (gw_lib wit_gateway) wit_request = Inr (''a.test'', 80)" using wit_target by (simp add: wit_gateway_def)
  have "forward_http wit_gateway wit_io wit_snapshot (fx_history wit_input) ''alice'' wit_request (wit_gateway_state wit_memory []) = (rep, s')"
    using r(1) by (simp add: forward_input_step_def wit_input_def)
  from forward_fail_closed [OF this r(2)] show ?thesis using d t wit_evaluated
    by (auto simp: wit_context_def [symmetric] wit_gateway_state_def wit_gateway_def [THEN arg_cong, of gw_router])
qed



end
