(* ===== verification/Tunnel_Witness.thy ===== *)
theory Tunnel_Witness
  imports Tunnel_Use Forward_Witness
begin

text \<open>The properties of the tunnels at the gateway of Forward_Witness.\<close>

definition wit_tunnel_io :: tunnel_io where
  "wit_tunnel_io = \<lparr>ti_request_id = ''r1'', ti_connection_id = ''c1'', ti_now = 1000, ti_route = demo_route_readings,
     ti_chain = (\<lambda>c k. demo_readings), ti_reserve_err = None, ti_reserve_now = 1000, ti_acquire_now = (\<lambda>i. 1000),
     ti_attempt = (\<lambda>k. demo_io 2), ti_client_upload = 3, ti_client_download = 5, ti_upload = 3, ti_download = 5,
     ti_complete = \<lparr>cp_big = 0, cp_err = None, cp_now = 1000, cp_elapsed = 5\<rparr>, ti_recorded = 1000\<rparr>"

definition wit_connect :: http_request where
  "wit_connect = wit_request\<lparr>hr_method := ''CONNECT'', hr_host := ''a.test:443''\<rparr>"

lemma wit_connect_target: "parse_connect_target plain_lib ''a.test:443'' = Some (''a.test'', 443)"
  by code_simp


lemma socks_answers:
  assumes "negotiate authenticate c = (Some client, c0)" "read_request (gw_lib gw) c0 = (Some (host, port), c1)" "cn_writes c1 = []"
  shows "fst (socks_serve gw authenticate io sn history c s) \<noteq> None"
  using assms by (auto simp: socks_serve_def write_reply_def Let_def split: prod.split sum.split)

definition wit_socks_bytes :: string where
  "wit_socks_bytes = map byte [5, 1, 0, 5, 1, 0, 3, 6] @ ''a.test'' @ map byte [0, 80]"

definition wit_socks :: conn where
  "wit_socks = \<lparr>cn_in = wit_socks_bytes, cn_out = [], cn_writes = []\<rparr>"

lemma wit_socks_client: "fst (negotiate None wit_socks) = Some ''local-socks'' \<and>
  fst (read_request plain_lib (snd (negotiate None wit_socks))) = Some (''a.test'', 80) \<and>
  cn_writes (snd (read_request plain_lib (snd (negotiate None wit_socks)))) = []"
  by code_simp


theorem inspected_requests_stay_witness:
  "\<exists>r. inspect_request wit_gateway ''a.test'' 443 ''s1'' (\<lambda>h. ''https://'' @ h) wit_request = Inr r \<and> ru_scheme (hr_url r) = ''https''"
proof -
  have "inspect_authority plain_lib ''a.test'' = Some (''a.test'', 443)" "same_host plain_lib ''a.test'' ''a.test''" by code_simp+
  then obtain r where r: "inspect_request wit_gateway ''a.test'' 443 ''s1'' (\<lambda>h. ''https://'' @ h) wit_request = Inr r"
    by (simp add: inspect_request_def wit_gateway_def wit_request_def)
  have t: "parse_connect_target (gw_lib wit_gateway) ''a.test:443'' = Some (''a.test'', 443)"
    using wit_connect_target by (simp add: wit_gateway_def)
  show ?thesis using inspected_requests_stay [OF t r] r by blast
qed

end
