(* ===== verification/Import_Parse.thy ===== *)
theory Import_Parse
  imports Endpoint_Model
begin

text \<open>pkg/proxy/parse.go and import.go: endpoints from text, CSV and JSON.  net/url's view of a URL with its user
  information, encoding/csv's records and encoding/json's document are arguments; so are the identifiers drawn.\<close>

section \<open>Libraries\<close>

record import_url =
  iu_scheme :: string
  iu_user :: "(string \<times> string option) option"
  iu_host :: string
  iu_hostname :: string
  iu_port :: string
  iu_path :: string
  iu_query :: string
  iu_fragment :: string

text \<open>A decoded document; the members of an object have distinct names.\<close>

datatype json = JString string | JNumber string | JObject "(string \<times> json) list" | JList "json list" | JOther

text \<open>The records of a CSV reader up to the end of the input; None is a malformed record, after which nothing is read.\<close>

record import_lib =
  il_lib :: go_lib
  il_url :: "string \<Rightarrow> import_url option"
  il_csv :: "string \<Rightarrow> string list option list"
  il_json :: "string \<Rightarrow> json option"

section \<open>Parse\<close>

definition max_endpoint_bytes :: int where "max_endpoint_bytes = 8192"

record parse_result =
  pr_endpoint :: endpoint
  pr_warnings :: "string list"

definition parse_port :: "string \<Rightarrow> nat option" where
  "parse_port raw = (if raw = [] then None
     else case parse_uint 16 raw of None \<Rightarrow> None | Some v \<Rightarrow> if v = 0 then None else Some (nat v))"

definition imported_endpoint :: "string \<Rightarrow> string \<Rightarrow> nat \<Rightarrow> (string \<times> string) list \<Rightarrow> endpoint" where
  "imported_endpoint protocol host port metadata =
     \<lparr>ep_id = ''imported'', ep_name = ''Imported proxy'', ep_protocol = protocol, ep_host = host, ep_port = of_nat port,
      ep_credential_ref = [], ep_provider_id = [], ep_source_id = [], ep_tags = [], ep_country = [], ep_weight = 0,
      ep_priority = 0, ep_enabled = True, ep_trusted_remote_dns = False, ep_rate = None, ep_created_at = 0,
      ep_updated_at = 0, ep_metadata = metadata\<rparr>"

definition parse_legacy :: "go_lib \<Rightarrow> string \<Rightarrow> error + parse_result" where
  "parse_legacy lib raw =
     (let parts = split_on CHR '':'' raw in
      if length parts \<noteq> 2 \<and> length parts \<noteq> 4 then Inl ProxyErrParse
      else case parse_port (parts ! 1) of None \<Rightarrow> Inl ProxyErrParse
      | Some port \<Rightarrow>
          if \<not> valid_host lib (parts ! 0) then Inl ProxyErrParse
          else if length parts = 4 \<and> (parts ! 2 = [] \<or> parts ! 3 = []) then Inl ProxyErrParse
          else Inr \<lparr>pr_endpoint = imported_endpoint ''http'' (parts ! 0) port
              (if length parts = 4 then [(''username_present'', ''true'')] else []),
            pr_warnings = [''legacy_colon_format'']\<rparr>)"

definition parse_uri :: "import_lib \<Rightarrow> string \<Rightarrow> error + parse_result" where
  "parse_uri il raw =
     (case il_url il raw of None \<Rightarrow> Inl ProxyErrParse
      | Some u \<Rightarrow>
        if iu_user u = None \<and> iu_host u = [] then Inl ProxyErrParse
        else let p = to_lower (iu_scheme u) in
          if \<not> protocol_valid p then Inl ProxyErrParse
          else if (case iu_user u of None \<Rightarrow> False | Some (name, pw) \<Rightarrow> name = []) then Inl ProxyErrParse
          else if (case iu_user u of Some (name, Some pw) \<Rightarrow> trim_space pw = [] | _ \<Rightarrow> False) then Inl ProxyErrParse
          else if iu_path u \<noteq> [] \<or> iu_query u \<noteq> [] \<or> iu_fragment u \<noteq> [] \<or> \<not> valid_host (il_lib il) (iu_hostname u)
          then Inl ProxyErrParse
          else case parse_port (iu_port u) of None \<Rightarrow> Inl ProxyErrParse
          | Some port \<Rightarrow> Inr \<lparr>pr_endpoint = imported_endpoint p (iu_hostname u) port
              (case iu_user u of None \<Rightarrow> []
               | Some (name, pw) \<Rightarrow> [(''username_present'', ''true''), (''password_present'', if pw = None then ''false'' else ''true'')]),
            pr_warnings = []\<rparr>)"

definition parse_endpoint :: "import_lib \<Rightarrow> string \<Rightarrow> error + parse_result" where
  "parse_endpoint il raw =
     (let raw = trim_space raw in
      if raw = [] \<or> int (length raw) > max_endpoint_bytes \<or> contains_any raw [CHR 0x0D, CHR 0x0A] then Inl ProxyErrParse
      else let raw = (if \<not> contains raw ''://'' \<and> contains raw ''@'' then ''http://'' @ raw else raw) in
        if \<not> contains raw ''://'' then parse_legacy (il_lib il) raw else parse_uri il raw)"

section \<open>Preview\<close>

record import_mapping =
  im_items :: string
  im_endpoint :: string
  im_protocol :: string
  im_host :: string
  im_port :: string

record import_options =
  io_format :: string
  io_mapping :: import_mapping

text \<open>An item is a line or a record with what it parsed to, None where it did not.\<close>

record preview_item =
  pi_line :: nat
  pi_result :: "parse_result option"

record import_preview =
  ip_items :: "preview_item list"
  ip_valid :: nat
  ip_invalid :: nat
  ip_duplicates :: nat
  ip_protocols :: "(string \<times> nat) list"

definition preview_item_of :: "import_lib \<Rightarrow> nat \<Rightarrow> string \<Rightarrow> preview_item" where
  "preview_item_of il line raw = \<lparr>pi_line = line,
     pi_result = (case parse_endpoint il (trim_space raw) of Inl e \<Rightarrow> None | Inr r \<Rightarrow> Some r)\<rparr>"

definition invalid_item :: "nat \<Rightarrow> preview_item" where
  "invalid_item line = \<lparr>pi_line = line, pi_result = None\<rparr>"

definition field_or :: "string \<Rightarrow> string \<Rightarrow> string" where
  "field_or f d = (if f = [] then d else f)"

definition value_or_empty :: "(string \<times> string) list \<Rightarrow> string \<Rightarrow> string" where
  "value_or_empty vs k = (case map_of vs k of None \<Rightarrow> [] | Some v \<Rightarrow> v)"

definition mapped_item :: "import_lib \<Rightarrow> nat \<Rightarrow> (string \<times> string) list \<Rightarrow> import_mapping \<Rightarrow> preview_item" where
  "mapped_item il line values m =
     (let raw = trim_space (value_or_empty values (field_or (im_endpoint m) ''endpoint'')) in
      if raw \<noteq> [] then preview_item_of il line raw
      else let protocol = field_or (trim_space (value_or_empty values (field_or (im_protocol m) ''protocol''))) ''http'';
          host = trim_space (value_or_empty values (field_or (im_host m) ''host''));
          port = trim_space (value_or_empty values (field_or (im_port m) ''port'')) in
        preview_item_of il line (protocol @ ''://'' @ join_host_port host port))"

fun text_items :: "import_lib \<Rightarrow> int \<Rightarrow> nat \<Rightarrow> string list \<Rightarrow> error + preview_item list" where
  "text_items il mx line [] = Inr []"
| "text_items il mx line (raw # ls) =
     (if int line \<ge> mx then Inl ProxyErrParse
      else case text_items il mx (line + 1) ls of Inl e \<Rightarrow> Inl e
      | Inr items \<Rightarrow> Inr (if trim_space raw \<noteq> [] then preview_item_of il (line + 1) (trim_space raw) # items else items))"

definition byte_order_mark :: string where "byte_order_mark = [CHR 0xEF, CHR 0xBB, CHR 0xBF]"

fun csv_header :: "nat \<Rightarrow> string list \<Rightarrow> (string \<times> nat) list \<Rightarrow> (string \<times> nat) list option" where
  "csv_header k [] cols = Some cols"
| "csv_header k (raw # hs) cols =
     (let name = trim_space (if has_prefix raw byte_order_mark then drop 3 raw else raw) in
      if name = [] \<or> map_of cols name \<noteq> None then None else csv_header (k + 1) hs (cols @ [(name, k)]))"

fun csv_records :: "import_lib \<Rightarrow> int \<Rightarrow> nat \<Rightarrow> (string \<times> nat) list \<Rightarrow> import_mapping \<Rightarrow> nat \<Rightarrow> string list option list \<Rightarrow>
    error + preview_item list" where
  "csv_records il mx width cols m k [] = Inr []"
| "csv_records il mx width cols m k (None # rows) = Inl ProxyErrParse"
| "csv_records il mx width cols m k (Some row # rows) =
     (if int k > mx then Inl ProxyErrParse
      else case csv_records il mx width cols m (k + 1) rows of Inl e \<Rightarrow> Inl e
      | Inr items \<Rightarrow> Inr ((if length row \<noteq> width then invalid_item k
          else mapped_item il k (map (\<lambda>(name, i). (name, row ! i)) cols) m) # items))"

definition csv_items :: "import_lib \<Rightarrow> string \<Rightarrow> int \<Rightarrow> import_mapping \<Rightarrow> error + preview_item list" where
  "csv_items il input mx m =
     (case il_csv il input of
        Some header # rows \<Rightarrow>
          if header = [] then Inl ProxyErrParse
          else (case csv_header 0 header [] of None \<Rightarrow> Inl ProxyErrParse
            | Some cols \<Rightarrow> csv_records il mx (length header) cols m 1 rows)
      | _ \<Rightarrow> Inl ProxyErrParse)"

definition json_values :: "(string \<times> json) list \<Rightarrow> (string \<times> string) list" where
  "json_values members = concat (map (\<lambda>(name, v). case v of JString s \<Rightarrow> [(name, s)] | JNumber s \<Rightarrow> [(name, s)] | _ \<Rightarrow> []) members)"

fun json_records :: "import_lib \<Rightarrow> import_mapping \<Rightarrow> nat \<Rightarrow> json list \<Rightarrow> preview_item list" where
  "json_records il m k [] = []"
| "json_records il m k (r # rs) =
     (case r of JString s \<Rightarrow> preview_item_of il k s | JObject members \<Rightarrow> mapped_item il k (json_values members) m
      | _ \<Rightarrow> invalid_item k) # json_records il m (k + 1) rs"

definition json_items :: "import_lib \<Rightarrow> string \<Rightarrow> int \<Rightarrow> import_mapping \<Rightarrow> error + preview_item list" where
  "json_items il input mx m =
     (case il_json il input of None \<Rightarrow> Inl ProxyErrParse
      | Some document \<Rightarrow>
        (case (case document of JObject members \<Rightarrow> map_of members (field_or (im_items m) ''items'') | d \<Rightarrow> Some d) of
           Some (JList records) \<Rightarrow> if int (length records) > mx then Inl ProxyErrParse else Inr (json_records il m 1 records)
         | _ \<Rightarrow> Inl ProxyErrParse))"

definition mapping_ok :: "import_mapping \<Rightarrow> bool" where
  "mapping_ok m = list_all (\<lambda>f. length f \<le> 256 \<and> CHR 0x00 \<notin> set f) [im_items m, im_endpoint m, im_protocol m, im_host m, im_port m]"

definition import_items :: "import_lib \<Rightarrow> string \<Rightarrow> int \<Rightarrow> import_options \<Rightarrow> error + preview_item list" where
  "import_items il input mx opts =
     (if \<not> mapping_ok (io_mapping opts) then Inl ProxyErrParse
      else let format = field_or (io_format opts) ''text'' in
        if format = ''text'' then text_items il mx 0 (split_on CHR 0x0A input)
        else if format = ''csv'' then csv_items il input mx (io_mapping opts)
        else if format = ''json'' then json_items il input mx (io_mapping opts)
        else Inl ProxyErrParse)"

definition identity :: "endpoint \<Rightarrow> string" where
  "identity e = ep_protocol e @ ''|'' @ to_lower (ep_host e) @ ''|'' @ itoa (unat (ep_port e))"

fun tally :: "preview_item list \<Rightarrow> string list \<Rightarrow> import_preview \<Rightarrow> import_preview" where
  "tally [] seen out = out"
| "tally (it # its) seen out =
     (let out1 = out\<lparr>ip_items := ip_items out @ [it]\<rparr> in
      case pi_result it of
        None \<Rightarrow> tally its seen (out1\<lparr>ip_invalid := ip_invalid out + 1\<rparr>)
      | Some r \<Rightarrow>
          let e = pr_endpoint r; p = ep_protocol e; key = identity e;
            n = (case map_of (ip_protocols out) p of None \<Rightarrow> 0 | Some n \<Rightarrow> n);
            out2 = out1\<lparr>ip_valid := ip_valid out + 1, ip_protocols := AList.update p (n + 1) (ip_protocols out)\<rparr> in
          if key \<in> set seen then tally its seen (out2\<lparr>ip_duplicates := ip_duplicates out + 1\<rparr>)
          else tally its (key # seen) out2)"

definition preview :: "import_lib \<Rightarrow> string \<Rightarrow> int \<Rightarrow> import_options \<Rightarrow> error + import_preview" where
  "preview il input mx opts =
     (if mx < 1 \<or> mx > 100000 \<or> int (length input) > 8388608 then Inl ProxyErrParse
      else case import_items il input mx opts of Inl e \<Rightarrow> Inl e
      | Inr items \<Rightarrow> Inr (tally items [] \<lparr>ip_items = [], ip_valid = 0, ip_invalid = 0, ip_duplicates = 0, ip_protocols = []\<rparr>))"

section \<open>Import\<close>

datatype duplicate_mode = SkipDuplicates | UpdateDuplicates | CreateDuplicates

record import_result =
  ir_endpoints :: "endpoint list"
  ir_skipped :: nat
  ir_updated :: nat
  ir_created :: nat

text \<open>One pass of the loop; the identifiers are drawn from a stream, of which a number has been used.\<close>

record import_state =
  is_seen :: "string list"
  is_drawn :: nat
  is_result :: import_result

definition skip_import :: "import_state \<Rightarrow> import_state" where
  "skip_import st = st\<lparr>is_result := (is_result st)\<lparr>ir_skipped := ir_skipped (is_result st) + 1\<rparr>\<rparr>"

definition keep_import :: "endpoint \<Rightarrow> import_state \<Rightarrow> import_state" where
  "keep_import e st = st\<lparr>is_result := (is_result st)\<lparr>ir_endpoints := ir_endpoints (is_result st) @ [e],
     ir_created := ir_created (is_result st) + 1\<rparr>\<rparr>"

definition import_step :: "duplicate_mode \<Rightarrow> (string \<Rightarrow> endpoint option) \<Rightarrow> (nat \<Rightarrow> go_id) \<Rightarrow> endpoint \<Rightarrow> import_state \<Rightarrow> import_state" where
  "import_step mode existing ids e st =
     (let key = identity e; again = key \<in> set (is_seen st) in
      if again \<and> mode = SkipDuplicates then skip_import st
      else
        let copy = (again \<and> mode = CreateDuplicates);
          e1 = (if copy then e\<lparr>ep_id := ids (is_drawn st), ep_name := ep_name e @ '' (duplicate)''\<rparr> else e);
          st1 = st\<lparr>is_seen := key # is_seen st, is_drawn := is_drawn st + (if copy then 1 else 0)\<rparr> in
        if existing key \<noteq> None \<and> mode = SkipDuplicates then skip_import st1
        else
          let updates = (existing key \<noteq> None \<and> mode = UpdateDuplicates);
            e2 = (if updates then e1\<lparr>ep_id := ep_id (the (existing key))\<rparr> else e1);
            st2 = (if updates then st1\<lparr>is_result := (is_result st1)\<lparr>ir_updated := ir_updated (is_result st1) + 1\<rparr>\<rparr> else st1) in
          if ep_id e2 = ''imported''
          then keep_import (e2\<lparr>ep_id := ids (is_drawn st2)\<rparr>) (st2\<lparr>is_drawn := is_drawn st2 + 1\<rparr>)
          else keep_import e2 st2)"

definition import_loop :: "duplicate_mode \<Rightarrow> (string \<Rightarrow> endpoint option) \<Rightarrow> (nat \<Rightarrow> go_id) \<Rightarrow> endpoint list \<Rightarrow> import_result" where
  "import_loop mode existing ids es = is_result (fold (import_step mode existing ids) es \<lparr>is_seen = [], is_drawn = 0,
     is_result = \<lparr>ir_endpoints = [], ir_skipped = 0, ir_updated = 0, ir_created = 0\<rparr>\<rparr>)"

text \<open>sort.Slice by identifier; where identifiers repeat the order of the Go result is not fixed, here it is that of the
  input.\<close>

definition valid_endpoints :: "import_preview \<Rightarrow> endpoint list" where
  "valid_endpoints p = concat (map (\<lambda>it. case pi_result it of None \<Rightarrow> [] | Some r \<Rightarrow> [pr_endpoint r]) (ip_items p))"

definition import_endpoints :: "import_lib \<Rightarrow> string \<Rightarrow> duplicate_mode \<Rightarrow> (string \<Rightarrow> endpoint option) \<Rightarrow> import_options \<Rightarrow>
    (nat \<Rightarrow> go_id) \<Rightarrow> error + import_result" where
  "import_endpoints il input mode existing opts ids =
     (case preview il input 100000 opts of Inl e \<Rightarrow> Inl e
      | Inr p \<Rightarrow>
        let out = import_loop mode existing ids (valid_endpoints p) in
        Inr (out\<lparr>ir_endpoints := sort_key ep_id (ir_endpoints out)\<rparr>))"

end
