(* ===== verification/Source_Refresh.thy ===== *)
theory Source_Refresh
  imports Import_Parse Sqlite_Inventory Net_Addr
begin

text \<open>internal/source/refresh.go and http.go: the refresh of a proxy source reads and parses outside of the storage and
  then reconciles endpoints and source in one transaction.  The network, the file system, the clock and the
  identifiers drawn are arguments; the storage is pkg/store's InventoryStore, which SQLite implements.\<close>

section \<open>The storage\<close>

record refresh_result =
  rf_source :: "source stored option"
  rf_created :: nat
  rf_updated :: nat
  rf_skipped :: nat
  rf_invalid :: nat
  rf_recorded :: bool

definition empty_refresh :: refresh_result where
  "empty_refresh = \<lparr>rf_source = None, rf_created = 0, rf_updated = 0, rf_skipped = 0, rf_invalid = 0, rf_recorded = False\<rparr>"

text \<open>A transaction returns what its callback has set aside when it commits.\<close>

record 's inventory_ops =
  op_get_source :: "go_id \<Rightarrow> 's \<Rightarrow> (error + source stored) \<times> 's"
  op_put_source :: "source \<Rightarrow> int \<Rightarrow> 's \<Rightarrow> (error + source stored) \<times> 's"
  op_put_endpoint :: "endpoint \<Rightarrow> int \<Rightarrow> 's \<Rightarrow> (error + endpoint stored) \<times> 's"
  op_list_endpoints :: "page \<Rightarrow> 's \<Rightarrow> (error + endpoint stored list) \<times> 's"
  op_transaction :: "('s \<Rightarrow> (error + refresh_result) \<times> 's) \<Rightarrow> 's \<Rightarrow> (error + refresh_result) \<times> 's"
  op_rows :: "'s \<Rightarrow> nat"

text \<open>The SQLite store; the faults of a call and the state of its context go by the number of calls made before.\<close>

record sqlite_env =
  sq_lib :: go_lib
  sq_endpoint :: "endpoint codec"
  sq_source :: "source codec"
  sq_faults :: "nat \<Rightarrow> sql_faults"
  sq_cerr :: "nat \<Rightarrow> error option"

record sqlite_state =
  sq_db :: inventory_db
  sq_calls :: nat

definition sq_tick :: "sqlite_state \<Rightarrow> sqlite_state" where
  "sq_tick s = s\<lparr>sq_calls := sq_calls s + 1\<rparr>"

definition sqlite_op_get_source :: "sqlite_env \<Rightarrow> go_id \<Rightarrow> sqlite_state \<Rightarrow> (error + source stored) \<times> sqlite_state" where
  "sqlite_op_get_source env i s = (sqlite_get_source (sq_source env) (sq_cerr env (sq_calls s)) (sq_faults env (sq_calls s) 0) i
     (iv_sources (sq_db s)), sq_tick s)"

definition sqlite_op_put_source :: "sqlite_env \<Rightarrow> source \<Rightarrow> int \<Rightarrow> sqlite_state \<Rightarrow> (error + source stored) \<times> sqlite_state" where
  "sqlite_op_put_source env d e s = (case sqlite_put_source (sq_source env) (sq_cerr env (sq_calls s)) (sq_faults env (sq_calls s)) d e
       (iv_sources (sq_db s)) of (x, t) \<Rightarrow> (x, sq_tick (s\<lparr>sq_db := (sq_db s)\<lparr>iv_sources := t\<rparr>\<rparr>)))"

definition sqlite_op_put_endpoint :: "sqlite_env \<Rightarrow> endpoint \<Rightarrow> int \<Rightarrow> sqlite_state \<Rightarrow> (error + endpoint stored) \<times> sqlite_state" where
  "sqlite_op_put_endpoint env d e s = (case sqlite_put_endpoint (sq_lib env) (sq_endpoint env) (sq_cerr env (sq_calls s))
       (sq_faults env (sq_calls s)) d e (iv_endpoints (sq_db s)) of (x, t) \<Rightarrow> (x, sq_tick (s\<lparr>sq_db := (sq_db s)\<lparr>iv_endpoints := t\<rparr>\<rparr>)))"

definition sqlite_op_list_endpoints :: "sqlite_env \<Rightarrow> page \<Rightarrow> sqlite_state \<Rightarrow> (error + endpoint stored list) \<times> sqlite_state" where
  "sqlite_op_list_endpoints env p s = (sqlite_list_endpoints (sq_lib env) (sq_endpoint env) (sq_cerr env (sq_calls s))
     (sq_faults env (sq_calls s)) p (iv_endpoints (sq_db s)), sq_tick s)"

text \<open>BeginTx, the callback, then the context and Commit; whatever fails leaves the tables as they were.\<close>

definition sqlite_op_transaction :: "sqlite_env \<Rightarrow> (sqlite_state \<Rightarrow> (error + refresh_result) \<times> sqlite_state) \<Rightarrow> sqlite_state \<Rightarrow>
    (error + refresh_result) \<times> sqlite_state" where
  "sqlite_op_transaction env f s =
     (case sq_faults env (sq_calls s) 0 of Some e \<Rightarrow> (Inl (safe_error (sq_cerr env (sq_calls s)) e), sq_tick s)
      | None \<Rightarrow>
        (case f (sq_tick s) of
          (Inl e, s1) \<Rightarrow> (Inl e, s1\<lparr>sq_db := sq_db s\<rparr>)
        | (Inr r, s1) \<Rightarrow>
          (case sq_cerr env (sq_calls s1) of Some e \<Rightarrow> (Inl e, sq_tick (s1\<lparr>sq_db := sq_db s\<rparr>))
           | None \<Rightarrow>
             (case sq_faults env (sq_calls s1) 0 of
                Some e \<Rightarrow> (Inl (safe_error None e), sq_tick (s1\<lparr>sq_db := sq_db s\<rparr>))
              | None \<Rightarrow> (Inr r, sq_tick s1)))))"

definition sqlite_ops :: "sqlite_env \<Rightarrow> sqlite_state inventory_ops" where
  "sqlite_ops env = \<lparr>op_get_source = sqlite_op_get_source env, op_put_source = sqlite_op_put_source env,
     op_put_endpoint = sqlite_op_put_endpoint env, op_list_endpoints = sqlite_op_list_endpoints env,
     op_transaction = sqlite_op_transaction env, op_rows = (\<lambda>s. length (iv_endpoints (sq_db s)))\<rparr>"

section \<open>Configuration of a source\<close>

definition config_value :: "source \<Rightarrow> string \<Rightarrow> string" where
  "config_value s k = value_or_empty (sr_config s) k"

definition source_import_options :: "source \<Rightarrow> import_options option" where
  "source_import_options s =
     (let format = field_or (config_value s ''format'') ''text'';
          m = \<lparr>im_items = config_value s ''items_field'', im_endpoint = config_value s ''endpoint_field'',
            im_protocol = config_value s ''protocol_field'', im_host = config_value s ''host_field'',
            im_port = config_value s ''port_field''\<rparr> in
      if format \<notin> set [''text'', ''csv'', ''json''] \<or> \<not> mapping_ok m then None
      else Some \<lparr>io_format = format, io_mapping = m\<rparr>)"

definition refresh_url_ok :: "import_lib \<Rightarrow> string \<Rightarrow> bool" where
  "refresh_url_ok il raw = (case il_url il raw of None \<Rightarrow> False
     | Some u \<Rightarrow> (iu_scheme u = ''http'' \<or> iu_scheme u = ''https'') \<and> iu_hostname u \<noteq> [] \<and> iu_user u = None)"

text \<open>path/filepath, as far as it is used.\<close>

record file_lib =
  fl_clean :: "string \<Rightarrow> string"
  fl_is_abs :: "string \<Rightarrow> bool"
  fl_volume :: "string \<Rightarrow> string"
  fl_join :: "string \<Rightarrow> string \<Rightarrow> string"
  fl_links :: "string \<Rightarrow> string option"
  fl_rel :: "string \<Rightarrow> string \<Rightarrow> string option"
  fl_open :: "string \<Rightarrow> (bool \<times> int \<times> string option) option"

definition refresher_validate :: "import_lib \<Rightarrow> file_lib \<Rightarrow> string \<Rightarrow> source \<Rightarrow> error option" where
  "refresher_validate il fl root s =
     (if sr_type s \<noteq> ''api'' \<and> sr_type s \<noteq> ''file'' then None
      else if source_import_options s = None then Some SourceErrConfig
      else let allowed = [''format'', ''items_field'', ''endpoint_field'', ''protocol_field'', ''host_field'', ''port_field''];
          name = config_value s ''path''; cl = fl_clean fl name in
        if sr_type s = ''api'' \<and> \<not> refresh_url_ok il (config_value s ''url'') then Some SourceErrConfig
        else if sr_type s = ''file'' \<and> (root = [] \<or> name = [] \<or> fl_is_abs fl name \<or> fl_volume fl name \<noteq> [] \<or> cl = ''.'' \<or>
          cl = ''..'' \<or> has_prefix cl ''../'' \<or> CHR 0x00 \<in> set name) then Some SourceErrConfig
        else if list_ex (\<lambda>(k, v). k \<notin> set allowed \<and> k \<noteq> (if sr_type s = ''api'' then ''url'' else ''path'')) (sr_config s)
        then Some SourceErrConfig else None)"

section \<open>Reading\<close>

definition max_body_bytes :: int where "max_body_bytes = 8388608"

text \<open>The answer of the network is the status and the body, None where the body could not be read or the bound was passed;
  what it may dial is fixed before.\<close>

definition fetch_http :: "import_lib \<Rightarrow> (string \<Rightarrow> error + ip_addr list) \<Rightarrow> destination_policy \<Rightarrow>
    (ip_addr list \<Rightarrow> string \<Rightarrow> import_url \<Rightarrow> (int \<times> string option) option) \<Rightarrow> string \<Rightarrow> string option" where
  "fetch_http il look pol get raw =
     (case il_url il raw of None \<Rightarrow> None
      | Some u \<Rightarrow>
        if \<not> refresh_url_ok il raw then None
        else case look (iu_hostname u) of Inl e \<Rightarrow> None
        | Inr addresses \<Rightarrow>
          if destination_allow pol addresses \<noteq> None then None
          else let port = (if iu_port u \<noteq> [] then iu_port u else if iu_scheme u = ''https'' then ''443'' else ''80'') in
            case get addresses port u of None \<Rightarrow> None
            | Some (status, body) \<Rightarrow>
                if status < 200 \<or> status > 299 then None
                else case body of None \<Rightarrow> None | Some b \<Rightarrow> if int (length b) > max_body_bytes then None else Some b)"

definition within_root :: "file_lib \<Rightarrow> string \<Rightarrow> string \<Rightarrow> bool" where
  "within_root fl root target = (case fl_rel fl root target of None \<Rightarrow> False
     | Some r \<Rightarrow> r \<noteq> ''..'' \<and> \<not> has_prefix r ''../'')"

definition read_import_file :: "file_lib \<Rightarrow> string \<Rightarrow> string \<Rightarrow> string option" where
  "read_import_file fl root name =
     (if root = [] \<or> name = [] \<or> fl_is_abs fl name \<or> CHR 0x00 \<in> set name then None
      else case fl_links fl root of None \<Rightarrow> None
      | Some real \<Rightarrow>
        (case fl_links fl (fl_join fl real (fl_clean fl name)) of None \<Rightarrow> None
        | Some target \<Rightarrow>
          if \<not> within_root fl real target then None
          else case fl_open fl target of None \<Rightarrow> None
          | Some (regular, sz, body) \<Rightarrow>
              if \<not> regular \<or> sz > max_body_bytes then None
              else case body of None \<Rightarrow> None | Some b \<Rightarrow> if int (length b) > max_body_bytes then None else Some b))"

section \<open>The refresh\<close>

definition refresh_failure :: "'s inventory_ops \<Rightarrow> go_time \<Rightarrow> source stored \<Rightarrow> string \<Rightarrow> error \<Rightarrow> 's \<Rightarrow>
    (refresh_result \<times> error option) \<times> 's" where
  "refresh_failure st now current status cause s =
     (case op_put_source st ((st_doc current)\<lparr>sr_last_refresh_at := now, sr_last_refresh_status := status\<rparr>) (st_revision current) s of
        (Inl e, s1) \<Rightarrow> ((empty_refresh, Some (if e = StoreErrConflict then e else cause)), s1)
      | (Inr r, s1) \<Rightarrow> ((empty_refresh\<lparr>rf_source := Some r, rf_recorded := True\<rparr>, Some cause), s1))"

text \<open>The pages of endpoints by identity; a later one replaces an earlier one.  The fuel is above the number of rows.\<close>

fun records_by_identity :: "'s inventory_ops \<Rightarrow> nat \<Rightarrow> go_id \<Rightarrow> (string \<rightharpoonup> endpoint stored) \<Rightarrow> 's \<Rightarrow>
    (error + (string \<rightharpoonup> endpoint stored)) option \<times> 's" where
  "records_by_identity st 0 after m s = (None, s)"
| "records_by_identity st (Suc n) after m s =
     (case op_list_endpoints st \<lparr>pg_after = after, pg_limit = 1000\<rparr> s of
        (Inl e, s1) \<Rightarrow> (Some (Inl e), s1)
      | (Inr rows, s1) \<Rightarrow>
          let m1 = foldl (\<lambda>m r. m(identity (st_doc r) \<mapsto> r)) m rows in
          if length rows < 1000 then (Some (Inr m1), s1)
          else records_by_identity st n (ep_id (st_doc (last rows))) m1 s1)"

fun reconcile :: "'s inventory_ops \<Rightarrow> go_id \<Rightarrow> (string \<rightharpoonup> endpoint stored) \<Rightarrow> endpoint list \<Rightarrow> refresh_result \<Rightarrow> 's \<Rightarrow>
    (error + refresh_result) \<times> 's" where
  "reconcile st i existing [] res s = (Inr res, s)"
| "reconcile st i existing (e # es) res s =
     (case existing (identity e) of
        Some r \<Rightarrow>
          if ep_source_id (st_doc r) = i then reconcile st i existing es (res\<lparr>rf_skipped := rf_skipped res + 1\<rparr>) s
          else (case op_put_endpoint st ((st_doc r)\<lparr>ep_source_id := i\<rparr>) (st_revision r) s of
              (Inl x, s1) \<Rightarrow> (Inl x, s1)
            | (Inr y, s1) \<Rightarrow> reconcile st i existing es (res\<lparr>rf_updated := rf_updated res + 1\<rparr>) s1)
      | None \<Rightarrow>
          (case op_put_endpoint st (e\<lparr>ep_source_id := i\<rparr>) 0 s of
             (Inl x, s1) \<Rightarrow> (Inl x, s1)
           | (Inr y, s1) \<Rightarrow> reconcile st i existing es (res\<lparr>rf_created := rf_created res + 1\<rparr>) s1))"

definition refresh_status :: "refresh_result \<Rightarrow> string" where
  "refresh_status r = ''ok: created='' @ itoa (rf_created r) @ '' updated='' @ itoa (rf_updated r) @ '' skipped='' @
     itoa (rf_skipped r) @ '' invalid='' @ itoa (rf_invalid r)"

text \<open>The callback of the transaction.\<close>

definition refresh_commit :: "'s inventory_ops \<Rightarrow> go_id \<Rightarrow> int \<Rightarrow> go_time \<Rightarrow> endpoint list \<Rightarrow> refresh_result \<Rightarrow> 's \<Rightarrow>
    (error + refresh_result) \<times> 's" where
  "refresh_commit st i rn now es res s =
     (case op_get_source st i s of
        (Inl e, s1) \<Rightarrow> (Inl e, s1)
      | (Inr latest, s1) \<Rightarrow>
        if st_revision latest \<noteq> rn then (Inl StoreErrConflict, s1)
        else (case records_by_identity st (op_rows st s1 + 1) [] (\<lambda>k. None) s1 of
            (None, s2) \<Rightarrow> (Inl GoPanic, s2)
          | (Some (Inl e), s2) \<Rightarrow> (Inl e, s2)
          | (Some (Inr existing), s2) \<Rightarrow>
            (case reconcile st i existing es res s2 of
               (Inl e, s3) \<Rightarrow> (Inl e, s3)
             | (Inr res1, s3) \<Rightarrow>
               (case op_put_source st ((st_doc latest)\<lparr>sr_last_refresh_at := now, sr_last_refresh_status := refresh_status res1\<rparr>)
                   (st_revision latest) s3 of
                  (Inl e, s4) \<Rightarrow> (Inl e, s4)
                | (Inr r, s4) \<Rightarrow> (Inr (res1\<lparr>rf_source := Some r\<rparr>), s4)))))"

record refresh_io =
  rx_il :: import_lib
  rx_fl :: file_lib
  rx_root :: string
  rx_fetch :: "string \<Rightarrow> string option"
  rx_ids :: "nat \<Rightarrow> go_id"

text \<open>What is read and parsed before the transaction: a failure with its status, or the endpoints and the invalid count.\<close>

definition refresh_read :: "refresh_io \<Rightarrow> source \<Rightarrow> error + (string \<times> error) + (endpoint list \<times> nat \<times> nat)" where
  "refresh_read io src =
     (if refresher_validate (rx_il io) (rx_fl io) (rx_root io) src \<noteq> None
      then Inr (Inl (''failed: invalid configuration'', SourceErrConfig))
      else case source_import_options src of
        None \<Rightarrow> Inr (Inl (''failed: invalid configuration'', SourceErrConfig))
      | Some opts \<Rightarrow>
        (case (if sr_type src = ''api'' then
               (if \<not> refresh_url_ok (rx_il io) (config_value src ''url'')
                then Inr (Inl (''failed: invalid configuration'', SourceErrConfig))
                else case rx_fetch io (config_value src ''url'') of
                  None \<Rightarrow> Inr (Inl (''failed: fetch'', SourceErrFetch)) | Some b \<Rightarrow> Inr (Inr b))
             else if sr_type src = ''file'' then
               (case read_import_file (rx_fl io) (rx_root io) (config_value src ''path'') of
                  None \<Rightarrow> Inr (Inl (''failed: read'', SourceErrRead)) | Some b \<Rightarrow> Inr (Inr b))
             else Inl SourceErrUnsupported) of
           Inl e \<Rightarrow> Inl e
         | Inr (Inl f) \<Rightarrow> Inr (Inl f)
         | Inr (Inr body) \<Rightarrow>
           (case preview (rx_il io) body 100000 opts of
              Inl e \<Rightarrow> Inr (Inl (''failed: no valid endpoints'', SourceErrNoEndpoints))
            | Inr p \<Rightarrow>
              if ip_valid p = 0 then Inr (Inl (''failed: no valid endpoints'', SourceErrNoEndpoints))
              else (case import_endpoints (rx_il io) body SkipDuplicates (\<lambda>k. None) opts (rx_ids io) of
                Inl e \<Rightarrow> Inr (Inl (''failed: parse'', SourceErrNoEndpoints))
              | Inr r \<Rightarrow> Inr (Inr (ir_endpoints r, ir_skipped r, ip_invalid p))))))"

text \<open>Between the reading and the transaction others may use the storage: an argument.\<close>

definition refresh_source :: "'s inventory_ops \<Rightarrow> refresh_io \<Rightarrow> ('s \<Rightarrow> 's) \<Rightarrow> go_id \<Rightarrow> int \<Rightarrow> go_time \<Rightarrow> 's \<Rightarrow>
    (refresh_result \<times> error option) \<times> 's" where
  "refresh_source st io others i rn now s =
     (case op_get_source st i s of
        (Inl e, s1) \<Rightarrow> ((empty_refresh, Some e), s1)
      | (Inr current, s1) \<Rightarrow>
        if st_revision current \<noteq> rn then ((empty_refresh, Some StoreErrConflict), s1)
        else if \<not> sr_enabled (st_doc current) then ((empty_refresh, Some SourceErrDisabled), s1)
        else (case refresh_read io (st_doc current) of
            Inl e \<Rightarrow> ((empty_refresh, Some e), s1)
          | Inr (Inl (status, cause)) \<Rightarrow> refresh_failure st now current status cause (others s1)
          | Inr (Inr (es, skipped, invalid)) \<Rightarrow>
            (case op_transaction st (refresh_commit st i rn now es (empty_refresh\<lparr>rf_skipped := skipped, rf_invalid := invalid\<rparr>))
                (others s1) of
               (Inl e, s3) \<Rightarrow> ((empty_refresh, Some e), s3)
             | (Inr r, s3) \<Rightarrow> ((r, None), s3))))"

text \<open>Refresh refuses a request for a source whose refresh has begun and not ended; the active ones are the state of the
  refresher.\<close>

definition refresh_begin :: "go_id \<Rightarrow> go_id list \<Rightarrow> bool \<times> go_id list" where
  "refresh_begin i busy = (if i \<in> set busy then (False, busy) else (True, i # busy))"

definition refresh_end :: "go_id \<Rightarrow> go_id list \<Rightarrow> go_id list" where
  "refresh_end i busy = filter (\<lambda>j. j \<noteq> i) busy"

definition refresh_call :: "'s inventory_ops \<Rightarrow> refresh_io \<Rightarrow> ('s \<Rightarrow> 's) \<Rightarrow> go_id \<Rightarrow> int \<Rightarrow> go_time \<Rightarrow> go_id list \<Rightarrow> 's \<Rightarrow>
    (refresh_result \<times> error option) \<times> go_id list \<times> 's" where
  "refresh_call st io others i rn now busy s =
     (if \<not> id_valid i \<or> rn < 1 \<or> now = 0 then ((empty_refresh, Some StoreErrInvalid), busy, s)
      else case refresh_begin i busy of
        (False, busy) \<Rightarrow> ((empty_refresh, Some SourceErrInProgress), busy, s)
      | (True, busy) \<Rightarrow> (case refresh_source st io others i rn now s of (r, s1) \<Rightarrow> (r, refresh_end i busy, s1)))"

lemma refresh_call_released:
  "refresh_call st io others i rn now busy s = (r, busy', s') \<Longrightarrow> set busy' = set busy"
  by (auto simp: refresh_call_def refresh_begin_def refresh_end_def split: if_splits prod.splits)

end
