(* ===== verification/Import_Use.thy ===== *)
theory Import_Use
  imports Import_Parse
begin

text \<open>What an import guarantees: valid endpoints without credentials, each identity once, and the books balanced.\<close>

section \<open>Parsed endpoints\<close>

text \<open>The fields of an endpoint that a text can set.\<close>

definition presence_flags :: "(string \<times> string) set" where
  "presence_flags = {''username_present'', ''password_present''} \<times> {''true'', ''false''}"

definition bare :: "endpoint \<Rightarrow> bool" where
  "bare e = (ep_credential_ref e = [] \<and> ep_provider_id e = [] \<and> ep_source_id e = [] \<and> ep_tags e = [] \<and> ep_rate e = None \<and>
     ep_enabled e \<and> set (ep_metadata e) \<subseteq> presence_flags)"

lemma parse_digits_nonneg: "parse_digits s acc = Some n \<Longrightarrow> 0 \<le> acc \<Longrightarrow> 0 \<le> n"
  by (induction s arbitrary: acc) (fastforce simp: digit_of_def Let_def split: option.splits if_splits)+

lemma parse_port_range: "parse_port raw = Some p \<Longrightarrow> 0 < p \<and> p < 65536"
  using parse_digits_nonneg [of raw 0] by (fastforce simp: parse_port_def parse_uint_def split: if_splits option.splits)

lemma imported_endpoint_valid:
  assumes "protocol_valid protocol" "valid_host lib host" "0 < port" "port < 65536"
    "md = [] \<or> md = [(''username_present'', ''true'')] \<or> (\<exists>b\<in>{''true'', ''false''}. md = [(''username_present'', ''true''), (''password_present'', b)])"
  shows "endpoint_validate lib (imported_endpoint protocol host port md) = None \<and> bare (imported_endpoint protocol host port md) \<and>
    length (ep_name (imported_endpoint protocol host port md)) \<le> 100 \<and> ep_id (imported_endpoint protocol host port md) = ''imported''"
proof -
  have "(of_nat port :: 16 word) \<noteq> 0"
  proof
    assume "(of_nat port :: 16 word) = 0"
    then have "unat (of_nat port :: 16 word) = 0" by simp
    then show False using assms(3,4) by (simp add: unat_of_nat)
  qed
  moreover have "id_valid ''imported''" by code_simp
  ultimately show ?thesis using assms by (auto simp: endpoint_validate_def imported_endpoint_def bare_def presence_flags_def)
qed

definition parsed_ok :: "go_lib \<Rightarrow> endpoint \<Rightarrow> bool" where
  "parsed_ok lib e = (endpoint_validate lib e = None \<and> bare e \<and> length (ep_name e) \<le> 100 \<and> ep_id e = ''imported'')"

lemma parse_legacy_ok: "parse_legacy lib raw = Inr r \<Longrightarrow> parsed_ok lib (pr_endpoint r)"
  using parse_port_range imported_endpoint_valid [of "''http''" lib]
  by (auto simp: parse_legacy_def parsed_ok_def Let_def protocol_valid_def split: if_splits option.splits)

lemma parse_uri_ok: "parse_uri il raw = Inr r \<Longrightarrow> parsed_ok (il_lib il) (pr_endpoint r)"
  using parse_port_range imported_endpoint_valid [of _ "il_lib il"]
  by (auto simp: parse_uri_def parsed_ok_def Let_def split: if_splits option.splits)

lemma parse_endpoint_ok: "parse_endpoint il raw = Inr r \<Longrightarrow> parsed_ok (il_lib il) (pr_endpoint r)"
  using parse_legacy_ok parse_uri_ok by (auto simp: parse_endpoint_def Let_def split: if_splits)

definition item_ok :: "import_lib \<Rightarrow> preview_item \<Rightarrow> bool" where
  "item_ok il it = (case pi_result it of None \<Rightarrow> True | Some r \<Rightarrow> parsed_ok (il_lib il) (pr_endpoint r))"

lemma preview_item_ok: "item_ok il (preview_item_of il k raw)" "item_ok il (mapped_item il k vs m)" "item_ok il (invalid_item k)"
  using parse_endpoint_ok by (auto simp: item_ok_def preview_item_of_def mapped_item_def invalid_item_def Let_def split: sum.splits)

lemma text_items_ok: "text_items il mx k ls = Inr items \<Longrightarrow> list_all (item_ok il) items"
  by (induction il mx k ls arbitrary: items rule: text_items.induct) (auto simp: preview_item_ok split: if_splits sum.splits)

lemma csv_records_ok: "csv_records il mx w cols m k rows = Inr items \<Longrightarrow> list_all (item_ok il) items"
  by (induction il mx w cols m k rows arbitrary: items rule: csv_records.induct) (auto simp: preview_item_ok split: if_splits sum.splits)

lemma json_records_ok: "list_all (item_ok il) (json_records il m k rs)"
  by (induction il m k rs rule: json_records.induct) (auto simp: preview_item_ok split: json.split)

lemma import_items_ok: "import_items il input mx opts = Inr items \<Longrightarrow> list_all (item_ok il) items"
  using text_items_ok csv_records_ok json_records_ok
  by (auto simp: import_items_def csv_items_def json_items_def Let_def split: if_splits option.splits list.splits json.splits)

section \<open>The books of a preview\<close>

lemma tally_items: "ip_items (tally its seen out) = ip_items out @ its"
  by (induction its seen out rule: tally.induct) (auto simp: Let_def split: option.splits)

definition good :: "preview_item list \<Rightarrow> endpoint list" where
  "good its = concat (map (\<lambda>it. case pi_result it of None \<Rightarrow> [] | Some r \<Rightarrow> [pr_endpoint r]) its)"

lemma good_simps [simp]: "good [] = []" "good (it # its) = (case pi_result it of None \<Rightarrow> good its | Some r \<Rightarrow> pr_endpoint r # good its)"
  by (simp_all add: good_def split: option.split)

lemma good_ok: "list_all (item_ok il) its \<Longrightarrow> \<forall>e\<in>set (good its). parsed_ok (il_lib il) e"
  by (induction its) (auto simp: item_ok_def split: option.splits)

lemma tally_counts:
  "ip_valid (tally its seen out) = ip_valid out + length (good its) \<and>
   ip_invalid (tally its seen out) = ip_invalid out + (length its - length (good its)) \<and> length (good its) \<le> length its \<and>
   ip_duplicates (tally its seen out) + card (identity ` set (good its) \<union> set seen) = ip_duplicates out + length (good its) + card (set seen)"
proof (induction its seen out rule: tally.induct)
  case (2 it its seen out)
  show ?case
  proof (cases "pi_result it")
    case None
    then show ?thesis using 2(1) [OF refl None] by (simp add: Suc_diff_le)
  next
    case (Some r)
    show ?thesis
    proof (cases "identity (pr_endpoint r) \<in> set seen")
      case True
      have "insert (identity (pr_endpoint r)) (identity ` set (good its) \<union> set seen) = identity ` set (good its) \<union> set seen"
        using True by auto
      then show ?thesis using 2(2) [OF refl Some refl refl refl refl refl True] True Some by (simp add: Let_def)
    next
      case False
      then show ?thesis using 2(3) [OF refl Some refl refl refl refl refl False] Some by (simp add: Let_def)
    qed
  qed
qed simp

text \<open>A preview lists every line or record once, counts the valid and the invalid ones, and its duplicates are the
  valid ones beyond the distinct identities; every endpoint that it shows is valid and holds no credential.\<close>

lemma preview_balanced:
  assumes "preview il input mx opts = Inr p"
  shows "ip_valid p + ip_invalid p = length (ip_items p) \<and> ip_valid p = length (valid_endpoints p) \<and>
    ip_duplicates p + card (identity ` set (valid_endpoints p)) = ip_valid p \<and>
    (\<forall>e\<in>set (valid_endpoints p). endpoint_validate (il_lib il) e = None \<and> bare e)"
proof -
  obtain items where i: "import_items il input mx opts = Inr items"
      "p = tally items [] \<lparr>ip_items = [], ip_valid = 0, ip_invalid = 0, ip_duplicates = 0, ip_protocols = []\<rparr>"
    using assms by (auto simp: preview_def split: if_splits sum.splits)
  have v: "valid_endpoints p = good items" by (simp add: i(2) valid_endpoints_def good_def tally_items)
  have "\<forall>e\<in>set (good items). parsed_ok (il_lib il) e" using good_ok import_items_ok [OF i(1)] by blast
  then show ?thesis using v i(2) tally_counts [of items "[]" "\<lparr>ip_items = [], ip_valid = 0, ip_invalid = 0, ip_duplicates = 0, ip_protocols = []\<rparr>"]
      tally_items [of items "[]"] by (auto simp: parsed_ok_def)
qed

section \<open>The books of an import\<close>

lemma identity_id [simp]: "identity (e\<lparr>ep_id := i\<rparr>) = identity e" "identity (e\<lparr>ep_name := nm\<rparr>) = identity e"
  by (simp_all add: identity_def)

text \<open>One pass skips the endpoint or keeps it, possibly under another identifier and name.\<close>

definition renamed :: "(nat \<Rightarrow> go_id) \<Rightarrow> (string \<Rightarrow> endpoint option) \<Rightarrow> endpoint \<Rightarrow> endpoint \<Rightarrow> bool" where
  "renamed ids existing e f = (\<exists>i nm. f = e\<lparr>ep_id := i, ep_name := nm\<rparr> \<and> (nm = ep_name e \<or> nm = ep_name e @ '' (duplicate)'') \<and>
     (i \<in> range ids \<or> (\<exists>x. existing (identity e) = Some x \<and> i = ep_id x)))"

lemma import_step_seen: "set (is_seen (import_step mode existing ids e st)) = insert (identity e) (set (is_seen st))"
  by (auto simp: import_step_def Let_def skip_import_def keep_import_def)

lemma import_step_skips:
  assumes "mode = SkipDuplicates" "identity e \<in> set (is_seen st) \<or> existing (identity e) \<noteq> None"
  shows "is_result (import_step mode existing ids e st) = (is_result st)\<lparr>ir_skipped := ir_skipped (is_result st) + 1\<rparr>"
  using assms by (cases "identity e \<in> set (is_seen st)") (simp_all add: import_step_def Let_def skip_import_def)

lemma import_step_keeps:
  assumes "ep_id e = ''imported''" "mode = SkipDuplicates \<Longrightarrow> identity e \<notin> set (is_seen st) \<and> existing (identity e) = None"
  shows "\<exists>f. renamed ids existing e f \<and> is_result (import_step mode existing ids e st) = (is_result st)\<lparr>
    ir_endpoints := ir_endpoints (is_result st) @ [f], ir_created := ir_created (is_result st) + 1,
    ir_updated := ir_updated (is_result st) + (if mode = UpdateDuplicates \<and> existing (identity e) \<noteq> None then 1 else 0)\<rparr>"
proof (cases "mode = UpdateDuplicates \<and> existing (identity e) \<noteq> None")
  case True
  then obtain x where x: "existing (identity e) = Some x" by auto
  let ?f = "e\<lparr>ep_id := (if ep_id x = ''imported'' then ids (is_drawn st) else ep_id x)\<rparr>"
  have "renamed ids existing e ?f" unfolding renamed_def
    by (intro exI [of _ "if ep_id x = ''imported'' then ids (is_drawn st) else ep_id x"] exI [of _ "ep_name e"]) (simp add: x)
  then show ?thesis using True x by (intro exI [of _ ?f]) (simp add: import_step_def keep_import_def Let_def)
next
  case False
  show ?thesis
  proof (cases "identity e \<in> set (is_seen st) \<and> mode = CreateDuplicates")
    case True
    let ?f = "e\<lparr>ep_id := (if ids (is_drawn st) = ''imported'' then ids (is_drawn st + 1) else ids (is_drawn st)),
        ep_name := ep_name e @ '' (duplicate)''\<rparr>"
    have "renamed ids existing e ?f" by (auto simp: renamed_def)
    then show ?thesis using True by (intro exI [of _ ?f]) (simp add: import_step_def keep_import_def Let_def)
  next
    case m: False
    let ?f = "e\<lparr>ep_id := ids (is_drawn st)\<rparr>"
    have "renamed ids existing e ?f" unfolding renamed_def
      by (intro exI [of _ "ids (is_drawn st)"] exI [of _ "ep_name e"]) simp
    moreover have "\<not> (identity e \<in> set (is_seen st) \<and> mode = SkipDuplicates)" "\<not> (existing (identity e) \<noteq> None \<and> mode = SkipDuplicates)"
      "\<not> (existing (identity e) \<noteq> None \<and> mode = UpdateDuplicates)"
      using False assms(2) by auto
    ultimately show ?thesis using m assms(1)
      by (intro exI [of _ ?f], cases mode) (auto simp: import_step_def keep_import_def Let_def)
  qed
qed

text \<open>The invariant of the loop over the endpoints seen so far.\<close>

definition import_inv :: "duplicate_mode \<Rightarrow> (nat \<Rightarrow> go_id) \<Rightarrow> (string \<Rightarrow> endpoint option) \<Rightarrow> endpoint list \<Rightarrow> import_state \<Rightarrow> bool" where
  "import_inv mode ids existing before st =
     (let r = is_result st in
      set (is_seen st) = identity ` set before \<and> ir_skipped r + ir_created r = length before \<and> ir_created r = length (ir_endpoints r) \<and>
      (mode \<noteq> SkipDuplicates \<longrightarrow> ir_skipped r = 0) \<and>
      ir_updated r = length (filter (\<lambda>e. mode = UpdateDuplicates \<and> existing (identity e) \<noteq> None) before) \<and>
      (\<forall>f\<in>set (ir_endpoints r). \<exists>e\<in>set before. renamed ids existing e f) \<and>
      (mode = SkipDuplicates \<longrightarrow> distinct (map identity (ir_endpoints r)) \<and>
         identity ` set (ir_endpoints r) = {k \<in> identity ` set before. existing k = None}))"

lemma renamed_identity: "renamed ids existing e f \<Longrightarrow> identity f = identity e"
  by (auto simp: renamed_def)

lemma import_inv_step:
  assumes "import_inv mode ids existing before st" "ep_id e = ''imported''"
  shows "import_inv mode ids existing (before @ [e]) (import_step mode existing ids e st)"
proof -
  obtain st' where st': "import_step mode existing ids e st = st'" by blast
  have seen: "set (is_seen st') = insert (identity e) (set (is_seen st))" using import_step_seen st' by metis
  show ?thesis
  proof (cases "mode = SkipDuplicates \<and> (identity e \<in> set (is_seen st) \<or> existing (identity e) \<noteq> None)")
    case True
    then have r: "is_result st' = (is_result st)\<lparr>ir_skipped := ir_skipped (is_result st) + 1\<rparr>"
      using import_step_skips st' by blast
    have "{k \<in> identity ` set (before @ [e]). existing k = None} = {k \<in> identity ` set before. existing k = None}"
      using True assms(1) by (auto simp: import_inv_def Let_def)
    then show ?thesis unfolding st' using assms(1) True by (auto simp: import_inv_def Let_def r seen)
  next
    case False
    then obtain f where f: "renamed ids existing e f" "is_result st' = (is_result st)\<lparr>
        ir_endpoints := ir_endpoints (is_result st) @ [f], ir_created := ir_created (is_result st) + 1,
        ir_updated := ir_updated (is_result st) + (if mode = UpdateDuplicates \<and> existing (identity e) \<noteq> None then 1 else 0)\<rparr>"
      using import_step_keeps [OF assms(2), of mode st existing ids] st' by auto
    have "identity f = identity e" by (rule renamed_identity [OF f(1)])
    then show ?thesis unfolding st' using assms(1) False f(1) by (auto simp: import_inv_def Let_def f(2) seen)
  qed
qed

lemma import_inv_all:
  "\<forall>e\<in>set es. ep_id e = ''imported'' \<Longrightarrow> import_inv mode ids existing before st \<Longrightarrow>
     import_inv mode ids existing (before @ es) (fold (import_step mode existing ids) es st)"
proof (induction es arbitrary: before st)
  case (Cons e es)
  then show ?case using Cons.IH [of "before @ [e]"] import_inv_step [of mode ids existing before st e] by simp
qed simp

lemma renamed_valid:
  assumes "parsed_ok lib e" "renamed ids existing e f" "\<forall>n. id_valid (ids n)" "\<forall>k x. existing k = Some x \<longrightarrow> id_valid (ep_id x)"
  shows "endpoint_validate lib f = None \<and> bare f"
proof -
  obtain i nm where f: "f = e\<lparr>ep_id := i, ep_name := nm\<rparr>" "nm = ep_name e \<or> nm = ep_name e @ '' (duplicate)''" "id_valid i"
    using assms(2-4) unfolding renamed_def by blast
  then have "length nm \<le> 256" using assms(1) by (auto simp: parsed_ok_def)
  then show ?thesis using assms(1) f(1,3) by (auto simp: parsed_ok_def endpoint_validate_def bare_def split: if_splits)
qed

lemma import_accounts:
  assumes "import_endpoints il input mode existing opts ids = Inr r" "preview il input 100000 opts = Inr p"
    "\<forall>n. id_valid (ids n)" "\<forall>k x. existing k = Some x \<longrightarrow> id_valid (ep_id x)"
  shows "ir_created r = length (ir_endpoints r) \<and> ir_skipped r + ir_created r = ip_valid p \<and>
    (\<forall>f\<in>set (ir_endpoints r). endpoint_validate (il_lib il) f = None \<and> bare f) \<and> sorted (map ep_id (ir_endpoints r)) \<and>
    (mode = SkipDuplicates \<longrightarrow> ir_updated r = 0 \<and> distinct (map identity (ir_endpoints r)) \<and>
       identity ` set (ir_endpoints r) = {k \<in> identity ` set (valid_endpoints p). existing k = None})"
proof -
  let ?es = "valid_endpoints p"
  define q where "q = import_loop mode existing ids ?es"
  have r: "r = q\<lparr>ir_endpoints := sort_key ep_id (ir_endpoints q)\<rparr>"
    using assms(1,2) by (simp add: import_endpoints_def q_def Let_def)
  obtain items where i: "import_items il input 100000 opts = Inr items" "?es = good items" "ip_valid p = length ?es"
    using assms(2) tally_counts [of _ "[]" "\<lparr>ip_items = [], ip_valid = 0, ip_invalid = 0, ip_duplicates = 0, ip_protocols = []\<rparr>"]
    by (auto simp: preview_def valid_endpoints_def good_def tally_items split: if_splits sum.splits)
  have ok: "\<forall>e\<in>set ?es. parsed_ok (il_lib il) e" using import_items_ok [OF i(1)] i(2) good_ok by simp
  have "import_inv mode ids existing [] \<lparr>is_seen = [], is_drawn = 0, is_result = \<lparr>ir_endpoints = [], ir_skipped = 0, ir_updated = 0, ir_created = 0\<rparr>\<rparr>"
    by (simp add: import_inv_def)
  moreover have "\<forall>e\<in>set ?es. ep_id e = ''imported''" using ok by (simp add: parsed_ok_def)
  ultimately have inv: "import_inv mode ids existing ([] @ ?es) (fold (import_step mode existing ids) ?es \<lparr>is_seen = [], is_drawn = 0,
      is_result = \<lparr>ir_endpoints = [], ir_skipped = 0, ir_updated = 0, ir_created = 0\<rparr>\<rparr>)"
    by (intro import_inv_all)
  have v: "endpoint_validate (il_lib il) f = None \<and> bare f" if "f \<in> set (ir_endpoints q)" for f
    using inv that ok renamed_valid [OF _ _ assms(3,4)] by (fastforce simp: import_inv_def Let_def q_def import_loop_def)
  have d: "distinct (map identity (sort_key ep_id l)) = distinct (map identity l)" for l
  proof -
    have "mset (map identity (sort_key ep_id l)) = mset (map identity l)" by simp
    then show ?thesis using mset_eq_imp_distinct_iff by blast
  qed
  show ?thesis using inv i(3) v
    by (auto simp: import_inv_def Let_def r d q_def [symmetric] import_loop_def [symmetric])
qed

text \<open>C22: an import skips or keeps every valid endpoint; what it keeps is valid and holds no credential.  Skipping
  duplicates, it keeps exactly the identities that are not stored yet, each once.\<close>

theorem import_exact:
  assumes "import_endpoints il input mode existing opts ids = Inr r" "preview il input 100000 opts = Inr p"
    "\<forall>n. id_valid (ids n)" "\<forall>k x. existing k = Some x \<longrightarrow> id_valid (ep_id x)"
  shows "ir_created r = length (ir_endpoints r) \<and> ir_skipped r + ir_created r = ip_valid p \<and>
    (\<forall>f\<in>set (ir_endpoints r). endpoint_validate (il_lib il) f = None \<and> bare f) \<and> sorted (map ep_id (ir_endpoints r)) \<and>
    (mode = SkipDuplicates \<longrightarrow> ir_updated r = 0 \<and> distinct (map identity (ir_endpoints r)) \<and>
       identity ` set (ir_endpoints r) = {k \<in> identity ` set (valid_endpoints p). existing k = None})"
  by (rule import_accounts [OF assms])

end
