(* ===== verification/Source_Laws.thy ===== *)
theory Source_Laws
  imports Source_Refresh Import_Use
begin

text \<open>The contract of pkg/store's InventoryStore as a locale, what the refresh of a source does under it, and the
  SQLite store as its interpretation.\<close>

section \<open>The contract\<close>

lemma last_greatest: "sorted l \<Longrightarrow> x \<in> set l \<Longrightarrow> x \<le> last (l :: 'a :: linorder list)"
  by (induction l) auto

definition page_from :: "(go_id \<rightharpoonup> endpoint stored) \<Rightarrow> go_id \<Rightarrow> go_id list" where
  "page_from es after = take 1000 (sorted_list_of_set {i \<in> dom es. after < i})"

locale inventory_store =
  fixes st :: "'s inventory_ops"
    and ok :: "'s \<Rightarrow> bool"
    and eps :: "'s \<Rightarrow> go_id \<rightharpoonup> endpoint stored"
    and srcs :: "'s \<Rightarrow> go_id \<rightharpoonup> source stored"
  assumes get_source: "ok s \<Longrightarrow> op_get_source st i s = (x, s') \<Longrightarrow> ok s' \<and> eps s' = eps s \<and> srcs s' = srcs s \<and>
      (\<forall>r. x = Inr r \<longrightarrow> srcs s i = Some r \<and> sr_id (st_doc r) = i)"
    and put_source_ok: "ok s \<Longrightarrow> op_put_source st d e s = (Inr r, s') \<Longrightarrow> ok s' \<and> eps s' = eps s \<and>
      r = \<lparr>st_doc = d, st_revision = e + 1\<rparr> \<and> srcs s' = (srcs s)(sr_id d \<mapsto> r)"
    and put_source_err: "ok s \<Longrightarrow> op_put_source st d e s = (Inl y, s') \<Longrightarrow> ok s' \<and> eps s' = eps s \<and>
      (\<forall>i. i \<noteq> sr_id d \<longrightarrow> srcs s' i = srcs s i)"
    and put_endpoint_ok: "ok s \<Longrightarrow> op_put_endpoint st d' e s = (Inr r', s') \<Longrightarrow> ok s' \<and> srcs s' = srcs s \<and>
      r' = \<lparr>st_doc = d', st_revision = e + 1\<rparr> \<and> eps s' = (eps s)(ep_id d' \<mapsto> r') \<and>
      (case eps s (ep_id d') of None \<Rightarrow> e = 0 | Some q \<Rightarrow> 0 < e \<and> st_revision q = e)"
    and list_endpoints: "ok s \<Longrightarrow> op_list_endpoints st \<lparr>pg_after = after, pg_limit = 1000\<rparr> s = (l, s') \<Longrightarrow> ok s' \<and> eps s' = eps s \<and>
      srcs s' = srcs s \<and> (\<forall>rows. l = Inr rows \<longrightarrow> (after = [] \<or> id_valid after \<longrightarrow> map (\<lambda>r. ep_id (st_doc r)) rows = page_from (eps s) after) \<and>
        (\<forall>r\<in>set rows. eps s (ep_id (st_doc r)) = Some r))"
    and rows_bound: "ok s \<Longrightarrow> finite (dom (eps s)) \<and> card (dom (eps s)) \<le> op_rows st s \<and> (\<forall>i\<in>dom (eps s). id_valid i) \<and>
      (\<forall>i r. eps s i = Some r \<longrightarrow> ep_id (st_doc r) = i)"
    and transaction_ok: "ok s \<Longrightarrow> op_transaction st f s = (Inr res, s') \<Longrightarrow> \<exists>s0 s1. ok s0 \<and> eps s0 = eps s \<and> srcs s0 = srcs s \<and>
      f s0 = (Inr res, s1) \<and> eps s' = eps s1 \<and> srcs s' = srcs s1"
    and transaction_err: "ok s \<Longrightarrow> op_transaction st f s = (Inl y, s') \<Longrightarrow> eps s' = eps s \<and> srcs s' = srcs s"
begin

text \<open>Walking the pages finds every endpoint under its identity, and the fuel is enough.\<close>

lemma fold_identities:
  "foldl (\<lambda>m r. m(identity (st_doc r) \<mapsto> r)) m rows k = Some r \<Longrightarrow> m k = Some r \<or> r \<in> set rows \<and> identity (st_doc r) = k"
  "dom (foldl (\<lambda>m r. m(identity (st_doc r) \<mapsto> r)) m rows) = dom m \<union> (\<lambda>r. identity (st_doc r)) ` set rows"
proof (induction rows arbitrary: m)
  case (Cons x rows)
  {
    case 1
    then show ?case using Cons(1) [of "m(identity (st_doc x) \<mapsto> x)"] by (auto split: if_splits)
  next
    case 2
    then show ?case using Cons(2) [of "m(identity (st_doc x) \<mapsto> x)"] by auto
  }
qed auto

lemma page_rest:
  assumes "finite (dom es)" "length (page_from es after) = 1000" "last (page_from es after) = b"
  shows "{i \<in> dom es. b < i} = {i \<in> dom es. after < i} - set (page_from es after) \<and> b \<in> dom es \<and> after < b"
proof -
  define l where "l = sorted_list_of_set {i \<in> dom es. after < i}"
  define p where "p = take 1000 l"
  define d where "d = drop 1000 l"
  have l: "sorted (p @ d)" "distinct (p @ d)" "set (p @ d) = {i \<in> dom es. after < i}"
    using assms(1) by (simp_all add: p_def d_def l_def del: set_append sorted_append distinct_append)
  have pg: "page_from es after = p" by (simp add: page_from_def p_def l_def)
  then have "p \<noteq> []" "last p = b" using assms(2,3) by auto
  then have b: "b \<in> set p" using last_in_set by blast
  have lo: "x \<le> b" if "x \<in> set p" for x
    using last_greatest [OF _ that] l(1) \<open>last p = b\<close> by (simp add: sorted_append)
  have hi: "b < x" if "x \<in> set d" for x
    using that b l(1,2) by (auto simp: sorted_append order.strict_iff_order)
  have "{i \<in> dom es. after < i} = set p \<union> set d" using l(3) by simp
  moreover have "set p \<inter> set d = {}" using l(2) by simp
  moreover have "after < b" "b \<in> dom es" using l(3) b by auto
  moreover have "{i \<in> dom es. b < i} = {i \<in> {i \<in> dom es. after < i}. b < i}" using \<open>after < b\<close> by auto
  moreover have "\<not> b < x" if "x \<in> set p" for x using lo [OF that] by simp
  ultimately show ?thesis using hi unfolding pg by blast
qed

lemma walk_identities:
  assumes "ok s" "records_by_identity st n after m s = (x, s')" "after = [] \<or> id_valid after" "card {i \<in> dom (eps s). after < i} < n"
  shows "ok s' \<and> eps s' = eps s \<and> srcs s' = srcs s \<and> x \<noteq> None \<and> (\<forall>m'. x = Some (Inr m') \<longrightarrow>
    (\<forall>k r. m' k = Some r \<longrightarrow> m k = Some r \<or> eps s (ep_id (st_doc r)) = Some r \<and> identity (st_doc r) = k) \<and>
    dom m \<subseteq> dom m' \<and> (\<forall>i r. eps s i = Some r \<and> after < i \<longrightarrow> identity (st_doc r) \<in> dom m'))"
  using assms
proof (induction n arbitrary: after m s)
  case (Suc n)
  obtain l s1 where l: "op_list_endpoints st \<lparr>pg_after = after, pg_limit = 1000\<rparr> s = (l, s1)" by fastforce
  note o = list_endpoints [OF Suc.prems(1) l]
  show ?case
  proof (cases l)
    case (Inl e)
    then show ?thesis using o l Suc.prems(2) by auto
  next
    case (Inr rows)
    have fin: "finite (dom (eps s))" "\<forall>i r. eps s i = Some r \<longrightarrow> ep_id (st_doc r) = i" "\<forall>i\<in>dom (eps s). id_valid i"
      using rows_bound [OF Suc.prems(1)] by blast+
    have ids: "map (\<lambda>r. ep_id (st_doc r)) rows = page_from (eps s) after" and in_rows: "\<forall>r\<in>set rows. eps s (ep_id (st_doc r)) = Some r"
      using o Inr Suc.prems(3) by auto
    define m1 where "m1 = foldl (\<lambda>m r. m(identity (st_doc r) \<mapsto> r)) m rows"
    have from_rows: "m k = Some r \<or> eps s (ep_id (st_doc r)) = Some r \<and> identity (st_doc r) = k" if "m1 k = Some r" for k r
      using fold_identities(1) [OF that [unfolded m1_def]] in_rows by blast
    have doms: "dom m1 = dom m \<union> (\<lambda>r. identity (st_doc r)) ` set rows" unfolding m1_def by (rule fold_identities(2))
    have reached: "identity (st_doc r) \<in> dom m1" if e: "eps s i = Some r" "i \<in> set (page_from (eps s) after)" for i r
    proof -
      have "i \<in> set (map (\<lambda>r. ep_id (st_doc r)) rows)" using e(2) ids by simp
      then obtain q where "q \<in> set rows" "ep_id (st_doc q) = i" by auto
      then have "q \<in> set rows" "q = r" using in_rows e(1) by auto
      then show ?thesis using doms by blast
    qed
    show ?thesis
    proof (cases "length rows < 1000")
      case True
      have "length (page_from (eps s) after) = length rows" using arg_cong [OF ids, of length] by simp
      then have "page_from (eps s) after = sorted_list_of_set {i \<in> dom (eps s). after < i}"
        using True by (simp add: page_from_def min_def split: if_splits)
      then have "identity (st_doc r) \<in> dom m1" if "eps s i = Some r" "after < i" for i r
        using that fin(1) reached [OF that(1)] by auto
      moreover have "x = Some (Inr m1)" "s' = s1" using Suc.prems(2) l Inr True by (simp_all add: Let_def m1_def)
      ultimately show ?thesis using o from_rows doms by blast
    next
      case False
      let ?b = "ep_id (st_doc (last rows))"
      have len: "length (page_from (eps s) after) = 1000"
        using False arg_cong [OF ids, of length] by (simp add: page_from_def)
      have ne: "rows \<noteq> []" using False by auto
      have "last (page_from (eps s) after) = ?b" using ids ne by (metis last_map)
      note r = page_rest [OF fin(1) len this]
      have "card {i \<in> dom (eps s). ?b < i} < card {i \<in> dom (eps s). after < i}"
        using r fin(1) by (intro psubset_card_mono) auto
      then have c: "card {i \<in> dom (eps s1). ?b < i} < n" using Suc.prems(4) o by simp
      have "records_by_identity st n ?b m1 s1 = (x, s')" using Suc.prems(2) l Inr False by (simp add: Let_def m1_def)
      moreover have "?b = [] \<or> id_valid ?b" using r fin(3) by blast
      ultimately have IH: "ok s' \<and> eps s' = eps s \<and> srcs s' = srcs s \<and> x \<noteq> None \<and> (\<forall>m'. x = Some (Inr m') \<longrightarrow>
          (\<forall>k r. m' k = Some r \<longrightarrow> m1 k = Some r \<or> eps s (ep_id (st_doc r)) = Some r \<and> identity (st_doc r) = k) \<and>
          dom m1 \<subseteq> dom m' \<and> (\<forall>i r. eps s i = Some r \<and> ?b < i \<longrightarrow> identity (st_doc r) \<in> dom m'))"
        using Suc.IH [of s1 ?b m1] c o by simp
      have q: "i \<in> set (page_from (eps s) after) \<or> ?b < i" if "eps s i = Some z" "after < i" for i z
        using r that by auto
      have "(\<forall>k r. m' k = Some r \<longrightarrow> m k = Some r \<or> eps s (ep_id (st_doc r)) = Some r \<and> identity (st_doc r) = k) \<and>
          dom m \<subseteq> dom m' \<and> (\<forall>i r. eps s i = Some r \<and> after < i \<longrightarrow> identity (st_doc r) \<in> dom m')" if m': "x = Some (Inr m')" for m'
      proof (intro conjI allI impI)
        have i: "m' k = Some r \<Longrightarrow> m1 k = Some r \<or> eps s (ep_id (st_doc r)) = Some r \<and> identity (st_doc r) = k"
            "dom m1 \<subseteq> dom m'" "eps s i = Some r \<Longrightarrow> ?b < i \<Longrightarrow> identity (st_doc r) \<in> dom m'" for k r i
          using IH m' by simp_all
        show "m k = Some r \<or> eps s (ep_id (st_doc r)) = Some r \<and> identity (st_doc r) = k" if "m' k = Some r" for k r
          using i(1) [OF that] from_rows [of k r] by blast
        show "dom m \<subseteq> dom m'" using i(2) doms by blast
        show "identity (st_doc r) \<in> dom m'" if "eps s i = Some r \<and> after < i" for i r
          using that q [of i r] reached [of i r] i(2) i(3) [of i r] by blast
      qed
      then show ?thesis using IH by blast
    qed
  qed
qed simp

text \<open>The loop over the imported endpoints: each of them is there afterwards and belongs to the source, and endpoints of
  other identities stay as they are.\<close>

definition owned :: "'s \<Rightarrow> go_id \<Rightarrow> endpoint \<Rightarrow> bool" where
  "owned s i e = (\<exists>j r. eps s j = Some r \<and> identity (st_doc r) = identity e \<and> ep_source_id (st_doc r) = i)"

definition untouched :: "'s \<Rightarrow> 's \<Rightarrow> endpoint list \<Rightarrow> bool" where
  "untouched s s' es = (\<forall>j r. eps s j = Some r \<and> identity (st_doc r) \<notin> identity ` set es \<longrightarrow> eps s' j = Some r)"

lemma identity_source [simp]: "identity (e\<lparr>ep_source_id := i\<rparr>) = identity e"
  by (simp add: identity_def)

lemma reconcile_put:
  assumes "ok s" "op_put_endpoint st d v s = (Inr y, s1)" "ep_source_id d = i" "identity d = identity e"
    and "eps s (ep_id d) = None \<or> (\<exists>r. eps s (ep_id d) = Some r \<and> identity (st_doc r) = identity e)"
    and "\<forall>f\<in>set es. identity f \<noteq> identity e"
    and "\<forall>f\<in>set es. \<forall>r. existing (identity f) = Some r \<longrightarrow> eps s (ep_id (st_doc r)) = Some r \<and> identity (st_doc r) = identity f"
  shows "ok s1 \<and> srcs s1 = srcs s \<and> eps s1 (ep_id d) = Some y \<and> identity (st_doc y) = identity e \<and> ep_source_id (st_doc y) = i \<and>
    untouched s s1 [e] \<and>
    (\<forall>f\<in>set es. \<forall>r. existing (identity f) = Some r \<longrightarrow> eps s1 (ep_id (st_doc r)) = Some r \<and> identity (st_doc r) = identity f)"
proof -
  note p = put_endpoint_ok [OF assms(1,2)]
  have e1: "eps s1 = (eps s)(ep_id d \<mapsto> y)" "st_doc y = d" using p by auto
  have "eps s1 (ep_id (st_doc r)) = Some r \<and> identity (st_doc r) = identity f" if "f \<in> set es" "existing (identity f) = Some r" for f r
  proof -
    have r: "eps s (ep_id (st_doc r)) = Some r" "identity (st_doc r) = identity f" "identity f \<noteq> identity e"
      using that assms(6,7) by blast+
    then have "ep_id (st_doc r) \<noteq> ep_id d" using assms(5) by auto
    then show ?thesis using r e1 by simp
  qed
  moreover have "untouched s s1 [e]" using assms(5) e1 by (auto simp: untouched_def)
  ultimately show ?thesis using p e1 assms(3,4) by simp
qed

lemma reconcile_correct:
  assumes "ok s" "reconcile st i existing es res s = (Inr res', s')" "distinct (map identity es)"
    and "\<forall>e\<in>set es. \<forall>r. existing (identity e) = Some r \<longrightarrow> eps s (ep_id (st_doc r)) = Some r \<and> identity (st_doc r) = identity e"
  shows "ok s' \<and> srcs s' = srcs s \<and> (\<forall>e\<in>set es. owned s' i e) \<and> untouched s s' es \<and>
    rf_created res' + rf_updated res' + rf_skipped res' = rf_created res + rf_updated res + rf_skipped res + length es \<and>
    rf_invalid res' = rf_invalid res"
  using assms
proof (induction es arbitrary: s res)
  case Nil
  then show ?case by (simp add: untouched_def)
next
  case (Cons e es)
  have d: "\<forall>f\<in>set es. identity f \<noteq> identity e" "distinct (map identity es)" using Cons.prems(3) by (auto simp: image_iff)
  have rest: "\<forall>f\<in>set es. \<forall>r. existing (identity f) = Some r \<longrightarrow> eps s (ep_id (st_doc r)) = Some r \<and> identity (st_doc r) = identity f"
    using Cons.prems(4) by simp
  have finish: ?case
    if "ok s1" "reconcile st i existing es res1 s1 = (Inr res', s')" "srcs s1 = srcs s" "untouched s s1 [e]"
      "eps s1 j = Some y" "identity (st_doc y) = identity e" "ep_source_id (st_doc y) = i"
      "\<forall>f\<in>set es. \<forall>r. existing (identity f) = Some r \<longrightarrow> eps s1 (ep_id (st_doc r)) = Some r \<and> identity (st_doc r) = identity f"
      "rf_created res1 + rf_updated res1 + rf_skipped res1 = rf_created res + rf_updated res + rf_skipped res + 1"
      "rf_invalid res1 = rf_invalid res"
    for s1 res1 j y
  proof -
    note IH = Cons.IH [OF that(1,2) d(2) that(8)]
    have "identity (st_doc y) \<notin> identity ` set es" using that(6) d(1) by force
    then have "eps s' j = Some y" using IH that(5) unfolding untouched_def by blast
    then have "owned s' i e" using that(6,7) by (auto simp: owned_def)
    moreover have "untouched s s' (e # es)" using IH that(4) by (auto simp: untouched_def)
    ultimately show ?thesis using IH that(3,9,10) by simp
  qed
  show ?case
  proof (cases "existing (identity e)")
    case None
    obtain x s1 where x: "op_put_endpoint st (e\<lparr>ep_source_id := i\<rparr>) 0 s = (x, s1)" by fastforce
    then obtain y where y: "x = Inr y" "reconcile st i existing es (res\<lparr>rf_created := rf_created res + 1\<rparr>) s1 = (Inr res', s')"
      using Cons.prems(2) None by (auto split: sum.splits)
    have n: "eps s (ep_id (e\<lparr>ep_source_id := i\<rparr>)) = None"
      using put_endpoint_ok [OF Cons.prems(1) x [unfolded y(1)]] by (auto split: option.splits)
    have p: "ok s1 \<and> srcs s1 = srcs s \<and> eps s1 (ep_id (e\<lparr>ep_source_id := i\<rparr>)) = Some y \<and> identity (st_doc y) = identity e \<and>
        ep_source_id (st_doc y) = i \<and> untouched s s1 [e] \<and>
        (\<forall>f\<in>set es. \<forall>r. existing (identity f) = Some r \<longrightarrow> eps s1 (ep_id (st_doc r)) = Some r \<and> identity (st_doc r) = identity f)"
      by (rule reconcile_put [OF Cons.prems(1) x [unfolded y(1)] _ _ disjI1 [OF n] d(1) rest]) simp_all
    show ?thesis by (rule finish [OF _ y(2), of "ep_id (e\<lparr>ep_source_id := i\<rparr>)" y]) (use p in simp_all)
  next
    case (Some r)
    have r: "eps s (ep_id (st_doc r)) = Some r" "identity (st_doc r) = identity e" using Cons.prems(4) Some by simp_all
    show ?thesis
    proof (cases "ep_source_id (st_doc r) = i")
      case True
      then have y: "reconcile st i existing es (res\<lparr>rf_skipped := rf_skipped res + 1\<rparr>) s = (Inr res', s')"
        using Cons.prems(2) Some by simp
      show ?thesis by (rule finish [OF Cons.prems(1) y _ _ r True rest]) (simp_all add: untouched_def)
    next
      case False
      let ?d = "(st_doc r)\<lparr>ep_source_id := i\<rparr>"
      obtain x s1 where x: "op_put_endpoint st ?d (st_revision r) s = (x, s1)" by fastforce
      then obtain y where y: "x = Inr y" "reconcile st i existing es (res\<lparr>rf_updated := rf_updated res + 1\<rparr>) s1 = (Inr res', s')"
        using Cons.prems(2) Some False by (auto split: sum.splits)
      have p: "ok s1 \<and> srcs s1 = srcs s \<and> eps s1 (ep_id ?d) = Some y \<and> identity (st_doc y) = identity e \<and>
          ep_source_id (st_doc y) = i \<and> untouched s s1 [e] \<and>
          (\<forall>f\<in>set es. \<forall>r. existing (identity f) = Some r \<longrightarrow> eps s1 (ep_id (st_doc r)) = Some r \<and> identity (st_doc r) = identity f)"
        by (rule reconcile_put [OF Cons.prems(1) x [unfolded y(1)] _ _ _ d(1) rest]) (use r in simp_all)
      show ?thesis by (rule finish [OF _ y(2), of "ep_id ?d" y]) (use p in simp_all)
    qed
  qed
qed

text \<open>The transaction.\<close>

lemma commit_correct:
  assumes "ok s" "refresh_commit st i rn now es res s = (Inr res', s')" "distinct (map identity es)"
  shows "\<exists>q. ok s' \<and> srcs s i = Some q \<and> st_revision q = rn \<and> (\<forall>e\<in>set es. owned s' i e) \<and> untouched s s' es \<and>
    srcs s' = (srcs s)(i \<mapsto> \<lparr>st_doc = (st_doc q)\<lparr>sr_last_refresh_at := now, sr_last_refresh_status := refresh_status res'\<rparr>,
      st_revision = rn + 1\<rparr>) \<and>
    rf_created res' + rf_updated res' + rf_skipped res' = rf_created res + rf_updated res + rf_skipped res + length es \<and>
    rf_invalid res' = rf_invalid res"
proof -
  obtain x s1 where x: "op_get_source st i s = (x, s1)" by fastforce
  then obtain q where q: "x = Inr q" "st_revision q = rn"
    using assms(2) by (cases x) (simp_all add: refresh_commit_def split: if_splits del: records_by_identity.simps)
  note g = get_source [OF assms(1) x]
  obtain m s2 where m: "records_by_identity st (op_rows st s1 + 1) [] (\<lambda>k. None) s1 = (m, s2)" by fastforce
  have "ok s1" using g by blast
  note rb = rows_bound [OF this]
  have "{i \<in> dom (eps s1). [] < i} \<subseteq> dom (eps s1)" by blast
  then have "card {i \<in> dom (eps s1). [] < i} \<le> card (dom (eps s1))" using rb by (intro card_mono) blast+
  then have "card {i \<in> dom (eps s1). [] < i} < op_rows st s1 + 1" using rb by linarith
  note w = walk_identities [OF \<open>ok s1\<close> m disjI1 [OF refl] this]
  obtain u where u: "m = Some u" using w by blast
  have red: "(case u of Inl e \<Rightarrow> (Inl e, s2) | Inr existing \<Rightarrow>
      (case reconcile st i existing es res s2 of (Inl e, s3) \<Rightarrow> (Inl e, s3)
       | (Inr res1, s3) \<Rightarrow>
         (case op_put_source st ((st_doc q)\<lparr>sr_last_refresh_at := now, sr_last_refresh_status := refresh_status res1\<rparr>) rn s3 of
            (Inl e, s4) \<Rightarrow> (Inl e, s4) | (Inr r, s4) \<Rightarrow> (Inr (res1\<lparr>rf_source := Some r\<rparr>), s4)))) = (Inr res', s')"
    using assms(2) unfolding refresh_commit_def x q(1) q(2) [symmetric] by (simp add: m [folded Suc_eq_plus1] u
      del: records_by_identity.simps split del: if_split)
  then obtain existing where e: "m = Some (Inr existing)" using u by (cases u) auto
  obtain y s3 where y: "reconcile st i existing es res s2 = (y, s3)" by fastforce
  obtain res1 where res1: "y = Inr res1" using red u e y by (cases y) auto
  have "ok s2" "eps s2 = eps s1" "srcs s2 = srcs s1" using w by blast+
  moreover have "\<forall>f\<in>set es. \<forall>r. existing (identity f) = Some r \<longrightarrow> eps s2 (ep_id (st_doc r)) = Some r \<and> identity (st_doc r) = identity f"
    using w e by auto
  ultimately have c: "ok s3 \<and> srcs s3 = srcs s2 \<and> (\<forall>e\<in>set es. owned s3 i e) \<and> untouched s2 s3 es \<and>
      rf_created res1 + rf_updated res1 + rf_skipped res1 = rf_created res + rf_updated res + rf_skipped res + length es \<and>
      rf_invalid res1 = rf_invalid res"
    using reconcile_correct [OF _ y [unfolded res1] assms(3)] by blast
  let ?d = "(st_doc q)\<lparr>sr_last_refresh_at := now, sr_last_refresh_status := refresh_status res1\<rparr>"
  obtain z s4 where z: "op_put_source st ?d rn s3 = (z, s4)" by fastforce
  obtain r where r: "z = Inr r" "res' = res1\<lparr>rf_source := Some r\<rparr>" "s' = s4"
    using red u e y res1 z by (cases z) auto
  have "ok s3" using c by blast
  note p = put_source_ok [OF this z [unfolded r(1)]]
  have "refresh_status res' = refresh_status res1" by (simp add: r(2) refresh_status_def)
  moreover have "owned s' i = owned s3 i" "untouched s s' es = untouched s2 s3 es"
    using p r(3) w g by (simp_all add: owned_def untouched_def fun_eq_iff)
  ultimately show ?thesis using p c w g q r by (intro exI [of _ q]) auto
qed

text \<open>The whole refresh.\<close>

lemma refresh_read_distinct:
  assumes "refresh_read io d = Inr (Inr (es, skipped, invalid))" "\<forall>n. id_valid (rx_ids io n)"
  shows "distinct (map identity es) \<and> (\<forall>e\<in>set es. endpoint_validate (il_lib (rx_il io)) e = None \<and> bare e)"
proof -
  obtain body opts p r where p: "preview (rx_il io) body 100000 opts = Inr p"
      "import_endpoints (rx_il io) body SkipDuplicates (\<lambda>k. None) opts (rx_ids io) = Inr r" "es = ir_endpoints r"
    using assms(1) by (auto simp: refresh_read_def split: if_splits option.splits sum.splits)
  show ?thesis using import_accounts [OF p(2,1) assms(2)] p(3) by simp
qed

lemma refresh_done:
  assumes "ok s" "\<And>s. ok s \<Longrightarrow> ok (others s)" "refresh_source st io others i rn now s = ((r, None), s')"
    "\<forall>n. id_valid (rx_ids io n)" "b = others (snd (op_get_source st i s))"
  shows "\<exists>c q es skipped invalid. srcs s i = Some c \<and> st_revision c = rn \<and> sr_enabled (st_doc c) \<and>
    refresh_read io (st_doc c) = Inr (Inr (es, skipped, invalid)) \<and> srcs b i = Some q \<and> st_revision q = rn \<and>
    (\<forall>e\<in>set es. endpoint_validate (il_lib (rx_il io)) e = None \<and> bare e \<and> owned s' i e) \<and> untouched b s' es \<and>
    srcs s' = (srcs b)(i \<mapsto> \<lparr>st_doc = (st_doc q)\<lparr>sr_last_refresh_at := now, sr_last_refresh_status := refresh_status r\<rparr>,
      st_revision = rn + 1\<rparr>) \<and>
    rf_created r + rf_updated r + rf_skipped r = skipped + length es \<and> rf_invalid r = invalid"
proof -
  obtain x s1 where x: "op_get_source st i s = (x, s1)" by fastforce
  obtain c es skipped invalid where c: "x = Inr c" "st_revision c = rn" "sr_enabled (st_doc c)"
      "refresh_read io (st_doc c) = Inr (Inr (es, skipped, invalid))"
      "op_transaction st (refresh_commit st i rn now es (empty_refresh\<lparr>rf_skipped := skipped, rf_invalid := invalid\<rparr>)) b = (Inr r, s')"
    using assms(3,5) x
    by (auto simp: refresh_source_def refresh_failure_def split: sum.splits if_splits prod.splits)
  note g = get_source [OF assms(1) x]
  have "ok b" using assms(2,5) g x by simp
  then obtain s0 s2 where t: "ok s0" "eps s0 = eps b" "srcs s0 = srcs b"
      "refresh_commit st i rn now es (empty_refresh\<lparr>rf_skipped := skipped, rf_invalid := invalid\<rparr>) s0 = (Inr r, s2)"
      "eps s' = eps s2" "srcs s' = srcs s2"
    using transaction_ok [OF _ c(5)] by blast
  note d = refresh_read_distinct [OF c(4) assms(4)]
  obtain q where q: "srcs s0 i = Some q \<and> st_revision q = rn \<and> (\<forall>e\<in>set es. owned s2 i e) \<and> untouched s0 s2 es \<and>
      srcs s2 = (srcs s0)(i \<mapsto> \<lparr>st_doc = (st_doc q)\<lparr>sr_last_refresh_at := now, sr_last_refresh_status := refresh_status r\<rparr>,
        st_revision = rn + 1\<rparr>) \<and>
      rf_created r + rf_updated r + rf_skipped r = skipped + length es \<and> rf_invalid r = invalid"
    using commit_correct [OF t(1,4)] d by (auto simp: empty_refresh_def)
  have "owned s' i = owned s2 i" "untouched b s' es = untouched s0 s2 es" "srcs s i = Some c"
    using t g c(1) by (simp_all add: owned_def untouched_def fun_eq_iff)
  then show ?thesis using q t d c by (intro exI [of _ c] exI [of _ q] exI [of _ es] exI [of _ skipped] exI [of _ invalid]) simp
qed

lemma refresh_failed:
  assumes "ok s" "\<And>s. ok s \<Longrightarrow> ok (others s)" "refresh_source st io others i rn now s = ((r, Some e), s')"
  shows "\<exists>b\<in>{s, others (snd (op_get_source st i s))}. eps s' = eps b \<and> (\<forall>j. j \<noteq> i \<longrightarrow> srcs s' j = srcs b j)"
proof -
  obtain x s1 where x: "op_get_source st i s = (x, s1)" by fastforce
  note g = get_source [OF assms(1) x]
  have o: "ok (others s1)" using g assms(2) by simp
  consider "s' = s1" | c status cause where "x = Inr c" "refresh_failure st now c status cause (others s1) = ((r, Some e), s')"
    | es y z where "op_transaction st (refresh_commit st i rn now es y) (others s1) = (Inl z, s')"
    using assms(3) x by (auto simp: refresh_source_def split: sum.splits if_splits prod.splits)
  then show ?thesis
  proof cases
    case 1
    then show ?thesis using g by auto
  next
    case (2 c status cause)
    let ?d = "(st_doc c)\<lparr>sr_last_refresh_at := now, sr_last_refresh_status := status\<rparr>"
    obtain y s2 where y: "op_put_source st ?d (st_revision c) (others s1) = (y, s2)" by fastforce
    have "s' = s2" "sr_id ?d = i" using 2 y g by (auto simp: refresh_failure_def split: sum.splits)
    then show ?thesis using x put_source_ok [OF o, of ?d "st_revision c" _ s2] put_source_err [OF o, of ?d "st_revision c" _ s2] y
      by (cases y) auto
  next
    case (3 es y z)
    then show ?thesis using transaction_err [OF o] x by auto
  qed
qed

end

end
