(* ===== verification/Source_Sqlite.thy ===== *)
theory Source_Sqlite
  imports Source_Laws
begin

text \<open>The SQLite store keeps the contract of the inventory store.\<close>

section \<open>One table\<close>

text \<open>Encoding a document and decoding the text gives the document.\<close>

definition codec_faithful :: "'d codec \<Rightarrow> bool" where
  "codec_faithful cd = (\<forall>d doc. marshal cd d = Some doc \<longrightarrow> unmarshal cd doc = Some d)"

definition rows_of :: "'d codec \<Rightarrow> sql_table \<Rightarrow> go_id \<rightharpoonup> 'd stored" where
  "rows_of cd t i = (case map_of t i of None \<Rightarrow> None
     | Some (doc, rn) \<Rightarrow> map_option (\<lambda>d. \<lparr>st_doc = d, st_revision = rn\<rparr>) (unmarshal cd doc))"

definition table_ok :: "'d codec \<Rightarrow> ('d \<Rightarrow> go_id) \<Rightarrow> ('d \<Rightarrow> error option) \<Rightarrow> sql_table \<Rightarrow> bool" where
  "table_ok cd id_of validate t = (distinct (keys_of t) \<and> (\<forall>i doc rn. map_of t i = Some (doc, rn) \<longrightarrow>
     id_valid i \<and> (\<exists>d. unmarshal cd doc = Some d \<and> validate d = None \<and> id_of d = i)))"

lemma rows_of_dom: "table_ok cd id_of validate t \<Longrightarrow> dom (rows_of cd t) = set (keys_of t)"
proof (intro set_eqI)
  fix i
  assume t: "table_ok cd id_of validate t"
  show "i \<in> dom (rows_of cd t) \<longleftrightarrow> i \<in> set (keys_of t)"
  proof (cases "map_of t i")
    case None
    then have "i \<notin> set (keys_of t)" by (simp add: map_of_eq_None_iff)
    then show ?thesis using None by (simp add: rows_of_def dom_def)
  next
    case (Some y)
    then have "map_of t i \<noteq> None" "map_of t i = Some (fst y, snd y)" by simp_all
    moreover then have "\<exists>d. unmarshal cd (fst y) = Some d" using t unfolding table_ok_def by blast
    ultimately show ?thesis using map_of_eq_None_iff [of t i] by (auto simp: rows_of_def dom_def split: prod.splits)
  qed
qed

lemma rows_of_sound: "table_ok cd id_of validate t \<Longrightarrow> rows_of cd t i = Some r \<Longrightarrow> id_of (st_doc r) = i \<and> id_valid i"
  by (fastforce simp: table_ok_def rows_of_def split: option.splits)

lemma sql_get_law:
  assumes "table_ok cd id_of validate t" "sql_get cd id_of validate cerr fault i t = Inr r"
  shows "rows_of cd t i = Some r \<and> id_of (st_doc r) = i"
  using assms(2) by (auto simp: sql_get_def decode_row_def rows_of_def split: if_splits option.splits)

lemma table_ok_update:
  assumes "table_ok cd id_of validate t" "unmarshal cd doc = Some d" "validate d = None" "id_valid (id_of d)"
  shows "table_ok cd id_of validate (AList.update (id_of d) (doc, rn) t) \<and>
    rows_of cd (AList.update (id_of d) (doc, rn) t) = (rows_of cd t)(id_of d \<mapsto> \<lparr>st_doc = d, st_revision = rn\<rparr>)"
  using assms by (auto simp: table_ok_def rows_of_def update_conv' distinct_update fun_eq_iff split: if_splits)

lemma sql_put_law:
  assumes "table_ok cd id_of validate t" "codec_faithful cd" "\<And>d. validate d = None \<Longrightarrow> id_valid (id_of d)"
    "sql_put cd id_of validate cerr ft d e t = (x, t')"
  shows "table_ok cd id_of validate t' \<and> (\<forall>i. i \<noteq> id_of d \<longrightarrow> rows_of cd t' i = rows_of cd t i) \<and>
    (\<forall>r. x = Inr r \<longrightarrow> r = \<lparr>st_doc = d, st_revision = e + 1\<rparr> \<and> rows_of cd t' = (rows_of cd t)(id_of d \<mapsto> r) \<and>
      (case rows_of cd t (id_of d) of None \<Rightarrow> e = 0 | Some q \<Rightarrow> 0 < e \<and> st_revision q = e))"
proof (cases "t' = t \<and> (\<forall>r. x \<noteq> Inr r)")
  case True
  then show ?thesis using assms(1) by auto
next
  case False
  obtain doc where v: "validate d = None" "0 \<le> e" "marshal cd d = Some doc" "ft 0 = None"
    using assms(4) False by (auto simp: sql_put_def split: if_splits option.splits)
  then have u: "unmarshal cd doc = Some d" using assms(2) by (simp add: codec_faithful_def)
  note up = table_ok_update [OF assms(1) u v(1) assms(3) [OF v(1)]]
  show ?thesis
  proof (cases "map_of t (id_of d)")
    case None
    have "t @ [(id_of d, doc, 1)] = AList.update (id_of d) (doc, 1) t"
      using None by (induction t) (auto split: if_splits)
    then show ?thesis using False None assms(1,4) v up [of 1]
      by (auto simp: sql_put_def sql_insert_def sql_update_def rows_of_def split: if_splits option.splits sum.splits)
  next
    case (Some y)
    obtain old rn where y: "y = (old, rn)" by fastforce
    then obtain z where "rows_of cd t (id_of d) = Some z" "st_revision z = rn"
      using assms(1) Some by (fastforce simp: table_ok_def rows_of_def)
    then show ?thesis using False Some y assms(1,4) v up [of "rn + 1"]
      by (auto simp: sql_put_def sql_insert_def sql_update_def split: if_splits option.splits sum.splits)
  qed
qed

lemma scan_rows_law:
  assumes "scan_rows cd id_of validate cerr ft k (map (\<lambda>i. (i, the (map_of t i))) is) = Inr rs"
    "set is \<subseteq> set (keys_of t)" "table_ok cd id_of validate t"
  shows "map (\<lambda>r. id_of (st_doc r)) rs = is \<and> (\<forall>r\<in>set rs. rows_of cd t (id_of (st_doc r)) = Some r)"
  using assms(1,2)
proof (induction "is" arbitrary: k rs)
  case (Cons i js)
  then obtain doc rn where x: "map_of t i = Some (doc, rn)"
    by (metis (no_types, lifting) list.set_intros(1) map_of_None_iff list.set_map not_Some_eq subset_iff surj_pair)
  then show ?case using Cons by (fastforce simp: decode_row_def rows_of_def split: if_splits option.splits sum.splits)
qed simp

lemma select_page_ids:
  assumes "table_ok cd id_of validate t"
  shows "select_page \<lparr>pg_after = after, pg_limit = 1000\<rparr> t = map (\<lambda>i. (i, the (map_of t i))) (page_from (rows_of cd t) after)"
proof -
  have "distinct (filter (\<lambda>i. i > after) (keys_of t))" using assms by (simp add: table_ok_def)
  then have "sort (filter (\<lambda>i. i > after) (keys_of t)) = sorted_list_of_set (set (filter (\<lambda>i. i > after) (keys_of t)))"
    using sorted_list_of_set_sort_remdups [of "filter (\<lambda>i. i > after) (keys_of t)"] distinct_remdups_id by metis
  then show ?thesis by (simp add: select_page_def page_from_def rows_of_dom [OF assms] take_map Collect_conj_eq)
qed

lemma sql_list_law:
  assumes "table_ok cd id_of validate t" "sql_list cd id_of validate cerr ft \<lparr>pg_after = after, pg_limit = 1000\<rparr> t = Inr rs"
  shows "map (\<lambda>r. id_of (st_doc r)) rs = page_from (rows_of cd t) after \<and>
    (\<forall>r\<in>set rs. rows_of cd t (id_of (st_doc r)) = Some r)"
proof -
  have "scan_rows cd id_of validate cerr ft 2 (select_page \<lparr>pg_after = after, pg_limit = 1000\<rparr> t) = Inr rs"
    using assms(2) by (auto simp: sql_list_def split: option.splits sum.splits)
  moreover have "set (page_from (rows_of cd t) after) \<subseteq> set (keys_of t)"
    unfolding page_from_def using rows_of_dom [OF assms(1)] by (auto dest: in_set_takeD)
  ultimately show ?thesis using scan_rows_law [OF _ _ assms(1)] unfolding select_page_ids [OF assms(1)] by blast
qed

section \<open>The store\<close>

definition sq_eps :: "sqlite_env \<Rightarrow> sqlite_state \<Rightarrow> go_id \<rightharpoonup> endpoint stored" where
  "sq_eps env s = rows_of (sq_endpoint env) (iv_endpoints (sq_db s))"

definition sq_srcs :: "sqlite_env \<Rightarrow> sqlite_state \<Rightarrow> go_id \<rightharpoonup> source stored" where
  "sq_srcs env s = rows_of (sq_source env) (iv_sources (sq_db s))"

definition sq_ok :: "sqlite_env \<Rightarrow> sqlite_state \<Rightarrow> bool" where
  "sq_ok env s = (codec_faithful (sq_endpoint env) \<and> codec_faithful (sq_source env) \<and>
     table_ok (sq_endpoint env) ep_id (endpoint_validate (sq_lib env)) (iv_endpoints (sq_db s)) \<and>
     table_ok (sq_source env) sr_id source_validate (iv_sources (sq_db s)))"

lemma sq_tick_simps [simp]: "sq_eps env (sq_tick s) = sq_eps env s" "sq_srcs env (sq_tick s) = sq_srcs env s"
    "sq_ok env (sq_tick s) = sq_ok env s" "sq_db (sq_tick s) = sq_db s"
  by (simp_all add: sq_tick_def sq_eps_def sq_srcs_def sq_ok_def)

lemma sq_tick_db [simp]: "sq_eps env (sq_tick (s\<lparr>sq_db := d\<rparr>)) = sq_eps env (s\<lparr>sq_db := d\<rparr>)"
    "sq_srcs env (sq_tick (s\<lparr>sq_db := d\<rparr>)) = sq_srcs env (s\<lparr>sq_db := d\<rparr>)"
  by simp_all

interpretation sq: inventory_store "sqlite_ops env" "sq_ok env" "sq_eps env" "sq_srcs env"
proof (unfold_locales, goal_cases)
  case (1 s i x s')
  then show ?case using sql_get_law [of "sq_source env" sr_id source_validate "iv_sources (sq_db s)"]
    by (auto simp: sqlite_ops_def sqlite_op_get_source_def sqlite_get_source_def sq_ok_def sq_srcs_def sq_eps_def)
next
  case (2 s d e r s')
  obtain x t where x: "sqlite_put_source (sq_source env) (sq_cerr env (sq_calls s)) (sq_faults env (sq_calls s)) d e
      (iv_sources (sq_db s)) = (x, t)" by fastforce
  then show ?case using 2 sql_put_law [OF _ _ source_validD(1) x [unfolded sqlite_put_source_def]]
    by (auto simp: sqlite_ops_def sqlite_op_put_source_def sq_ok_def sq_srcs_def sq_eps_def)
next
  case (3 s d e y s')
  obtain x t where x: "sqlite_put_source (sq_source env) (sq_cerr env (sq_calls s)) (sq_faults env (sq_calls s)) d e
      (iv_sources (sq_db s)) = (x, t)" by fastforce
  then show ?case using 3 sql_put_law [OF _ _ source_validD(1) x [unfolded sqlite_put_source_def]]
    by (auto simp: sqlite_ops_def sqlite_op_put_source_def sq_ok_def sq_srcs_def sq_eps_def)
next
  case (4 s d e r s')
  obtain x t where x: "sqlite_put_endpoint (sq_lib env) (sq_endpoint env) (sq_cerr env (sq_calls s)) (sq_faults env (sq_calls s)) d e
      (iv_endpoints (sq_db s)) = (x, t)" by fastforce
  then show ?case using 4 sql_put_law [OF _ _ endpoint_validD(1) x [unfolded sqlite_put_endpoint_def]]
    by (auto simp: sqlite_ops_def sqlite_op_put_endpoint_def sq_ok_def sq_srcs_def sq_eps_def)
next
  case (5 s after l s')
  then show ?case using sql_list_law [of "sq_endpoint env" ep_id "endpoint_validate (sq_lib env)" "iv_endpoints (sq_db s)"]
    by (auto simp: sqlite_ops_def sqlite_op_list_endpoints_def sqlite_list_endpoints_def sq_ok_def sq_srcs_def sq_eps_def)
next
  case (6 s)
  then have t: "table_ok (sq_endpoint env) ep_id (endpoint_validate (sq_lib env)) (iv_endpoints (sq_db s))" by (simp add: sq_ok_def)
  have "card (set (keys_of (iv_endpoints (sq_db s)))) \<le> length (keys_of (iv_endpoints (sq_db s)))" by (rule card_length)
  then show ?case unfolding sq_eps_def rows_of_dom [OF t] using rows_of_sound [OF t] t
    by (fastforce simp: sqlite_ops_def table_ok_def)
next
  case (7 s f res s')
  obtain y s1 where y: "f (sq_tick s) = (y, s1)" by fastforce
  then have "y = Inr res" "s' = sq_tick s1" using 7(2)
    by (auto simp: sqlite_ops_def sqlite_op_transaction_def split: option.splits sum.splits)
  then show ?case using 7(1) y by (intro exI [of _ "sq_tick s"] exI [of _ s1]) simp
next
  case (8 s f y s')
  obtain x s1 where x: "f (sq_tick s) = (x, s1)" by fastforce
  then show ?case using 8(2)
    by (auto simp: sqlite_ops_def sqlite_op_transaction_def sq_eps_def sq_srcs_def split: option.splits sum.splits)
qed

section \<open>The refresh of a source\<close>

text \<open>C23: A refresh that succeeds has read the enabled source at the revision asked for.  Every endpoint it imported is
  valid, holds no credential and is stored under this source, all other identities are as they were, the source has
  its next revision with the report, and every imported endpoint is counted once.  The reads are those of the state
  before, the writes go to the state that other clients left in between.\<close>

theorem refresh_reconciles:
  assumes "sq_ok env s" "\<And>s. sq_ok env s \<Longrightarrow> sq_ok env (others s)"
    "refresh_source (sqlite_ops env) io others i rn now s = ((r, None), s')" "\<forall>n. id_valid (rx_ids io n)"
    "b = others (snd (op_get_source (sqlite_ops env) i s))"
  shows "\<exists>c q es skipped invalid. sq_srcs env s i = Some c \<and> st_revision c = rn \<and> sr_enabled (st_doc c) \<and>
    refresh_read io (st_doc c) = Inr (Inr (es, skipped, invalid)) \<and> sq_srcs env b i = Some q \<and> st_revision q = rn \<and>
    (\<forall>e\<in>set es. endpoint_validate (il_lib (rx_il io)) e = None \<and> bare e \<and>
       (\<exists>j y. sq_eps env s' j = Some y \<and> identity (st_doc y) = identity e \<and> ep_source_id (st_doc y) = i)) \<and>
    (\<forall>j y. sq_eps env b j = Some y \<and> identity (st_doc y) \<notin> identity ` set es \<longrightarrow> sq_eps env s' j = Some y) \<and>
    sq_srcs env s' = (sq_srcs env b)(i \<mapsto> \<lparr>st_doc = (st_doc q)\<lparr>sr_last_refresh_at := now,
      sr_last_refresh_status := refresh_status r\<rparr>, st_revision = rn + 1\<rparr>) \<and>
    rf_created r + rf_updated r + rf_skipped r = skipped + length es \<and> rf_invalid r = invalid"
  using sq.refresh_done [OF assms] unfolding sq.owned_def sq.untouched_def .

text \<open>C24: A refresh that fails, wherever it does, leaves every endpoint and every other source alone.\<close>

theorem refresh_failure_keeps:
  assumes "sq_ok env s" "\<And>s. sq_ok env s \<Longrightarrow> sq_ok env (others s)"
    "refresh_source (sqlite_ops env) io others i rn now s = ((r, Some e), s')"
  shows "\<exists>b\<in>{s, others (snd (op_get_source (sqlite_ops env) i s))}. sq_eps env s' = sq_eps env b \<and>
    (\<forall>j. j \<noteq> i \<longrightarrow> sq_srcs env s' j = sq_srcs env b j)"
  by (rule sq.refresh_failed [OF assms])

end
