(* ===== verification/Source_Witness.thy ===== *)
theory Source_Witness
  imports Source_Sqlite Routing_Select
begin

text \<open>A file with four lines, imported, and used as a source over an SQLite store that has one of the endpoints.\<close>

section \<open>Import\<close>

definition wit_import_lib :: import_lib where
  "wit_import_lib = \<lparr>il_lib = plain_lib, il_url = (\<lambda>s. None), il_csv = (\<lambda>s. []), il_json = (\<lambda>s. None)\<rparr>"

definition wit_text :: string where
  "wit_text = ''h.test:80'' @ [CHR 0x0A] @ ''H.test:80'' @ [CHR 0x0A] @ ''k.test:81'' @ [CHR 0x0A] @ ''bad''"

definition wit_options :: import_options where
  "wit_options = \<lparr>io_format = ''text'', io_mapping = \<lparr>im_items = [], im_endpoint = [], im_protocol = [], im_host = [], im_port = []\<rparr>\<rparr>"

definition wit_ids :: "nat \<Rightarrow> go_id" where "wit_ids n = (if n = 0 then ''e0'' else ''e1'')"

definition wit_existing :: "string \<Rightarrow> endpoint option" where
  "wit_existing k = (if k = ''http|k.test|81'' then Some ((imported_endpoint ''http'' ''k.test'' 81 [])\<lparr>ep_id := ''old''\<rparr>) else None)"

definition wit_imported :: endpoint where
  "wit_imported = (imported_endpoint ''http'' ''h.test'' 80 [])\<lparr>ep_id := ''e0''\<rparr>"

lemma wit_ids_valid: "\<forall>n. id_valid (wit_ids n)"
  by (simp add: wit_ids_def id_valid_def alnum_char_def)

lemma wit_preview: "case preview wit_import_lib wit_text 100000 wit_options of Inl e \<Rightarrow> False | Inr p \<Rightarrow> ip_valid p = 3 \<and> ip_invalid p = 1 \<and> ip_duplicates p = 1"
  by code_simp

lemma wit_import: "import_endpoints wit_import_lib wit_text SkipDuplicates wit_existing wit_options wit_ids =
    Inr \<lparr>ir_endpoints = [wit_imported], ir_skipped = 2, ir_updated = 0, ir_created = 1\<rparr>"
  by code_simp

theorem import_exact_witness:
  "\<exists>p r. preview wit_import_lib wit_text 100000 wit_options = Inr p \<and>
    import_endpoints wit_import_lib wit_text SkipDuplicates wit_existing wit_options wit_ids = Inr r \<and>
    ir_endpoints r = [wit_imported] \<and> ir_skipped r + ir_created r = ip_valid p \<and> ip_valid p = 3"
proof -
  obtain p where p: "preview wit_import_lib wit_text 100000 wit_options = Inr p" "ip_valid p = 3"
    using wit_preview by (auto split: sum.splits)
  have "\<forall>k x. wit_existing k = Some x \<longrightarrow> id_valid (ep_id x)"
    by (auto simp: wit_existing_def id_valid_def alnum_char_def split: if_splits)
  then show ?thesis using import_exact [OF wit_import p(1) wit_ids_valid] p wit_import by auto
qed

section \<open>Refresh\<close>

definition wit_files :: file_lib where
  "wit_files = \<lparr>fl_clean = (\<lambda>s. s), fl_is_abs = (\<lambda>s. False), fl_volume = (\<lambda>s. []), fl_join = (\<lambda>a b. a @ ''/'' @ b),
     fl_links = Some, fl_rel = (\<lambda>a b. Some ''list''), fl_open = (\<lambda>s. Some (True, 40, Some wit_text))\<rparr>"

definition wit_refresh_io :: refresh_io where
  "wit_refresh_io = \<lparr>rx_il = wit_import_lib, rx_fl = wit_files, rx_root = ''root'', rx_fetch = (\<lambda>u. None), rx_ids = wit_ids\<rparr>"

definition wit_source :: source where
  "wit_source = \<lparr>sr_id = ''src'', sr_name = ''list'', sr_type = ''file'', sr_provider_id = [], sr_config = [(''path'', ''list'')],
     sr_refresh_interval = 0, sr_last_refresh_at = 0, sr_last_refresh_status = [], sr_credential_ref = [], sr_enabled = True\<rparr>"

definition wit_refreshed :: source where
  "wit_refreshed = wit_source\<lparr>sr_last_refresh_at := 5, sr_last_refresh_status := ''ok: created=1 updated=1 skipped=1 invalid=1''\<rparr>"

text \<open>The stored endpoint has another identifier and belongs to no source.\<close>

definition wit_stored :: endpoint where
  "wit_stored = (imported_endpoint ''http'' ''k.test'' 81 [])\<lparr>ep_id := ''old'', ep_credential_ref := []\<rparr>"

text \<open>A codec over the documents that occur.\<close>

definition listed_codec :: "('d \<times> string) list \<Rightarrow> 'd codec" where
  "listed_codec ds = \<lparr>marshal = map_of ds, unmarshal = map_of (map prod.swap ds)\<rparr>"

lemma listed_codec_faithful: "distinct (map snd ds) \<Longrightarrow> codec_faithful (listed_codec ds)"
  by (auto simp: codec_faithful_def listed_codec_def intro!: map_of_is_SomeI dest!: map_of_SomeD simp: comp_def)

definition wit_sqlite :: sqlite_env where
  "wit_sqlite = \<lparr>sq_lib = plain_lib,
     sq_endpoint = listed_codec [(wit_stored, ''k''), (wit_stored\<lparr>ep_source_id := ''src''\<rparr>, ''ks''), (wit_imported\<lparr>ep_source_id := ''src''\<rparr>, ''hs'')],
     sq_source = listed_codec [(wit_source, ''s''), (wit_refreshed, ''r'')], sq_faults = (\<lambda>n. no_sql_faults), sq_cerr = (\<lambda>n. None)\<rparr>"

definition wit_inventory :: sqlite_state where
  "wit_inventory = \<lparr>sq_db = \<lparr>iv_endpoints = [(''old'', ''k'', 3)], iv_sources = [(''src'', ''s'', 7)]\<rparr>, sq_calls = 0\<rparr>"

lemma wit_inventory_ok: "sq_ok wit_sqlite wit_inventory"
proof -
  have f: "codec_faithful (sq_endpoint wit_sqlite)" "codec_faithful (sq_source wit_sqlite)"
    unfolding wit_sqlite_def by (simp_all add: listed_codec_faithful)
  have v: "endpoint_validate plain_lib wit_stored = None" "source_validate wit_source = None" "id_valid ''old''" "id_valid ''src''"
    "ep_id wit_stored = ''old''" "sr_id wit_source = ''src''" by code_simp+
  then show ?thesis using f by (auto simp: sq_ok_def table_ok_def wit_inventory_def wit_sqlite_def listed_codec_def)
qed

lemma wit_read: "refresh_read wit_refresh_io wit_source = Inr (Inr ([wit_imported, (imported_endpoint ''http'' ''k.test'' 81 [])\<lparr>ep_id := ''e1''\<rparr>], 1, 1))"
  by code_simp

definition wit_second :: endpoint where
  "wit_second = (imported_endpoint ''http'' ''k.test'' 81 [])\<lparr>ep_id := ''e1''\<rparr>"

definition wit_report :: refresh_result where
  "wit_report = \<lparr>rf_source = Some \<lparr>st_doc = wit_refreshed, st_revision = 8\<rparr>, rf_created = 1, rf_updated = 1, rf_skipped = 1,
     rf_invalid = 1, rf_recorded = False\<rparr>"

lemmas wit_sqlite_simps = sqlite_ops_def sqlite_op_get_source_def sqlite_get_source_def sqlite_op_put_source_def sqlite_put_source_def
  sqlite_op_put_endpoint_def sqlite_put_endpoint_def sqlite_op_list_endpoints_def sqlite_list_endpoints_def sq_tick_def

lemma wit_facts:
  "endpoint_validate plain_lib wit_stored = None" "endpoint_validate plain_lib (wit_stored\<lparr>ep_source_id := ''src''\<rparr>) = None"
  "endpoint_validate plain_lib (wit_imported\<lparr>ep_source_id := ''src''\<rparr>) = None"
  "source_validate wit_source = None" "source_validate wit_refreshed = None"
  "identity wit_stored = ''http|k.test|81''" "identity wit_imported = ''http|h.test|80''" "identity wit_second = ''http|k.test|81''"
  "ep_id wit_stored = ''old''" "ep_id wit_imported = ''e0''" "sr_id wit_source = ''src''" "sr_id wit_refreshed = ''src''" "id_valid ''src''"
  "ep_source_id wit_stored = []" "ep_source_id wit_imported = []" "sr_enabled wit_source" "wit_imported \<noteq> wit_stored"
  by code_simp+

lemma wit_list: "sql_list (sq_endpoint wit_sqlite) ep_id (endpoint_validate plain_lib) None no_sql_faults \<lparr>pg_after = [], pg_limit = 1000\<rparr>
    [(''old'', ''k'', 3)] = Inr [\<lparr>st_doc = wit_stored, st_revision = 3\<rparr>]"
  by (simp add: sql_list_def page_validate_def select_page_def decode_row_def wit_sqlite_def listed_codec_def wit_facts no_sql_faults_def)

lemma wit_marshal:
  "marshal (sq_endpoint wit_sqlite) (wit_stored\<lparr>ep_source_id := ''src''\<rparr>) = Some ''ks''"
  "marshal (sq_endpoint wit_sqlite) (wit_imported\<lparr>ep_source_id := ''src''\<rparr>) = Some ''hs''"
  "marshal (sq_source wit_sqlite) wit_refreshed = Some ''r''"
  "unmarshal (sq_source wit_sqlite) ''s'' = Some wit_source"
  by code_simp+

lemma wit_puts:
  "sql_put (sq_endpoint wit_sqlite) ep_id (endpoint_validate plain_lib) None no_sql_faults (wit_imported\<lparr>ep_source_id := ''src''\<rparr>) 0
     [(''old'', ''k'', 3)] = (Inr \<lparr>st_doc = wit_imported\<lparr>ep_source_id := ''src''\<rparr>, st_revision = 1\<rparr>, [(''old'', ''k'', 3), (''e0'', ''hs'', 1)])"
  "sql_put (sq_endpoint wit_sqlite) ep_id (endpoint_validate plain_lib) None no_sql_faults (wit_stored\<lparr>ep_source_id := ''src''\<rparr>) 3
     [(''old'', ''k'', 3), (''e0'', ''hs'', 1)] =
     (Inr \<lparr>st_doc = wit_stored\<lparr>ep_source_id := ''src''\<rparr>, st_revision = 4\<rparr>, [(''old'', ''ks'', 4), (''e0'', ''hs'', 1)])"
  "sql_put (sq_source wit_sqlite) sr_id source_validate None no_sql_faults wit_refreshed 7 [(''src'', ''s'', 7)] =
     (Inr \<lparr>st_doc = wit_refreshed, st_revision = 8\<rparr>, [(''src'', ''r'', 8)])"
  by (simp_all add: sql_put_def sql_insert_def sql_update_def wit_facts wit_marshal max_int64_value_def max_document_def no_sql_faults_def)

lemma wit_get: "sql_get (sq_source wit_sqlite) sr_id source_validate None None ''src'' [(''src'', ''s'', 7)] =
    Inr \<lparr>st_doc = wit_source, st_revision = 7\<rparr>"
  by (simp add: sql_get_def decode_row_def wit_facts wit_marshal)

lemma wit_refresh: "refresh_source (sqlite_ops wit_sqlite) wit_refresh_io (\<lambda>s. s) ''src'' 7 5 wit_inventory = ((wit_report, None),
    \<lparr>sq_db = \<lparr>iv_endpoints = [(''old'', ''ks'', 4), (''e0'', ''hs'', 1)], iv_sources = [(''src'', ''r'', 8)]\<rparr>, sq_calls = 8\<rparr>)"
proof -
  have e: "sq_lib wit_sqlite = plain_lib" "sq_cerr wit_sqlite = (\<lambda>n. None)" "sq_faults wit_sqlite = (\<lambda>n. no_sql_faults)"
    "no_sql_faults 0 = None" by (simp_all add: wit_sqlite_def no_sql_faults_def)
  have st: "refresh_status \<lparr>rf_source = None, rf_created = Suc 0, rf_updated = Suc 0, rf_skipped = Suc 0,
        rf_invalid = Suc 0, rf_recorded = False\<rparr> =
      ''ok: created=1 updated=1 skipped=1 invalid=1''" by code_simp
  have w: "wit_source\<lparr>sr_last_refresh_at := 5, sr_last_refresh_status := ''ok: created=1 updated=1 skipped=1 invalid=1''\<rparr> = wit_refreshed"
    by (simp add: wit_refreshed_def)
  show ?thesis
    by (simp add: refresh_source_def refresh_commit_def wit_sqlite_simps sqlite_op_transaction_def wit_inventory_def e wit_get wit_facts
        wit_read [folded wit_second_def] wit_list wit_puts st w wit_report_def empty_refresh_def)
qed

theorem refresh_reconciles_witness:
  "\<exists>r s' j y. refresh_source (sqlite_ops wit_sqlite) wit_refresh_io (\<lambda>s. s) ''src'' 7 5 wit_inventory = ((r, None), s') \<and>
     sq_eps wit_sqlite s' j = Some y \<and> identity (st_doc y) = ''http|k.test|81'' \<and> ep_source_id (st_doc y) = ''src'' \<and>
     rf_created r + rf_updated r + rf_skipped r = 3"
proof -
  have r: "rx_ids wit_refresh_io = wit_ids" by (simp add: wit_refresh_io_def)
  note t = refresh_reconciles [OF wit_inventory_ok _ wit_refresh _ refl, unfolded r, OF _ wit_ids_valid]
  have s: "sq_srcs wit_sqlite wit_inventory ''src'' = Some \<lparr>st_doc = wit_source, st_revision = 7\<rparr>"
    by (simp add: sq_srcs_def rows_of_def wit_inventory_def wit_marshal)
  show ?thesis using t wit_refresh by (auto simp: s wit_read [folded wit_second_def] wit_facts) blast
qed

text \<open>The source was changed by another client in the meantime.\<close>

theorem refresh_failure_keeps_witness:
  "\<exists>e s'. refresh_source (sqlite_ops wit_sqlite) wit_refresh_io (\<lambda>s. s) ''src'' 6 5 wit_inventory = ((empty_refresh, Some e), s') \<and>
     e = StoreErrConflict \<and> sq_eps wit_sqlite s' = sq_eps wit_sqlite wit_inventory"
proof -
  have e: "sq_lib wit_sqlite = plain_lib" "sq_cerr wit_sqlite = (\<lambda>n. None)" "sq_faults wit_sqlite = (\<lambda>n. no_sql_faults)"
    "no_sql_faults 0 = None" by (simp_all add: wit_sqlite_def no_sql_faults_def)
  have r: "refresh_source (sqlite_ops wit_sqlite) wit_refresh_io (\<lambda>s. s) ''src'' 6 5 wit_inventory =
      ((empty_refresh, Some StoreErrConflict), sq_tick wit_inventory)"
    by (simp add: refresh_source_def wit_sqlite_simps wit_inventory_def e wit_get)
  have "snd (op_get_source (sqlite_ops wit_sqlite) ''src'' wit_inventory) = sq_tick wit_inventory"
    by (simp add: wit_sqlite_simps)
  then show ?thesis using refresh_failure_keeps [OF wit_inventory_ok _ r] r by auto
qed

end
