(* ===== verification/Spec2Isabelle.thy ===== *)
theory Spec2Isabelle
  imports Budget_IO Policy_Eval Session_Store Health_Circuit Sqlite_Inventory Gateway_Retry Runtime_Control Budget_Mirror Cache_Use Wire_Session Forward_Headers Tunnel_Witness Source_Witness
begin

text \<open>A verification development for proxysieve.\<close>

end
